(* ===== verification/HubModels.thy ===== *)
theory HubModels
  imports Prelude
begin

text \<open>
  The data of the hub: the rows of its database (internal/hub/store/models.go), the messages
  and events of the protocol (proto/hubfuse.proto), and the errors of the store and of the
  protocol (internal/hub/store/store.go, internal/common/errors.go).
\<close>

subsection \<open>Rows (internal/hub/store/models.go)\<close>

datatype device_status = StatusOnline | StatusOffline | StatusRegistered

text \<open>The text the status column holds, and the one the API exposes.\<close>

fun status_text :: "device_status \<Rightarrow> string" where
  "status_text StatusOnline = ''online''"
| "status_text StatusOffline = ''offline''"
| "status_text StatusRegistered = ''registered''"

record device =
  device_id :: string
  nickname :: string
  last_ip :: string
  ssh_port :: int
  dev_status :: device_status
  last_heartbeat :: time

text \<open>\<open>Permission\<close> is a Go string: the hub stores what the agent sent, checked by nobody.\<close>

record share =
  share_device :: string
  share_alias :: string
  share_permissions :: string
  share_allowed :: "string list"

record pairing =
  device_a :: string
  device_b :: string
  paired_at :: time

record pending_invite =
  invite_code :: string
  from_device :: string
  to_device :: string
  from_public_key :: string
  invite_expires_at :: time
  invite_attempts :: int

record join_token =
  token :: string
  token_expires_at :: time
  token_attempts :: int
  token_created_at :: time

subsection \<open>Messages (proto/hubfuse.proto)\<close>

record pb_share =
  pb_alias :: string
  pb_permissions :: string
  pb_allowed :: "string list"

datatype event =
    DeviceOnline (ev_device: string) (ev_nickname: string) (ev_ip: string) (ev_port: int) (ev_shares: "pb_share list")
  | DeviceOffline (ev_device: string) (ev_nickname: string)
  | SharesUpdated (ev_device: string) (ev_shares: "pb_share list")
  | PairingRequested (ev_device: string) (ev_nickname: string)
  | PairingCompleted (ev_device: string) (ev_key: string)
  | SubscribeReady
  | DeviceRemoved (ev_device: string) (ev_nickname: string)

definition share_to_pb :: "share \<Rightarrow> pb_share" where
  "share_to_pb s = \<lparr>pb_alias = share_alias s, pb_permissions = share_permissions s,
                    pb_allowed = share_allowed s\<rparr>"

definition share_from_pb :: "string \<Rightarrow> pb_share \<Rightarrow> share" where
  "share_from_pb did s = \<lparr>share_device = did, share_alias = pb_alias s,
     share_permissions = pb_permissions s, share_allowed = pb_allowed s\<rparr>"

definition sharesToProto :: "share list \<Rightarrow> pb_share list" where
  "sharesToProto ss = map share_to_pb ss"

definition sharesFromProto :: "string \<Rightarrow> pb_share list \<Rightarrow> share list" where
  "sharesFromProto did ss = map (share_from_pb did) ss"

lemma sharesFromProto_Nil [simp]: "sharesFromProto did [] = []"
  by (simp add: sharesFromProto_def)

lemma share_device_from_pb [simp]: "share_device (share_from_pb did s) = did"
  by (simp add: share_from_pb_def)

lemma sharesToProto_FromProto [simp]: "sharesToProto (sharesFromProto did ss) = ss"
  by (induction ss) (simp_all add: sharesToProto_def sharesFromProto_def share_to_pb_def share_from_pb_def)

subsection \<open>Errors\<close>

text \<open>
  The store's errors as its callers can tell them apart: its own sentinel \<open>ErrNotFound\<close>, the
  driver's \<open>sql.ErrNoRows\<close> (which the pairing, invite and token lookups wrap as it is), a
  constraint violation, and any other failure of the driver (a cancelled context, a locked or
  closed database).
\<close>

datatype store_err = ErrNotFound | ErrNoRows | ErrConstraint | ErrDriver

text \<open>The sentinels of internal/common/errors.go that the hub returns, and wrapped store errors.\<close>

datatype hub_err =
    ErrNicknameTaken | ErrDeviceNotFound | ErrDeviceOffline | ErrUnsupportedProtocol
  | ErrInvalidInviteCode | ErrMaxAttemptsExceeded | ErrInviteExpired | ErrNotAuthenticated
  | ErrPairingAlreadyExists | ErrInvalidJoinToken | ErrHubShuttingDown | ErrJoinTokenExpired
  | NoDeviceWithNickname string
  | SignErr
  | StoreErr store_err

definition ProtocolVersion :: int where "ProtocolVersion = 2"

end
