(* ===== verification/Store.thy ===== *)
theory Store
  imports HubModels
begin

text \<open>
  The hub's database (internal/hub/store/sqlite.go). A table is the list of its rows in
  insertion order; every method of \<open>sqliteStore\<close> is a function from the database to its
  result and the new database, executing the method's SQL text: \<open>WHERE\<close> is a filter,
  \<open>UPDATE\<close> a map over the matching rows with the number of them as \<open>RowsAffected\<close>,
  \<open>INSERT\<close> checks the primary keys, the UNIQUE nickname and the foreign key of shares
  (\<open>PRAGMA foreign_keys = ON\<close>), and a transaction that meets an error leaves the database as
  it was. Failures of the driver itself are added where the statements are executed, in
  theory \<open>HubState\<close>. The JSON text of a share's allowed devices is the list it encodes.
\<close>

record db =
  devices :: "device list"
  shares :: "share list"
  pairings :: "pairing list"
  pending_invites :: "pending_invite list"
  pending_join_tokens :: "join_token list"

definition empty_db :: db where
  "empty_db = \<lparr>devices = [], shares = [], pairings = [], pending_invites = [], pending_join_tokens = []\<rparr>"

type_synonym 'a stmt = "db \<Rightarrow> (store_err + 'a) \<times> db"

subsection \<open>SQL clauses\<close>

definition update_where :: "('r \<Rightarrow> bool) \<Rightarrow> ('r \<Rightarrow> 'r) \<Rightarrow> 'r list \<Rightarrow> 'r list" where
  "update_where P f rows = map (\<lambda>r. if P r then f r else r) rows"

definition affected :: "('r \<Rightarrow> bool) \<Rightarrow> 'r list \<Rightarrow> nat" where
  "affected P rows = length (filter P rows)"

definition delete_where :: "('r \<Rightarrow> bool) \<Rightarrow> 'r list \<Rightarrow> 'r list" where
  "delete_where P rows = filter (\<lambda>r. \<not> P r) rows"

definition requireAffected :: "nat \<Rightarrow> store_err + unit" where
  "requireAffected n = (if n = 0 then Inl ErrNotFound else Inr ())"

definition notFoundOrErr :: "store_err \<Rightarrow> store_err" where
  "notFoundOrErr e = (if e = ErrNoRows then ErrNotFound else e)"

text \<open>\<open>QueryRow(...).Scan\<close>: the first matching row, \<open>sql.ErrNoRows\<close> when there is none.\<close>

definition query_row :: "('r \<Rightarrow> bool) \<Rightarrow> 'r list \<Rightarrow> store_err + 'r" where
  "query_row P rows = (case find P rows of None \<Rightarrow> Inl ErrNoRows | Some r \<Rightarrow> Inr r)"

definition map_err :: "('e \<Rightarrow> 'f) \<Rightarrow> 'e + 'a \<Rightarrow> 'f + 'a" where
  "map_err f r = (case r of Inl e \<Rightarrow> Inl (f e) | Inr x \<Rightarrow> Inr x)"

subsection \<open>Devices\<close>

definition CreateDevice :: "device \<Rightarrow> unit stmt" where
  "CreateDevice d s =
     (if \<exists>r \<in> set (devices s). device_id r = device_id d \<or> nickname r = nickname d
      then (Inl ErrConstraint, s)
      else (Inr (), s\<lparr>devices := devices s @ [d]\<rparr>))"

definition GetDevice :: "string \<Rightarrow> device stmt" where
  "GetDevice did s = (map_err notFoundOrErr (query_row (\<lambda>r. device_id r = did) (devices s)), s)"

definition GetDeviceByNickname :: "string \<Rightarrow> device stmt" where
  "GetDeviceByNickname nick s =
     (map_err notFoundOrErr (query_row (\<lambda>r. nickname r = nick) (devices s)), s)"

definition ListOnlineDevices :: "device list stmt" where
  "ListOnlineDevices s = (Inr (filter (\<lambda>r. dev_status r = StatusOnline) (devices s)), s)"

definition ListAllDevices :: "device list stmt" where
  "ListAllDevices s = (Inr (devices s), s)"

definition UpdateDeviceStatus :: "string \<Rightarrow> device_status \<Rightarrow> string \<Rightarrow> int \<Rightarrow> unit stmt" where
  "UpdateDeviceStatus did st ip port s =
     (let P = (\<lambda>r. device_id r = did) in
      (requireAffected (affected P (devices s)),
       s\<lparr>devices := update_where P (\<lambda>r. r\<lparr>dev_status := st, last_ip := ip, ssh_port := port\<rparr>) (devices s)\<rparr>))"

text \<open>The UNIQUE constraint on \<open>nickname\<close> fails the statement when another row holds the name.\<close>

definition UpdateDeviceNickname :: "string \<Rightarrow> string \<Rightarrow> unit stmt" where
  "UpdateDeviceNickname did nick s =
     (let P = (\<lambda>r. device_id r = did) in
      if affected P (devices s) > 0 \<and> (\<exists>r \<in> set (devices s). nickname r = nick \<and> \<not> P r)
      then (Inl ErrConstraint, s)
      else (requireAffected (affected P (devices s)),
            s\<lparr>devices := update_where P (\<lambda>r. r\<lparr>nickname := nick\<rparr>) (devices s)\<rparr>))"

definition MarkOfflineIfStale :: "string \<Rightarrow> time \<Rightarrow> bool stmt" where
  "MarkOfflineIfStale did threshold s =
     (let P = (\<lambda>r. device_id r = did \<and> dev_status r = StatusOnline \<and> last_heartbeat r < threshold) in
      (Inr (affected P (devices s) > 0),
       s\<lparr>devices := update_where P (\<lambda>r. r\<lparr>dev_status := StatusOffline\<rparr>) (devices s)\<rparr>))"

definition MarkAllOffline :: "nat stmt" where
  "MarkAllOffline s =
     (let P = (\<lambda>r. dev_status r = StatusOnline) in
      (Inr (affected P (devices s)),
       s\<lparr>devices := update_where P (\<lambda>r. r\<lparr>dev_status := StatusOffline\<rparr>) (devices s)\<rparr>))"

text \<open>\<open>COALESCE(NULLIF(?, ''), last_ip)\<close>: an empty address keeps the stored one.\<close>

definition MarkOnlineIfOffline :: "string \<Rightarrow> string \<Rightarrow> bool stmt" where
  "MarkOnlineIfOffline did ip s =
     (let P = (\<lambda>r. device_id r = did \<and> dev_status r = StatusOffline) in
      (Inr (affected P (devices s) > 0),
       s\<lparr>devices := update_where P
            (\<lambda>r. r\<lparr>dev_status := StatusOnline, last_ip := (if ip = [] then last_ip r else ip)\<rparr>)
            (devices s)\<rparr>))"

definition UpdateHeartbeat :: "time \<Rightarrow> string \<Rightarrow> unit stmt" where
  "UpdateHeartbeat now did s =
     (let P = (\<lambda>r. device_id r = did) in
      (requireAffected (affected P (devices s)),
       s\<lparr>devices := update_where P (\<lambda>r. r\<lparr>last_heartbeat := now\<rparr>) (devices s)\<rparr>))"

definition GetStaleDevices :: "time \<Rightarrow> device list stmt" where
  "GetStaleDevices threshold s =
     (Inr (filter (\<lambda>r. dev_status r = StatusOnline \<and> last_heartbeat r < threshold) (devices s)), s)"

text \<open>
  The cascade deletes shares, pairings and invites first; deleting a device row that shares
  still reference would fail on the foreign key.
\<close>

definition deleteDeviceCascade :: "string \<Rightarrow> unit stmt" where
  "deleteDeviceCascade did s =
     (let s1 = s\<lparr>shares := delete_where (\<lambda>r. share_device r = did) (shares s)\<rparr>;
          s2 = s1\<lparr>pairings := delete_where (\<lambda>r. device_a r = did \<or> device_b r = did) (pairings s1)\<rparr>;
          s3 = s2\<lparr>pending_invites :=
                 delete_where (\<lambda>r. from_device r = did \<or> to_device r = did) (pending_invites s2)\<rparr>
      in if \<exists>r \<in> set (devices s3). device_id r = did \<and> (\<exists>sh \<in> set (shares s3). share_device sh = did)
         then (Inl ErrConstraint, s3)
         else (Inr (), s3\<lparr>devices := delete_where (\<lambda>r. device_id r = did) (devices s3)\<rparr>))"

text \<open>A transaction: \<open>defer tx.Rollback()\<close> undoes everything unless \<open>Commit\<close> was reached.\<close>

definition in_tx :: "'a stmt \<Rightarrow> 'a stmt" where
  "in_tx body s = (case body s of (Inl e, _) \<Rightarrow> (Inl e, s) | (Inr x, s') \<Rightarrow> (Inr x, s'))"

definition DeleteDevice :: "string \<Rightarrow> unit stmt" where
  "DeleteDevice did = in_tx (deleteDeviceCascade did)"

definition pruneBatchLimit :: nat where "pruneBatchLimit = 500"

fun delete_devices :: "device list \<Rightarrow> unit stmt" where
  "delete_devices [] s = (Inr (), s)"
| "delete_devices (d # ds) s =
     (case deleteDeviceCascade (device_id d) s of
        (Inl e, s') \<Rightarrow> (Inl e, s')
      | (Inr _, s') \<Rightarrow> delete_devices ds s')"

definition prunable :: "time \<Rightarrow> string list \<Rightarrow> db \<Rightarrow> device list" where
  "prunable threshold active s =
     take pruneBatchLimit (sort_key last_heartbeat
       (filter (\<lambda>r. dev_status r = StatusOffline \<and> last_heartbeat r < threshold \<and> device_id r \<notin> set active)
               (devices s)))"

definition DeletePrunedDevices :: "time \<Rightarrow> string list \<Rightarrow> device list stmt" where
  "DeletePrunedDevices threshold active = in_tx (\<lambda>s.
     (let pruned = prunable threshold active s in
      case delete_devices pruned s of
        (Inl e, s') \<Rightarrow> (Inl e, s')
      | (Inr _, s') \<Rightarrow> (Inr pruned, s')))"

subsection \<open>Shares\<close>

fun insert_shares :: "string \<Rightarrow> share list \<Rightarrow> unit stmt" where
  "insert_shares did [] s = (Inr (), s)"
| "insert_shares did (sh # shs) s =
     (if did \<in> device_id ` set (devices s)
      then insert_shares did shs (s\<lparr>shares := shares s @ [sh\<lparr>share_device := did\<rparr>]\<rparr>)
      else (Inl ErrConstraint, s))"

definition SetShares :: "string \<Rightarrow> share list \<Rightarrow> unit stmt" where
  "SetShares did shs = in_tx (\<lambda>s.
     insert_shares did shs (s\<lparr>shares := delete_where (\<lambda>r. share_device r = did) (shares s)\<rparr>))"

definition GetShares :: "string \<Rightarrow> share list stmt" where
  "GetShares did s = (Inr (filter (\<lambda>r. share_device r = did) (shares s)), s)"

definition GetSharesForDevices :: "string list \<Rightarrow> (string \<rightharpoonup> share list) stmt" where
  "GetSharesForDevices ids s =
     (let rows = filter (\<lambda>r. share_device r \<in> set ids) (shares s) in
      (Inr (\<lambda>did. case filter (\<lambda>r. share_device r = did) rows of [] \<Rightarrow> None | ss \<Rightarrow> Some ss), s))"

subsection \<open>Pairings\<close>

definition CreatePairing :: "time \<Rightarrow> string \<Rightarrow> string \<Rightarrow> unit stmt" where
  "CreatePairing now a b s =
     (if \<exists>r \<in> set (pairings s). device_a r = a \<and> device_b r = b
      then (Inl ErrConstraint, s)
      else (Inr (), s\<lparr>pairings := pairings s @ [\<lparr>device_a = a, device_b = b, paired_at = now\<rparr>]\<rparr>))"

definition GetPairing :: "string \<Rightarrow> string \<Rightarrow> pairing stmt" where
  "GetPairing a b s = (query_row (\<lambda>r. device_a r = a \<and> device_b r = b) (pairings s), s)"

definition IsPaired :: "string \<Rightarrow> string \<Rightarrow> bool stmt" where
  "IsPaired a b s =
     (let P = (\<lambda>r. (device_a r = a \<and> device_b r = b) \<or> (device_a r = b \<and> device_b r = a)) in
      (Inr (affected P (pairings s) > 0), s))"

subsection \<open>Pending invites\<close>

definition CreateInvite :: "pending_invite \<Rightarrow> unit stmt" where
  "CreateInvite pinv s =
     (if \<exists>r \<in> set (pending_invites s). invite_code r = invite_code pinv
      then (Inl ErrConstraint, s)
      else (Inr (), s\<lparr>pending_invites := pending_invites s @ [pinv]\<rparr>))"

definition GetInvite :: "string \<Rightarrow> pending_invite stmt" where
  "GetInvite code s = (query_row (\<lambda>r. invite_code r = code) (pending_invites s), s)"

definition IncrementInviteAttempts :: "string \<Rightarrow> unit stmt" where
  "IncrementInviteAttempts code s =
     (Inr (), s\<lparr>pending_invites := update_where (\<lambda>r. invite_code r = code)
                 (\<lambda>r. r\<lparr>invite_attempts := invite_attempts r + 1\<rparr>) (pending_invites s)\<rparr>)"

definition DeleteInvite :: "string \<Rightarrow> unit stmt" where
  "DeleteInvite code s =
     (Inr (), s\<lparr>pending_invites := delete_where (\<lambda>r. invite_code r = code) (pending_invites s)\<rparr>)"

definition DeleteExpiredInvites :: "time \<Rightarrow> unit stmt" where
  "DeleteExpiredInvites now s =
     (Inr (), s\<lparr>pending_invites := delete_where (\<lambda>r. invite_expires_at r < now) (pending_invites s)\<rparr>)"

subsection \<open>Join tokens\<close>

definition CreateJoinToken :: "join_token \<Rightarrow> unit stmt" where
  "CreateJoinToken t s =
     (if \<exists>r \<in> set (pending_join_tokens s). token r = token t
      then (Inl ErrConstraint, s)
      else (Inr (), s\<lparr>pending_join_tokens := pending_join_tokens s @ [t]\<rparr>))"

definition GetJoinToken :: "string \<Rightarrow> join_token stmt" where
  "GetJoinToken tok s = (query_row (\<lambda>r. token r = tok) (pending_join_tokens s), s)"

definition ClaimJoinToken :: "string \<Rightarrow> time \<Rightarrow> bool stmt" where
  "ClaimJoinToken tok now s =
     (let P = (\<lambda>r. token r = tok \<and> token_expires_at r > now) in
      (Inr (affected P (pending_join_tokens s) = 1),
       s\<lparr>pending_join_tokens := delete_where P (pending_join_tokens s)\<rparr>))"

definition DeleteExpiredJoinTokens :: "time \<Rightarrow> unit stmt" where
  "DeleteExpiredJoinTokens now s =
     (Inr (), s\<lparr>pending_join_tokens :=
                 delete_where (\<lambda>r. token_expires_at r < now) (pending_join_tokens s)\<rparr>)"

end
