(* ===== verification/Process.thy ===== *)
theory Process
  imports Prelude
begin

text \<open>
  Sequential code that runs concurrently with other code of the same kind. A process is a
  sequence of atomic actions on a shared state; an action is what the program does
  without being interrupted by another goroutine (one statement of the store, one
  critical section, one channel operation). \<open>run\<close> executes a process alone,
  \<open>pool_step\<close> lets the scheduler execute one action of one process of a pool, and
  \<open>exec_sched\<close> executes a given schedule. One definition of an operation therefore serves
  both the functional theorems and the theorems about every interleaving.
\<close>

datatype ('s, 'r) proc = Ret 'r | Atom "'s \<Rightarrow> ('s, 'r) proc \<times> 's"

primrec bind_proc :: "('s, 'a) proc \<Rightarrow> ('a \<Rightarrow> ('s, 'b) proc) \<Rightarrow> ('s, 'b) proc" where
  "bind_proc (Ret x) k = k x"
| "bind_proc (Atom f) k = Atom (\<lambda>s. map_prod (\<lambda>p. bind_proc p k) id (f s))"

primrec run :: "('s, 'r) proc \<Rightarrow> 's \<Rightarrow> 'r \<times> 's" where
  "run (Ret x) = (\<lambda>s. (x, s))"
| "run (Atom f) = (\<lambda>s. case map_prod run id (f s) of (g, s') \<Rightarrow> g s')"

definition atom :: "('s \<Rightarrow> 'r \<times> 's) \<Rightarrow> ('s, 'r) proc" where
  "atom f = Atom (\<lambda>s. map_prod Ret id (f s))"

text \<open>
  \<open>attempt m h k\<close> is the Go idiom \<open>x, err := m(); if err != nil { h(err) }; k(x)\<close>.
\<close>

definition attempt ::
  "('s, 'e + 'a) proc \<Rightarrow> ('e \<Rightarrow> ('s, 'r) proc) \<Rightarrow> ('a \<Rightarrow> ('s, 'r) proc) \<Rightarrow> ('s, 'r) proc" where
  "attempt m h k = bind_proc m (\<lambda>r. case r of Inl e \<Rightarrow> h e | Inr x \<Rightarrow> k x)"

abbreviation fail :: "'e \<Rightarrow> ('s, 'e + 'a) proc" where "fail e \<equiv> Ret (Inl e)"
abbreviation ok :: "'a \<Rightarrow> ('s, 'e + 'a) proc" where "ok x \<equiv> Ret (Inr x)"

text \<open>A loop over a slice, in its order.\<close>

fun for_each :: "'a list \<Rightarrow> ('a \<Rightarrow> ('s, unit) proc) \<Rightarrow> ('s, unit) proc" where
  "for_each [] body = Ret ()"
| "for_each (x # xs) body = bind_proc (body x) (\<lambda>_. for_each xs body)"

lemma fst_in_fsts: "fst z \<in> Basic_BNFs.fsts z"
  by (cases z) (simp add: fsts.simps)

lemma proc_induct [case_names Ret Atom]:
  assumes "\<And>x. P (Ret x)" and "\<And>f. (\<And>s. P (fst (f s))) \<Longrightarrow> P (Atom f)"
  shows "P p"
proof (induction p)
  case (Ret x)
  show ?case by (rule assms(1))
next
  case (Atom f)
  show ?case by (rule assms(2)) (rule Atom [OF rangeI fst_in_fsts])
qed

subsection \<open>Running a process alone\<close>

lemma run_Atom: "run (Atom f) s = (case f s of (p, s') \<Rightarrow> run p s')"
  by (simp add: split_beta)

lemma run_atom [simp]: "run (atom f) s = f s"
  by (simp add: atom_def split_beta)

lemma run_bind [simp]: "run (bind_proc m k) s = (case run m s of (x, s') \<Rightarrow> run (k x) s')"
  by (induction m arbitrary: s rule: proc_induct) (simp_all add: split_beta)

lemma run_attempt [simp]:
  "run (attempt m h k) s =
     (case run m s of (Inl e, s') \<Rightarrow> run (h e) s' | (Inr x, s') \<Rightarrow> run (k x) s')"
  by (simp add: attempt_def split: prod.split sum.split)

lemma run_for_each_Nil [simp]: "run (for_each [] body) s = ((), s)"
  by simp

declare run.simps(2) [simp del]

subsection \<open>Invariants of the shared state\<close>

text \<open>
  \<open>safe I p\<close>: every action \<open>p\<close> can still perform keeps \<open>I\<close>, whatever the other processes do
  to the state in between.
\<close>

primrec safe :: "('s \<Rightarrow> bool) \<Rightarrow> ('s, 'r) proc \<Rightarrow> bool" where
  "safe I (Ret x) = True"
| "safe I (Atom f) = (\<forall>s. (I s \<longrightarrow> I (snd (f s))) \<and> fst (map_prod (safe I) id (f s)))"

lemma safe_Atom: "safe I (Atom f) \<longleftrightarrow> (\<forall>s. (I s \<longrightarrow> I (snd (f s))) \<and> safe I (fst (f s)))"
  by simp

declare safe.simps(2) [simp del]

lemma safe_Ret [safe_intros]: "safe I (Ret x)"
  by simp

lemma safe_atom [safe_intros]: "(\<And>s. I s \<Longrightarrow> I (snd (f s))) \<Longrightarrow> safe I (atom f)"
  by (simp add: atom_def safe_Atom)

lemma safe_bind [safe_intros]:
  assumes "safe I m" and "\<And>x. safe I (k x)"
  shows "safe I (bind_proc m k)"
  using assms(1) by (induction m rule: proc_induct) (auto simp: safe_Atom assms(2))

lemma safe_attempt [safe_intros]:
  assumes "safe I m" and "\<And>e. safe I (h e)" and "\<And>x. safe I (k x)"
  shows "safe I (attempt m h k)"
  unfolding attempt_def by (rule safe_bind) (use assms in \<open>auto split: sum.splits\<close>)

lemma safe_for_each [safe_intros]:
  assumes "\<And>x. safe I (body x)"
  shows "safe I (for_each xs body)"
  by (induction xs) (auto intro: safe_bind assms)

lemma safe_if [safe_intros]: "(b \<Longrightarrow> safe I p) \<Longrightarrow> (\<not> b \<Longrightarrow> safe I q) \<Longrightarrow> safe I (if b then p else q)"
  by simp

lemma safe_case_option [safe_intros]:
  "safe I n \<Longrightarrow> (\<And>x. safe I (f x)) \<Longrightarrow> safe I (case z of None \<Rightarrow> n | Some x \<Rightarrow> f x)"
  by (simp split: option.split)

lemma safe_case_sum [safe_intros]:
  "(\<And>x. safe I (f x)) \<Longrightarrow> (\<And>x. safe I (g x)) \<Longrightarrow> safe I (case z of Inl x \<Rightarrow> f x | Inr x \<Rightarrow> g x)"
  by (simp split: sum.split)

lemma safe_case_prod [safe_intros]:
  "(\<And>x y. safe I (f x y)) \<Longrightarrow> safe I (case z of (x, y) \<Rightarrow> f x y)"
  by (simp split: prod.split)

lemma safe_run: "safe I p \<Longrightarrow> I s \<Longrightarrow> I (snd (run p s))"
  by (induction p arbitrary: s rule: proc_induct) (auto simp: safe_Atom run_Atom split_beta)

subsection \<open>Pools of processes\<close>

text \<open>
  The scheduler picks a process of the pool and executes its next action; picking a
  finished or absent one does nothing.
\<close>

type_synonym ('s, 'r) pool = "('s, 'r) proc list"

definition pool_step :: "nat \<Rightarrow> ('s, 'r) pool \<times> 's \<Rightarrow> ('s, 'r) pool \<times> 's" where
  "pool_step i c = (case c of (ps, s) \<Rightarrow>
     if i < length ps
     then (case ps ! i of Ret _ \<Rightarrow> (ps, s) | Atom f \<Rightarrow> (case f s of (p', s') \<Rightarrow> (ps[i := p'], s')))
     else (ps, s))"

fun exec_sched :: "nat list \<Rightarrow> ('s, 'r) pool \<times> 's \<Rightarrow> ('s, 'r) pool \<times> 's" where
  "exec_sched [] c = c"
| "exec_sched (i # is) c = exec_sched is (pool_step i c)"

text \<open>\<open>finished good p\<close>: the process \<open>p\<close> of a pool has ended with a result that is \<open>good\<close>.\<close>

fun finished :: "('r \<Rightarrow> bool) \<Rightarrow> ('s, 'r) proc \<Rightarrow> bool" where
  "finished good (Ret x) = good x"
| "finished good (Atom f) = False"

lemma finished_iff: "finished good p \<longleftrightarrow> (\<exists>x. p = Ret x \<and> good x)"
  by (cases p) simp_all

inductive interleaves :: "('s, 'r) pool \<times> 's \<Rightarrow> ('s, 'r) pool \<times> 's \<Rightarrow> bool" where
  refl: "interleaves c c"
| step: "interleaves c (ps, s) \<Longrightarrow> i < length ps \<Longrightarrow> ps ! i = Atom f \<Longrightarrow> f s = (p', s') \<Longrightarrow>
    interleaves c (ps[i := p'], s')"

lemma interleaves_pool_step: "interleaves c d \<Longrightarrow> interleaves c (pool_step i d)"
proof (cases d)
  case (Pair ps s)
  assume "interleaves c d"
  then show ?thesis
    by (auto simp: pool_step_def Pair split: proc.splits prod.splits intro: interleaves.intros)
qed

lemma interleaves_exec_from: "interleaves c d \<Longrightarrow> interleaves c (exec_sched is d)"
  by (induction "is" arbitrary: d) (simp_all add: interleaves_pool_step del: split_paired_All)

lemma interleaves_exec: "interleaves c (exec_sched is c)"
  by (rule interleaves_exec_from) (rule interleaves.refl)

lemma interleaves_exec_pair: "interleaves c (fst (exec_sched is c), snd (exec_sched is c))"
  using interleaves_exec [of c "is"] by simp

lemma interleaves_safe:
  assumes "interleaves (ps, s) (ps', s')" and "\<forall>p \<in> set ps. safe I p" and "I s"
  shows "I s' \<and> (\<forall>p \<in> set ps'. safe I p)"
  using assms
proof (induction "(ps, s)" "(ps', s')" arbitrary: ps' s' rule: interleaves.induct)
  case refl
  then show ?case by simp
next
  case (step qs t i f p' t')
  then have "safe I (Atom f)" and "I t" by (metis nth_mem)+
  with step.hyps(5) have "safe I p' \<and> I t'" by (simp add: safe_Atom) (metis fst_conv snd_conv)
  with step show ?case by (auto dest!: set_update_subset_insert [THEN subsetD])
qed

lemma interleaves_length:
  "interleaves (ps, s) (ps', s') \<Longrightarrow> length ps' = length ps"
  by (induction "(ps, s)" "(ps', s')" arbitrary: ps' s' rule: interleaves.induct) auto

lemma interleaves_residual:
  assumes "interleaves (ps, s) (ps', s')" and "\<forall>p \<in> set ps. safe I p"
  shows "\<forall>p \<in> set ps'. safe I p"
  using assms
proof (induction "(ps, s)" "(ps', s')" arbitrary: ps' s' rule: interleaves.induct)
  case refl
  then show ?case by simp
next
  case (step qs t i f p' t')
  then have "safe I (Atom f)" by (metis nth_mem)
  with step.hyps(5) have "safe I p'" by (simp add: safe_Atom) (metis fst_conv)
  with step show ?case by (auto dest!: set_update_subset_insert [THEN subsetD])
qed

subsection \<open>Rely and guarantee\<close>

text \<open>
  \<open>rg R Q p s\<close>: started in \<open>s\<close> among processes that change the state along \<open>R\<close> only, \<open>p\<close>
  ends with a result and a state that satisfy \<open>Q\<close>, and \<open>Q\<close> still holds after any further
  changes along \<open>R\<close>. \<open>guarantees R p\<close>: every action of \<open>p\<close> is a change along \<open>R\<close>.
\<close>

primrec rg :: "('s \<Rightarrow> 's \<Rightarrow> bool) \<Rightarrow> ('r \<Rightarrow> 's \<Rightarrow> bool) \<Rightarrow> ('s, 'r) proc \<Rightarrow> 's \<Rightarrow> bool" where
  "rg R Q (Ret x) = (\<lambda>s. \<forall>t. R s t \<longrightarrow> Q x t)"
| "rg R Q (Atom f) = (\<lambda>s. \<forall>t. R s t \<longrightarrow> (case map_prod (rg R Q) id (f t) of (g, u) \<Rightarrow> g u))"

lemma rg_Atom: "rg R Q (Atom f) s \<longleftrightarrow> (\<forall>t. R s t \<longrightarrow> rg R Q (fst (f t)) (snd (f t)))"
  by (simp add: split_beta)

declare rg.simps(2) [simp del]

primrec guarantees :: "('s \<Rightarrow> 's \<Rightarrow> bool) \<Rightarrow> ('s, 'r) proc \<Rightarrow> bool" where
  "guarantees R (Ret x) = True"
| "guarantees R (Atom f) = (\<forall>s. R s (snd (f s)) \<and> fst (map_prod (guarantees R) id (f s)))"

lemma guarantees_Atom:
  "guarantees R (Atom f) \<longleftrightarrow> (\<forall>s. R s (snd (f s)) \<and> guarantees R (fst (f s)))"
  by simp

declare guarantees.simps(2) [simp del]

lemma guarantees_bind:
  "guarantees R m \<Longrightarrow> (\<And>x. guarantees R (k x)) \<Longrightarrow> guarantees R (bind_proc m k)"
  by (induction m rule: proc_induct) (auto simp: guarantees_Atom)

text \<open>Keeping each of a family of invariants is a guarantee.\<close>

lemma safe_guarantees:
  "(\<And>I. I \<in> Is \<Longrightarrow> safe I p) \<Longrightarrow> guarantees (\<lambda>s t. \<forall>I \<in> Is. I s \<longrightarrow> I t) p"
  by (induction p rule: proc_induct) (auto simp: guarantees_Atom safe_Atom)

lemma rg_weaken: "transp R \<Longrightarrow> rg R Q p s \<Longrightarrow> R s t \<Longrightarrow> rg R Q p t"
  by (cases p) (auto simp: rg_Atom dest: transpD)

lemma rg_mono:
  "rg R Q p s \<Longrightarrow> (\<And>x t. Q x t \<Longrightarrow> Q' x t) \<Longrightarrow> rg R Q' p s"
  by (induction p arbitrary: s rule: proc_induct) (auto simp: rg_Atom)

lemma rg_bind:
  assumes "reflp R" and "rg R (\<lambda>x. rg R Q (k x)) m s"
  shows "rg R Q (bind_proc m k) s"
  using assms(2)
proof (induction m arbitrary: s rule: proc_induct)
  case (Ret x)
  then show ?case using assms(1) by (simp add: reflpD)
next
  case (Atom f)
  then show ?case by (auto simp: rg_Atom)
qed

lemma rg_atom: "(\<And>t u. R s t \<Longrightarrow> R (snd (f t)) u \<Longrightarrow> Q (fst (f t)) u) \<Longrightarrow> rg R Q (atom f) s"
  by (simp add: atom_def rg_Atom)

lemma rg_attempt:
  assumes "reflp R" and "rg R (\<lambda>r. case r of Inl e \<Rightarrow> rg R Q (h e) | Inr x \<Rightarrow> rg R Q (k x)) m s"
  shows "rg R Q (attempt m h k) s"
  unfolding attempt_def
proof (rule rg_bind [OF assms(1)])
  have "(\<lambda>r. case r of Inl e \<Rightarrow> rg R Q (h e) | Inr x \<Rightarrow> rg R Q (k x)) =
      (\<lambda>r. rg R Q (case r of Inl e \<Rightarrow> h e | Inr x \<Rightarrow> k x))"
    by (auto split: sum.split)
  with assms(2) show "rg R (\<lambda>r. rg R Q (case r of Inl e \<Rightarrow> h e | Inr x \<Rightarrow> k x)) m s" by simp
qed

lemma rg_pool:
  assumes "interleaves (p0 # ps, s) (qs, s')" and "reflp R" and "transp R"
    and "rg R Q p0 s" and "\<forall>p \<in> set ps. guarantees R p"
  shows "rg R Q (hd qs) s' \<and> (\<forall>p \<in> set (tl qs). guarantees R p) \<and> qs \<noteq> []"
  using assms(1,4,5)
proof (induction "(p0 # ps, s)" "(qs, s')" arbitrary: qs s' rule: interleaves.induct)
  case refl
  then show ?case by simp
next
  case (step qs t i f p' t')
  then have IH: "rg R Q (hd qs) t" "\<forall>p \<in> set (tl qs). guarantees R p" "qs \<noteq> []" by auto
  have ft: "fst (f t) = p'" "snd (f t) = t'" using step.hyps(5) by simp_all
  show ?case
  proof (cases i)
    case 0
    with step.hyps(4) IH have "rg R Q (Atom f) t" by (simp add: hd_conv_nth)
    then have "rg R Q p' t'" using \<open>reflp R\<close> ft by (metis reflpD rg_Atom)
    with IH 0 show ?thesis by (cases qs) auto
  next
    case (Suc j)
    with IH step.hyps(3,4) have "Atom f \<in> set (tl qs)"
      by (cases qs) (auto simp: in_set_conv_nth)
    then have "R t t'" and "guarantees R p'" using IH(2) ft by (metis guarantees_Atom)+
    with IH Suc \<open>transp R\<close> show ?thesis
      by (cases qs) (auto intro: rg_weaken dest!: set_update_subset_insert [THEN subsetD])
  qed
qed

end
