(* ===== verification/HubState.thy ===== *)
theory HubState
  imports Store Process
begin

text \<open>
  The state the hub's goroutines share (the fields of \<open>Registry\<close> in internal/hub/registry.go
  and the store behind it) and the atomic actions on it: one statement of the store, one
  critical section under \<open>Registry.mu\<close>, one channel operation.

  Go channels live on the heap and are compared by identity, so a subscription holds the
  number of a channel in \<open>chans\<close>; \<open>next_chan\<close> is the next unused number. Sending on a closed
  channel and closing one twice panic in Go: \<open>panicked\<close> records that it happened. A critical
  section is one action: the subscriber map and the draining flag are written under the
  write lock only, so nothing a section reads can change before the section ends.

  \<open>faults\<close> is the schedule of the database driver: its next element says whether the next
  statement fails; when it is used up every statement succeeds. A statement that fails
  leaves the database as it was.
\<close>

record chan =
  buf :: "event list"
  closed :: bool

record hub =
  hdb :: db
  faults :: "bool list"
  subscribers :: "(string \<times> nat) list"
  chans :: "nat \<Rightarrow> chan"
  next_chan :: nat
  draining :: bool
  panicked :: bool

definition new_chan :: chan where "new_chan = \<lparr>buf = [], closed = False\<rparr>"

text \<open>\<open>NewRegistry\<close> over a store.\<close>

definition init_hub :: "db \<Rightarrow> hub" where
  "init_hub d = \<lparr>hdb = d, faults = [], subscribers = [], chans = (\<lambda>_. new_chan), next_chan = 0,
                 draining = False, panicked = False\<rparr>"

subsection \<open>Statements\<close>

definition next_fault :: "hub \<Rightarrow> bool \<times> hub" where
  "next_fault s = (case faults s of [] \<Rightarrow> (False, s) | b # bs \<Rightarrow> (b, s\<lparr>faults := bs\<rparr>))"

definition exec_sql :: "'a stmt \<Rightarrow> hub \<Rightarrow> (store_err + 'a) \<times> hub" where
  "exec_sql f s = (case next_fault s of (b, s1) \<Rightarrow>
     if b then (Inl ErrDriver, s1)
     else (case f (hdb s1) of (r, d) \<Rightarrow> (r, s1\<lparr>hdb := d\<rparr>)))"

definition sql :: "'a stmt \<Rightarrow> (hub, store_err + 'a) proc" where
  "sql f = atom (exec_sql f)"

subsection \<open>Channels\<close>

definition chan_cap :: nat where "chan_cap = 64"

text \<open>\<open>select { case ch <- event: default: }\<close>: the event is dropped when the buffer is full.\<close>

definition send_chan :: "event \<Rightarrow> nat \<Rightarrow> hub \<Rightarrow> hub" where
  "send_chan ev c s =
     (if closed (chans s c) then s\<lparr>panicked := True\<rparr>
      else if length (buf (chans s c)) < chan_cap
      then s\<lparr>chans := (chans s)(c := (chans s c)\<lparr>buf := buf (chans s c) @ [ev]\<rparr>)\<rparr>
      else s)"

definition close_chan :: "nat \<Rightarrow> hub \<Rightarrow> hub" where
  "close_chan c s =
     (if closed (chans s c) then s\<lparr>panicked := True\<rparr>
      else s\<lparr>chans := (chans s)(c := (chans s c)\<lparr>closed := True\<rparr>)\<rparr>)"

text \<open>
  A receive: \<open>Some (Some ev)\<close> an event, \<open>Some None\<close> is \<open>!ok\<close> (closed and drained), \<open>None\<close>
  means the receive would block.
\<close>

definition recv_chan :: "nat \<Rightarrow> hub \<Rightarrow> event option option \<times> hub" where
  "recv_chan c s =
     (case buf (chans s c) of
        ev # evs \<Rightarrow> (Some (Some ev), s\<lparr>chans := (chans s)(c := (chans s c)\<lparr>buf := evs\<rparr>)\<rparr>)
      | [] \<Rightarrow> (if closed (chans s c) then (Some None, s) else (None, s)))"

subsection \<open>Critical sections\<close>

text \<open>Assignment to a key of a Go map.\<close>

definition map_put :: "'k \<Rightarrow> 'v \<Rightarrow> ('k \<times> 'v) list \<Rightarrow> ('k \<times> 'v) list" where
  "map_put k v m = (k, v) # AList.delete k m"

definition broadcastLocked :: "event \<Rightarrow> string \<Rightarrow> hub \<Rightarrow> hub" where
  "broadcastLocked ev exclude s =
     fold (\<lambda>(did, c) t. if did = exclude then t else send_chan ev c t) (subscribers s) s"

definition broadcast_all :: "event \<Rightarrow> hub \<Rightarrow> hub" where
  "broadcast_all ev s = fold (\<lambda>(did, c) t. send_chan ev c t) (subscribers s) s"

definition remove_subscriber :: "string \<Rightarrow> hub \<Rightarrow> hub" where
  "remove_subscriber did s =
     (case map_of (subscribers s) did of
        None \<Rightarrow> s
      | Some c \<Rightarrow> close_chan c (s\<lparr>subscribers := AList.delete did (subscribers s)\<rparr>))"

definition add_subscriber :: "string \<Rightarrow> hub \<Rightarrow> (hub_err + nat) \<times> hub" where
  "add_subscriber did s =
     (if draining s then (Inl ErrHubShuttingDown, s)
      else
        (let c = next_chan s;
             s1 = s\<lparr>chans := (chans s)(c := new_chan), next_chan := Suc c\<rparr>;
             s2 = (case map_of (subscribers s1) did of None \<Rightarrow> s1 | Some old \<Rightarrow> close_chan old s1)
         in (Inr c, s2\<lparr>subscribers := map_put did c (subscribers s2)\<rparr>)))"

definition unsubscribe :: "string \<Rightarrow> nat \<Rightarrow> hub \<Rightarrow> hub" where
  "unsubscribe did c s =
     (if map_of (subscribers s) did = Some c
      then close_chan c (s\<lparr>subscribers := AList.delete did (subscribers s)\<rparr>)
      else s)"

definition close_all :: "hub \<Rightarrow> nat \<times> hub" where
  "close_all s =
     (length (subscribers s),
      fold (\<lambda>(did, c) t. close_chan c (t\<lparr>subscribers := AList.delete did (subscribers t)\<rparr>))
           (subscribers s) s)"

definition recover_section :: "string \<Rightarrow> string \<Rightarrow> event \<Rightarrow> hub \<Rightarrow> (store_err + bool) \<times> hub" where
  "recover_section did ip ev s =
     (if draining s then (Inr False, s)
      else if map_of (subscribers s) did = None then (Inr False, s)
      else (case exec_sql (MarkOnlineIfOffline did ip) s of
              (Inl e, s') \<Rightarrow> (Inl e, s')
            | (Inr recovered, s') \<Rightarrow>
                if recovered then (Inr True, broadcastLocked ev did s') else (Inr False, s')))"

definition mark_online_section :: "string \<Rightarrow> string \<Rightarrow> int \<Rightarrow> hub \<Rightarrow> (hub_err + unit) \<times> hub" where
  "mark_online_section did ip port s =
     (if draining s then (Inl ErrHubShuttingDown, s)
      else (case exec_sql (UpdateDeviceStatus did StatusOnline ip port) s of
              (Inl e, s') \<Rightarrow> (Inl (StoreErr e), s')
            | (Inr _, s') \<Rightarrow> (Inr (), s')))"

end
