(* ===== verification/Registry.thy ===== *)
theory Registry
  imports HubState
begin

text \<open>
  The registry of the hub (internal/hub/registry.go and join_token.go): one process per
  method, its actions in the order of the source. Readings of the clock, the random code of
  a token and the signing of a certificate (crypto/x509) are parameters. Log lines are left
  out.
\<close>

subsection \<open>Error translation\<close>

definition deviceErr :: "store_err \<Rightarrow> hub_err" where
  "deviceErr e = (if e = ErrNotFound then ErrDeviceNotFound else StoreErr e)"

definition writeErr :: "string \<Rightarrow> hub_err \<Rightarrow> (hub, hub_err + 'a) proc" where
  "writeErr did err =
     (if err = StoreErr ErrNotFound then fail ErrDeviceNotFound
      else attempt (sql (GetDevice did))
        (\<lambda>getErr. if getErr = ErrNotFound then fail ErrDeviceNotFound else fail err)
        (\<lambda>_. fail err))"

subsection \<open>Broadcasting and subscriptions\<close>

definition Broadcast :: "event \<Rightarrow> string \<Rightarrow> (hub, unit) proc" where
  "Broadcast ev exclude = atom (\<lambda>s. ((), broadcastLocked ev exclude s))"

definition BroadcastAll :: "event \<Rightarrow> (hub, unit) proc" where
  "BroadcastAll ev = atom (\<lambda>s. ((), broadcast_all ev s))"

definition BroadcastDeviceRemoved :: "device \<Rightarrow> (hub, unit) proc" where
  "BroadcastDeviceRemoved d = Broadcast (DeviceRemoved (device_id d) (nickname d)) (device_id d)"

definition removeSubscriber :: "string \<Rightarrow> (hub, unit) proc" where
  "removeSubscriber did = atom (\<lambda>s. ((), remove_subscriber did s))"

definition Subscribe :: "string \<Rightarrow> (hub, hub_err + nat) proc" where
  "Subscribe did = atom (add_subscriber did)"

definition Unsub :: "string \<Rightarrow> nat \<Rightarrow> (hub, unit) proc" where
  "Unsub did c = atom (\<lambda>s. ((), unsubscribe did c s))"

definition CloseAllSubscribers :: "(hub, nat) proc" where
  "CloseAllSubscribers = atom close_all"

definition ActiveSubscribers :: "(hub, string list) proc" where
  "ActiveSubscribers = atom (\<lambda>s. (map fst (subscribers s), s))"

definition Drain :: "(hub, unit) proc" where
  "Drain = atom (\<lambda>s. ((), s\<lparr>draining := True\<rparr>))"

definition Draining :: "(hub, bool) proc" where
  "Draining = atom (\<lambda>s. (draining s, s))"

definition canRecover :: "string \<Rightarrow> (hub, bool) proc" where
  "canRecover did = atom (\<lambda>s. (\<not> draining s \<and> map_of (subscribers s) did \<noteq> None, s))"

definition recoverAndAnnounce :: "string \<Rightarrow> string \<Rightarrow> event \<Rightarrow> (hub, store_err + bool) proc" where
  "recoverAndAnnounce did ip ev = atom (recover_section did ip ev)"

definition markOnlineUnlessDraining :: "string \<Rightarrow> string \<Rightarrow> int \<Rightarrow> (hub, hub_err + unit) proc" where
  "markOnlineUnlessDraining did ip port = atom (mark_online_section did ip port)"

subsection \<open>Join tokens (join_token.go) and Join\<close>

definition defaultJoinTokenTTL :: duration where "defaultJoinTokenTTL = 10 * minute"

text \<open>\<open>NewRegistry\<close> replaces a zero TTL by the default.\<close>

definition effective_ttl :: "duration \<Rightarrow> duration" where
  "effective_ttl ttl = (if ttl = 0 then defaultJoinTokenTTL else ttl)"

definition IssueJoinToken ::
  "duration \<Rightarrow> string \<Rightarrow> time \<Rightarrow> (hub, hub_err + string \<times> time) proc" where
  "IssueJoinToken ttl code now =
     (let expiresAt = now + ttl;
          t = \<lparr>token = code, token_expires_at = expiresAt, token_attempts = 0, token_created_at = now\<rparr>
      in attempt (sql (CreateJoinToken t)) (\<lambda>e. fail (StoreErr e)) (\<lambda>_. ok (code, expiresAt)))"

definition consumeJoinToken :: "time \<Rightarrow> time \<Rightarrow> string \<Rightarrow> (hub, hub_err + unit) proc" where
  "consumeJoinToken now now' tok =
     (if tok = [] then fail ErrInvalidJoinToken
      else attempt (sql (ClaimJoinToken tok now)) (\<lambda>e. fail (StoreErr e)) (\<lambda>claimed.
        if claimed then ok ()
        else attempt (sql (GetJoinToken tok)) (\<lambda>_. fail ErrInvalidJoinToken) (\<lambda>t.
          if now' > token_expires_at t then fail ErrJoinTokenExpired
          else fail ErrInvalidJoinToken)))"

text \<open>
  The readings of the clock during one Join: before the claim, in the diagnostic check after
  a failed claim, and for the heartbeat column of the new row.
\<close>

record join_clock =
  now_claim :: time
  now_diag :: time
  now_row :: time

record certs =
  client_cert :: string
  client_key :: string
  ca_cert :: string

definition Join ::
  "(string \<Rightarrow> (string \<times> string) option) \<Rightarrow> string \<Rightarrow> join_clock \<Rightarrow>
   string \<Rightarrow> string \<Rightarrow> string \<Rightarrow> string \<Rightarrow> (hub, hub_err + certs) proc" where
  "Join sign ca clk did nick ip tok =
     attempt (consumeJoinToken (now_claim clk) (now_diag clk) tok) fail (\<lambda>_.
     attempt (attempt (sql (GetDeviceByNickname nick)) (\<lambda>_. ok ()) (\<lambda>_. fail ErrNicknameTaken)) fail (\<lambda>_.
     attempt (sql (CreateDevice \<lparr>device_id = did, nickname = nick, last_ip = ip, ssh_port = 0,
                                 dev_status = StatusRegistered, last_heartbeat = now_row clk\<rparr>))
       (\<lambda>e. fail (StoreErr e)) (\<lambda>_.
     case sign did of
       None \<Rightarrow> fail SignErr
     | Some (cert, key) \<Rightarrow> ok \<lparr>client_cert = cert, client_key = key, ca_cert = ca\<rparr>)))"

subsection \<open>Register\<close>

text \<open>The loop that replaces the caller's entry of the list, or appends it.\<close>

fun put_current :: "device \<Rightarrow> device list \<Rightarrow> device list" where
  "put_current cur [] = [cur]"
| "put_current cur (d # ds) = (if device_id d = device_id cur then cur # ds else d # put_current cur ds)"

definition Register ::
  "time \<Rightarrow> string \<Rightarrow> string \<Rightarrow> int \<Rightarrow> pb_share list \<Rightarrow> int \<Rightarrow> (hub, hub_err + device list) proc" where
  "Register now did ip sshPort shs protocolVersion =
     (if protocolVersion \<noteq> ProtocolVersion then fail ErrUnsupportedProtocol
      else bind_proc Draining (\<lambda>dr. if dr then fail ErrHubShuttingDown else
      attempt (sql (GetDevice did)) (\<lambda>e. fail (deviceErr e)) (\<lambda>device.
      attempt (sql ListOnlineDevices) (\<lambda>e. fail (StoreErr e)) (\<lambda>online.
      attempt (sql (SetShares did (sharesFromProto did shs))) (\<lambda>e. writeErr did (StoreErr e)) (\<lambda>_.
      attempt (sql (UpdateHeartbeat now did)) (\<lambda>e. writeErr did (StoreErr e)) (\<lambda>_.
      attempt (markOnlineUnlessDraining did ip sshPort)
        (\<lambda>e. if e = ErrHubShuttingDown then fail e else writeErr did e) (\<lambda>_.
      let current = \<lparr>device_id = device_id device, nickname = nickname device, last_ip = ip,
                     ssh_port = sshPort, dev_status = StatusOnline, last_heartbeat = 0\<rparr>
      in bind_proc
           (Broadcast (DeviceOnline (device_id device) (nickname device) ip (to_int32 sshPort) shs) did)
           (\<lambda>_. ok (put_current current online)))))))))"

subsection \<open>Rename, Heartbeat\<close>

definition Rename :: "string \<Rightarrow> string \<Rightarrow> (hub, hub_err + unit) proc" where
  "Rename did newNick =
     attempt (attempt (sql (GetDeviceByNickname newNick)) (\<lambda>_. ok ())
                (\<lambda>existing. if device_id existing \<noteq> did then fail ErrNicknameTaken else ok ()))
       fail (\<lambda>_.
     attempt (sql (UpdateDeviceNickname did newNick)) (\<lambda>e. fail (deviceErr e)) ok)"

definition Heartbeat :: "time \<Rightarrow> string \<Rightarrow> string \<Rightarrow> (hub, hub_err + unit) proc" where
  "Heartbeat now did ip =
     attempt (sql (UpdateHeartbeat now did)) (\<lambda>e. fail (deviceErr e)) (\<lambda>_.
     attempt (sql (GetDevice did)) (\<lambda>e. fail (deviceErr e)) (\<lambda>device.
     if dev_status device \<noteq> StatusOffline then ok () else
     bind_proc (canRecover did) (\<lambda>can. if \<not> can then ok () else
     if ssh_port device = 0 then ok () else
     attempt (sql (GetShares did)) (\<lambda>e. fail (StoreErr e)) (\<lambda>shs.
     let announcedIP = (if ip \<noteq> [] then ip else last_ip device) in
     attempt (recoverAndAnnounce did ip
                (DeviceOnline (device_id device) (nickname device) announcedIP
                   (to_int32 (ssh_port device)) (sharesToProto shs)))
       (\<lambda>e. fail (StoreErr e)) (\<lambda>recovered. ok ())))))"

subsection \<open>UpdateShares, Deregister, Leave\<close>

definition UpdateShares :: "string \<Rightarrow> pb_share list \<Rightarrow> (hub, hub_err + unit) proc" where
  "UpdateShares did shs =
     attempt (sql (SetShares did (sharesFromProto did shs))) (\<lambda>e. fail (StoreErr e)) (\<lambda>_.
     bind_proc (Broadcast (SharesUpdated did shs) did) (\<lambda>_. ok ()))"

definition Deregister :: "string \<Rightarrow> (hub, hub_err + unit) proc" where
  "Deregister did =
     attempt (sql (GetDevice did)) (\<lambda>e. fail (deviceErr e)) (\<lambda>device.
     bind_proc (removeSubscriber did) (\<lambda>_.
     attempt (sql (UpdateDeviceStatus did StatusOffline (last_ip device) (ssh_port device)))
       (\<lambda>e. fail (deviceErr e)) (\<lambda>_.
     bind_proc (Broadcast (DeviceOffline (device_id device) (nickname device)) did) (\<lambda>_. ok ()))))"

definition Leave :: "string \<Rightarrow> (hub, hub_err + unit) proc" where
  "Leave did =
     attempt (sql (GetDevice did)) (\<lambda>e. fail (StoreErr e)) (\<lambda>device.
     attempt (sql (DeleteDevice did)) (\<lambda>e. fail (StoreErr e)) (\<lambda>_.
     bind_proc (BroadcastDeviceRemoved device) (\<lambda>_.
     bind_proc (removeSubscriber did) (\<lambda>_. ok ()))))"

subsection \<open>MarkOffline and the queries\<close>

definition MarkOffline :: "device \<Rightarrow> time \<Rightarrow> (hub, store_err + bool) proc" where
  "MarkOffline device threshold =
     attempt (sql (MarkOfflineIfStale (device_id device) threshold)) fail (\<lambda>demoted.
     if \<not> demoted then ok False
     else bind_proc (Broadcast (DeviceOffline (device_id device) (nickname device)) (device_id device))
            (\<lambda>_. ok True))"

definition RegistryGetShares :: "string \<Rightarrow> (hub, store_err + share list) proc" where
  "RegistryGetShares did = sql (GetShares did)"

definition RegistryGetSharesForDevices :: "string list \<Rightarrow> (hub, store_err + (string \<rightharpoonup> share list)) proc" where
  "RegistryGetSharesForDevices ids = sql (GetSharesForDevices ids)"

definition ListDevicesWithShares :: "(hub, store_err + device list \<times> (string \<rightharpoonup> share list)) proc" where
  "ListDevicesWithShares =
     attempt (sql ListAllDevices) fail (\<lambda>ds.
     attempt (sql (GetSharesForDevices (map device_id ds))) fail (\<lambda>shs. ok (ds, shs)))"

end
