(* ===== verification/Pairing.thy ===== *)
theory Pairing
  imports Registry "HOL-Library.Word"
begin

text \<open>
  Pairing of two devices (internal/hub/pairing.go): invitations, their confirmation, the
  delivery of an event to one device and the generation of codes. \<open>sendToDevice\<close> looks the
  channel up under the read lock and sends after releasing it: two actions, unlike the
  broadcasts, whose sends are part of the critical section.
\<close>

definition inviteCodeTTL :: duration where "inviteCodeTTL = 10 * minute"
definition maxPairingAttempts :: int where "maxPairingAttempts = 5"

definition inviteAlphabet :: string where
  "inviteAlphabet = ''ABCDEFGHIJKLMNOPQRSTUVWXYZ0123456789''"

definition lookup_subscriber :: "string \<Rightarrow> (hub, nat option) proc" where
  "lookup_subscriber did = atom (\<lambda>s. (map_of (subscribers s) did, s))"

definition late_send :: "event \<Rightarrow> nat \<Rightarrow> (hub, unit) proc" where
  "late_send ev c = atom (\<lambda>s. ((), send_chan ev c s))"

definition sendToDevice :: "string \<Rightarrow> event \<Rightarrow> (hub, unit) proc" where
  "sendToDevice did ev =
     bind_proc (lookup_subscriber did) (\<lambda>ch. case ch of None \<Rightarrow> Ret () | Some c \<Rightarrow> late_send ev c)"

definition RequestPairing ::
  "time \<Rightarrow> string \<Rightarrow> string \<Rightarrow> string \<Rightarrow> string \<Rightarrow> (hub, hub_err + string) proc" where
  "RequestPairing now code fromDevice toDevice publicKey =
     attempt (sql (GetDevice fromDevice)) (\<lambda>_. fail ErrDeviceNotFound) (\<lambda>frm.
     attempt (sql (GetDeviceByNickname toDevice)) (\<lambda>_. fail (NoDeviceWithNickname toDevice)) (\<lambda>dest.
     if dev_status frm \<noteq> StatusOnline then fail ErrDeviceOffline else
     if dev_status dest \<noteq> StatusOnline then fail ErrDeviceOffline else
     attempt (sql (IsPaired fromDevice (device_id dest))) (\<lambda>e. fail (StoreErr e)) (\<lambda>paired.
     if paired then fail ErrPairingAlreadyExists else
     attempt (sql (CreateInvite \<lparr>invite_code = code, from_device = fromDevice,
                to_device = device_id dest, from_public_key = publicKey,
                invite_expires_at = now + inviteCodeTTL, invite_attempts = 0\<rparr>))
       (\<lambda>e. fail (StoreErr e)) (\<lambda>_.
     bind_proc (sendToDevice (device_id dest) (PairingRequested (device_id frm) (nickname frm)))
       (\<lambda>_. ok code)))))"

text \<open>The initiator's public key, device id and nickname.\<close>

record pair_result =
  peer_key :: string
  peer_id :: string
  peer_nick :: string

definition ConfirmPairing ::
  "time \<Rightarrow> time \<Rightarrow> string \<Rightarrow> string \<Rightarrow> string \<Rightarrow> (hub, hub_err + pair_result) proc" where
  "ConfirmPairing now now' did code publicKey =
     attempt (sql (GetInvite code)) (\<lambda>_. fail ErrInvalidInviteCode) (\<lambda>v.
     if to_device v \<noteq> did then fail ErrInvalidInviteCode else
     if now > invite_expires_at v then fail ErrInviteExpired else
     if invite_attempts v \<ge> maxPairingAttempts then fail ErrMaxAttemptsExceeded else
     attempt (sql (GetDevice (from_device v))) (\<lambda>e. fail (StoreErr e)) (\<lambda>fromDev.
     attempt (sql (IncrementInviteAttempts code)) (\<lambda>e. fail (StoreErr e)) (\<lambda>_.
     attempt (sql (CreatePairing now' (from_device v) did)) (\<lambda>e. fail (StoreErr e)) (\<lambda>_.
     attempt (sql (DeleteInvite code)) (\<lambda>e. fail (StoreErr e)) (\<lambda>_.
     bind_proc (sendToDevice (from_device v) (PairingCompleted did publicKey)) (\<lambda>_.
     bind_proc (sendToDevice did (PairingCompleted (from_device v) (from_public_key v))) (\<lambda>_.
     ok \<lparr>peer_key = from_public_key v, peer_id = device_id fromDev, peer_nick = nickname fromDev\<rparr>)))))))"

subsection \<open>Codes\<close>

text \<open>
  \<open>randomSegment\<close> reads bytes of crypto/rand one at a time; the bytes it will read are the
  parameter, and \<open>None\<close> means that they ran out before the segment was filled.
\<close>

definition maxUnbiased :: "8 word" where "maxUnbiased = 252"

definition code_char :: "8 word \<Rightarrow> char" where
  "code_char b = inviteAlphabet ! unat (b mod 36)"

fun random_fill :: "nat \<Rightarrow> 8 word list \<Rightarrow> string \<Rightarrow> (string \<times> 8 word list) option" where
  "random_fill 0 bs acc = Some (acc, bs)"
| "random_fill (Suc n) [] acc = None"
| "random_fill (Suc n) (b # bs) acc =
     (if b \<ge> maxUnbiased then random_fill (Suc n) bs acc
      else random_fill n bs (acc @ [code_char b]))"

definition randomSegment :: "nat \<Rightarrow> 8 word list \<Rightarrow> (string \<times> 8 word list) option" where
  "randomSegment n bs = random_fill n bs []"

definition GenerateInviteCode :: "8 word list \<Rightarrow> (string \<times> 8 word list) option" where
  "GenerateInviteCode bs =
     (case randomSegment 3 bs of None \<Rightarrow> None
      | Some (seg1, bs1) \<Rightarrow>
          (case randomSegment 3 bs1 of None \<Rightarrow> None
           | Some (seg2, bs2) \<Rightarrow> Some (''HUB-'' @ seg1 @ ''-'' @ seg2, bs2)))"

end
