(* ===== verification/Monitor.thy ===== *)
theory Monitor
  imports Registry
begin

text \<open>
  The heartbeat monitor (internal/hub/heartbeat.go): its configuration, one sweep for stale
  devices, one pruning run, and the loop over the ticks it receives.
\<close>

definition DefaultHeartbeatTimeout :: duration where "DefaultHeartbeatTimeout = 30 * second"
definition heartbeatInterval :: duration where "heartbeatInterval = 10 * second"
definition DefaultDeviceRetention :: duration where "DefaultDeviceRetention = 7 * (24 * hour)"
definition invitePruneEvery :: int where "invitePruneEvery = 6"
definition devicePruneInterval :: duration where "devicePruneInterval = hour"

record monitor_cfg =
  mon_timeout :: duration
  mon_check :: duration
  mon_retention :: duration
  mon_prune_every :: duration

definition NewHeartbeatMonitor :: "duration \<Rightarrow> duration \<Rightarrow> monitor_cfg" where
  "NewHeartbeatMonitor timeout retention =
     (let check = (if timeout = 0 then heartbeatInterval
                   else (let c = go_div timeout 3 in if c < second then second else c));
          timeout' = (if timeout = 0 then DefaultHeartbeatTimeout else timeout);
          pruneEvery = (if retention > 0 \<and> retention < devicePruneInterval then retention
                        else devicePruneInterval)
      in \<lparr>mon_timeout = timeout', mon_check = check, mon_retention = retention,
          mon_prune_every = pruneEvery\<rparr>)"

definition checkStale :: "monitor_cfg \<Rightarrow> time \<Rightarrow> (hub, unit) proc" where
  "checkStale m now =
     (let threshold = now - mon_timeout m in
      attempt (sql (GetStaleDevices threshold)) (\<lambda>_. Ret ()) (\<lambda>stale.
      for_each stale (\<lambda>d. bind_proc (MarkOffline d threshold) (\<lambda>_. Ret ()))))"

definition pruneInactive :: "monitor_cfg \<Rightarrow> time \<Rightarrow> (hub, unit) proc" where
  "pruneInactive m now =
     (let threshold = now - mon_retention m in
      bind_proc ActiveSubscribers (\<lambda>activeSubs.
      attempt (sql (DeletePrunedDevices threshold activeSubs)) (\<lambda>_. Ret ()) (\<lambda>pruned.
      for_each pruned (\<lambda>d.
        bind_proc (removeSubscriber (device_id d)) (\<lambda>_. BroadcastDeviceRemoved d)))))"

text \<open>
  \<open>Start\<close> serves the ticks of its two tickers until the context is cancelled; the pruning
  ticker exists only when the retention is positive. A tick carries the readings of the clock
  its handler makes.
\<close>

datatype tick = CheckTick time time | PruneTick time

fun monitor_loop :: "monitor_cfg \<Rightarrow> int \<Rightarrow> tick list \<Rightarrow> (hub, unit) proc" where
  "monitor_loop m tickCount [] = Ret ()"
| "monitor_loop m tickCount (CheckTick now now' # ts) =
     bind_proc (checkStale m now) (\<lambda>_.
     let tickCount' = tickCount + 1 in
     bind_proc (if tickCount' mod invitePruneEvery = 0
                then attempt (sql (DeleteExpiredInvites now')) (\<lambda>_. Ret ()) (\<lambda>_. Ret ())
                else Ret ())
       (\<lambda>_. monitor_loop m tickCount' ts))"
| "monitor_loop m tickCount (PruneTick now # ts) =
     bind_proc (if mon_retention m > 0 then pruneInactive m now else Ret ())
       (\<lambda>_. monitor_loop m tickCount ts)"

definition monitor_Start :: "monitor_cfg \<Rightarrow> tick list \<Rightarrow> (hub, unit) proc" where
  "monitor_Start m ticks = monitor_loop m 0 ticks"

end
