(* ===== verification/Lifecycle.thy ===== *)
theory Lifecycle
  imports Monitor
begin

text \<open>
  Startup and shutdown of the hub (internal/hub/lifecycle.go and hub.go): the reconciliation
  of the statuses, the sweep, the bounded stop of the gRPC server and the sequence \<open>Hub.stop\<close>
  performs. When \<open>GracefulStop\<close> or the forced \<open>Stop\<close> of the server returns is decided by grpc
  and is a parameter: the instant, measured from the call of \<open>StopServer\<close>, or \<open>None\<close> for never.
\<close>

definition ReconcileDeviceStatuses :: "(hub, store_err + unit) proc" where
  "ReconcileDeviceStatuses = attempt (sql MarkAllOffline) fail (\<lambda>_. ok ())"

definition sweepOnlineDevices :: "(hub, unit) proc" where
  "sweepOnlineDevices =
     attempt (sql ListOnlineDevices) (\<lambda>_. Ret ()) (\<lambda>online.
     if online = [] then Ret () else
     attempt (sql MarkAllOffline) (\<lambda>_. Ret ()) (\<lambda>_.
     for_each online (\<lambda>d. BroadcastAll (DeviceOffline (device_id d) (nickname d)))))"

subsection \<open>Bounded stop of the server\<close>

datatype stop_outcome = StopGraceful | StopForced | StopHung

fun stop_outcome_String :: "stop_outcome \<Rightarrow> string" where
  "stop_outcome_String StopGraceful = ''graceful''"
| "stop_outcome_String StopForced = ''forced''"
| "stop_outcome_String StopHung = ''hung''"

definition DefaultShutdownBudget :: duration where "DefaultShutdownBudget = 6 * second"
definition shutdownGrace :: duration where "shutdownGrace = 3 * second"
definition minForcedWait :: duration where "minForcedWait = 500 * millisecond"

text \<open>
  \<open>done_graceful\<close>: when \<open>GracefulStop\<close> returns if left alone; \<open>done_forced\<close>: when it returns after
  \<open>Stop\<close> was called. At the grace instant both cases of the select may be ready; the re-check
  takes the graceful answer, so the boundary counts as graceful. The result is the outcome
  and the time \<open>StopServer\<close> took.
\<close>

definition at_most :: "time option \<Rightarrow> time \<Rightarrow> bool" where
  "at_most t limit = (case t of None \<Rightarrow> False | Some x \<Rightarrow> x \<le> limit)"

definition StopServer ::
  "duration option \<Rightarrow> duration option \<Rightarrow> duration \<Rightarrow> duration \<Rightarrow> stop_outcome \<times> duration" where
  "StopServer done_graceful done_forced grace hardLimit =
     (if at_most done_graceful grace then (StopGraceful, the done_graceful)
      else
        (let hardLimit' = (if hardLimit < minForcedWait then minForcedWait else hardLimit) in
         if at_most done_forced (grace + hardLimit') then (StopForced, max grace (the done_forced))
         else (StopHung, grace + hardLimit')))"

definition stopResultFor :: "stop_outcome \<Rightarrow> bool \<times> bool" where
  "stopResultFor outcome =
     (case outcome of StopGraceful \<Rightarrow> (True, True) | StopForced \<Rightarrow> (True, False) | StopHung \<Rightarrow> (False, False))"

definition splitRemaining :: "time \<Rightarrow> time \<Rightarrow> duration \<Rightarrow> duration \<times> duration" where
  "splitRemaining deadline now want =
     (let remaining = (if deadline - now < 0 then 0 else deadline - now);
          grace = (if want > remaining then remaining else want)
      in (grace, remaining - grace))"

text \<open>The two-stage select of \<open>waitForBackground\<close>: done by now, or done before the deadline.\<close>

definition waitForBackground :: "time option \<Rightarrow> time \<Rightarrow> time \<Rightarrow> bool" where
  "waitForBackground done_at now deadline =
     (if at_most done_at now then True else at_most done_at deadline)"

subsection \<open>The hub's lifecycle\<close>

datatype lifecycle_state = NotStarted | Started | Stopped

record hub_life =
  life :: lifecycle_state
  serving :: bool
  ready_count :: nat
  bg_running :: bool
  store_open :: bool
  stop_result :: "bool option"

definition new_life :: hub_life where
  "new_life = \<lparr>life = NotStarted, serving = False, ready_count = 0, bg_running = False,
               store_open = True, stop_result = None\<rparr>"

text \<open>
  \<open>Hub.Start\<close> in its two critical sections: the entry check, and (after the reconciliation and
  \<open>net.Listen\<close>) the section that publishes the server, counts the background goroutines and
  calls \<open>OnReady\<close>.
\<close>

definition start_enter :: "hub_life \<Rightarrow> bool \<times> hub_life" where
  "start_enter h = (if life h \<noteq> NotStarted then (False, h) else (True, h\<lparr>life := Started\<rparr>))"

definition start_publish :: "hub_life \<Rightarrow> bool \<times> hub_life" where
  "start_publish h =
     (if life h = Stopped then (False, h)
      else (True, h\<lparr>serving := True, bg_running := True, ready_count := ready_count h + 1\<rparr>))"

text \<open>
  \<open>Hub.stop\<close>: the actions on the registry, and the decisions about the store. The parameters
  are the instants the server and the background goroutines need, and the clock when
  \<open>StopServer\<close> is reached, all measured from the start of the sequence; \<open>has_server\<close> says
  whether \<open>grpcServer\<close> was set.
\<close>

definition stop_registry :: "(hub, nat) proc" where
  "stop_registry = bind_proc Drain (\<lambda>_. bind_proc sweepOnlineDevices (\<lambda>_. CloseAllSubscribers))"

record stop_timing =
  reach_server :: duration
  graceful_takes :: "duration option"
  forced_takes :: "duration option"
  background_done :: "duration option"

definition stop_decision :: "bool \<Rightarrow> stop_timing \<Rightarrow> bool \<times> bool \<times> duration" where
  "stop_decision has_server tm =
     (let (outcome, took) =
        (if has_server
         then (case splitRemaining DefaultShutdownBudget (reach_server tm) shutdownGrace of
                 (grace, hardLimit) \<Rightarrow> StopServer (graceful_takes tm) (forced_takes tm) grace hardLimit)
         else (StopGraceful, 0));
          (settled, closeStore) = stopResultFor outcome;
          now = reach_server tm + took
      in if \<not> closeStore then (settled, False, now)
         else if waitForBackground (background_done tm) now DefaultShutdownBudget
         then (True, True, max now (the (background_done tm)))
         else (True, False, max now DefaultShutdownBudget))"

definition hub_stop :: "stop_timing \<Rightarrow> hub_life \<Rightarrow> bool \<times> hub_life" where
  "hub_stop tm h =
     (case stop_decision (serving h) tm of (settled, closes, _) \<Rightarrow>
        (settled, h\<lparr>life := Stopped, store_open := store_open h \<and> \<not> closes,
                     bg_running := bg_running h \<and> \<not> closes\<rparr>))"

text \<open>The goroutine of \<open>Start\<close> that sweeps expired join tokens, one run per tick.\<close>

definition token_sweeper :: "time list \<Rightarrow> (hub, unit) proc" where
  "token_sweeper ticks =
     for_each ticks (\<lambda>now. attempt (sql (DeleteExpiredJoinTokens now)) (\<lambda>_. Ret ()) (\<lambda>_. Ret ()))"

text \<open>\<open>Hub.Stop\<close>: \<open>sync.Once\<close> caches the outcome.\<close>

definition hub_Stop :: "stop_timing \<Rightarrow> hub_life \<Rightarrow> bool \<times> hub_life" where
  "hub_Stop tm h =
     (case stop_result h of
        Some r \<Rightarrow> (r, h)
      | None \<Rightarrow> (case hub_stop tm h of (settled, h') \<Rightarrow> (settled, h'\<lparr>stop_result := Some settled\<rparr>)))"

end
