(* ===== verification/Server.thy ===== *)
theory Server
  imports Pairing Lifecycle
begin

text \<open>
  The gRPC service (internal/hub/server.go) and its interceptors (internal/hub/interceptor.go):
  one process per RPC, from the call context and the request to the reply. What the call
  context holds of the peer is a parameter, as are the readings of the clock, the random
  code, the signing of certificates and the text of an error value.
\<close>

subsection \<open>The caller\<close>

text \<open>
  The peer in the context: its address and, when its connection is TLS, the common names
  along each verified certificate chain.
\<close>

record peer_info =
  peer_addr :: string
  verified_chains :: "string list list option"

type_synonym rpc_ctx = "peer_info option"

definition ExtractDeviceID :: "rpc_ctx \<Rightarrow> hub_err + string" where
  "ExtractDeviceID ctx =
     (case ctx of
        None \<Rightarrow> Inl ErrNotAuthenticated
      | Some p \<Rightarrow>
          (case verified_chains p of
             None \<Rightarrow> Inl ErrNotAuthenticated
           | Some [] \<Rightarrow> Inl ErrNotAuthenticated
           | Some ([] # _) \<Rightarrow> Inl ErrNotAuthenticated
           | Some ((cn # _) # _) \<Rightarrow> Inr cn))"

text \<open>\<open>net.SplitHostPort\<close>: the host, or \<open>None\<close> for its errors.\<close>

definition split_last_colon :: "string \<Rightarrow> (string \<times> string) option" where
  "split_last_colon s =
     (if CHR '':'' \<in> set s
      then Some (rev (tl (dropWhile (\<lambda>ch. ch \<noteq> CHR '':'') (rev s))),
                 rev (takeWhile (\<lambda>ch. ch \<noteq> CHR '':'') (rev s)))
      else None)"

definition SplitHostPort :: "string \<Rightarrow> string option" where
  "SplitHostPort s =
     (case split_last_colon s of
        None \<Rightarrow> None
      | Some (before, port) \<Rightarrow>
          (case s of
             CHR ''['' # rest \<Rightarrow>
               (if CHR '']'' \<notin> set rest then None
                else
                  (let host = takeWhile (\<lambda>ch. ch \<noteq> CHR '']'') rest;
                       after = tl (dropWhile (\<lambda>ch. ch \<noteq> CHR '']'') rest)
                   in if after = CHR '':'' # port \<and> CHR '':'' \<notin> set port
                         \<and> CHR ''['' \<notin> set rest \<and> CHR '']'' \<notin> set after
                      then Some host else None))
           | _ \<Rightarrow>
               (if CHR '':'' \<in> set before \<or> CHR ''['' \<in> set s \<or> CHR '']'' \<in> set s then None
                else Some before)))"

definition peerIP :: "rpc_ctx \<Rightarrow> string" where
  "peerIP ctx =
     (case ctx of
        None \<Rightarrow> []
      | Some p \<Rightarrow> (case SplitHostPort (peer_addr p) of None \<Rightarrow> peer_addr p | Some host \<Rightarrow> host))"

subsection \<open>Requests and replies\<close>

datatype rpc =
    RJoin string string string
  | RRegister "pb_share list" int int
  | RRename string
  | RHeartbeat
  | RUpdateShares "pb_share list"
  | RDeregister
  | RLeave
  | RRequestPairing string string
  | RConfirmPairing string string
  | RListDevices

record device_info =
  info_device :: string
  info_nickname :: string
  info_ip :: string
  info_port :: int
  info_shares :: "pb_share list"
  info_status :: string

datatype reply =
    JoinReply (success: bool) string "certs option"
  | RegisterReply (success: bool) string "device_info list"
  | RenameReply (success: bool) string
  | HeartbeatReply (success: bool)
  | UpdateSharesReply (success: bool)
  | DeregisterReply (success: bool)
  | LeaveReply (success: bool) string
  | RequestPairingReply string
  | ConfirmPairingReply (success: bool) string "pair_result option"
  | ListDevicesReply "device_info list"

record serve_env =
  sign_cert :: "string \<Rightarrow> (string \<times> string) option"
  ca_pem :: string
  jclock :: join_clock
  clock1 :: time
  clock2 :: time
  fresh_code :: string
  err_text :: "hub_err \<Rightarrow> string"

subsection \<open>Handlers\<close>

definition em_dash :: string where
  "em_dash = [CHR 0xE2, CHR 0x80, CHR 0x94]"

definition rejectionMessage :: "(hub_err \<Rightarrow> string) \<Rightarrow> hub_err \<Rightarrow> string" where
  "rejectionMessage text e =
     (if e = ErrDeviceNotFound
      then ''this device is not registered on the hub '' @ em_dash @ '' it was pruned or removed; ''
           @ ''re-join with '' @ [CHR 0x27] @ ''hubfuse join <hub-address> --token <token>'' @ [CHR 0x27]
      else text e)"

definition displayStatus :: "device \<Rightarrow> string \<times> string" where
  "displayStatus d =
     (case dev_status d of
        StatusRegistered \<Rightarrow> (status_text StatusRegistered, [])
      | StatusOffline \<Rightarrow>
          (if last_heartbeat d = 0 then (status_text StatusRegistered, [])
           else (status_text StatusOffline, last_ip d))
      | StatusOnline \<Rightarrow> (status_text StatusOnline, last_ip d))"

definition shares_of :: "(string \<rightharpoonup> share list) \<Rightarrow> string \<Rightarrow> share list" where
  "shares_of m did = (case m did of None \<Rightarrow> [] | Some ss \<Rightarrow> ss)"

definition online_info :: "(string \<rightharpoonup> share list) \<Rightarrow> device \<Rightarrow> device_info" where
  "online_info m d = \<lparr>info_device = device_id d, info_nickname = nickname d, info_ip = last_ip d,
     info_port = to_int32 (ssh_port d), info_shares = sharesToProto (shares_of m (device_id d)),
     info_status = []\<rparr>"

definition listed_info :: "(string \<rightharpoonup> share list) \<Rightarrow> device \<Rightarrow> device_info" where
  "listed_info m d =
     (case displayStatus d of (status, ip) \<Rightarrow>
        \<lparr>info_device = device_id d, info_nickname = nickname d, info_ip = ip,
         info_port = to_int32 (ssh_port d), info_shares = sharesToProto (shares_of m (device_id d)),
         info_status = status\<rparr>)"

definition Server_Join :: "serve_env \<Rightarrow> rpc_ctx \<Rightarrow> string \<Rightarrow> string \<Rightarrow> string \<Rightarrow> (hub, hub_err + reply) proc" where
  "Server_Join env ctx did nick tok =
     attempt (Join (sign_cert env) (ca_pem env) (jclock env) did nick (peerIP ctx) tok)
       (\<lambda>e. ok (JoinReply False (err_text env e) None))
       (\<lambda>cs. ok (JoinReply True [] (Some cs)))"

definition Server_Register :: "serve_env \<Rightarrow> rpc_ctx \<Rightarrow> pb_share list \<Rightarrow> int \<Rightarrow> int \<Rightarrow> (hub, hub_err + reply) proc" where
  "Server_Register env ctx shs port version =
     (case ExtractDeviceID ctx of Inl e \<Rightarrow> fail e | Inr did \<Rightarrow>
      attempt (Register (clock1 env) did (peerIP ctx) port shs version)
        (\<lambda>e. ok (RegisterReply False (rejectionMessage (err_text env) e) []))
        (\<lambda>online.
         bind_proc (attempt (RegistryGetSharesForDevices (map device_id online))
                      (\<lambda>_. Ret Map.empty) (\<lambda>m. Ret m))
           (\<lambda>m. ok (RegisterReply True [] (map (online_info m) online)))))"

definition Server_Rename :: "serve_env \<Rightarrow> rpc_ctx \<Rightarrow> string \<Rightarrow> (hub, hub_err + reply) proc" where
  "Server_Rename env ctx newNick =
     (case ExtractDeviceID ctx of Inl e \<Rightarrow> fail e | Inr did \<Rightarrow>
      attempt (Rename did newNick)
        (\<lambda>e. ok (RenameReply False (rejectionMessage (err_text env) e)))
        (\<lambda>_. ok (RenameReply True [])))"

definition Server_Heartbeat :: "serve_env \<Rightarrow> rpc_ctx \<Rightarrow> (hub, hub_err + reply) proc" where
  "Server_Heartbeat env ctx =
     (case ExtractDeviceID ctx of Inl e \<Rightarrow> fail e | Inr did \<Rightarrow>
      attempt (Heartbeat (clock1 env) did (peerIP ctx))
        (\<lambda>_. ok (HeartbeatReply False)) (\<lambda>_. ok (HeartbeatReply True)))"

definition Server_UpdateShares :: "rpc_ctx \<Rightarrow> pb_share list \<Rightarrow> (hub, hub_err + reply) proc" where
  "Server_UpdateShares ctx shs =
     (case ExtractDeviceID ctx of Inl e \<Rightarrow> fail e | Inr did \<Rightarrow>
      attempt (UpdateShares did shs)
        (\<lambda>_. ok (UpdateSharesReply False)) (\<lambda>_. ok (UpdateSharesReply True)))"

definition Server_Deregister :: "rpc_ctx \<Rightarrow> (hub, hub_err + reply) proc" where
  "Server_Deregister ctx =
     (case ExtractDeviceID ctx of Inl e \<Rightarrow> fail e | Inr did \<Rightarrow>
      attempt (Deregister did)
        (\<lambda>_. ok (DeregisterReply False)) (\<lambda>_. ok (DeregisterReply True)))"

definition Server_Leave :: "serve_env \<Rightarrow> rpc_ctx \<Rightarrow> (hub, hub_err + reply) proc" where
  "Server_Leave env ctx =
     (case ExtractDeviceID ctx of Inl e \<Rightarrow> fail e | Inr did \<Rightarrow>
      attempt (Leave did)
        (\<lambda>e. ok (LeaveReply False (err_text env e))) (\<lambda>_. ok (LeaveReply True [])))"

definition Server_RequestPairing :: "serve_env \<Rightarrow> rpc_ctx \<Rightarrow> string \<Rightarrow> string \<Rightarrow> (hub, hub_err + reply) proc" where
  "Server_RequestPairing env ctx toDevice publicKey =
     (case ExtractDeviceID ctx of Inl e \<Rightarrow> fail e | Inr did \<Rightarrow>
      attempt (RequestPairing (clock1 env) (fresh_code env) did toDevice publicKey)
        fail (\<lambda>code. ok (RequestPairingReply code)))"

definition Server_ConfirmPairing :: "serve_env \<Rightarrow> rpc_ctx \<Rightarrow> string \<Rightarrow> string \<Rightarrow> (hub, hub_err + reply) proc" where
  "Server_ConfirmPairing env ctx code publicKey =
     (case ExtractDeviceID ctx of Inl e \<Rightarrow> fail e | Inr did \<Rightarrow>
      attempt (ConfirmPairing (clock1 env) (clock2 env) did code publicKey)
        (\<lambda>e. ok (ConfirmPairingReply False (err_text env e) None))
        (\<lambda>r. ok (ConfirmPairingReply True [] (Some r))))"

definition Server_ListDevices :: "rpc_ctx \<Rightarrow> (hub, hub_err + reply) proc" where
  "Server_ListDevices ctx =
     (case ExtractDeviceID ctx of Inl e \<Rightarrow> fail e | Inr _ \<Rightarrow>
      attempt ListDevicesWithShares (\<lambda>e. fail (StoreErr e))
        (\<lambda>(ds, m). ok (ListDevicesReply (map (listed_info m) ds))))"

subsection \<open>The Subscribe stream\<close>

text \<open>
  One iteration of the forwarding loop: the select takes the cancelled context, or a receive
  (which does nothing when it would block), whose event is then sent to the client, with or
  without success. The list of choices decides when the handler ends.
\<close>

datatype loop_choice = CtxDone | Receive bool

fun forward_loop :: "nat \<Rightarrow> loop_choice list \<Rightarrow> event list \<Rightarrow> (hub, event list) proc" where
  "forward_loop c [] sent = Ret sent"
| "forward_loop c (CtxDone # cs) sent = Ret sent"
| "forward_loop c (Receive send_ok # cs) sent =
     bind_proc (atom (recv_chan c)) (\<lambda>r.
       case r of
         None \<Rightarrow> forward_loop c cs sent
       | Some None \<Rightarrow> Ret sent
       | Some (Some ev) \<Rightarrow> if send_ok then forward_loop c cs (sent @ [ev]) else Ret sent)"

definition Server_Subscribe :: "rpc_ctx \<Rightarrow> bool \<Rightarrow> loop_choice list \<Rightarrow> (hub, hub_err + event list) proc" where
  "Server_Subscribe ctx ready_ok choices =
     (case ExtractDeviceID ctx of Inl e \<Rightarrow> fail e | Inr did \<Rightarrow>
      attempt (Subscribe did) fail (\<lambda>c.
      bind_proc (if ready_ok then forward_loop c choices [SubscribeReady] else Ret [])
        (\<lambda>sent. bind_proc (Unsub did c) (\<lambda>_. ok sent))))"

subsection \<open>Interceptors\<close>

text \<open>The chain of \<open>ServerOptions\<close>: the drain guard first, then authentication.\<close>

definition DrainInterceptor :: "(hub, hub_err + 'a) proc \<Rightarrow> (hub, hub_err + 'a) proc" where
  "DrainInterceptor handler =
     bind_proc Draining (\<lambda>d. if d then fail ErrHubShuttingDown else handler)"

definition AuthInterceptor :: "bool \<Rightarrow> rpc_ctx \<Rightarrow> (hub, hub_err + 'a) proc \<Rightarrow> (hub, hub_err + 'a) proc" where
  "AuthInterceptor is_join ctx handler =
     (if is_join then handler
      else (case ExtractDeviceID ctx of Inl _ \<Rightarrow> fail ErrNotAuthenticated | Inr _ \<Rightarrow> handler))"

fun handle_rpc :: "serve_env \<Rightarrow> rpc_ctx \<Rightarrow> rpc \<Rightarrow> (hub, hub_err + reply) proc" where
  "handle_rpc env ctx (RJoin did nick tok) = Server_Join env ctx did nick tok"
| "handle_rpc env ctx (RRegister shs port version) = Server_Register env ctx shs port version"
| "handle_rpc env ctx (RRename nick) = Server_Rename env ctx nick"
| "handle_rpc env ctx RHeartbeat = Server_Heartbeat env ctx"
| "handle_rpc env ctx (RUpdateShares shs) = Server_UpdateShares ctx shs"
| "handle_rpc env ctx RDeregister = Server_Deregister ctx"
| "handle_rpc env ctx RLeave = Server_Leave env ctx"
| "handle_rpc env ctx (RRequestPairing nick key) = Server_RequestPairing env ctx nick key"
| "handle_rpc env ctx (RConfirmPairing code key) = Server_ConfirmPairing env ctx code key"
| "handle_rpc env ctx RListDevices = Server_ListDevices ctx"

fun is_join :: "rpc \<Rightarrow> bool" where
  "is_join (RJoin did nick tok) = True"
| "is_join r = False"

definition serve :: "serve_env \<Rightarrow> rpc_ctx \<Rightarrow> rpc \<Rightarrow> (hub, hub_err + reply) proc" where
  "serve env ctx r = DrainInterceptor (AuthInterceptor (is_join r) ctx (handle_rpc env ctx r))"

definition serve_stream :: "rpc_ctx \<Rightarrow> bool \<Rightarrow> loop_choice list \<Rightarrow> (hub, hub_err + event list) proc" where
  "serve_stream ctx ready_ok choices =
     DrainInterceptor (AuthInterceptor False ctx (Server_Subscribe ctx ready_ok choices))"

end
