(* ===== verification/Contracts.thy ===== *)
theory Contracts
  imports Process
begin

text \<open>
  The interfaces between the components, each as a locale: the operations a client calls as
  its parameters, the laws the provider promises as its assumptions, and what the clients
  derive from them, proved once. The interpretations on the model's definitions stand in the
  theories of the components that provide them.
\<close>

subsection \<open>Credentials that are consumed by the first claim\<close>

text \<open>
  \<open>holds t s\<close>: the credential \<open>t\<close> can still be claimed in \<open>s\<close> (at some instant). A claim at
  instant \<open>n\<close> reports whether it consumed the credential.
\<close>

fun claim_all :: "('t \<Rightarrow> 'n \<Rightarrow> 's \<Rightarrow> bool \<times> 's) \<Rightarrow> 't \<Rightarrow> 'n list \<Rightarrow> 's \<Rightarrow> bool list \<times> 's" where
  "claim_all claim t [] s = ([], s)"
| "claim_all claim t (n # ns) s =
     (case claim t n s of (b, s1) \<Rightarrow> case claim_all claim t ns s1 of (bs, s2) \<Rightarrow> (b # bs, s2))"

locale claimable =
  fixes holds :: "'t \<Rightarrow> 's \<Rightarrow> bool"
    and claim :: "'t \<Rightarrow> 'n \<Rightarrow> 's \<Rightarrow> bool \<times> 's"
    and valid :: "'s \<Rightarrow> bool"
  assumes claim_held: "valid s \<Longrightarrow> fst (claim t n s) \<Longrightarrow> holds t s"
    and claim_spent: "valid s \<Longrightarrow> fst (claim t n s) \<Longrightarrow> \<not> holds t (snd (claim t n s))"
    and claim_no_revival: "valid s \<Longrightarrow> holds t' (snd (claim t n s)) \<Longrightarrow> holds t' s"
    and claim_refused: "valid s \<Longrightarrow> \<not> fst (claim t n s) \<Longrightarrow> snd (claim t n s) = s"
    and claim_valid: "valid s \<Longrightarrow> valid (snd (claim t n s))"
begin

lemma claim_all_spent:
  "valid s \<Longrightarrow> \<not> holds t s \<Longrightarrow> filter (\<lambda>b. b) (fst (claim_all claim t ns s)) = []"
proof (induction ns arbitrary: s)
  case (Cons n ns)
  then have "\<not> fst (claim t n s)" using claim_held by blast
  moreover have "valid (snd (claim t n s))" and "\<not> holds t (snd (claim t n s))"
    using Cons.prems claim_valid claim_no_revival by blast+
  ultimately show ?case using Cons.IH [of "snd (claim t n s)"] by (simp add: split_beta)
qed simp

lemma claimed_at_most_once:
  "valid s \<Longrightarrow> length (filter (\<lambda>b. b) (fst (claim_all claim t ns s))) \<le> 1"
proof (induction ns arbitrary: s)
  case (Cons n ns)
  have v: "valid (snd (claim t n s))" using Cons.prems claim_valid by blast
  show ?case
  proof (cases "fst (claim t n s)")
    case True
    then have "filter (\<lambda>b. b) (fst (claim_all claim t ns (snd (claim t n s)))) = []"
      using Cons.prems claim_spent v by (intro claim_all_spent) auto
    with True show ?thesis by (simp add: split_beta)
  next
    case False
    with Cons.IH [OF v] show ?thesis by (simp add: split_beta)
  qed
qed simp

end

subsection \<open>Conditional writes that announce a change\<close>

text \<open>
  A step on the presence of a key either changes it and says to which value, or leaves it
  and says nothing. The announcements of one key then alternate.
\<close>

fun announcements :: "('o \<Rightarrow> 's \<Rightarrow> bool option \<times> 's) \<Rightarrow> ('o \<Rightarrow> 'k) \<Rightarrow> 'k \<Rightarrow> 'o list \<Rightarrow> 's \<Rightarrow> bool list" where
  "announcements step key k [] s = []"
| "announcements step key k (w # ws) s =
     (case step w s of (a, s') \<Rightarrow>
        (case a of
           None \<Rightarrow> announcements step key k ws s'
         | Some b \<Rightarrow> if key w = k then b # announcements step key k ws s'
                     else announcements step key k ws s'))"

fun alternates :: "bool \<Rightarrow> bool list \<Rightarrow> bool" where
  "alternates b [] = True"
| "alternates b (x # xs) = (x \<noteq> b \<and> alternates x xs)"

locale announcing =
  fixes up :: "'s \<Rightarrow> 'k \<Rightarrow> bool"
    and step :: "'o \<Rightarrow> 's \<Rightarrow> bool option \<times> 's"
    and key :: "'o \<Rightarrow> 'k"
    and valid :: "'s \<Rightarrow> bool"
  assumes silent: "valid s \<Longrightarrow> fst (step w s) = None \<Longrightarrow> up (snd (step w s)) k = up s k"
    and change: "valid s \<Longrightarrow> fst (step w s) = Some b \<Longrightarrow> up s (key w) = (\<not> b) \<and> up (snd (step w s)) (key w) = b"
    and others: "valid s \<Longrightarrow> key w \<noteq> k \<Longrightarrow> up (snd (step w s)) k = up s k"
    and step_valid: "valid s \<Longrightarrow> valid (snd (step w s))"
begin

lemma announcements_alternate:
  "valid s \<Longrightarrow> alternates (up s k) (announcements step key k ws s)"
proof (induction ws arbitrary: s)
  case (Cons w ws)
  obtain a s' where st: "step w s = (a, s')" by (cases "step w s")
  have v: "valid s'" using Cons.prems step_valid [of s w] st by simp
  note IH = Cons.IH [OF v]
  show ?case
  proof (cases a)
    case None
    with IH st silent [OF Cons.prems, of w k] show ?thesis by simp
  next
    case (Some b)
    with st change [OF Cons.prems, of w b] others [OF Cons.prems, of w k] IH show ?thesis by auto
  qed
qed simp

end

subsection \<open>Processes of which one can succeed\<close>

text \<open>
  \<open>pays V avail good p\<close>: in states that satisfy \<open>V\<close>, on every path to a successful result \<open>p\<close>
  performs an action that makes \<open>avail\<close> false. When no process of a pool can make \<open>avail\<close> true
  again, at most one of them ends successfully.
\<close>

primrec pays :: "('s \<Rightarrow> bool) \<Rightarrow> ('s \<Rightarrow> bool) \<Rightarrow> ('r \<Rightarrow> bool) \<Rightarrow> ('s, 'r) proc \<Rightarrow> bool" where
  "pays V avail good (Ret x) = (\<not> good x)"
| "pays V avail good (Atom f) =
     (\<forall>s. V s \<longrightarrow> (avail s \<and> \<not> avail (snd (f s))) \<or> fst (map_prod (pays V avail good) id (f s)))"

lemma pays_Atom:
  "pays V avail good (Atom f) \<longleftrightarrow>
     (\<forall>s. V s \<longrightarrow> (avail s \<and> \<not> avail (snd (f s))) \<or> pays V avail good (fst (f s)))"
  by simp

declare pays.simps(2) [simp del]

definition successes :: "('r \<Rightarrow> bool) \<Rightarrow> ('s, 'r) pool \<Rightarrow> nat" where
  "successes good ps = length (filter (finished good) ps)"

locale one_shot =
  fixes V :: "'s \<Rightarrow> bool"
    and avail :: "'s \<Rightarrow> bool"
    and good :: "'r \<Rightarrow> bool"
    and member :: "('s, 'r) proc \<Rightarrow> bool"
  assumes member_valid: "member p \<Longrightarrow> safe V p"
    and member_no_issue: "member p \<Longrightarrow> safe (\<lambda>s. \<not> avail s) p"
    and member_pays: "member p \<Longrightarrow> pays V avail good p"
begin

lemma potential:
  assumes "interleaves (ps, s) (ps', s')" and "\<forall>p \<in> set ps. member p" and "V s"
  shows "(\<forall>p \<in> set ps'. safe (\<lambda>s. \<not> avail s) p) \<and> (\<forall>p \<in> set ps'. safe V p) \<and> V s' \<and>
    length (filter (\<lambda>p. \<not> pays V avail good p) ps') + (if avail s' then 1 else 0) \<le> 1"
  using assms
proof (induction "(ps, s)" "(ps', s')" arbitrary: ps' s' rule: interleaves.induct)
  case refl
  then show ?case by (auto simp: member_no_issue member_valid member_pays filter_empty_conv)
next
  case (step qs t i f p' t')
  let ?bad = "\<lambda>p. \<not> pays V avail good p"
  from step have IH: "\<forall>p \<in> set qs. safe (\<lambda>s. \<not> avail s) p" "\<forall>p \<in> set qs. safe V p" "V t"
    "length (filter ?bad qs) + (if avail t then 1 else 0) \<le> 1" by auto
  from step.hyps(3,4) IH have safeA: "safe (\<lambda>s. \<not> avail s) (Atom f)" "safe V (Atom f)"
    by (metis nth_mem)+
  from step.hyps(5) have ft: "fst (f t) = p'" "snd (f t) = t'" by simp_all
  from safeA ft \<open>V t\<close> have s1: "safe (\<lambda>s. \<not> avail s) p'" "safe V p'" "V t'"
    and s2: "\<not> avail t \<Longrightarrow> \<not> avail t'"
    by (metis safe_Atom)+
  have all: "\<forall>p \<in> set (qs[i := p']). safe (\<lambda>s. \<not> avail s) p" "\<forall>p \<in> set (qs[i := p']). safe V p"
    using IH(1,2) s1 by (auto dest!: set_update_subset_insert [THEN subsetD])
  have upd: "qs[i := p'] = take i qs @ p' # drop (Suc i) qs"
    using step.hyps(3) by (rule upd_conv_take_nth_drop)
  have old: "qs = take i qs @ Atom f # drop (Suc i) qs"
    using id_take_nth_drop [OF step.hyps(3)] step.hyps(4) by simp
  let ?rest = "length (filter ?bad (take i qs)) + length (filter ?bad (drop (Suc i) qs))"
  have new_len: "length (filter ?bad (qs[i := p'])) = ?rest + (if ?bad p' then 1 else 0)"
    by (simp add: upd)
  have old_len: "length (filter ?bad qs) = ?rest + (if ?bad (Atom f) then 1 else 0)"
    by (subst old) simp
  have "?bad (Atom f) \<or> (avail t \<and> \<not> avail t') \<or> \<not> ?bad p'"
    using ft \<open>V t\<close> by (metis pays_Atom)
  with new_len old_len IH(4) s1(3) s2 all show ?case by (auto split: if_splits)
qed

lemma at_most_one:
  assumes "interleaves (ps, s) (ps', s')" and "\<forall>p \<in> set ps. member p" and "V s"
  shows "successes good ps' \<le> 1"
proof -
  have "finished good p \<Longrightarrow> \<not> pays V avail good p" for p :: "('s, 'r) proc"
    by (cases p) simp_all
  then have "length (filter (finished good) ps') \<le> length (filter (\<lambda>p. \<not> pays V avail good p) ps')"
    by (induction ps') auto
  with potential [OF assms] show ?thesis by (simp add: successes_def split: if_splits)
qed

end

subsubsection \<open>Establishing the payment\<close>

lemma pays_bind:
  assumes "pays V avail (\<lambda>x. \<not> pays V avail good (k x)) m"
  shows "pays V avail good (bind_proc m k)"
  using assms by (induction m rule: proc_induct) (auto simp: pays_Atom)

lemma pays_bind_later:
  "(\<And>x. pays V avail good (k x)) \<Longrightarrow> pays V avail good (bind_proc m k)"
proof (induction m rule: proc_induct)
  case (Atom f)
  then show ?case by (simp add: pays_Atom)
qed simp

lemma pays_atom:
  "(\<And>s. V s \<Longrightarrow> good (fst (f s)) \<Longrightarrow> avail s \<and> \<not> avail (snd (f s))) \<Longrightarrow> pays V avail good (atom f)"
  by (auto simp: atom_def pays_Atom)

lemma pays_attempt:
  assumes "pays V avail (\<lambda>r. \<not> pays V avail good (case r of Inl e \<Rightarrow> h e | Inr x \<Rightarrow> k x)) m"
  shows "pays V avail good (attempt m h k)"
  unfolding attempt_def by (rule pays_bind) (rule assms)

lemma pays_mono:
  "pays V avail good m \<Longrightarrow> (\<And>x. good' x \<Longrightarrow> good x) \<Longrightarrow> pays V avail good' m"
  by (induction m rule: proc_induct) (auto simp: pays_Atom)

text \<open>An attempt whose error branch never succeeds pays when the attempted part does.\<close>

lemma pays_attempt_first:
  assumes "pays V avail (\<lambda>r. \<exists>x. r = Inr x) m" and "\<And>e. pays V avail good (h e)"
  shows "pays V avail good (attempt m h k)"
  by (rule pays_attempt, rule pays_mono [OF assms(1)]) (use assms(2) in \<open>auto split: sum.splits\<close>)

end
