(* ===== verification/StoreProps.thy ===== *)
theory StoreProps
  imports Store Contracts
begin

text \<open>
  What the statements of the store promise: the invariant of the tables and its preservation,
  the contracts their callers rely on as locales (a credential that is claimed once, the
  conditional promotion and demotion of a device), both interpreted here on the statements,
  and the effect of the cascading delete.
\<close>

subsection \<open>The invariant of the tables\<close>

definition store_inv :: "db \<Rightarrow> bool" where
  "store_inv d \<longleftrightarrow>
     distinct (map device_id (devices d)) \<and>
     distinct (map nickname (devices d)) \<and>
     (\<forall>sh \<in> set (shares d). share_device sh \<in> device_id ` set (devices d)) \<and>
     distinct (map (\<lambda>p. (device_a p, device_b p)) (pairings d)) \<and>
     distinct (map invite_code (pending_invites d)) \<and>
     distinct (map token (pending_join_tokens d))"

lemma store_inv_empty: "store_inv empty_db"
  by (simp add: store_inv_def empty_db_def)

lemma store_invD:
  assumes "store_inv d"
  shows "distinct (map device_id (devices d))" "distinct (map nickname (devices d))"
    "distinct (map token (pending_join_tokens d))" "distinct (map invite_code (pending_invites d))"
    "sh \<in> set (shares d) \<Longrightarrow> share_device sh \<in> device_id ` set (devices d)"
  using assms by (auto simp: store_inv_def)

subsubsection \<open>Clauses\<close>

lemma set_update_where: "x \<in> set (update_where P f rows) \<longleftrightarrow> (\<exists>r \<in> set rows. x = (if P r then f r else r))"
  by (auto simp: update_where_def)

lemma ball_update_where:
  "(\<forall>x \<in> set (update_where P f rows). Q x) \<longleftrightarrow> (\<forall>r \<in> set rows. if P r then Q (f r) else Q r)"
  by (induction rows) (auto simp: update_where_def)

lemma map_key_update_where:
  "(\<And>r. k (f r) = k r) \<Longrightarrow> map k (update_where P f rows) = map k rows"
  by (auto simp: update_where_def)

lemma affected_pos_iff: "affected P rows > 0 \<longleftrightarrow> (\<exists>r \<in> set rows. P r)"
  by (auto simp: affected_def filter_empty_iff)

lemma affected_0_iff: "affected P rows = 0 \<longleftrightarrow> \<not> (\<exists>r \<in> set rows. P r)"
  by (auto simp: affected_def filter_empty_iff)

lemma requireAffected_Inr: "requireAffected (affected P rows) = Inr () \<longleftrightarrow> (\<exists>r \<in> set rows. P r)"
  by (simp add: requireAffected_def affected_0_iff)

lemma requireAffected_Inl:
  "requireAffected (affected P rows) = Inl e \<longleftrightarrow> e = ErrNotFound \<and> \<not> (\<exists>r \<in> set rows. P r)"
  by (auto simp: requireAffected_def affected_0_iff)

lemma set_delete_where [simp]: "set (delete_where P rows) = {r \<in> set rows. \<not> P r}"
  by (simp add: delete_where_def)

lemma distinct_delete_where: "distinct (map k rows) \<Longrightarrow> distinct (map k (delete_where P rows))"
  by (simp add: delete_where_def distinct_map_filter_key)

lemma update_where_id: "\<not> (\<exists>r \<in> set rows. P r) \<Longrightarrow> update_where P f rows = rows"
  by (auto simp: update_where_def intro: map_idI)

lemma query_row_Inr: "query_row P rows = Inr r \<Longrightarrow> r \<in> set rows \<and> P r"
  by (auto simp: query_row_def dest: find_Some_in split: option.splits)

lemma query_row_Inl: "query_row P rows = Inl e \<longleftrightarrow> e = ErrNoRows \<and> \<not> (\<exists>r \<in> set rows. P r)"
  by (auto simp: query_row_def find_None_iff_ex dest: find_Some_in split: option.splits)

lemma query_row_key:
  "distinct (map k rows) \<Longrightarrow> query_row (\<lambda>r. k r = a) rows = Inr r \<longleftrightarrow> r \<in> set rows \<and> k r = a"
  by (auto simp: query_row_def find_key_iff find_None_iff_ex dest: distinct_key_unique
      split: option.splits)

subsubsection \<open>Preservation\<close>

lemma inv_queries [inv_intros]:
  "store_inv d \<Longrightarrow> store_inv (snd (GetDevice did d))"
  "store_inv d \<Longrightarrow> store_inv (snd (GetDeviceByNickname nick d))"
  "store_inv d \<Longrightarrow> store_inv (snd (ListOnlineDevices d))"
  "store_inv d \<Longrightarrow> store_inv (snd (ListAllDevices d))"
  "store_inv d \<Longrightarrow> store_inv (snd (GetStaleDevices th d))"
  "store_inv d \<Longrightarrow> store_inv (snd (GetShares did d))"
  "store_inv d \<Longrightarrow> store_inv (snd (GetSharesForDevices ids d))"
  "store_inv d \<Longrightarrow> store_inv (snd (GetPairing a b d))"
  "store_inv d \<Longrightarrow> store_inv (snd (IsPaired a b d))"
  "store_inv d \<Longrightarrow> store_inv (snd (GetInvite code d))"
  "store_inv d \<Longrightarrow> store_inv (snd (GetJoinToken tok d))"
  by (simp_all add: GetDevice_def GetDeviceByNickname_def ListOnlineDevices_def ListAllDevices_def
      GetStaleDevices_def GetShares_def GetSharesForDevices_def GetPairing_def IsPaired_def
      GetInvite_def GetJoinToken_def Let_def)

lemma inv_CreateDevice [inv_intros]: "store_inv d \<Longrightarrow> store_inv (snd (CreateDevice x d))"
  by (auto simp: CreateDevice_def store_inv_def)

lemma inv_update_devices:
  assumes "store_inv d" and "\<And>r. device_id (f r) = device_id r" and "\<And>r. nickname (f r) = nickname r"
  shows "store_inv (d\<lparr>devices := update_where P f (devices d)\<rparr>)"
proof -
  have "map device_id (update_where P f (devices d)) = map device_id (devices d)"
    and "map nickname (update_where P f (devices d)) = map nickname (devices d)"
    using assms(2,3) by (simp_all add: map_key_update_where)
  moreover from this(1) have
    "device_id ` set (update_where P f (devices d)) = device_id ` set (devices d)"
    by (metis list.set_map)
  ultimately show ?thesis using assms(1) by (simp add: store_inv_def)
qed

lemma inv_device_updates [inv_intros]:
  "store_inv d \<Longrightarrow> store_inv (snd (UpdateDeviceStatus did st ip port d))"
  "store_inv d \<Longrightarrow> store_inv (snd (MarkOfflineIfStale did th d))"
  "store_inv d \<Longrightarrow> store_inv (snd (MarkAllOffline d))"
  "store_inv d \<Longrightarrow> store_inv (snd (MarkOnlineIfOffline did ip d))"
  "store_inv d \<Longrightarrow> store_inv (snd (UpdateHeartbeat now did d))"
  by (simp_all add: UpdateDeviceStatus_def MarkOfflineIfStale_def MarkAllOffline_def
      MarkOnlineIfOffline_def UpdateHeartbeat_def Let_def inv_update_devices)

lemma distinct_update_unique:
  assumes "distinct (map k rows)" "distinct (map j rows)"
    and "\<not> (\<exists>r \<in> set rows. k r = v \<and> j r \<noteq> a)" and "\<And>r. k (f r) = v"
  shows "distinct (map k (update_where (\<lambda>r. j r = a) f rows))"
  using assms by (induction rows) (auto simp: update_where_def image_iff)

lemma inv_UpdateDeviceNickname [inv_intros]:
  assumes "store_inv d"
  shows "store_inv (snd (UpdateDeviceNickname did nick d))"
proof (cases "affected (\<lambda>r. device_id r = did) (devices d) > 0 \<and>
    (\<exists>r \<in> set (devices d). nickname r = nick \<and> device_id r \<noteq> did)")
  case True
  then show ?thesis using assms by (simp add: UpdateDeviceNickname_def Let_def)
next
  case False
  let ?u = "update_where (\<lambda>r. device_id r = did) (\<lambda>r. r\<lparr>nickname := nick\<rparr>) (devices d)"
  have ids: "map device_id ?u = map device_id (devices d)" by (simp add: map_key_update_where)
  then have "device_id ` set ?u = device_id ` set (devices d)" by (metis list.set_map)
  moreover have "distinct (map nickname ?u)"
  proof (cases "\<exists>r \<in> set (devices d). device_id r = did")
    case True
    with False have "\<not> (\<exists>r \<in> set (devices d). nickname r = nick \<and> device_id r \<noteq> did)"
      by (auto simp: affected_pos_iff)
    then show ?thesis using assms by (intro distinct_update_unique) (auto simp: store_inv_def)
  next
    case False
    then show ?thesis using assms by (simp add: update_where_id store_inv_def)
  qed
  ultimately show ?thesis using False assms ids
    by (auto simp: UpdateDeviceNickname_def Let_def store_inv_def)
qed

lemma inv_in_tx: "(\<And>d. store_inv d \<Longrightarrow> store_inv (snd (body d))) \<Longrightarrow> store_inv d \<Longrightarrow> store_inv (snd (in_tx body d))"
  by (auto simp: in_tx_def split: prod.splits sum.splits) (metis snd_conv)

lemma cascade_result:
  "deleteDeviceCascade did d = (Inr (),
     d\<lparr>shares := delete_where (\<lambda>r. share_device r = did) (shares d),
       pairings := delete_where (\<lambda>r. device_a r = did \<or> device_b r = did) (pairings d),
       pending_invites := delete_where (\<lambda>r. from_device r = did \<or> to_device r = did) (pending_invites d),
       devices := delete_where (\<lambda>r. device_id r = did) (devices d)\<rparr>)"
  by (auto simp: deleteDeviceCascade_def Let_def)

lemma inv_cascade: "store_inv d \<Longrightarrow> store_inv (snd (deleteDeviceCascade did d))"
  by (auto simp: cascade_result store_inv_def distinct_delete_where)

lemma inv_DeleteDevice [inv_intros]: "store_inv d \<Longrightarrow> store_inv (snd (DeleteDevice did d))"
  by (simp add: DeleteDevice_def inv_in_tx inv_cascade)

lemma delete_devices_result:
  "\<exists>d'. delete_devices ds d = (Inr (), d') \<and>
     devices d' = filter (\<lambda>r. device_id r \<notin> device_id ` set ds) (devices d) \<and>
     pending_join_tokens d' = pending_join_tokens d"
proof (induction ds arbitrary: d)
  case Nil
  show ?case by simp
next
  case (Cons x ds)
  obtain d1 where d1: "deleteDeviceCascade (device_id x) d = (Inr (), d1)"
    and dev: "devices d1 = delete_where (\<lambda>r. device_id r = device_id x) (devices d)"
    and tok: "pending_join_tokens d1 = pending_join_tokens d"
    by (simp add: cascade_result)
  obtain d2 where "delete_devices ds d1 = (Inr (), d2)"
    and "devices d2 = filter (\<lambda>r. device_id r \<notin> device_id ` set ds) (devices d1)"
    and "pending_join_tokens d2 = pending_join_tokens d1"
    using Cons.IH by blast
  with d1 dev tok show ?case
    by (auto simp: delete_where_def intro!: filter_cong)
qed

lemma inv_delete_devices: "store_inv d \<Longrightarrow> store_inv (snd (delete_devices ds d))"
proof (induction ds arbitrary: d)
  case (Cons x ds)
  from Cons.prems have "store_inv (snd (deleteDeviceCascade (device_id x) d))" by (rule inv_cascade)
  with Cons.IH show ?case by (auto split: prod.splits sum.splits)
qed simp

lemma inv_DeletePrunedDevices [inv_intros]:
  assumes "store_inv d"
  shows "store_inv (snd (DeletePrunedDevices th active d))"
  unfolding DeletePrunedDevices_def
proof (rule inv_in_tx)
  fix e :: db
  assume "store_inv e"
  then have "store_inv (snd (delete_devices (prunable th active e) e))" by (rule inv_delete_devices)
  then show "store_inv (snd (let pruned = prunable th active e in
      case delete_devices pruned e of (Inl x, s') \<Rightarrow> (Inl x, s') | (Inr _, s') \<Rightarrow> (Inr pruned, s')))"
    by (auto simp: Let_def split: prod.splits sum.splits)
qed (rule assms)

lemma inv_insert_shares: "store_inv d \<Longrightarrow> store_inv (snd (insert_shares did shs d))"
  by (induction shs arbitrary: d) (auto simp: store_inv_def)

lemma inv_SetShares [inv_intros]: "store_inv d \<Longrightarrow> store_inv (snd (SetShares did shs d))"
  unfolding SetShares_def
  by (rule inv_in_tx, rule inv_insert_shares) (auto simp: store_inv_def)

lemma inv_pairing_updates [inv_intros]:
  "store_inv d \<Longrightarrow> store_inv (snd (CreatePairing now a b d))"
  "store_inv d \<Longrightarrow> store_inv (snd (CreateInvite v d))"
  "store_inv d \<Longrightarrow> store_inv (snd (DeleteInvite code d))"
  "store_inv d \<Longrightarrow> store_inv (snd (DeleteExpiredInvites now d))"
  by (auto simp: CreatePairing_def CreateInvite_def DeleteInvite_def DeleteExpiredInvites_def
      store_inv_def distinct_delete_where)

lemma inv_IncrementInviteAttempts [inv_intros]:
  "store_inv d \<Longrightarrow> store_inv (snd (IncrementInviteAttempts code d))"
  by (simp add: IncrementInviteAttempts_def store_inv_def map_key_update_where)

lemma inv_token_updates [inv_intros]:
  "store_inv d \<Longrightarrow> store_inv (snd (CreateJoinToken t d))"
  "store_inv d \<Longrightarrow> store_inv (snd (ClaimJoinToken tok now d))"
  "store_inv d \<Longrightarrow> store_inv (snd (DeleteExpiredJoinTokens now d))"
  by (auto simp: CreateJoinToken_def ClaimJoinToken_def DeleteExpiredJoinTokens_def
      store_inv_def distinct_delete_where Let_def)

subsection \<open>Conditional statements\<close>

lemma is_online_update:
  assumes "\<And>r. device_id (f r) = device_id r"
  shows "find (\<lambda>r. device_id r = did) (update_where P f rows) =
    map_option (\<lambda>r. if P r then f r else r) (find (\<lambda>r. device_id r = did) rows)"
  unfolding update_where_def using assms by (intro find_map_key) simp

text \<open>The row of a device, and the status the table gives it.\<close>

definition device_row :: "db \<Rightarrow> string \<Rightarrow> device option" where
  "device_row d did = find (\<lambda>r. device_id r = did) (devices d)"

definition is_online :: "db \<Rightarrow> string \<Rightarrow> bool" where
  "is_online d did \<longleftrightarrow> (case device_row d did of None \<Rightarrow> False | Some r \<Rightarrow> dev_status r = StatusOnline)"

text \<open>The two conditional status writes, with the caller's parameters fixed.\<close>

datatype presence_write = Promote string string | Demote string time

fun presence_key :: "presence_write \<Rightarrow> string" where
  "presence_key (Promote did ip) = did"
| "presence_key (Demote did threshold) = did"

definition announce :: "bool \<Rightarrow> (store_err + bool) \<times> db \<Rightarrow> bool option \<times> db" where
  "announce b z = ((if fst z = Inr True then Some b else None), snd z)"

fun presence_step :: "presence_write \<Rightarrow> db \<Rightarrow> bool option \<times> db" where
  "presence_step (Promote did ip) d = announce True (MarkOnlineIfOffline did ip d)"
| "presence_step (Demote did threshold) d = announce False (MarkOfflineIfStale did threshold d)"

lemma device_row_update:
  assumes "\<And>r. device_id (f r) = device_id r"
  shows "device_row (d\<lparr>devices := update_where P f (devices d)\<rparr>) did =
    map_option (\<lambda>r. if P r then f r else r) (device_row d did)"
  using assms by (simp add: device_row_def is_online_update)

lemma device_row_Some: "device_row d did = Some r \<Longrightarrow> r \<in> set (devices d) \<and> device_id r = did"
  unfolding device_row_def by (rule find_Some_in)

lemma device_row_iff:
  "store_inv d \<Longrightarrow> device_row d did = Some r \<longleftrightarrow> r \<in> set (devices d) \<and> device_id r = did"
  by (simp add: device_row_def find_key_iff store_inv_def)

lemma device_row_None: "device_row d did = None \<longleftrightarrow> did \<notin> device_id ` set (devices d)"
  by (auto simp: device_row_def find_None_iff_ex)

lemma ex_row_iff:
  assumes "store_inv d"
  shows "(\<exists>r \<in> set (devices d). device_id r = did \<and> Q r) \<longleftrightarrow>
    (case device_row d did of None \<Rightarrow> False | Some r \<Rightarrow> Q r)"
proof (cases "device_row d did")
  case None
  then have "\<forall>r \<in> set (devices d). device_id r \<noteq> did" by (auto simp: device_row_None)
  with None show ?thesis by simp
next
  case (Some r)
  then have "r' \<in> set (devices d) \<and> device_id r' = did \<longleftrightarrow> r' = r" for r'
    using device_row_iff [OF assms, of did r'] by auto
  then have "(\<exists>x \<in> set (devices d). device_id x = did \<and> Q x) \<longleftrightarrow> Q r" by metis
  then show ?thesis using Some by simp
qed

lemma GetDevice_row:
  "GetDevice did d = (case device_row d did of None \<Rightarrow> (Inl ErrNotFound, d) | Some r \<Rightarrow> (Inr r, d))"
  by (simp add: GetDevice_def device_row_def query_row_def map_err_def notFoundOrErr_def split: option.split)

lemma MarkOnlineIfOffline_row:
  assumes "store_inv d"
  shows "fst (MarkOnlineIfOffline did ip d) =
      Inr (case device_row d did of None \<Rightarrow> False | Some r \<Rightarrow> dev_status r = StatusOffline)"
    and "device_row (snd (MarkOnlineIfOffline did ip d)) k =
      map_option (\<lambda>r. if k = did \<and> dev_status r = StatusOffline
        then r\<lparr>dev_status := StatusOnline, last_ip := (if ip = [] then last_ip r else ip)\<rparr> else r)
        (device_row d k)"
  using assms
  by (auto simp: MarkOnlineIfOffline_def Let_def affected_pos_iff ex_row_iff device_row_update
      dest: device_row_Some split: option.splits intro!: map_option_cong)

lemma MarkOfflineIfStale_row:
  assumes "store_inv d"
  shows "fst (MarkOfflineIfStale did th d) =
      Inr (case device_row d did of None \<Rightarrow> False
           | Some r \<Rightarrow> dev_status r = StatusOnline \<and> last_heartbeat r < th)"
    and "device_row (snd (MarkOfflineIfStale did th d)) k =
      map_option (\<lambda>r. if k = did \<and> dev_status r = StatusOnline \<and> last_heartbeat r < th
        then r\<lparr>dev_status := StatusOffline\<rparr> else r) (device_row d k)"
  using assms
  by (auto simp: MarkOfflineIfStale_def Let_def affected_pos_iff ex_row_iff device_row_update
      dest: device_row_Some split: option.splits intro!: map_option_cong)

interpretation presence: announcing is_online presence_step presence_key store_inv
proof (unfold_locales, goal_cases)
  case (1 d w k)
  then show ?case
    by (cases w) (auto simp: is_online_def announce_def MarkOnlineIfOffline_row
        MarkOfflineIfStale_row split: option.splits if_splits)
next
  case (2 d w b)
  then show ?case
    by (cases w) (auto simp: is_online_def announce_def MarkOnlineIfOffline_row
        MarkOfflineIfStale_row split: option.splits if_splits)
next
  case (3 d w k)
  then show ?case
    by (cases w) (auto simp: is_online_def announce_def MarkOnlineIfOffline_row
        MarkOfflineIfStale_row split: option.splits if_splits)
next
  case (4 d w)
  then show ?case by (cases w) (simp_all add: announce_def inv_device_updates)
qed

subsection \<open>Join tokens\<close>

definition has_token :: "string \<Rightarrow> db \<Rightarrow> bool" where
  "has_token tok d \<longleftrightarrow> tok \<in> token ` set (pending_join_tokens d)"

text \<open>The claim as its caller sees it: the reported flag.\<close>

definition claim_flag :: "string \<Rightarrow> time \<Rightarrow> db \<Rightarrow> bool \<times> db" where
  "claim_flag tok now d = (case ClaimJoinToken tok now d of (Inr b, d') \<Rightarrow> (b, d') | (Inl _, d') \<Rightarrow> (False, d'))"

lemma filter_key_length:
  "distinct (map k xs) \<Longrightarrow> length (filter (\<lambda>x. k x = a \<and> Q x) xs) = (if \<exists>x \<in> set xs. k x = a \<and> Q x then 1 else 0)"
proof (induction xs)
  case (Cons x xs)
  then show ?case
    by (cases "k x = a") (auto simp: image_iff filter_empty_conv)
qed simp

lemma ClaimJoinToken_flag:
  assumes "store_inv d"
  shows "fst (ClaimJoinToken tok now d) =
    Inr (\<exists>t \<in> set (pending_join_tokens d). token t = tok \<and> token_expires_at t > now)"
  using filter_key_length [OF store_invD(3) [OF assms], of tok "\<lambda>t. token_expires_at t > now"]
  by (simp add: ClaimJoinToken_def Let_def affected_def)

interpretation join_tokens: claimable has_token claim_flag store_inv
proof (unfold_locales, goal_cases)
  case (1 d t n)
  then show ?case using ClaimJoinToken_flag [OF 1(1), of t n]
    by (auto simp: claim_flag_def has_token_def split: prod.splits sum.splits)
next
  case (2 d t n)
  from 2(2) have "\<exists>x \<in> set (pending_join_tokens d). token x = t \<and> token_expires_at x > n"
    using ClaimJoinToken_flag [OF 2(1), of t n] by (auto simp: claim_flag_def split: prod.splits sum.splits)
  then have "\<not> (\<exists>x \<in> set (pending_join_tokens d). token x = t \<and> \<not> token_expires_at x > n)"
    using distinct_key_unique [OF store_invD(3) [OF 2(1)]] by metis
  then show ?case
    by (auto simp: claim_flag_def has_token_def ClaimJoinToken_def Let_def)
next
  case (3 d t' t n)
  then show ?case by (auto simp: claim_flag_def has_token_def ClaimJoinToken_def Let_def)
next
  case (4 d t n)
  from 4(2) have "\<not> (\<exists>x \<in> set (pending_join_tokens d). token x = t \<and> token_expires_at x > n)"
    using ClaimJoinToken_flag [OF 4(1), of t n] by (auto simp: claim_flag_def split: prod.splits sum.splits)
  then have "delete_where (\<lambda>r. token r = t \<and> token_expires_at r > n) (pending_join_tokens d) = pending_join_tokens d"
    by (auto simp: delete_where_def filter_id_conv)
  then show ?case by (simp add: claim_flag_def ClaimJoinToken_def Let_def)
next
  case (5 d t n)
  then show ?case using inv_token_updates(2) [OF 5, of t n]
    by (auto simp: claim_flag_def split: prod.splits sum.splits)
qed

end
