(* ===== verification/HubActions.thy ===== *)
theory HubActions
  imports Server StoreProps
begin

text \<open>
  The alphabet of the hub: every atomic action its goroutines perform, as an inductive
  predicate, and for every operation the proof that it is made of these actions. An invariant
  of the shared state is then established by a case analysis over the alphabet alone
  (locale \<open>hub_invariant\<close>), and holds under every interleaving of the operations.

  The alphabet has two parameters: \<open>A\<close>, the devices that may register and subscribe, and
  \<open>late\<close>, whether the unlocked send of \<open>sendToDevice\<close> occurs.
\<close>

subsection \<open>Writes to the store\<close>

inductive store_write :: "(db \<Rightarrow> db) \<Rightarrow> bool" where
  query: "store_write (\<lambda>d. d)"
| create: "dev_status x = StatusRegistered \<Longrightarrow> store_write (\<lambda>d. snd (CreateDevice x d))"
| offline: "store_write (\<lambda>d. snd (UpdateDeviceStatus did StatusOffline ip port d))"
| rename: "store_write (\<lambda>d. snd (UpdateDeviceNickname did nick d))"
| demote: "store_write (\<lambda>d. snd (MarkOfflineIfStale did th d))"
| all_offline: "store_write (\<lambda>d. snd (MarkAllOffline d))"
| beat: "store_write (\<lambda>d. snd (UpdateHeartbeat now did d))"
| delete: "store_write (\<lambda>d. snd (DeleteDevice did d))"
| prune: "store_write (\<lambda>d. snd (DeletePrunedDevices th active d))"
| shares: "store_write (\<lambda>d. snd (SetShares did shs d))"
| pairing: "store_write (\<lambda>d. snd (CreatePairing now a b d))"
| invite: "store_write (\<lambda>d. snd (CreateInvite v d))"
| attempts: "store_write (\<lambda>d. snd (IncrementInviteAttempts code d))"
| uninvite: "store_write (\<lambda>d. snd (DeleteInvite code d))"
| expire_invites: "store_write (\<lambda>d. snd (DeleteExpiredInvites now d))"
| issue: "store_write (\<lambda>d. snd (CreateJoinToken t d))"
| claim: "store_write (\<lambda>d. snd (ClaimJoinToken tok now d))"
| expire_tokens: "store_write (\<lambda>d. snd (DeleteExpiredJoinTokens now d))"

definition exec_write :: "(db \<Rightarrow> db) \<Rightarrow> hub \<Rightarrow> hub" where
  "exec_write w s = (case next_fault s of (b, s1) \<Rightarrow> if b then s1 else s1\<lparr>hdb := w (hdb s1)\<rparr>)"

lemma snd_exec_sql: "snd (exec_sql f s) = exec_write (\<lambda>d. snd (f d)) s"
  by (simp add: exec_sql_def exec_write_def split: prod.split)

subsection \<open>The alphabet\<close>

inductive hub_action :: "string set \<Rightarrow> bool \<Rightarrow> (hub \<Rightarrow> hub) \<Rightarrow> bool" for A late where
  read: "hub_action A late (\<lambda>s. s)"
| statement: "store_write w \<Longrightarrow> hub_action A late (exec_write w)"
| broadcast: "hub_action A late (broadcastLocked ev excl)"
| broadcast_all: "hub_action A late (broadcast_all ev)"
| unsub_one: "hub_action A late (remove_subscriber did)"
| subscribe: "did \<in> A \<Longrightarrow> hub_action A late (\<lambda>s. snd (add_subscriber did s))"
| unsubscribe: "hub_action A late (unsubscribe did c)"
| close_all: "hub_action A late (\<lambda>s. snd (close_all s))"
| drain: "hub_action A late (\<lambda>s. s\<lparr>draining := True\<rparr>)"
| recover: "hub_action A late (\<lambda>s. snd (recover_section did ip ev s))"
| register: "did \<in> A \<Longrightarrow> hub_action A late (\<lambda>s. snd (mark_online_section did ip port s))"
| receive: "hub_action A late (\<lambda>s. snd (recv_chan c s))"
| send: "late \<Longrightarrow> hub_action A late (send_chan ev c)"

subsection \<open>Invariants of the alphabet are invariants of the operations\<close>

locale hub_invariant =
  fixes A :: "string set" and late :: bool and I :: "hub \<Rightarrow> bool"
  assumes action_keeps: "hub_action A late f \<Longrightarrow> I s \<Longrightarrow> I (f s)"
begin

lemma safe_action: "(\<And>s. snd (f s) = g s) \<Longrightarrow> hub_action A late g \<Longrightarrow> safe I (atom f)"
  by (rule safe_atom) (simp add: action_keeps)

lemma safe_read: "(\<And>s. snd (f s) = s) \<Longrightarrow> safe I (atom f)"
  by (rule safe_action [OF _ hub_action.read])

lemma safe_sql: "store_write (\<lambda>d. snd (f d)) \<Longrightarrow> safe I (sql f)"
  unfolding sql_def by (rule safe_action [OF snd_exec_sql]) (rule hub_action.statement)

lemma safe_query: "(\<And>d. snd (f d) = d) \<Longrightarrow> safe I (sql f)"
  by (rule safe_sql) (simp add: store_write.query)

lemma safe_queries:
  "safe I (sql (GetDevice did))" "safe I (sql (GetDeviceByNickname nick))"
  "safe I (sql ListOnlineDevices)" "safe I (sql ListAllDevices)" "safe I (sql (GetStaleDevices th))"
  "safe I (sql (GetShares did))" "safe I (sql (GetSharesForDevices ids))" "safe I (sql (IsPaired a b))"
  "safe I (sql (GetInvite code))" "safe I (sql (GetJoinToken tok))"
  by (rule safe_query; simp add: GetDevice_def GetDeviceByNickname_def ListOnlineDevices_def
      ListAllDevices_def GetStaleDevices_def GetShares_def GetSharesForDevices_def IsPaired_def
      GetInvite_def GetJoinToken_def Let_def)+

lemma safe_writes:
  "dev_status x = StatusRegistered \<Longrightarrow> safe I (sql (CreateDevice x))"
  "safe I (sql (UpdateDeviceStatus did StatusOffline ip port))"
  "safe I (sql (UpdateDeviceNickname did nick))" "safe I (sql (MarkOfflineIfStale did th))"
  "safe I (sql MarkAllOffline)" "safe I (sql (UpdateHeartbeat now did))"
  "safe I (sql (DeleteDevice did))" "safe I (sql (DeletePrunedDevices th active))"
  "safe I (sql (SetShares did shs))" "safe I (sql (CreatePairing now a b))"
  "safe I (sql (CreateInvite v))" "safe I (sql (IncrementInviteAttempts code))"
  "safe I (sql (DeleteInvite code))" "safe I (sql (DeleteExpiredInvites now))"
  "safe I (sql (CreateJoinToken t))" "safe I (sql (ClaimJoinToken tok now))"
  "safe I (sql (DeleteExpiredJoinTokens now))"
  by (rule safe_sql; auto intro: store_write.intros)+

lemma safe_sections:
  "safe I (Broadcast ev excl)" "safe I (BroadcastAll ev)" "safe I (removeSubscriber did)"
  "did \<in> A \<Longrightarrow> safe I (Subscribe did)" "safe I (Unsub did c)" "safe I CloseAllSubscribers"
  "safe I ActiveSubscribers" "safe I Drain" "safe I Draining" "safe I (canRecover did)"
  "safe I (recoverAndAnnounce did ip ev)" "did \<in> A \<Longrightarrow> safe I (markOnlineUnlessDraining did ip port)"
  "safe I (lookup_subscriber did)" "late \<Longrightarrow> safe I (late_send ev c)" "safe I (atom (recv_chan c))"
  unfolding Broadcast_def BroadcastAll_def removeSubscriber_def Subscribe_def Unsub_def
    CloseAllSubscribers_def ActiveSubscribers_def Drain_def Draining_def canRecover_def
    recoverAndAnnounce_def markOnlineUnlessDraining_def lookup_subscriber_def late_send_def
  by (rule safe_action, simp, rule hub_action.intros; assumption?)+

lemmas safe_steps = safe_queries safe_writes safe_sections safe_intros

lemma safe_BroadcastDeviceRemoved: "safe I (BroadcastDeviceRemoved d)"
  unfolding BroadcastDeviceRemoved_def by (rule safe_sections)

lemma safe_writeErr: "safe I (writeErr did e)"
  unfolding writeErr_def by (intro safe_steps)

lemma safe_consumeJoinToken: "safe I (consumeJoinToken now now' tok)"
  unfolding consumeJoinToken_def by (intro safe_steps)

lemma safe_IssueJoinToken: "safe I (IssueJoinToken ttl code now)"
  unfolding IssueJoinToken_def Let_def by (intro safe_steps)

lemma safe_Join: "safe I (Join sign ca clk did nick ip tok)"
  unfolding Join_def by (intro safe_steps safe_consumeJoinToken) simp

lemma safe_Register: "did \<in> A \<Longrightarrow> safe I (Register now did ip port shs v)"
  unfolding Register_def Let_def by (intro safe_steps safe_writeErr)

lemma safe_Rename: "safe I (Rename did nick)"
  unfolding Rename_def by (intro safe_steps)

lemma safe_Heartbeat: "safe I (Heartbeat now did ip)"
  unfolding Heartbeat_def Let_def by (intro safe_steps)

lemma safe_UpdateShares: "safe I (UpdateShares did shs)"
  unfolding UpdateShares_def by (intro safe_steps)

lemma safe_Deregister: "safe I (Deregister did)"
  unfolding Deregister_def by (intro safe_steps)

lemma safe_Leave: "safe I (Leave did)"
  unfolding Leave_def by (intro safe_steps safe_BroadcastDeviceRemoved)

lemma safe_MarkOffline: "safe I (MarkOffline d th)"
  unfolding MarkOffline_def by (intro safe_steps)

lemma safe_checkStale: "safe I (checkStale m now)"
  unfolding checkStale_def Let_def by (intro safe_steps safe_MarkOffline)

lemma safe_pruneInactive: "safe I (pruneInactive m now)"
  unfolding pruneInactive_def Let_def by (intro safe_steps safe_BroadcastDeviceRemoved)

lemma safe_monitor_loop: "safe I (monitor_loop m n ticks)"
  by (induction m n ticks rule: monitor_loop.induct)
    (auto simp: Let_def intro!: safe_steps safe_checkStale safe_pruneInactive)

lemma safe_shutdown:
  "safe I ReconcileDeviceStatuses" "safe I sweepOnlineDevices" "safe I stop_registry"
  unfolding ReconcileDeviceStatuses_def sweepOnlineDevices_def stop_registry_def
  by (intro safe_steps)+

lemma safe_ListDevicesWithShares: "safe I ListDevicesWithShares"
  unfolding ListDevicesWithShares_def by (intro safe_steps)

lemma safe_sendToDevice: "late \<Longrightarrow> safe I (sendToDevice did ev)"
  unfolding sendToDevice_def by (intro safe_steps)

lemma safe_RequestPairing: "late \<Longrightarrow> safe I (RequestPairing now code frm dest key)"
  unfolding RequestPairing_def by (intro safe_steps safe_sendToDevice)

lemma safe_ConfirmPairing: "late \<Longrightarrow> safe I (ConfirmPairing now now' did code key)"
  unfolding ConfirmPairing_def by (intro safe_steps safe_sendToDevice)

lemma safe_forward_loop: "safe I (forward_loop c cs sent)"
  by (induction c cs sent rule: forward_loop.induct) (auto intro!: safe_steps)

lemma safe_token_sweeper: "safe I (token_sweeper ticks)"
  unfolding token_sweeper_def by (intro safe_steps)

end

subsection \<open>The goroutines of the hub\<close>

text \<open>
  What runs concurrently in the hub process: handlers of unary RPCs and of Subscribe streams,
  the heartbeat monitor, the sweeper of join tokens, the command that issues tokens (a second
  process on the same database), and the shutdown sequence.
\<close>

datatype hub_task =
    ServeTask serve_env rpc_ctx rpc
  | StreamTask rpc_ctx bool "loop_choice list"
  | MonitorTask monitor_cfg "tick list"
  | SweeperTask "time list"
  | IssueTask duration string time
  | StopTask

fun task_proc :: "hub_task \<Rightarrow> (hub, unit) proc" where
  "task_proc (ServeTask env ctx r) = bind_proc (serve env ctx r) (\<lambda>_. Ret ())"
| "task_proc (StreamTask ctx ready_ok cs) = bind_proc (serve_stream ctx ready_ok cs) (\<lambda>_. Ret ())"
| "task_proc (MonitorTask m ticks) = monitor_Start m ticks"
| "task_proc (SweeperTask ticks) = token_sweeper ticks"
| "task_proc (IssueTask ttl code now) = bind_proc (IssueJoinToken ttl code now) (\<lambda>_. Ret ())"
| "task_proc StopTask = bind_proc stop_registry (\<lambda>_. Ret ())"

text \<open>The tasks the parameters of the alphabet admit.\<close>

definition caller_in :: "string set \<Rightarrow> rpc_ctx \<Rightarrow> bool" where
  "caller_in A ctx \<longleftrightarrow> (case ExtractDeviceID ctx of Inl _ \<Rightarrow> True | Inr did \<Rightarrow> did \<in> A)"

fun admitted_rpc :: "string set \<Rightarrow> bool \<Rightarrow> rpc_ctx \<Rightarrow> rpc \<Rightarrow> bool" where
  "admitted_rpc A late ctx (RRegister shs port version) = caller_in A ctx"
| "admitted_rpc A late ctx (RRequestPairing nick key) = late"
| "admitted_rpc A late ctx (RConfirmPairing code key) = late"
| "admitted_rpc A late ctx r = True"

fun admitted :: "string set \<Rightarrow> bool \<Rightarrow> hub_task \<Rightarrow> bool" where
  "admitted A late (ServeTask env ctx r) = admitted_rpc A late ctx r"
| "admitted A late (StreamTask ctx ready_ok cs) = caller_in A ctx"
| "admitted A late t = True"

lemma caller_in_UNIV [simp]: "caller_in UNIV ctx"
  by (simp add: caller_in_def split: sum.split)

lemma admitted_rpc_all [simp]: "admitted_rpc UNIV True ctx r"
  by (cases r) simp_all

lemma admitted_all [simp]: "admitted UNIV True t"
  by (cases t) simp_all

context hub_invariant
begin

lemma safe_interceptors:
  "safe I h \<Longrightarrow> safe I (DrainInterceptor h)" "safe I h \<Longrightarrow> safe I (AuthInterceptor j ctx h)"
  unfolding DrainInterceptor_def AuthInterceptor_def by (intro safe_steps | assumption)+

lemmas server_defs =
  Server_Join_def Server_Register_def Server_Rename_def Server_Heartbeat_def
  Server_UpdateShares_def Server_Deregister_def Server_Leave_def Server_RequestPairing_def
  Server_ConfirmPairing_def Server_ListDevices_def RegistryGetSharesForDevices_def

lemmas safe_operations =
  safe_Join safe_Register safe_Rename safe_Heartbeat safe_UpdateShares safe_Deregister safe_Leave
  safe_RequestPairing safe_ConfirmPairing safe_ListDevicesWithShares

lemma safe_caller:
  "caller_in A ctx \<Longrightarrow> (\<And>did. did \<in> A \<Longrightarrow> safe I (p did)) \<Longrightarrow>
   safe I (case ExtractDeviceID ctx of Inl e \<Rightarrow> fail e | Inr did \<Rightarrow> p did)"
  by (auto simp: caller_in_def split: sum.splits)

lemma safe_handle_rpc: "admitted_rpc A late ctx r \<Longrightarrow> safe I (handle_rpc env ctx r)"
proof (cases r)
  case (RRegister shs port version)
  assume "admitted_rpc A late ctx r"
  with RRegister have "caller_in A ctx" by simp
  then show ?thesis unfolding RRegister handle_rpc.simps server_defs
    by (rule safe_caller) (intro safe_steps safe_operations)
qed (auto simp: server_defs intro!: safe_steps safe_operations)

lemma safe_serve_stream: "caller_in A ctx \<Longrightarrow> safe I (serve_stream ctx ready_ok cs)"
  unfolding serve_stream_def Server_Subscribe_def
  by (intro safe_interceptors safe_caller safe_steps safe_forward_loop)

lemma safe_task: "admitted A late t \<Longrightarrow> safe I (task_proc t)"
  by (cases t) (auto simp: serve_def monitor_Start_def intro!: safe_bind safe_interceptors
      safe_handle_rpc safe_serve_stream safe_monitor_loop safe_token_sweeper safe_IssueJoinToken
      safe_shutdown)

theorem every_interleaving:
  assumes "interleaves (map task_proc ts, s) (ps, s')"
    and "\<forall>t \<in> set ts. admitted A late t" and "I s"
  shows "I s'"
  using interleaves_safe [OF assms(1), of I] assms(2,3) safe_task by auto

end

end
