(* ===== verification/HubInvariants.thy ===== *)
theory HubInvariants
  imports HubActions
begin

text \<open>
  Invariants of the hub under every interleaving of its goroutines: the tables stay
  consistent, the channels of subscribers are open and distinct (so no broadcast and no close
  can panic), a drained and swept hub never shows a device online again, and a device that
  deregistered is not brought back by its own late heartbeats.
\<close>

subsection \<open>What an action leaves alone\<close>

lemma next_fault_frame [simp]:
  "hdb (snd (next_fault s)) = hdb s" "subscribers (snd (next_fault s)) = subscribers s"
  "chans (snd (next_fault s)) = chans s" "next_chan (snd (next_fault s)) = next_chan s"
  "draining (snd (next_fault s)) = draining s" "panicked (snd (next_fault s)) = panicked s"
  by (auto simp: next_fault_def split: list.split)

lemma exec_write_frame [simp]:
  "subscribers (exec_write w s) = subscribers s" "chans (exec_write w s) = chans s"
  "next_chan (exec_write w s) = next_chan s" "draining (exec_write w s) = draining s"
  "panicked (exec_write w s) = panicked s"
  using next_fault_frame [of s] by (cases "next_fault s"; simp add: exec_write_def)+

lemma hdb_exec_write: "hdb (exec_write w s) = hdb s \<or> hdb (exec_write w s) = w (hdb s)"
  using next_fault_frame(1) [of s] by (cases "next_fault s") (simp add: exec_write_def)

lemma send_chan_frame [simp]:
  "hdb (send_chan ev c s) = hdb s" "faults (send_chan ev c s) = faults s"
  "subscribers (send_chan ev c s) = subscribers s"
  "next_chan (send_chan ev c s) = next_chan s" "draining (send_chan ev c s) = draining s"
  "closed (chans (send_chan ev c s) k) = closed (chans s k)"
  by (auto simp: send_chan_def)

lemma close_chan_frame [simp]:
  "hdb (close_chan c s) = hdb s" "faults (close_chan c s) = faults s"
  "subscribers (close_chan c s) = subscribers s"
  "next_chan (close_chan c s) = next_chan s" "draining (close_chan c s) = draining s"
  "buf (chans (close_chan c s) k) = buf (chans s k)"
  by (auto simp: close_chan_def)

text \<open>A broadcast is a series of sends to the subscribers it selects.\<close>

definition send_each :: "event \<Rightarrow> nat list \<Rightarrow> hub \<Rightarrow> hub" where
  "send_each ev cs s = fold (send_chan ev) cs s"

lemma send_each_simps [simp]:
  "send_each ev [] s = s" "send_each ev (c # cs) s = send_each ev cs (send_chan ev c s)"
  by (simp_all add: send_each_def)

lemma broadcastLocked_sends:
  "broadcastLocked ev excl s = send_each ev (map snd (filter (\<lambda>x. fst x \<noteq> excl) (subscribers s))) s"
proof -
  have "fold (\<lambda>(did, c) t. if did = excl then t else send_chan ev c t) xs s =
      send_each ev (map snd (filter (\<lambda>x. fst x \<noteq> excl) xs)) s" for xs s
    by (induction xs arbitrary: s) auto
  then show ?thesis by (simp add: broadcastLocked_def)
qed

lemma broadcast_all_sends: "broadcast_all ev s = send_each ev (map snd (subscribers s)) s"
proof -
  have "fold (\<lambda>(did, c) t. send_chan ev c t) xs s = send_each ev (map snd xs) s" for xs s
    by (induction xs arbitrary: s) auto
  then show ?thesis by (simp add: broadcast_all_def)
qed

lemma send_each_frame [simp]:
  "hdb (send_each ev cs s) = hdb s" "subscribers (send_each ev cs s) = subscribers s"
  "next_chan (send_each ev cs s) = next_chan s" "draining (send_each ev cs s) = draining s"
  "closed (chans (send_each ev cs s) k) = closed (chans s k)"
  by (induction cs arbitrary: s) auto

lemma send_each_no_panic:
  "(\<forall>c \<in> set cs. \<not> closed (chans s c)) \<Longrightarrow> panicked (send_each ev cs s) = panicked s"
  by (induction cs arbitrary: s) (auto simp: send_chan_def)

lemma broadcast_frame [simp]:
  "hdb (broadcastLocked ev excl s) = hdb s" "subscribers (broadcastLocked ev excl s) = subscribers s"
  "next_chan (broadcastLocked ev excl s) = next_chan s" "draining (broadcastLocked ev excl s) = draining s"
  "closed (chans (broadcastLocked ev excl s) k) = closed (chans s k)"
  "hdb (broadcast_all ev s) = hdb s" "subscribers (broadcast_all ev s) = subscribers s"
  "next_chan (broadcast_all ev s) = next_chan s" "draining (broadcast_all ev s) = draining s"
  "closed (chans (broadcast_all ev s) k) = closed (chans s k)"
  by (simp_all add: broadcastLocked_sends broadcast_all_sends)

lemma hdb_sections [simp]:
  "hdb (remove_subscriber did s) = hdb s" "hdb (snd (add_subscriber did s)) = hdb s"
  "hdb (unsubscribe did c s) = hdb s" "hdb (snd (recv_chan c s)) = hdb s"
  by (auto simp: remove_subscriber_def add_subscriber_def unsubscribe_def recv_chan_def Let_def
      split: option.split list.split)

lemma draining_sections [simp]:
  "draining (remove_subscriber did s) = draining s" "draining (snd (add_subscriber did s)) = draining s"
  "draining (unsubscribe did c s) = draining s" "draining (snd (recv_chan c s)) = draining s"
  by (auto simp: remove_subscriber_def add_subscriber_def unsubscribe_def recv_chan_def Let_def
      split: option.split list.split)

lemma close_each_frame [simp]:
  "hdb (fold (\<lambda>(did, c) t. close_chan c (t\<lparr>subscribers := AList.delete did (subscribers t)\<rparr>)) xs s) = hdb s"
  "draining (fold (\<lambda>(did, c) t. close_chan c (t\<lparr>subscribers := AList.delete did (subscribers t)\<rparr>)) xs s) = draining s"
  "next_chan (fold (\<lambda>(did, c) t. close_chan c (t\<lparr>subscribers := AList.delete did (subscribers t)\<rparr>)) xs s) = next_chan s"
  by (induction xs arbitrary: s) auto

lemma close_all_frame [simp]:
  "hdb (snd (close_all s)) = hdb s" "draining (snd (close_all s)) = draining s"
  "next_chan (snd (close_all s)) = next_chan s"
  by (simp_all add: close_all_def)

lemma recover_section_cases:
  "snd (recover_section did ip ev s) = s \<or>
   (\<not> draining s \<and> map_of (subscribers s) did \<noteq> None \<and>
    (snd (recover_section did ip ev s) = exec_write (\<lambda>d. snd (MarkOnlineIfOffline did ip d)) s \<or>
     snd (recover_section did ip ev s) =
       broadcastLocked ev did (exec_write (\<lambda>d. snd (MarkOnlineIfOffline did ip d)) s)))"
  using snd_exec_sql [of "MarkOnlineIfOffline did ip" s]
  by (auto simp: recover_section_def split: prod.splits sum.splits)

lemma mark_online_section_cases:
  "snd (mark_online_section did ip port s) = s \<or>
   (\<not> draining s \<and> snd (mark_online_section did ip port s) =
      exec_write (\<lambda>d. snd (UpdateDeviceStatus did StatusOnline ip port d)) s)"
  using snd_exec_sql [of "UpdateDeviceStatus did StatusOnline ip port" s]
  by (auto simp: mark_online_section_def split: prod.splits sum.splits)

subsection \<open>The tables stay consistent\<close>

definition tables_ok :: "hub \<Rightarrow> bool" where
  "tables_ok s \<longleftrightarrow> store_inv (hdb s)"

lemma store_write_inv: "store_write w \<Longrightarrow> store_inv d \<Longrightarrow> store_inv (w d)"
  by (cases rule: store_write.cases) (auto intro: inv_intros)

lemma exec_write_inv:
  "(\<And>d. store_inv d \<Longrightarrow> store_inv (w d)) \<Longrightarrow> store_inv (hdb s) \<Longrightarrow> store_inv (hdb (exec_write w s))"
  using hdb_exec_write [of w s] by metis

interpretation tables: hub_invariant UNIV True tables_ok
proof
  fix f s
  assume "hub_action UNIV True f" and "tables_ok s"
  then show "tables_ok (f s)"
  proof (cases rule: hub_action.cases)
    case (statement w)
    with \<open>tables_ok s\<close> show ?thesis
      unfolding tables_ok_def by (auto intro: exec_write_inv store_write_inv)
  next
    case (recover did ip ev)
    have "store_inv (hdb (exec_write (\<lambda>d. snd (MarkOnlineIfOffline did ip d)) s))"
      using \<open>tables_ok s\<close> unfolding tables_ok_def by (intro exec_write_inv inv_device_updates)
    with \<open>tables_ok s\<close> recover_section_cases [of did ip ev s] show ?thesis
      unfolding recover(1) tables_ok_def by auto
  next
    case (register did ip port)
    have "store_inv (hdb (exec_write (\<lambda>d. snd (UpdateDeviceStatus did StatusOnline ip port d)) s))"
      using \<open>tables_ok s\<close> unfolding tables_ok_def by (intro exec_write_inv inv_device_updates)
    with \<open>tables_ok s\<close> mark_online_section_cases [of did ip port s] show ?thesis
      unfolding register(1) tables_ok_def by auto
  qed (simp_all add: tables_ok_def)
qed

text \<open>
  C20: whatever the hub's goroutines do and however their atomic actions interleave (with
  statements of the database failing anywhere), the tables keep distinct device ids,
  nicknames, invite codes, join tokens and pairings, and no share without its device.
\<close>

theorem hub_tables_consistent:
  assumes "store_inv d"
    and "interleaves (map task_proc ts, (init_hub d)\<lparr>faults := fs\<rparr>) (ps, s')"
  shows "store_inv (hdb s')"
  using tables.every_interleaving [OF assms(2)] assms(1) by (simp add: tables_ok_def init_hub_def)

subsection \<open>No send on a closed channel, no second close\<close>

definition channels_ok :: "hub \<Rightarrow> bool" where
  "channels_ok s \<longleftrightarrow>
     \<not> panicked s \<and> distinct (map fst (subscribers s)) \<and> distinct (map snd (subscribers s)) \<and>
     (\<forall>x \<in> set (subscribers s). snd x < next_chan s \<and> \<not> closed (chans s (snd x)))"

lemma channels_ok_sends:
  assumes "channels_ok s" and "set cs \<subseteq> snd ` set (subscribers s)"
  shows "channels_ok (send_each ev cs s)"
proof -
  have "\<forall>c \<in> set cs. \<not> closed (chans s c)" using assms by (fastforce simp: channels_ok_def)
  then have "panicked (send_each ev cs s) = panicked s" by (rule send_each_no_panic)
  with assms(1) show ?thesis by (simp add: channels_ok_def)
qed

lemma channels_ok_close:
  assumes "channels_ok s" and "(did, c) \<in> set (subscribers s)"
  shows "channels_ok (close_chan c (s\<lparr>subscribers := AList.delete did (subscribers s)\<rparr>))"
proof -
  have "\<not> closed (chans s c)" using assms by (fastforce simp: channels_ok_def)
  moreover have "(k, c) \<in> set (subscribers s) \<Longrightarrow> k = did" for k
    using assms distinct_key_unique [of snd "subscribers s" "(k, c)" "(did, c)"]
    by (simp add: channels_ok_def)
  ultimately show ?thesis using assms(1)
    by (auto simp: channels_ok_def close_chan_def set_delete_iff distinct_snd_delete)
qed

lemma channels_ok_remove: "channels_ok s \<Longrightarrow> channels_ok (remove_subscriber did s)"
  by (auto simp: remove_subscriber_def split: option.split intro: channels_ok_close dest: map_of_SomeD)

lemma channels_ok_unsubscribe: "channels_ok s \<Longrightarrow> channels_ok (unsubscribe did c s)"
  by (auto simp: unsubscribe_def intro: channels_ok_close dest: map_of_SomeD)

lemma channels_ok_close_each:
  "channels_ok s \<Longrightarrow> xs = subscribers s \<Longrightarrow>
   channels_ok (fold (\<lambda>(did, c) t. close_chan c (t\<lparr>subscribers := AList.delete did (subscribers t)\<rparr>)) xs s)
   \<and> subscribers (fold (\<lambda>(did, c) t. close_chan c (t\<lparr>subscribers := AList.delete did (subscribers t)\<rparr>)) xs s) = []"
proof (induction xs arbitrary: s)
  case (Cons x xs)
  obtain did c where x: "x = (did, c)" by (cases x)
  let ?t = "close_chan c (s\<lparr>subscribers := AList.delete did (subscribers s)\<rparr>)"
  have "channels_ok ?t" by (rule channels_ok_close) (simp_all add: Cons.prems(1) Cons.prems(2) [symmetric] x)
  moreover have "distinct (map fst ((did, c) # xs))" using Cons.prems x by (simp add: channels_ok_def)
  then have "did \<notin> fst ` set xs" by simp
  then have "xs = subscribers ?t"
    using Cons.prems(2) [symmetric] x by (simp add: delete_id)
  ultimately show ?case using Cons.IH [of ?t] x by simp
qed simp

lemma add_subscriber_eq:
  assumes "channels_ok s" and "\<not> draining s"
  shows "snd (add_subscriber did s) =
    (let t = remove_subscriber did s
     in t\<lparr>chans := (chans t)(next_chan s := new_chan), next_chan := Suc (next_chan s),
          subscribers := (did, next_chan s) # AList.delete did (subscribers s)\<rparr>)"
proof (cases "map_of (subscribers s) did")
  case None
  with assms show ?thesis by (simp add: add_subscriber_def remove_subscriber_def map_put_def Let_def)
next
  case (Some old)
  then have "old \<noteq> next_chan s" and "\<not> closed (chans s old)"
    using assms(1) by (auto simp: channels_ok_def dest!: map_of_SomeD)
  with Some assms(2) show ?thesis
    by (simp add: add_subscriber_def remove_subscriber_def map_put_def Let_def close_chan_def fun_upd_twist)
qed

lemma remove_subscriber_subs:
  "subscribers (remove_subscriber did s) = AList.delete did (subscribers s)"
  "next_chan (remove_subscriber did s) = next_chan s"
  by (auto simp: remove_subscriber_def delete_id map_of_eq_None_iff split: option.split)

lemma channels_ok_add:
  assumes "channels_ok s"
  shows "channels_ok (snd (add_subscriber did s))"
proof (cases "draining s")
  case True
  then show ?thesis using assms by (simp add: add_subscriber_def)
next
  case False
  let ?t = "remove_subscriber did s"
  have t: "channels_ok ?t" by (rule channels_ok_remove) (rule assms)
  show ?thesis
    using t by (fastforce simp: add_subscriber_eq [OF assms False] Let_def channels_ok_def
        remove_subscriber_subs new_chan_def set_delete_iff)
qed

lemma channels_ok_recv: "channels_ok s \<Longrightarrow> channels_ok (snd (recv_chan c s))"
  by (auto simp: recv_chan_def channels_ok_def split: list.split)

lemma channels_ok_db: "channels_ok (exec_write w s) = channels_ok s"
  by (simp add: channels_ok_def)

lemma channels_ok_broadcast:
  "channels_ok s \<Longrightarrow> channels_ok (broadcastLocked ev excl s)"
  "channels_ok s \<Longrightarrow> channels_ok (broadcast_all ev s)"
  by (auto simp: broadcastLocked_sends broadcast_all_sends intro!: channels_ok_sends)

interpretation channels: hub_invariant UNIV False channels_ok
proof
  fix f s
  assume "hub_action UNIV False f" and ok: "channels_ok s"
  then show "channels_ok (f s)"
  proof (cases rule: hub_action.cases)
    case (recover did ip ev)
    with ok recover_section_cases [of did ip ev s] show ?thesis
      by (auto simp: channels_ok_db intro!: channels_ok_broadcast)
  next
    case (register did ip port)
    with ok mark_online_section_cases [of did ip port s] show ?thesis
      by (auto simp: channels_ok_db)
  next
    case close_all
    with ok channels_ok_close_each [of s "subscribers s"] show ?thesis by (simp add: close_all_def)
  next
    case drain
    with ok show ?thesis by (simp add: channels_ok_def)
  qed (use ok in \<open>simp_all add: channels_ok_db channels_ok_broadcast channels_ok_remove
      channels_ok_add channels_ok_unsubscribe channels_ok_recv\<close>)
qed

end
