(* ===== verification/Samples.thy ===== *)
theory Samples
  imports Server StoreProps
begin

text \<open>
  Concrete rows, call contexts and hub states. The witnesses of the properties evaluate the
  model on them.
\<close>

definition sample_env :: serve_env where
  "sample_env = \<lparr>sign_cert = (\<lambda>did. Some (''cert-'' @ did, ''key'')), ca_pem = ''ca'',
     jclock = \<lparr>now_claim = 10, now_diag = 10, now_row = 11\<rparr>, clock1 = 20, clock2 = 21,
     fresh_code = ''HUB-AAA-BBB'', err_text = (\<lambda>_. ''error'')\<rparr>"

definition sample_ctx :: "string \<Rightarrow> rpc_ctx" where
  "sample_ctx did = Some \<lparr>peer_addr = ''10.0.0.5:41000'', verified_chains = Some [[did]]\<rparr>"

definition sample_device :: "string \<Rightarrow> device" where
  "sample_device did = \<lparr>device_id = did, nickname = did @ ''-nick'', last_ip = ''10.0.0.5'',
     ssh_port = 2222, dev_status = StatusOnline, last_heartbeat = 5\<rparr>"

definition sample_db :: db where
  "sample_db = empty_db\<lparr>devices := [sample_device ''d1'', sample_device ''d2''],
     pending_join_tokens := [\<lparr>token = ''HUB-TOK-001'', token_expires_at = 100, token_attempts = 0,
                              token_created_at = 0\<rparr>]\<rparr>"

lemma sample_db_ok: "store_inv sample_db"
  by (simp add: store_inv_def sample_db_def empty_db_def sample_device_def)

definition sample_hub :: hub where
  "sample_hub = (init_hub (sample_db\<lparr>devices := [sample_device ''d1'',
      (sample_device ''d2'')\<lparr>dev_status := StatusOffline\<rparr>, (sample_device ''d3'')\<lparr>dev_status := StatusOffline\<rparr>]\<rparr>))
     \<lparr>subscribers := [(''d1'', 0), (''d2'', 1)], next_chan := 2\<rparr>"

lemmas sample_defs =
  sample_hub_def sample_db_def sample_device_def sample_ctx_def sample_env_def init_hub_def
  empty_db_def new_chan_def

lemma sample_hub_ok [simp]: "store_inv (hdb sample_hub)" "faults sample_hub = []" "\<not> draining sample_hub"
  by (simp_all add: sample_defs store_inv_def)

lemma sample_hub_fields [simp]:
  "subscribers sample_hub = [(''d1'', 0), (''d2'', 1)]" "chans sample_hub = (\<lambda>_. new_chan)"
  "next_chan sample_hub = 2" "panicked sample_hub = False"
  by (simp_all add: sample_hub_def init_hub_def)

end
