(* ===== verification/HubRaces.thy ===== *)
theory HubRaces
  imports HubInvariants Samples
begin

text \<open>
  Concurrency properties of the hub that need more than one invariant: which schedules can
  panic, what the shutdown and a deregistration leave behind whatever is still in flight, and
  the single success of a join token.
\<close>

subsection \<open>Sends and closes\<close>

text \<open>
  C12: without pairing RPCs no schedule of the hub's goroutines makes it send on a closed
  channel or close one twice.
\<close>

theorem hub_never_panics:
  assumes "interleaves (map task_proc ts, (init_hub d)\<lparr>faults := fs\<rparr>) (ps, s')"
    and "\<forall>t \<in> set ts. admitted UNIV False t"
  shows "\<not> panicked s'"
proof -
  have "channels_ok ((init_hub d)\<lparr>faults := fs\<rparr>)" by (simp add: channels_ok_def init_hub_def)
  then have "channels_ok s'" by (rule channels.every_interleaving [OF assms])
  then show ?thesis by (simp add: channels_ok_def)
qed

text \<open>
  C37: \<open>sendToDevice\<close> sends after it released the lock. When the subscription is closed
  between the lookup and the send, the send panics.
\<close>

theorem unlocked_send_panics:
  assumes "map_of (subscribers s) did = Some c" and "\<not> closed (chans s c)"
  shows "panicked (snd (exec_sched [0, 1, 0] ([sendToDevice did ev, removeSubscriber did], s)))"
  using assms
  by (simp add: sendToDevice_def lookup_subscriber_def late_send_def removeSubscriber_def atom_def
      pool_step_def remove_subscriber_def close_chan_def send_chan_def)

subsection \<open>Shutdown\<close>

text \<open>A drained hub that shows no device online.\<close>

definition all_offline :: "db \<Rightarrow> bool" where
  "all_offline d \<longleftrightarrow> (\<forall>r \<in> set (devices d). dev_status r \<noteq> StatusOnline)"

definition quiet :: "hub \<Rightarrow> bool" where
  "quiet s \<longleftrightarrow> draining s \<and> all_offline (hdb s)"

lemma devices_insert_shares: "devices (snd (insert_shares did shs d)) = devices d"
  by (induction shs arbitrary: d) auto

lemma devices_in_tx: "(\<And>d. devices (snd (b d)) = devices d) \<Longrightarrow> devices (snd (in_tx b d)) = devices d"
  by (auto simp: in_tx_def split: prod.splits sum.splits) (metis snd_conv)

lemma devices_SetShares [simp]: "devices (snd (SetShares did shs d)) = devices d"
  unfolding SetShares_def by (rule devices_in_tx) (simp add: devices_insert_shares)

lemma set_devices_DeleteDevice: "set (devices (snd (DeleteDevice did d))) \<subseteq> set (devices d)"
  by (auto simp: DeleteDevice_def in_tx_def cascade_result)

lemma DeletePrunedDevices_eq:
  "\<exists>d'. DeletePrunedDevices th active d = (Inr (prunable th active d), d') \<and>
     devices d' = filter (\<lambda>r. device_id r \<notin> device_id ` set (prunable th active d)) (devices d)"
  using delete_devices_result [of "prunable th active d" d]
  by (auto simp: DeletePrunedDevices_def in_tx_def Let_def)

lemma set_devices_prune: "set (devices (snd (DeletePrunedDevices th active d))) \<subseteq> set (devices d)"
proof -
  from DeletePrunedDevices_eq obtain d' where "DeletePrunedDevices th active d = (Inr (prunable th active d), d')"
    "devices d' = filter (\<lambda>r. device_id r \<notin> device_id ` set (prunable th active d)) (devices d)" by blast
  then show ?thesis by auto
qed

text \<open>
  No statement of \<open>store_write\<close> turns a device online: every row after the write is new and
  not online, or comes from a row with the same id whose status it keeps or takes offline.
\<close>

lemma write_no_promotion:
  assumes "store_write w" and "r' \<in> set (devices (w d))" and "dev_status r' = StatusOnline"
  shows "\<exists>r \<in> set (devices d). device_id r = device_id r' \<and> dev_status r = StatusOnline"
  using assms
proof (cases rule: store_write.cases)
  case (delete did)
  with assms(2,3) set_devices_DeleteDevice show ?thesis by blast
next
  case (prune th active)
  with assms(2,3) set_devices_prune show ?thesis by blast
qed (auto simp: CreateDevice_def UpdateDeviceStatus_def UpdateDeviceNickname_def MarkOfflineIfStale_def
    MarkAllOffline_def UpdateHeartbeat_def Let_def set_update_where CreatePairing_def CreateInvite_def
    IncrementInviteAttempts_def DeleteInvite_def DeleteExpiredInvites_def CreateJoinToken_def
    ClaimJoinToken_def DeleteExpiredJoinTokens_def split: if_splits)

lemma all_offline_write: "store_write w \<Longrightarrow> all_offline d \<Longrightarrow> all_offline (w d)"
  unfolding all_offline_def by (meson write_no_promotion)

lemma all_offline_exec: "store_write w \<Longrightarrow> all_offline (hdb s) \<Longrightarrow> all_offline (hdb (exec_write w s))"
  using hdb_exec_write [of w s] all_offline_write [of w "hdb s"] by auto

interpretation quiesced: hub_invariant UNIV True quiet
proof
  fix f s
  assume "hub_action UNIV True f" and q: "quiet s"
  then show "quiet (f s)"
  proof (cases rule: hub_action.cases)
    case (statement w)
    with q show ?thesis by (simp add: quiet_def all_offline_exec)
  qed (use q in \<open>simp_all add: quiet_def recover_section_def mark_online_section_def\<close>)
qed

text \<open>Draining is never undone, and the driver does not begin to fail on its own.\<close>

definition drained :: "hub \<Rightarrow> bool" where "drained s \<longleftrightarrow> draining s"
definition healthy :: "hub \<Rightarrow> bool" where "healthy s \<longleftrightarrow> faults s = []"

lemma healthy_exec_write [simp]: "healthy s \<Longrightarrow> exec_write w s = s\<lparr>hdb := w (hdb s)\<rparr>"
  by (simp add: healthy_def exec_write_def next_fault_def)

lemma healthy_exec_sql [simp]:
  "healthy s \<Longrightarrow> exec_sql f s = (fst (f (hdb s)), s\<lparr>hdb := snd (f (hdb s))\<rparr>)"
  by (simp add: healthy_def exec_sql_def next_fault_def split: prod.split)

lemma healthy_frame [simp]:
  "healthy (s\<lparr>hdb := d\<rparr>) = healthy s" "healthy (s\<lparr>draining := b\<rparr>) = healthy s"
  "healthy (s\<lparr>subscribers := m\<rparr>) = healthy s" "healthy (s\<lparr>chans := h\<rparr>) = healthy s"
  "healthy (send_chan ev c s) = healthy s" "healthy (close_chan c s) = healthy s"
  by (simp_all add: healthy_def)

lemma healthy_send_each [simp]: "healthy (send_each ev cs s) = healthy s"
  by (induction cs arbitrary: s) simp_all

lemma healthy_record [simp]:
  "healthy (s\<lparr>chans := h, next_chan := n\<rparr>) = healthy s"
  by (simp add: healthy_def)

lemma healthy_remove [simp]: "healthy (remove_subscriber did s) = healthy s"
  by (simp add: remove_subscriber_def split: option.split)

lemma healthy_add [simp]: "healthy (snd (add_subscriber did s)) = healthy s"
  by (simp add: add_subscriber_def Let_def split: option.split)

lemma healthy_unsubscribe [simp]: "healthy (unsubscribe did c s) = healthy s"
  by (simp add: unsubscribe_def)

lemma healthy_recv [simp]: "healthy (snd (recv_chan c s)) = healthy s"
  by (simp add: recv_chan_def split: list.split)

lemma healthy_broadcasts [simp]:
  "healthy (broadcastLocked ev did s) = healthy s" "healthy (broadcast_all ev s) = healthy s"
  by (simp_all add: broadcastLocked_sends broadcast_all_sends)

lemma healthy_close_all [simp]: "healthy (snd (close_all s)) = healthy s"
proof -
  have "healthy (fold (\<lambda>(did, c) t. close_chan c (t\<lparr>subscribers := AList.delete did (subscribers t)\<rparr>)) xs s)
      = healthy s" for xs
    by (induction xs arbitrary: s) (simp_all add: split_beta)
  then show ?thesis by (simp add: close_all_def)
qed

interpretation drain_kept: hub_invariant UNIV True drained
proof
  fix f s
  assume "hub_action UNIV True f" and q: "drained s"
  then show "drained (f s)"
    by (cases rule: hub_action.cases) (simp_all add: drained_def recover_section_def mark_online_section_def)
qed

interpretation health: hub_invariant UNIV True healthy
proof
  fix f s
  assume "hub_action UNIV True f" and q: "healthy s"
  then show "healthy (f s)"
  proof (cases rule: hub_action.cases)
    case (recover did ip ev)
    with q show ?thesis by (auto simp: recover_section_def split: sum.split)
  next
    case (register did ip port)
    with q show ?thesis by (auto simp: mark_online_section_def split: sum.split)
  qed (use q in simp_all)
qed

text \<open>What every goroutine guarantees to the shutdown.\<close>

definition calm :: "hub \<Rightarrow> hub \<Rightarrow> bool" where
  "calm s t \<longleftrightarrow> (\<forall>I \<in> {quiet, drained, healthy}. I s \<longrightarrow> I t)"

lemma calmD: "calm s t \<Longrightarrow> quiet s \<Longrightarrow> quiet t" "calm s t \<Longrightarrow> drained s \<Longrightarrow> drained t"
  "calm s t \<Longrightarrow> healthy s \<Longrightarrow> healthy t"
  by (simp_all add: calm_def)

lemma calm_order: "reflp calm" "transp calm"
  by (auto simp: calm_def intro: reflpI transpI)

lemma task_calm: "guarantees calm (task_proc t)"
proof -
  have "guarantees (\<lambda>s t. \<forall>I \<in> {quiet, drained, healthy}. I s \<longrightarrow> I t) (task_proc t)"
    by (rule safe_guarantees)
      (auto intro: quiesced.safe_task drain_kept.safe_task health.safe_task)
  then show ?thesis by (simp add: calm_def [abs_def])
qed

lemma all_offline_MarkAllOffline: "all_offline (snd (MarkAllOffline d))"
  by (simp add: all_offline_def MarkAllOffline_def Let_def ball_update_where)

lemma rg_BroadcastAll:
  "(\<And>t u. R s t \<Longrightarrow> R (broadcast_all ev t) u \<Longrightarrow> Q () u) \<Longrightarrow> rg R Q (BroadcastAll ev) s"
  unfolding BroadcastAll_def by (rule rg_atom) simp

lemma rg_sql:
  assumes "reflp R"
    and "\<And>t u. R s t \<Longrightarrow> R (snd (exec_sql f t)) u \<Longrightarrow>
      (case fst (exec_sql f t) of Inl e \<Rightarrow> rg R Q (h e) u | Inr x \<Rightarrow> rg R Q (k x) u)"
  shows "rg R Q (attempt (sql f) h k) s"
  unfolding sql_def
proof (rule rg_attempt [OF assms(1)], rule rg_atom)
  fix t u
  assume "R s t" and "R (snd (exec_sql f t)) u"
  from assms(2) [OF this] show "(case fst (exec_sql f t) of Inl e \<Rightarrow> rg R Q (h e) | Inr x \<Rightarrow> rg R Q (k x)) u"
    by (simp split: sum.splits)
qed

lemma rg_section:
  assumes "reflp R" and "\<And>t u. R s t \<Longrightarrow> R (snd (f t)) u \<Longrightarrow> rg R Q (k (fst (f t))) u"
  shows "rg R Q (bind_proc (atom f) k) s"
  by (rule rg_bind [OF assms(1)], rule rg_atom) (rule assms(2))

lemma rg_CloseAll: "quiet s \<Longrightarrow> rg calm (\<lambda>_ t. quiet t) CloseAllSubscribers s"
  unfolding CloseAllSubscribers_def by (rule rg_atom) (auto simp: quiet_def dest!: calmD(1))

lemma rg_announce:
  "quiet s \<Longrightarrow> rg calm (\<lambda>_ t. quiet t)
     (for_each ds (\<lambda>d. BroadcastAll (DeviceOffline (device_id d) (nickname d)))) s"
proof (induction ds arbitrary: s)
  case Nil
  then show ?case by (auto dest: calmD)
next
  case (Cons d ds)
  have "rg calm (\<lambda>_. rg calm (\<lambda>_ t. quiet t)
      (for_each ds (\<lambda>d. BroadcastAll (DeviceOffline (device_id d) (nickname d)))))
      (BroadcastAll (DeviceOffline (device_id d) (nickname d))) s"
    by (rule rg_BroadcastAll, rule Cons.IH) (use Cons.prems in \<open>auto simp: quiet_def dest!: calmD(1)\<close>)
  then show ?case by (simp add: rg_bind [OF calm_order(1)])
qed

lemma rg_sweep:
  assumes "drained s" and "healthy s"
  shows "rg calm (\<lambda>_ t. quiet t) sweepOnlineDevices s"
  unfolding sweepOnlineDevices_def
proof (rule rg_sql [OF calm_order(1)], goal_cases)
  case (1 t u)
  then have t: "drained t" "healthy t" and tu: "calm t u" using assms calmD by (auto simp: ListOnlineDevices_def)
  then have u: "drained u" "healthy u" using calmD by auto
  let ?online = "filter (\<lambda>r. dev_status r = StatusOnline) (devices (hdb t))"
  show ?case
  proof (cases "?online = []")
    case True
    then have "quiet t" using t(1) by (auto simp: quiet_def drained_def all_offline_def filter_empty_conv)
    with tu True t(2) show ?thesis by (auto simp: ListOnlineDevices_def dest: calmD)
  next
    case False
    have "rg calm (\<lambda>_ t. quiet t) (attempt (sql MarkAllOffline) (\<lambda>_. Ret ())
        (\<lambda>_. for_each ?online (\<lambda>d. BroadcastAll (DeviceOffline (device_id d) (nickname d))))) u"
    proof (rule rg_sql [OF calm_order(1)], goal_cases)
      case (1 x y)
      with u have x: "drained x" "healthy x" using calmD by auto
      then have "quiet (snd (exec_sql MarkAllOffline x))"
        using all_offline_MarkAllOffline [of "hdb x"] by (simp add: quiet_def drained_def)
      with 1(2) have "quiet y" by (rule calmD(1))
      with x(2) show ?case by (simp add: MarkAllOffline_def Let_def rg_announce)
    qed
    with False t(2) show ?thesis by (simp add: ListOnlineDevices_def)
  qed
qed

lemma stop_registry_calms:
  assumes "healthy s"
  shows "rg calm (\<lambda>_ t. quiet t) stop_registry s"
  unfolding stop_registry_def Drain_def
proof (rule rg_section [OF calm_order(1)], goal_cases)
  case (1 t u)
  then have u: "drained u" "healthy u" using assms calmD by (auto simp: drained_def)
  have "rg calm (\<lambda>_. rg calm (\<lambda>_ t. quiet t) CloseAllSubscribers) sweepOnlineDevices u"
    by (rule rg_mono [OF rg_sweep [OF u]]) (rule rg_CloseAll)
  then show ?case by (rule rg_bind [OF calm_order(1)])
qed

text \<open>
  C11: once the shutdown sequence has swept the devices, no device is online, whatever handlers
  were in flight when it began and however far they get.
\<close>

theorem shutdown_leaves_none_online:
  assumes "interleaves (stop_registry # map (\<lambda>t. bind_proc (task_proc t) (\<lambda>_. Ret 0)) ts, s) (ps, s')"
    and "finished (\<lambda>_. True) (hd ps)" and "faults s = []"
  shows "draining s' \<and> (\<forall>r \<in> set (devices (hdb s')). dev_status r \<noteq> StatusOnline)"
proof -
  have "guarantees calm (bind_proc (task_proc t) (\<lambda>_. Ret 0))" for t
    by (rule guarantees_bind) (simp_all add: task_calm)
  then have "rg calm (\<lambda>_ t. quiet t) (hd ps) s'"
    using rg_pool [OF assms(1) calm_order stop_registry_calms] assms(3) by (auto simp: healthy_def)
  then have "quiet s'" using assms(2) reflpD [OF calm_order(1), of s'] by (auto simp: finished_iff)
  then show ?thesis by (simp add: quiet_def all_offline_def)
qed

subsection \<open>Deregistration\<close>

text \<open>A device the hub neither shows online nor pushes events to.\<close>

definition unsubscribed :: "string \<Rightarrow> hub \<Rightarrow> bool" where
  "unsubscribed did s \<longleftrightarrow> map_of (subscribers s) did = None"

definition gone :: "string \<Rightarrow> hub \<Rightarrow> bool" where
  "gone did s \<longleftrightarrow> unsubscribed did s \<and>
     (\<forall>r \<in> set (devices (hdb s)). device_id r = did \<longrightarrow> dev_status r \<noteq> StatusOnline)"

lemma map_of_delete_None: "map_of m k = None \<Longrightarrow> map_of (AList.delete j m) k = None"
  by (simp add: AList.delete_conv restrict_map_def fun_upd_def)

lemma subs_close_each:
  "map_of (subscribers s) did = None \<Longrightarrow>
   map_of (subscribers (fold (\<lambda>(k, c) t. close_chan c (t\<lparr>subscribers := AList.delete k (subscribers t)\<rparr>)) xs s)) did = None"
  by (induction xs arbitrary: s) (simp_all add: split_beta map_of_delete_None)

lemma subs_recv [simp]: "subscribers (snd (recv_chan c s)) = subscribers s"
  by (simp add: recv_chan_def split: list.split)

lemma subs_add:
  "map_of (subscribers s) did = None \<Longrightarrow> k \<noteq> did \<Longrightarrow> map_of (subscribers (snd (add_subscriber k s))) did = None"
  by (simp add: add_subscriber_def Let_def map_put_def map_of_delete_None split: option.split)

lemma subs_sections [simp]:
  "subscribers (snd (recover_section k ip ev s)) = subscribers s"
  "subscribers (snd (mark_online_section k ip port s)) = subscribers s"
  using recover_section_cases [of k ip ev s] mark_online_section_cases [of k ip port s] by auto

interpretation left: hub_invariant "- {did}" True "unsubscribed did" for did
proof
  fix f s
  assume "hub_action (- {did}) True f" and u: "unsubscribed did s"
  then show "unsubscribed did (f s)"
  proof (cases rule: hub_action.cases)
    case (unsub_one k)
    with u show ?thesis by (simp add: unsubscribed_def remove_subscriber_subs map_of_delete_None)
  next
    case close_all
    with u show ?thesis by (simp add: unsubscribed_def close_all_def subs_close_each)
  next
    case (subscribe k)
    with u show ?thesis by (simp add: unsubscribed_def subs_add)
  next
    case (unsubscribe k c)
    with u show ?thesis by (simp add: unsubscribed_def unsubscribe_def map_of_delete_None)
  qed (use u in \<open>simp_all add: unsubscribed_def\<close>)
qed

lemma unsubscribed_cong: "subscribers s = subscribers t \<Longrightarrow> unsubscribed did s = unsubscribed did t"
  by (simp add: unsubscribed_def)

definition offline_in :: "string \<Rightarrow> db \<Rightarrow> bool" where
  "offline_in did d \<longleftrightarrow> (\<forall>r \<in> set (devices d). device_id r = did \<longrightarrow> dev_status r \<noteq> StatusOnline)"

lemma offline_in_write: "store_write w \<Longrightarrow> offline_in did d \<Longrightarrow> offline_in did (w d)"
  unfolding offline_in_def by (metis write_no_promotion)

lemma offline_in_online_other:
  "k \<noteq> did \<Longrightarrow> offline_in did d \<Longrightarrow> offline_in did (snd (UpdateDeviceStatus k st ip port d))"
  by (auto simp: offline_in_def UpdateDeviceStatus_def Let_def set_update_where split: if_splits)

lemma offline_in_exec:
  "(\<And>d. offline_in did d \<Longrightarrow> offline_in did (w d)) \<Longrightarrow> offline_in did (hdb s) \<Longrightarrow> offline_in did (hdb (exec_write w s))"
  using hdb_exec_write [of w s] by metis

lemma offline_in_recover_other:
  "k \<noteq> did \<Longrightarrow> offline_in did d \<Longrightarrow> offline_in did (snd (MarkOnlineIfOffline k ip d))"
  by (auto simp: offline_in_def MarkOnlineIfOffline_def Let_def set_update_where split: if_splits)

lemma gone_iff: "gone did s \<longleftrightarrow> unsubscribed did s \<and> offline_in did (hdb s)"
  by (simp add: gone_def offline_in_def)

interpretation departed: hub_invariant "- {did}" True "gone did" for did
proof
  fix f s
  assume act: "hub_action (- {did}) True f" and g: "gone did s"
  then have "unsubscribed did (f s)" by (auto simp: gone_iff intro: left.action_keeps)
  moreover have "offline_in did (hdb (f s))"
    using act
  proof (cases rule: hub_action.cases)
    case (statement w)
    with g show ?thesis by (simp add: gone_iff offline_in_exec offline_in_write)
  next
    case (register k ip port)
    with g mark_online_section_cases [of k ip port s] show ?thesis
      by (auto simp: gone_iff offline_in_exec offline_in_online_other)
  next
    case (recover k ip ev)
    have "k \<noteq> did \<Longrightarrow> offline_in did (hdb (exec_write (\<lambda>d. snd (MarkOnlineIfOffline k ip d)) s))"
      using g by (simp add: gone_iff offline_in_exec offline_in_recover_other)
    moreover have "k = did \<Longrightarrow> map_of (subscribers s) k = None"
      using g by (simp add: gone_iff unsubscribed_def)
    moreover have "offline_in did (hdb s)" using g by (simp add: gone_iff)
    ultimately show ?thesis using recover_section_cases [of k ip ev s] unfolding recover(1)
      by (metis broadcast_frame(1))
  qed (use g in \<open>simp_all add: gone_iff\<close>)
  ultimately show "gone did (f s)" by (simp add: gone_iff)
qed

definition departing :: "string \<Rightarrow> hub \<Rightarrow> hub \<Rightarrow> bool" where
  "departing did s t \<longleftrightarrow> (\<forall>I \<in> {unsubscribed did, gone did}. I s \<longrightarrow> I t)"

lemma departing_order: "reflp (departing did)" "transp (departing did)"
  by (auto simp: departing_def intro: reflpI transpI)

lemma departingD:
  "departing did s t \<Longrightarrow> unsubscribed did s \<Longrightarrow> unsubscribed did t"
  "departing did s t \<Longrightarrow> gone did s \<Longrightarrow> gone did t"
  by (simp_all add: departing_def)

lemma task_departing:
  assumes "admitted (- {did}) True t"
  shows "guarantees (departing did) (task_proc t)"
proof -
  have "guarantees (\<lambda>s t. \<forall>I \<in> {unsubscribed did, gone did}. I s \<longrightarrow> I t) (task_proc t)"
    by (rule safe_guarantees) (use assms in \<open>auto intro: left.safe_task departed.safe_task\<close>)
  then show ?thesis by (simp add: departing_def [abs_def])
qed

lemma UpdateDeviceStatus_offline:
  "offline_in did (snd (UpdateDeviceStatus did StatusOffline ip port d))"
  by (simp add: offline_in_def UpdateDeviceStatus_def Let_def ball_update_where)

lemma exec_sql_Inr:
  assumes "fst (exec_sql f s) = Inr x"
  shows "hdb (snd (exec_sql f s)) = snd (f (hdb s))"
proof -
  obtain b s1 where nf: "next_fault s = (b, s1)" by (cases "next_fault s")
  then have same: "hdb s1 = hdb s" using next_fault_frame(1) [of s] by simp
  have "\<not> b" using assms nf by (cases b) (simp_all add: exec_sql_def)
  then show ?thesis by (simp only: exec_sql_def nf prod.case if_False split_beta same snd_conv) simp
qed

lemma subs_exec_sql [simp]: "subscribers (snd (exec_sql f s)) = subscribers s"
  by (simp add: snd_exec_sql)

lemma unsubscribed_remove: "unsubscribed did (remove_subscriber did s)"
  by (simp add: unsubscribed_def remove_subscriber_subs AList.delete_conv')

lemma rg_Deregister_rest:
  assumes "unsubscribed did s"
  shows "rg (departing did) (\<lambda>r t. r = Inr () \<longrightarrow> gone did t)
      (attempt (sql (UpdateDeviceStatus did StatusOffline ip port)) (\<lambda>e. fail (deviceErr e)) (\<lambda>_.
       bind_proc (Broadcast ev did) (\<lambda>_. ok ()))) s"
proof (rule rg_sql [OF departing_order(1)], goal_cases)
  case (1 t u)
  let ?f = "UpdateDeviceStatus did StatusOffline ip port"
  show ?case
  proof (cases "fst (exec_sql ?f t)")
    case (Inr x)
    have "unsubscribed did t" using assms 1 departingD(1) by blast
    then have "gone did (snd (exec_sql ?f t))"
      using exec_sql_Inr [OF Inr] UpdateDeviceStatus_offline [of did ip port "hdb t"]
      by (simp add: gone_iff unsubscribed_def)
    then have u: "gone did u" using 1(2) departingD(2) by blast
    have "rg (departing did) (\<lambda>r t. r = Inr () \<longrightarrow> gone did t) (bind_proc (Broadcast ev did) (\<lambda>_. ok ())) u"
      unfolding Broadcast_def
    proof (rule rg_section [OF departing_order(1)], goal_cases)
      case (1 v w)
      then have "gone did (broadcastLocked ev did v)"
        using u departingD(2) by (auto simp: gone_iff unsubscribed_def)
      then show ?case using 1(2) departingD(2) by (auto intro: departingD(2))
    qed
    with Inr show ?thesis by simp
  qed simp
qed

lemma rg_Deregister:
  "rg (departing did) (\<lambda>r t. r = Inr () \<longrightarrow> gone did t) (Deregister did) s"
  unfolding Deregister_def
proof (rule rg_sql [OF departing_order(1)], goal_cases)
  case (1 t u)
  have "rg (departing did) (\<lambda>r t. r = Inr () \<longrightarrow> gone did t)
      (bind_proc (removeSubscriber did) (\<lambda>_.
       attempt (sql (UpdateDeviceStatus did StatusOffline (last_ip x) (ssh_port x)))
         (\<lambda>e. fail (deviceErr e)) (\<lambda>_.
       bind_proc (Broadcast (DeviceOffline (device_id x) (nickname x)) did) (\<lambda>_. ok ())))) u" for x :: device
    unfolding removeSubscriber_def
  proof (rule rg_section [OF departing_order(1)], goal_cases)
    case (1 v w)
    then have "unsubscribed did w" using unsubscribed_remove departingD(1) by auto
    then show ?case by (rule rg_Deregister_rest)
  qed
  then show ?case by (auto split: sum.split)
qed

text \<open>
  C7: once \<open>Deregister\<close> has reported success the device is neither online nor subscribed, and
  it stays so among any concurrent work, its own late heartbeats included, until it registers
  or subscribes again.
\<close>

theorem deregistered_stays_offline:
  assumes "interleaves (bind_proc (Deregister did) (\<lambda>r. Ret (Some r)) #
      map (\<lambda>t. bind_proc (task_proc t) (\<lambda>_. Ret None)) ts, s) (ps, s')"
    and "finished (\<lambda>r. r = Some (Inr ())) (hd ps)" and "\<forall>t \<in> set ts. admitted (- {did}) True t"
  shows "map_of (subscribers s') did = None \<and>
    (\<forall>r \<in> set (devices (hdb s')). device_id r = did \<longrightarrow> dev_status r \<noteq> StatusOnline)"
proof -
  let ?Q = "\<lambda>r t. r = Some (Inr ()) \<longrightarrow> gone did t"
  have "rg (departing did) (\<lambda>r. rg (departing did) ?Q (Ret (Some r))) (Deregister did) s"
    by (rule rg_mono [OF rg_Deregister]) (auto dest: departingD(2))
  then have first: "rg (departing did) ?Q (bind_proc (Deregister did) (\<lambda>r. Ret (Some r))) s"
    by (rule rg_bind [OF departing_order(1)])
  have "guarantees (departing did) (bind_proc (task_proc t) (\<lambda>_. Ret None))" if "t \<in> set ts" for t
    using assms(3) that by (intro guarantees_bind) (simp_all add: task_departing)
  then have "rg (departing did) ?Q (hd ps) s'"
    using rg_pool [OF assms(1) departing_order first] by auto
  then have "gone did s'" using assms(2) reflpD [OF departing_order(1), of did s'] by (auto simp: finished_iff)
  then show ?thesis by (simp add: gone_def unsubscribed_def)
qed

subsection \<open>A join token admits one device\<close>

text \<open>A Join RPC, with the token it presented in its result.\<close>

definition join_call :: "serve_env \<Rightarrow> rpc_ctx \<Rightarrow> string \<Rightarrow> string \<Rightarrow> string \<Rightarrow> (hub, string \<times> (hub_err + reply)) proc" where
  "join_call env ctx did nick tok = bind_proc (serve env ctx (RJoin did nick tok)) (\<lambda>r. Ret (tok, r))"

definition join_reply_ok :: "hub_err + reply \<Rightarrow> bool" where
  "join_reply_ok r \<longleftrightarrow> (case r of Inr (JoinReply True m cs) \<Rightarrow> True | _ \<Rightarrow> False)"

definition joined_with :: "string \<Rightarrow> string \<times> (hub_err + reply) \<Rightarrow> bool" where
  "joined_with tok x \<longleftrightarrow> fst x = tok \<and> join_reply_ok (snd x)"

definition join_member :: "(hub, string \<times> (hub_err + reply)) proc \<Rightarrow> bool" where
  "join_member p \<longleftrightarrow> (\<exists>env ctx did nick tok. p = join_call env ctx did nick tok)"

lemma join_call_member: "join_member (join_call env ctx did nick tok)"
  unfolding join_member_def by (intro exI) (rule HOL.refl)

lemma join_reply_simps [simp]:
  "\<not> join_reply_ok (Inl e)" "\<not> join_reply_ok (Inr (JoinReply False m cs))"
  by (simp_all add: join_reply_ok_def)

lemma safe_exec:
  "(\<And>d. P d \<Longrightarrow> P (snd (f d))) \<Longrightarrow> safe (\<lambda>s. P (hdb s)) (sql f)"
  unfolding sql_def
  by (rule safe_atom) (metis hdb_exec_write snd_exec_sql)

lemma join_no_issue: "safe (\<lambda>s. \<not> has_token tok (hdb s)) (join_call env ctx did nick t)"
  unfolding join_call_def serve_def DrainInterceptor_def AuthInterceptor_def handle_rpc.simps
    Server_Join_def Join_def consumeJoinToken_def Draining_def
  by (intro safe_intros safe_exec)
    (auto simp: has_token_def ClaimJoinToken_def GetJoinToken_def GetDeviceByNickname_def
      CreateDevice_def Let_def)

lemma claim_pays:
  "pays tables_ok (\<lambda>s. has_token tok (hdb s)) (\<lambda>r. r = Inr True) (sql (ClaimJoinToken tok now))"
  unfolding sql_def
proof (rule pays_atom)
  fix s
  assume V: "tables_ok s" and r: "fst (exec_sql (ClaimJoinToken tok now) s) = Inr True"
  then have "fst (ClaimJoinToken tok now (hdb s)) = Inr True"
    using next_fault_frame(1) [of s] by (cases "next_fault s") (auto simp: exec_sql_def split: if_splits prod.splits)
  then have c: "fst (claim_flag tok now (hdb s))"
    "snd (claim_flag tok now (hdb s)) = snd (ClaimJoinToken tok now (hdb s))"
    by (cases "ClaimJoinToken tok now (hdb s)"; simp add: claim_flag_def)+
  with V r exec_sql_Inr [OF r] show "has_token tok (hdb s) \<and> \<not> has_token tok (hdb (snd (exec_sql (ClaimJoinToken tok now) s)))"
    using join_tokens.claim_held join_tokens.claim_spent unfolding tables_ok_def by metis
qed

lemma consume_pays:
  "pays tables_ok (\<lambda>s. has_token tok (hdb s)) (\<lambda>r. \<exists>x. r = Inr x) (consumeJoinToken now now' tok)"
proof -
  have "pays tables_ok (\<lambda>s. has_token tok (hdb s)) (\<lambda>r :: hub_err + unit. \<exists>x. r = Inr x)
      (attempt (sql (GetJoinToken tok)) (\<lambda>_. fail ErrInvalidJoinToken) (\<lambda>t.
         if now' > token_expires_at t then fail ErrJoinTokenExpired else fail ErrInvalidJoinToken))"
    unfolding attempt_def by (rule pays_bind_later) (simp split: sum.split)
  note later = this
  have "pays tables_ok (\<lambda>s. has_token tok (hdb s)) (\<lambda>r. \<exists>x. r = Inr x)
      (attempt (sql (ClaimJoinToken tok now)) (\<lambda>e. fail (StoreErr e)) (\<lambda>claimed.
        if claimed then ok ()
        else attempt (sql (GetJoinToken tok)) (\<lambda>_. fail ErrInvalidJoinToken) (\<lambda>t.
          if now' > token_expires_at t then fail ErrJoinTokenExpired else fail ErrInvalidJoinToken)))"
  proof (rule pays_attempt, rule pays_mono [OF claim_pays], goal_cases)
    case (1 r)
    then show ?case using later by (cases r) (auto split: if_splits)
  qed
  then show ?thesis by (simp add: consumeJoinToken_def)
qed

lemma join_pays: "pays tables_ok (\<lambda>s. has_token tok (hdb s)) (joined_with tok) (join_call env ctx did nick t)"
proof (cases "t = tok")
  case False
  then show ?thesis unfolding join_call_def by (intro pays_bind_later) (simp add: joined_with_def)
next
  case True
  have "pays tables_ok (\<lambda>s. has_token tok (hdb s)) (\<lambda>r. \<exists>x. r = Inr x)
      (Join (sign_cert env) (ca_pem env) (jclock env) did nick (peerIP ctx) tok)"
    unfolding Join_def by (rule pays_attempt_first [OF consume_pays]) simp
  then have "pays tables_ok (\<lambda>s. has_token tok (hdb s)) join_reply_ok (Server_Join env ctx did nick tok)"
    unfolding Server_Join_def by (rule pays_attempt_first) simp
  then have "pays tables_ok (\<lambda>s. has_token tok (hdb s)) join_reply_ok (serve env ctx (RJoin did nick tok))"
    unfolding serve_def DrainInterceptor_def AuthInterceptor_def by (intro pays_bind_later) simp
  then have "pays tables_ok (\<lambda>s. has_token tok (hdb s))
      (\<lambda>r. \<not> pays tables_ok (\<lambda>s. has_token tok (hdb s)) (joined_with tok) (Ret (tok, r)))
      (serve env ctx (RJoin did nick tok))"
    by (simp add: joined_with_def)
  then show ?thesis unfolding join_call_def True by (rule pays_bind)
qed

interpretation join_once: one_shot tables_ok "\<lambda>s. has_token tok (hdb s)" "joined_with tok" join_member for tok
proof
  fix p
  assume "join_member p"
  then obtain env ctx did nick t where p: "p = join_call env ctx did nick t" by (auto simp: join_member_def)
  show "safe tables_ok p" unfolding p join_call_def serve_def
    by (intro safe_intros tables.safe_interceptors tables.safe_handle_rpc) simp
  show "safe (\<lambda>s. \<not> has_token tok (hdb s)) p" unfolding p by (rule join_no_issue)
  show "pays tables_ok (\<lambda>s. has_token tok (hdb s)) (joined_with tok) p" unfolding p by (rule join_pays)
qed

text \<open>
  C1: of any number of concurrent Join calls, under any interleaving and any failures of the
  database, at most one succeeds with a given token.
\<close>

theorem join_token_admits_one:
  assumes "store_inv (hdb s)"
    and "interleaves (map (\<lambda>(env, ctx, did, nick, t). join_call env ctx did nick t) calls, s) (ps, s')"
  shows "successes (joined_with tok) ps \<le> 1"
  by (rule join_once.at_most_one [OF assms(2)]) (use assms(1) in \<open>auto simp: join_call_member tables_ok_def\<close>)

subsection \<open>Concrete runs\<close>

theorem hub_tables_consistent_witness:
  "store_inv (hdb (snd (exec_sched [0, 0, 1, 0, 1, 0] (map task_proc
     [ServeTask sample_env (sample_ctx ''d1'') RLeave, MonitorTask (NewHeartbeatMonitor 0 0) [CheckTick 90 91]],
     (init_hub sample_db)\<lparr>faults := [False, True]\<rparr>))))"
  by (rule hub_tables_consistent [OF sample_db_ok interleaves_exec_pair])

theorem hub_never_panics_witness:
  "\<not> panicked (snd (exec_sched [0, 0, 1, 1, 1, 0, 1, 1] (map task_proc
     [StreamTask (sample_ctx ''d1'') True [Receive True], ServeTask sample_env (sample_ctx ''d1'') RDeregister],
     (init_hub sample_db)\<lparr>faults := []\<rparr>)))"
  by (rule hub_never_panics [OF interleaves_exec_pair]) simp

theorem unlocked_send_panics_witness:
  "panicked (snd (exec_sched [0, 1, 0] ([sendToDevice ''d1'' SubscribeReady, removeSubscriber ''d1''],
     (init_hub sample_db)\<lparr>subscribers := [(''d1'', 0)]\<rparr>)))"
  by (rule unlocked_send_panics [where c = 0]) (simp_all add: init_hub_def new_chan_def)

definition sample_shutdown :: "(hub, nat) pool \<times> hub" where
  "sample_shutdown = exec_sched [1, 1, 1, 0, 0, 0, 0, 0, 0, 1, 1]
     (stop_registry # map (\<lambda>t. bind_proc (task_proc t) (\<lambda>_. Ret 0))
        [ServeTask sample_env (sample_ctx ''d1'') RHeartbeat], init_hub sample_db)"

theorem shutdown_leaves_none_online_witness:
  "draining (snd sample_shutdown) \<and>
   \<not> list_ex (\<lambda>r. dev_status r = StatusOnline) (devices (hdb (snd sample_shutdown)))"
proof -
  have "finished (\<lambda>_. True) (hd (fst sample_shutdown))" by code_simp
  then have "draining (snd sample_shutdown) \<and>
      (\<forall>r \<in> set (devices (hdb (snd sample_shutdown))). dev_status r \<noteq> StatusOnline)"
    unfolding sample_shutdown_def
    by (intro shutdown_leaves_none_online [OF interleaves_exec_pair]) (simp_all add: init_hub_def)
  then show ?thesis by (simp add: list_ex_iff)
qed

definition sample_departure :: "(hub, (hub_err + unit) option) pool \<times> hub" where
  "sample_departure = exec_sched [1, 1, 1, 0, 0, 0, 0, 1, 1, 1, 1]
     (bind_proc (Deregister ''d1'') (\<lambda>r. Ret (Some r)) # map (\<lambda>t. bind_proc (task_proc t) (\<lambda>_. Ret None))
        [ServeTask sample_env (sample_ctx ''d1'') RHeartbeat], init_hub sample_db)"

theorem deregistered_stays_offline_witness:
  "map_of (subscribers (snd sample_departure)) ''d1'' = None \<and>
   \<not> list_ex (\<lambda>r. device_id r = ''d1'' \<and> dev_status r = StatusOnline) (devices (hdb (snd sample_departure)))"
proof -
  have "finished (\<lambda>r. r = Some (Inr ())) (hd (fst sample_departure))" by code_simp
  then have "map_of (subscribers (snd sample_departure)) ''d1'' = None \<and>
      (\<forall>r \<in> set (devices (hdb (snd sample_departure))). device_id r = ''d1'' \<longrightarrow> dev_status r \<noteq> StatusOnline)"
    unfolding sample_departure_def
    by (intro deregistered_stays_offline [OF interleaves_exec_pair]) simp_all
  then show ?thesis by (auto simp: list_ex_iff)
qed

theorem join_token_admits_one_witness:
  "successes (joined_with ''HUB-TOK-001'') (fst (exec_sched [0, 1, 0, 1, 0, 1, 0, 1, 0, 1] (map (\<lambda>(env, ctx, did, nick, t). join_call env ctx did nick t)
     [(sample_env, None, ''d3'', ''n3'', ''HUB-TOK-001''), (sample_env, None, ''d4'', ''n4'', ''HUB-TOK-001'')],
     init_hub sample_db))) \<le> 1"
  by (rule join_token_admits_one [OF _ interleaves_exec_pair]) (simp add: init_hub_def sample_db_ok)

end
