(* ===== verification/RegistryProps.thy ===== *)
theory RegistryProps
  imports HubRaces
begin

text \<open>
  What each operation of the registry does when it runs by itself, on every branch: joining,
  registering, heartbeats, deregistering and leaving, the sweeps of the monitor, and the
  delivery of events. The database answers (\<open>faults\<close> is empty) unless a theorem says otherwise.
\<close>

subsection \<open>Running an operation alone\<close>

lemma run_sql [simp]: "run (sql f) s = exec_sql f s"
  by (simp add: sql_def)

lemma healthy_intro: "faults s = [] \<Longrightarrow> healthy s"
  by (simp add: healthy_def)

text \<open>The row that carries a nickname.\<close>

definition nick_row :: "db \<Rightarrow> string \<Rightarrow> device option" where
  "nick_row d nick = find (\<lambda>r. nickname r = nick) (devices d)"

lemma GetDeviceByNickname_row:
  "GetDeviceByNickname nick d = (case nick_row d nick of None \<Rightarrow> (Inl ErrNotFound, d) | Some r \<Rightarrow> (Inr r, d))"
  by (simp add: GetDeviceByNickname_def nick_row_def query_row_def map_err_def notFoundOrErr_def split: option.split)

lemma nick_row_None: "nick_row d nick = None \<longleftrightarrow> nick \<notin> nickname ` set (devices d)"
  by (auto simp: nick_row_def find_None_iff_ex)

lemma nick_row_Some: "nick_row d nick = Some r \<Longrightarrow> r \<in> set (devices d) \<and> nickname r = nick"
  unfolding nick_row_def by (rule find_Some_in)

lemma nick_row_tokens [simp]: "nick_row (d\<lparr>pending_join_tokens := ts\<rparr>) = nick_row d"
  by (simp add: nick_row_def fun_eq_iff)

lemma device_row_tokens [simp]:
  "device_row (d\<lparr>pending_join_tokens := ts\<rparr>) = device_row d" "device_row (d\<lparr>shares := ss\<rparr>) = device_row d"
  by (simp_all add: device_row_def fun_eq_iff)

lemma CreateDevice_row:
  "CreateDevice x d =
     (if device_row d (device_id x) = None \<and> nick_row d (nickname x) = None
      then (Inr (), d\<lparr>devices := devices d @ [x]\<rparr>) else (Inl ErrConstraint, d))"
  by (auto simp: CreateDevice_def device_row_None nick_row_None) (metis imageI)+

lemma affected_row:
  assumes "store_inv d"
  shows "affected (\<lambda>r. device_id r = did) (devices d) = (case device_row d did of None \<Rightarrow> 0 | Some r \<Rightarrow> 1)"
proof (cases "device_row d did")
  case None
  then have "\<not> (\<exists>r \<in> set (devices d). device_id r = did)" by (auto simp: device_row_None)
  with None show ?thesis by (simp add: affected_0_iff)
next
  case (Some r)
  then have "r \<in> set (devices d) \<and> device_id r = did" by (rule device_row_Some)
  then show ?thesis using Some filter_key_length [OF store_invD(1) [OF assms], of did "\<lambda>_. True"]
    by (auto simp: affected_def)
qed

lemma requireAffected_row:
  assumes "store_inv d"
  shows "requireAffected (affected (\<lambda>r. device_id r = did) (devices d)) =
    (case device_row d did of None \<Rightarrow> Inl ErrNotFound | Some r \<Rightarrow> Inr ())"
  by (simp add: affected_row [OF assms] requireAffected_def split: option.split)

subsection \<open>Join\<close>

definition live_token :: "string \<Rightarrow> time \<Rightarrow> db \<Rightarrow> bool" where
  "live_token tok now d \<longleftrightarrow> (\<exists>t \<in> set (pending_join_tokens d). token t = tok \<and> token_expires_at t > now)"

definition burn_token :: "string \<Rightarrow> db \<Rightarrow> db" where
  "burn_token tok d = d\<lparr>pending_join_tokens := filter (\<lambda>t. token t \<noteq> tok) (pending_join_tokens d)\<rparr>"

lemma ClaimJoinToken_live:
  assumes "store_inv d"
  shows "ClaimJoinToken tok now d = (Inr (live_token tok now d), if live_token tok now d then burn_token tok d else d)"
proof (cases "live_token tok now d")
  case True
  then obtain t where t: "t \<in> set (pending_join_tokens d)" "token t = tok" "token_expires_at t > now"
    by (auto simp: live_token_def)
  have "x \<in> set (pending_join_tokens d) \<Longrightarrow> token x = tok \<Longrightarrow> x = t" for x
    using distinct_key_unique [OF store_invD(3) [OF assms], of x t] t by simp
  then have "delete_where (\<lambda>x. token x = tok \<and> token_expires_at x > now) (pending_join_tokens d) =
      filter (\<lambda>x. token x \<noteq> tok) (pending_join_tokens d)"
    unfolding delete_where_def using t(3) by (intro filter_cong) auto
  with True show ?thesis unfolding prod_eq_iff ClaimJoinToken_flag [OF assms]
    by (simp add: ClaimJoinToken_def Let_def burn_token_def live_token_def)
next
  case False
  then have "delete_where (\<lambda>x. token x = tok \<and> token_expires_at x > now) (pending_join_tokens d) = pending_join_tokens d"
    by (auto simp: live_token_def delete_where_def filter_id_conv)
  with False show ?thesis unfolding prod_eq_iff ClaimJoinToken_flag [OF assms]
    by (auto simp: ClaimJoinToken_def Let_def live_token_def)
qed

lemma GetJoinToken_cases: "snd (GetJoinToken tok d) = d"
  by (simp add: GetJoinToken_def)

lemma run_consumeJoinToken:
  assumes "healthy s" and "store_inv (hdb s)"
  shows "run (consumeJoinToken now now' tok) s =
    (if tok \<noteq> [] \<and> live_token tok now (hdb s) then (Inr (), s\<lparr>hdb := burn_token tok (hdb s)\<rparr>)
     else (Inl (if tok \<noteq> [] \<and> (\<exists>t \<in> set (pending_join_tokens (hdb s)). token t = tok \<and> now' > token_expires_at t)
                then ErrJoinTokenExpired else ErrInvalidJoinToken), s))"
proof (cases "tok \<noteq> [] \<and> \<not> live_token tok now (hdb s)")
  case True
  then have r: "run (consumeJoinToken now now' tok) s =
      run (case query_row (\<lambda>r. token r = tok) (pending_join_tokens (hdb s)) of
             Inl e \<Rightarrow> fail ErrInvalidJoinToken
           | Inr t \<Rightarrow> if now' > token_expires_at t then fail ErrJoinTokenExpired else fail ErrInvalidJoinToken) s"
    using assms by (simp add: consumeJoinToken_def ClaimJoinToken_live GetJoinToken_def split: sum.split)
  show ?thesis
  proof (cases "query_row (\<lambda>r. token r = tok) (pending_join_tokens (hdb s))")
    case (Inl e)
    then have "\<not> (\<exists>t \<in> set (pending_join_tokens (hdb s)). token t = tok)" by (simp add: query_row_Inl)
    with Inl True show ?thesis unfolding r by auto
  next
    case (Inr t)
    then have t: "t \<in> set (pending_join_tokens (hdb s))" "token t = tok" by (auto dest: query_row_Inr)
    then have "x = t" if "x \<in> set (pending_join_tokens (hdb s))" "token x = tok" for x
      using that distinct_key_unique [OF store_invD(3) [OF assms(2)], of x t] by simp
    with t have "(\<exists>x \<in> set (pending_join_tokens (hdb s)). token x = tok \<and> now' > token_expires_at x) \<longleftrightarrow> now' > token_expires_at t"
      by blast
    with Inr True show ?thesis unfolding r by simp
  qed
next
  case False
  with assms show ?thesis by (auto simp: consumeJoinToken_def ClaimJoinToken_live)
qed

text \<open>
  \<open>Join\<close> succeeds exactly with a live token, a free nickname, a new device id and a
  certificate; it then adds one row, with status registered, and uses up the token. The token
  is used up as well when a live token meets a taken nickname, and only then or later does a
  failing join change the database.
\<close>

theorem Join_outcome:
  assumes "store_inv (hdb s)" and "faults s = []"
  shows "run (Join sign ca clk did nick ip tok) s =
    (let live = (tok \<noteq> [] \<and> live_token tok (now_claim clk) (hdb s));
         late = (tok \<noteq> [] \<and> (\<exists>t \<in> set (pending_join_tokens (hdb s)). token t = tok \<and> now_diag clk > token_expires_at t));
         burnt = burn_token tok (hdb s);
         row = \<lparr>device_id = did, nickname = nick, last_ip = ip, ssh_port = 0,
                dev_status = StatusRegistered, last_heartbeat = now_row clk\<rparr>
     in if \<not> live then (Inl (if late then ErrJoinTokenExpired else ErrInvalidJoinToken), s)
        else if nick \<in> nickname ` set (devices (hdb s)) then (Inl ErrNicknameTaken, s\<lparr>hdb := burnt\<rparr>)
        else if did \<in> device_id ` set (devices (hdb s)) then (Inl (StoreErr ErrConstraint), s\<lparr>hdb := burnt\<rparr>)
        else (case sign did of None \<Rightarrow> Inl SignErr
              | Some (cert, key) \<Rightarrow> Inr \<lparr>client_cert = cert, client_key = key, ca_cert = ca\<rparr>,
              s\<lparr>hdb := burnt\<lparr>devices := devices (hdb s) @ [row]\<rparr>\<rparr>))"
proof -
  have h: "healthy s" using assms(2) by (rule healthy_intro)
  have "nick_row (burn_token tok (hdb s)) nick = None \<longleftrightarrow> nick \<notin> nickname ` set (devices (hdb s))"
    "device_row (burn_token tok (hdb s)) did = None \<longleftrightarrow> did \<notin> device_id ` set (devices (hdb s))"
    "devices (burn_token tok (hdb s)) = devices (hdb s)"
    by (simp_all add: burn_token_def nick_row_None device_row_None)
  then show ?thesis
    using h by (auto simp: Join_def Let_def run_consumeJoinToken [OF h assms(1)] GetDeviceByNickname_row
        CreateDevice_row split: option.splits)
qed

subsection \<open>Delivery of events\<close>

text \<open>A send that finds the buffer full drops the event.\<close>

definition deliver :: "event \<Rightarrow> event list \<Rightarrow> event list" where
  "deliver ev b = (if length b < chan_cap then b @ [ev] else b)"

lemma send_chan_open:
  "\<not> closed (chans s c) \<Longrightarrow> buf (chans (send_chan ev c s) k) = (if k = c then deliver ev (buf (chans s c)) else buf (chans s k))"
  by (simp add: send_chan_def deliver_def)

lemma send_each_buf:
  assumes "distinct cs" and "\<forall>c \<in> set cs. \<not> closed (chans s c)"
  shows "buf (chans (send_each ev cs s) k) = (if k \<in> set cs then deliver ev (buf (chans s k)) else buf (chans s k))"
  using assms
proof (induction cs arbitrary: s)
  case (Cons c cs)
  then show ?case by (auto simp: send_chan_open)
qed simp

lemma subscribed_channels:
  assumes "channels_ok s"
  shows "distinct (map snd (filter P (subscribers s)))"
    and "\<forall>c \<in> set (map snd (filter P (subscribers s))). \<not> closed (chans s c)"
  using assms by (auto simp: channels_ok_def distinct_map_filter_key)

lemma snd_subscriber_iff:
  assumes "channels_ok s" and "map_of (subscribers s) k = Some c"
  shows "c \<in> snd ` {x \<in> set (subscribers s). P (fst x)} \<longleftrightarrow> P k"
proof -
  have kc: "(k, c) \<in> set (subscribers s)" using assms(2) by (rule map_of_SomeD)
  have "x = (k, c)" if "x \<in> set (subscribers s)" "snd x = c" for x
    using distinct_key_unique [of snd "subscribers s" x "(k, c)"] assms(1) kc that by (simp add: channels_ok_def)
  then have "x = (k, c)" if "x \<in> {x \<in> set (subscribers s). P (fst x)}" "snd x = c" for x
    using that by blast
  moreover have "P k \<Longrightarrow> (k, c) \<in> {x \<in> set (subscribers s). P (fst x)}" using kc by simp
  ultimately show ?thesis by (metis (mono_tags, lifting) fst_conv imageE image_eqI mem_Collect_eq snd_conv)
qed

text \<open>
  A broadcast appends the event to the buffer of every subscriber but the excluded one,
  drops it where the buffer is full, and touches no other channel, no table and no
  subscription.
\<close>

theorem broadcast_delivery:
  assumes "channels_ok s"
  shows "(\<forall>k c. map_of (subscribers s) k = Some c \<longrightarrow>
      buf (chans (broadcastLocked ev excl s) c) =
        (if k = excl then buf (chans s c) else deliver ev (buf (chans s c)))) \<and>
    (\<forall>c. c \<notin> snd ` set (subscribers s) \<longrightarrow> buf (chans (broadcastLocked ev excl s) c) = buf (chans s c)) \<and>
    hdb (broadcastLocked ev excl s) = hdb s \<and> subscribers (broadcastLocked ev excl s) = subscribers s \<and>
    \<not> panicked (broadcastLocked ev excl s)"
proof -
  let ?cs = "map snd (filter (\<lambda>x. fst x \<noteq> excl) (subscribers s))"
  have b: "buf (chans (broadcastLocked ev excl s) c) =
      (if c \<in> set ?cs then deliver ev (buf (chans s c)) else buf (chans s c))" for c
    unfolding broadcastLocked_sends by (rule send_each_buf) (rule subscribed_channels [OF assms])+
  have "c \<in> set ?cs \<longleftrightarrow> k \<noteq> excl" if "map_of (subscribers s) k = Some c" for k c
    using snd_subscriber_iff [OF assms that, of "\<lambda>j. j \<noteq> excl"] by simp
  moreover have "c \<notin> set ?cs" if "c \<notin> snd ` set (subscribers s)" for c using that by auto
  moreover have "channels_ok (broadcastLocked ev excl s)" using assms by (rule channels_ok_broadcast)
  ultimately show ?thesis by (simp add: b channels_ok_def)
qed

subsection \<open>Subscriptions\<close>

text \<open>
  A new subscription replaces the old one: it gets an empty open channel no one else
  uses, the old channel is closed with its queued events still readable, and the deferred
  unsubscription of the old stream leaves the new subscription in place.
\<close>

theorem resubscribe_replaces:
  assumes "channels_ok s" and "\<not> draining s" and "map_of (subscribers s) did = Some old"
    and "run (Subscribe did) s = (Inr c, s1)"
  shows "map_of (subscribers s1) did = Some c \<and> chans s1 c = new_chan \<and> c \<notin> snd ` set (subscribers s) \<and>
    closed (chans s1 old) \<and> buf (chans s1 old) = buf (chans s old) \<and>
    run (Unsub did old) s1 = ((), s1) \<and>
    (\<forall>k. k \<noteq> did \<longrightarrow> map_of (subscribers s1) k = map_of (subscribers s) k)"
proof -
  have old: "(did, old) \<in> set (subscribers s)" using assms(3) by (rule map_of_SomeD)
  then have o: "old < next_chan s" "\<not> closed (chans s old)" using assms(1) by (auto simp: channels_ok_def)
  have "next_chan s \<notin> snd ` set (subscribers s)" using assms(1) by (auto simp: channels_ok_def)
  moreover have "c = next_chan s" "s1 = snd (add_subscriber did s)"
    using assms(2,4) by (auto simp: Subscribe_def add_subscriber_def Let_def)
  ultimately show ?thesis using assms(2,3) o
    by (simp add: add_subscriber_def Let_def close_chan_def map_put_def Unsub_def unsubscribe_def
        AList.delete_conv' new_chan_def)
qed

subsection \<open>Register\<close>

lemma insert_shares_ok:
  "did \<in> device_id ` set (devices d) \<Longrightarrow> \<forall>sh \<in> set shs. share_device sh = did \<Longrightarrow>
   insert_shares did shs d = (Inr (), d\<lparr>shares := shares d @ shs\<rparr>)"
proof (induction shs arbitrary: d)
  case (Cons sh shs)
  then have "sh\<lparr>share_device := did\<rparr> = sh" by (cases sh) simp
  with Cons show ?case by simp
qed simp

lemma SetShares_ok:
  assumes "device_row d did = Some r"
  shows "SetShares did (sharesFromProto did shs) d =
    (Inr (), d\<lparr>shares := filter (\<lambda>x. share_device x \<noteq> did) (shares d) @ sharesFromProto did shs\<rparr>)"
proof -
  have "did \<in> device_id ` set (devices d)" using device_row_Some [OF assms] by auto
  then show ?thesis
    by (simp add: SetShares_def in_tx_def insert_shares_ok sharesFromProto_def delete_where_def)
qed

lemma UpdateHeartbeat_ok:
  assumes "store_inv d" and "device_row d did = Some r"
  shows "UpdateHeartbeat now did d =
    (Inr (), d\<lparr>devices := update_where (\<lambda>r. device_id r = did) (\<lambda>r. r\<lparr>last_heartbeat := now\<rparr>) (devices d)\<rparr>)"
  using assms by (simp add: UpdateHeartbeat_def Let_def requireAffected_row)

lemma UpdateDeviceStatus_ok:
  assumes "store_inv d" and "device_row d did = Some r"
  shows "UpdateDeviceStatus did st ip port d =
    (Inr (), d\<lparr>devices := update_where (\<lambda>r. device_id r = did)
       (\<lambda>r. r\<lparr>dev_status := st, last_ip := ip, ssh_port := port\<rparr>) (devices d)\<rparr>)"
  using assms by (simp add: UpdateDeviceStatus_def Let_def requireAffected_row)

lemma writes_without_row:
  assumes "store_inv d" and "device_row d did = None"
  shows "fst (UpdateHeartbeat now did d) = Inl ErrNotFound"
    and "fst (UpdateDeviceStatus did st ip port d) = Inl ErrNotFound"
  using assms by (simp_all add: UpdateHeartbeat_def UpdateDeviceStatus_def Let_def requireAffected_row)

definition registered_db :: "time \<Rightarrow> string \<Rightarrow> string \<Rightarrow> int \<Rightarrow> pb_share list \<Rightarrow> db \<Rightarrow> db" where
  "registered_db now did ip port shs d =
     d\<lparr>devices := update_where (\<lambda>r. device_id r = did)
         (\<lambda>r. r\<lparr>last_heartbeat := now, dev_status := StatusOnline, last_ip := ip, ssh_port := port\<rparr>) (devices d),
       shares := filter (\<lambda>x. share_device x \<noteq> did) (shares d) @ sharesFromProto did shs\<rparr>"

lemma update_where_twice:
  "(\<And>r. device_id (f r) = device_id r) \<Longrightarrow>
   update_where (\<lambda>r. device_id r = did) g (update_where (\<lambda>r. device_id r = did) f rows) =
   update_where (\<lambda>r. device_id r = did) (\<lambda>r. g (f r)) rows"
  by (simp add: update_where_def)

lemma registered_db_steps:
  assumes "store_inv d" and "device_row d did = Some r"
  shows "snd (UpdateDeviceStatus did StatusOnline ip port
      (snd (UpdateHeartbeat now did (snd (SetShares did (sharesFromProto did shs) d))))) =
    registered_db now did ip port shs d"
    and "fst (UpdateHeartbeat now did (snd (SetShares did (sharesFromProto did shs) d))) = Inr ()"
    and "fst (UpdateDeviceStatus did StatusOnline ip port
      (snd (UpdateHeartbeat now did (snd (SetShares did (sharesFromProto did shs) d))))) = Inr ()"
proof -
  let ?d1 = "snd (SetShares did (sharesFromProto did shs) d)"
  let ?d2 = "snd (UpdateHeartbeat now did ?d1)"
  have i1: "store_inv ?d1" and r1: "device_row ?d1 did = Some r"
    using assms inv_SetShares [OF assms(1)] by (simp_all add: device_row_def)
  have i2: "store_inv ?d2" using i1 by (rule inv_device_updates)
  have r2: "device_row ?d2 did = Some (r\<lparr>last_heartbeat := now\<rparr>)"
    using r1 device_row_Some [OF r1] by (simp add: UpdateHeartbeat_ok [OF i1 r1] device_row_update del: devices_SetShares)
  show "fst (UpdateHeartbeat now did ?d1) = Inr ()" by (simp add: UpdateHeartbeat_ok [OF i1 r1])
  show "fst (UpdateDeviceStatus did StatusOnline ip port ?d2) = Inr ()"
    by (simp add: UpdateDeviceStatus_ok [OF i2 r2])
  show "snd (UpdateDeviceStatus did StatusOnline ip port ?d2) = registered_db now did ip port shs d"
    by (subst UpdateDeviceStatus_ok [OF i2 r2], subst (1 2) UpdateHeartbeat_ok [OF i1 r1])
      (simp add: SetShares_ok [OF assms(2)] registered_db_def update_where_twice)
qed

text \<open>The announcement of a registration, and the caller's entry of the reply.\<close>

definition online_event :: "device \<Rightarrow> string \<Rightarrow> int \<Rightarrow> pb_share list \<Rightarrow> event" where
  "online_event r ip port shs = DeviceOnline (device_id r) (nickname r) ip (to_int32 port) shs"

lemma run_Register:
  assumes "healthy s" and "store_inv (hdb s)"
  shows "run (Register now did ip port shs v) s =
    (if v \<noteq> ProtocolVersion then (Inl ErrUnsupportedProtocol, s)
     else if draining s then (Inl ErrHubShuttingDown, s)
     else case device_row (hdb s) did of
       None \<Rightarrow> (Inl ErrDeviceNotFound, s)
     | Some r \<Rightarrow>
         (Inr (put_current \<lparr>device_id = did, nickname = nickname r, last_ip = ip, ssh_port = port,
                            dev_status = StatusOnline, last_heartbeat = 0\<rparr>
                 (filter (\<lambda>r. dev_status r = StatusOnline) (devices (hdb s)))),
          broadcastLocked (online_event r ip port shs) did
            (s\<lparr>hdb := registered_db now did ip port shs (hdb s)\<rparr>)))"
proof (cases "device_row (hdb s) did")
  case None
  with assms show ?thesis
    by (simp add: Register_def Draining_def GetDevice_row deviceErr_def)
next
  case (Some r)
  have "device_id r = did" using device_row_Some [OF Some] by simp
  with Some assms registered_db_steps [OF assms(2) Some] show ?thesis
    by (simp add: Register_def Draining_def GetDevice_row ListOnlineDevices_def SetShares_ok [OF Some]
        markOnlineUnlessDraining_def mark_online_section_def Broadcast_def online_event_def Let_def
        split: sum.split)
qed

lemma put_current_set:
  "distinct (map device_id ds) \<Longrightarrow>
   set (put_current c ds) = insert c {x \<in> set ds. device_id x \<noteq> device_id c}"
  by (induction ds) (auto simp: image_iff)

lemma put_current_ids:
  "distinct (map device_id ds) \<Longrightarrow> distinct (map device_id (put_current c ds))"
  by (induction ds) (auto simp: put_current_set)

text \<open>
  A registered device that registers while the hub is serving becomes online with the
  address and port it reported and a fresh heartbeat, its shares are replaced by the reported
  ones, no other row changes, the other subscribers are sent its DeviceOnline event, and the
  reply lists exactly the online devices with the caller once, under its new data.
\<close>

theorem Register_effect:
  assumes "store_inv (hdb s)" and "faults s = []" and "\<not> draining s"
    and "device_row (hdb s) did = Some r"
    and "run (Register now did ip port shs ProtocolVersion) s = (res, s')"
  shows "(\<exists>ds. res = Inr ds \<and> distinct (map device_id ds) \<and>
      set ds = insert \<lparr>device_id = did, nickname = nickname r, last_ip = ip, ssh_port = port,
                       dev_status = StatusOnline, last_heartbeat = 0\<rparr>
        {x \<in> set (devices (hdb s)). dev_status x = StatusOnline \<and> device_id x \<noteq> did}) \<and>
    device_row (hdb s') did = Some (r\<lparr>last_heartbeat := now, dev_status := StatusOnline, last_ip := ip, ssh_port := port\<rparr>) \<and>
    (\<forall>k. k \<noteq> did \<longrightarrow> device_row (hdb s') k = device_row (hdb s) k) \<and>
    fst (GetShares did (hdb s')) = Inr (sharesFromProto did shs) \<and>
    s' = broadcastLocked (online_event r ip port shs) did (s\<lparr>hdb := hdb s'\<rparr>)"
proof -
  let ?on = "filter (\<lambda>r. dev_status r = StatusOnline) (devices (hdb s))"
  let ?cur = "\<lparr>device_id = did, nickname = nickname r, last_ip = ip, ssh_port = port,
                       dev_status = StatusOnline, last_heartbeat = 0\<rparr>"
  let ?d = "registered_db now did ip port shs (hdb s)"
  have r: "res = Inr (put_current ?cur ?on)" "s' = broadcastLocked (online_event r ip port shs) did (s\<lparr>hdb := ?d\<rparr>)"
    using assms run_Register [OF healthy_intro [OF assms(2)] assms(1), of now did ip port shs ProtocolVersion]
    by simp_all
  have dist: "distinct (map device_id ?on)" using store_invD(1) [OF assms(1)] by (rule distinct_map_filter_key)
  have rows: "device_row ?d k = map_option (\<lambda>x. if device_id x = did then
      x\<lparr>last_heartbeat := now, dev_status := StatusOnline, last_ip := ip, ssh_port := port\<rparr> else x) (device_row (hdb s) k)" for k
    by (simp add: registered_db_def device_row_def is_online_update)
  have "fst (GetShares did ?d) = Inr (sharesFromProto did shs)"
    by (simp add: GetShares_def registered_db_def sharesFromProto_def filter_empty_conv)
  moreover have "k \<noteq> did \<Longrightarrow> device_row ?d k = device_row (hdb s) k" for k
    unfolding rows by (cases "device_row (hdb s) k") (use device_row_Some in fastforce)+
  ultimately show ?thesis using r put_current_set [OF dist, of ?cur] put_current_ids [OF dist, of ?cur]
      rows [of did] assms(4) device_row_Some [OF assms(4)] by auto
qed

subsection \<open>Heartbeat\<close>

definition beat_db :: "time \<Rightarrow> string \<Rightarrow> db \<Rightarrow> db" where
  "beat_db now did d = d\<lparr>devices := update_where (\<lambda>r. device_id r = did) (\<lambda>r. r\<lparr>last_heartbeat := now\<rparr>) (devices d)\<rparr>"

text \<open>When a heartbeat brings a device back.\<close>

definition recoverable :: "hub \<Rightarrow> string \<Rightarrow> device \<Rightarrow> bool" where
  "recoverable s did r \<longleftrightarrow> dev_status r = StatusOffline \<and> \<not> draining s \<and>
     map_of (subscribers s) did \<noteq> None \<and> ssh_port r \<noteq> 0"

lemma beat_row:
  "device_row (beat_db now did d) k =
    map_option (\<lambda>r. if device_id r = did then r\<lparr>last_heartbeat := now\<rparr> else r) (device_row d k)"
  by (simp add: beat_db_def device_row_update)

lemma store_inv_beat: "store_inv d \<Longrightarrow> device_row d did = Some r \<Longrightarrow> store_inv (beat_db now did d)"
  using inv_device_updates(5) [of d now did] by (simp add: UpdateHeartbeat_ok beat_db_def)

lemma run_Heartbeat:
  assumes "healthy s" and "store_inv (hdb s)"
  shows "run (Heartbeat now did ip) s =
    (case device_row (hdb s) did of
       None \<Rightarrow> (Inl ErrDeviceNotFound, s\<lparr>hdb := snd (UpdateHeartbeat now did (hdb s))\<rparr>)
     | Some r \<Rightarrow> (Inr (),
         let s1 = s\<lparr>hdb := beat_db now did (hdb s)\<rparr> in
         if recoverable s did r
         then broadcastLocked (DeviceOnline did (nickname r) (if ip \<noteq> [] then ip else last_ip r)
                (to_int32 (ssh_port r)) (sharesToProto (filter (\<lambda>x. share_device x = did) (shares (hdb s))))) did
              (s1\<lparr>hdb := snd (MarkOnlineIfOffline did ip (hdb s1))\<rparr>)
         else s1))"
proof (cases "device_row (hdb s) did")
  case None
  with assms show ?thesis
    by (simp add: Heartbeat_def writes_without_row deviceErr_def)
next
  case (Some r)
  have id: "device_id r = did" using device_row_Some [OF Some] by simp
  have u: "UpdateHeartbeat now did (hdb s) = (Inr (), beat_db now did (hdb s))"
    using assms(2) Some by (simp add: UpdateHeartbeat_ok beat_db_def)
  have i: "store_inv (beat_db now did (hdb s))" by (rule store_inv_beat [OF assms(2) Some])
  have row: "device_row (beat_db now did (hdb s)) did = Some (r\<lparr>last_heartbeat := now\<rparr>)"
    using Some id by (simp add: beat_row)
  have sh: "shares (beat_db now did (hdb s)) = shares (hdb s)" by (simp add: beat_db_def)
  show ?thesis
    using assms Some id
    by (auto simp: Heartbeat_def u row GetDevice_row canRecover_def recoverable_def GetShares_def sh Let_def
        recoverAndAnnounce_def recover_section_def MarkOnlineIfOffline_row(1) [OF i] split: sum.split)
qed

text \<open>
  A heartbeat of a known device always refreshes its timestamp; it brings the device back
  online, and announces it, exactly when the device is offline, subscribed, has a port, and
  the hub is not draining. In every other case no event is sent and no status changes.
\<close>

theorem Heartbeat_effect:
  assumes "store_inv (hdb s)" and "faults s = []" and "device_row (hdb s) did = Some r"
    and "run (Heartbeat now did ip) s = (res, s')"
  shows "res = Inr () \<and>
    device_row (hdb s') did = Some (if recoverable s did r
      then r\<lparr>last_heartbeat := now, dev_status := StatusOnline, last_ip := (if ip = [] then last_ip r else ip)\<rparr>
      else r\<lparr>last_heartbeat := now\<rparr>) \<and>
    (\<forall>k. k \<noteq> did \<longrightarrow> device_row (hdb s') k = device_row (hdb s) k) \<and>
    (if recoverable s did r
     then s' = broadcastLocked (DeviceOnline did (nickname r) (if ip \<noteq> [] then ip else last_ip r)
                 (to_int32 (ssh_port r)) (sharesToProto (filter (\<lambda>x. share_device x = did) (shares (hdb s))))) did
                 (s\<lparr>hdb := hdb s'\<rparr>)
     else s' = s\<lparr>hdb := hdb s'\<rparr>)"
proof -
  let ?d = "beat_db now did (hdb s)"
  have i: "store_inv ?d" by (rule store_inv_beat [OF assms(1,3)])
  have id: "device_id r = did" using device_row_Some [OF assms(3)] by simp
  have row: "device_row ?d did = Some (r\<lparr>last_heartbeat := now\<rparr>)" using assms(3) id by (simp add: beat_row)
  have other: "device_row ?d k = device_row (hdb s) k" if "k \<noteq> did" for k
    unfolding beat_row by (cases "device_row (hdb s) k") (use that device_row_Some in fastforce)+
  have other': "device_row (snd (MarkOnlineIfOffline did ip ?d)) k = device_row (hdb s) k" if "k \<noteq> did" for k
    using that other [OF that] unfolding MarkOnlineIfOffline_row(2) [OF i] by (simp add: map_option.id [unfolded id_def])
  show ?thesis
  proof (cases "recoverable s did r")
    case True
    then have "dev_status r = StatusOffline" by (simp add: recoverable_def)
    then have "device_row (snd (MarkOnlineIfOffline did ip ?d)) did =
        Some (r\<lparr>last_heartbeat := now, dev_status := StatusOnline, last_ip := (if ip = [] then last_ip r else ip)\<rparr>)"
      unfolding MarkOnlineIfOffline_row(2) [OF i] row by simp
    then show ?thesis using True assms(4) other'
      unfolding run_Heartbeat [OF healthy_intro [OF assms(2)] assms(1)] assms(3) by (auto simp: Let_def)
  next
    case False
    then show ?thesis using assms(4) other row
      unfolding run_Heartbeat [OF healthy_intro [OF assms(2)] assms(1)] assms(3) by (auto simp: Let_def)
  qed
qed

subsection \<open>The sweep for stale devices\<close>

definition stale :: "time \<Rightarrow> device \<Rightarrow> bool" where
  "stale th r \<longleftrightarrow> dev_status r = StatusOnline \<and> last_heartbeat r < th"

lemma run_MarkOffline:
  assumes "healthy s" and "store_inv (hdb s)" and "run (MarkOffline d th) s = (res, t)"
  shows "healthy t \<and> hdb t = snd (MarkOfflineIfStale (device_id d) th (hdb s)) \<and>
    subscribers t = subscribers s"
  using assms by (auto simp: MarkOffline_def Broadcast_def split: sum.splits if_splits)

lemma MarkOfflineIfStale_stale_row:
  "store_inv d \<Longrightarrow> device_row (snd (MarkOfflineIfStale did th d)) k =
     map_option (\<lambda>r. if k = did \<and> stale th r then r\<lparr>dev_status := StatusOffline\<rparr> else r) (device_row d k)"
  by (simp add: MarkOfflineIfStale_row(2) stale_def)

lemma run_mark_each:
  assumes "healthy s" and "store_inv (hdb s)"
  shows "let t = snd (run (for_each ds (\<lambda>d. bind_proc (MarkOffline d th) (\<lambda>_. Ret ()))) s) in
    healthy t \<and> store_inv (hdb t) \<and>
    (\<forall>k. device_row (hdb t) k = map_option (\<lambda>r. if k \<in> device_id ` set ds \<and> stale th r
       then r\<lparr>dev_status := StatusOffline\<rparr> else r) (device_row (hdb s) k))"
  using assms
proof (induction ds arbitrary: s)
  case Nil
  then show ?case by (simp add: map_option.id [unfolded id_def])
next
  case (Cons d ds)
  obtain res t where t: "run (MarkOffline d th) s = (res, t)" by (cases "run (MarkOffline d th) s")
  have th: "healthy t" "hdb t = snd (MarkOfflineIfStale (device_id d) th (hdb s))"
    using run_MarkOffline [OF Cons.prems t] by auto
  have ti: "store_inv (hdb t)" unfolding th(2) using Cons.prems(2) by (rule inv_device_updates)
  let ?u = "snd (run (for_each ds (\<lambda>d. bind_proc (MarkOffline d th) (\<lambda>_. Ret ()))) t)"
  have IH: "healthy ?u" "store_inv (hdb ?u)"
    "\<And>k. device_row (hdb ?u) k = map_option (\<lambda>r. if k \<in> device_id ` set ds \<and> stale th r
       then r\<lparr>dev_status := StatusOffline\<rparr> else r) (device_row (hdb t) k)"
    using Cons.IH [OF th(1) ti] by (simp_all add: Let_def)
  have row: "device_row (hdb ?u) k = map_option (\<lambda>r. if k \<in> device_id ` set (d # ds) \<and> stale th r
       then r\<lparr>dev_status := StatusOffline\<rparr> else r) (device_row (hdb s) k)" for k
    unfolding IH(3) th(2) MarkOfflineIfStale_stale_row [OF Cons.prems(2)]
    by (cases "device_row (hdb s) k") (auto simp: stale_def)
  then show ?case using IH(1,2) t by (simp add: Let_def)
qed

text \<open>
  A sweep takes offline exactly the online devices whose last heartbeat is older than
  the timeout, and leaves every other device as it is.
\<close>

theorem checkStale_effect:
  assumes "store_inv (hdb s)" and "faults s = []"
  shows "device_row (hdb (snd (run (checkStale m now) s))) k =
    map_option (\<lambda>r. if dev_status r = StatusOnline \<and> last_heartbeat r < now - mon_timeout m
      then r\<lparr>dev_status := StatusOffline\<rparr> else r) (device_row (hdb s) k)"
proof -
  let ?th = "now - mon_timeout m"
  let ?ds = "filter (\<lambda>r. dev_status r = StatusOnline \<and> last_heartbeat r < ?th) (devices (hdb s))"
  have h: "healthy s" using assms(2) by (rule healthy_intro)
  have "snd (run (checkStale m now) s) =
      snd (run (for_each ?ds (\<lambda>d. bind_proc (MarkOffline d ?th) (\<lambda>_. Ret ()))) s)"
    using h by (simp add: checkStale_def GetStaleDevices_def Let_def)
  then have row: "device_row (hdb (snd (run (checkStale m now) s))) k =
      map_option (\<lambda>r. if k \<in> device_id ` set ?ds \<and> stale ?th r
        then r\<lparr>dev_status := StatusOffline\<rparr> else r) (device_row (hdb s) k)"
    using run_mark_each [OF h assms(1), of ?ds ?th] by (simp add: Let_def)
  show ?thesis unfolding row
    by (cases "device_row (hdb s) k") (auto simp: stale_def dest: device_row_Some)
qed

subsection \<open>Leaving and pruning\<close>

text \<open>The database without a set of devices and everything that refers to them.\<close>

definition without :: "string set \<Rightarrow> db \<Rightarrow> db" where
  "without D d = d\<lparr>devices := filter (\<lambda>r. device_id r \<notin> D) (devices d),
     shares := filter (\<lambda>x. share_device x \<notin> D) (shares d),
     pairings := filter (\<lambda>p. device_a p \<notin> D \<and> device_b p \<notin> D) (pairings d),
     pending_invites := filter (\<lambda>v. from_device v \<notin> D \<and> to_device v \<notin> D) (pending_invites d)\<rparr>"

lemma cascade_without: "deleteDeviceCascade did d = (Inr (), without {did} d)"
  by (simp add: cascade_result without_def delete_where_def)

lemma without_union: "without A (without B d) = without (B \<union> A) d"
  by (simp add: without_def conj_ac)

lemma delete_devices_without: "delete_devices ds d = (Inr (), without (device_id ` set ds) d)"
proof (induction ds arbitrary: d)
  case Nil
  then show ?case by (simp add: without_def)
next
  case (Cons x ds)
  then show ?case by (simp add: cascade_without without_union)
qed

lemma DeletePrunedDevices_without:
  "DeletePrunedDevices th active d =
     (Inr (prunable th active d), without (device_id ` set (prunable th active d)) d)"
  by (simp add: DeletePrunedDevices_def in_tx_def Let_def delete_devices_without)

lemma DeleteDevice_without: "DeleteDevice did d = (Inr (), without {did} d)"
  by (simp add: DeleteDevice_def in_tx_def cascade_without)

text \<open>
  A device that leaves is removed with its shares, its pairings in both directions and
  the invitations from and to it; every other row stays. The others are told, and its
  subscription is closed. An unknown device changes nothing.
\<close>

theorem Leave_effect:
  assumes "faults s = []"
  shows "run (Leave did) s =
    (case device_row (hdb s) did of
       None \<Rightarrow> (Inl (StoreErr ErrNotFound), s)
     | Some r \<Rightarrow> (Inr (), remove_subscriber did
         (broadcastLocked (DeviceRemoved did (nickname r)) did
           (s\<lparr>hdb := (hdb s)\<lparr>devices := filter (\<lambda>r. device_id r \<noteq> did) (devices (hdb s)),
              shares := filter (\<lambda>x. share_device x \<noteq> did) (shares (hdb s)),
              pairings := filter (\<lambda>p. device_a p \<noteq> did \<and> device_b p \<noteq> did) (pairings (hdb s)),
              pending_invites := filter (\<lambda>v. from_device v \<noteq> did \<and> to_device v \<noteq> did) (pending_invites (hdb s))\<rparr>\<rparr>))))"
proof (cases "device_row (hdb s) did")
  case None
  with healthy_intro [OF assms] show ?thesis by (simp add: Leave_def GetDevice_row)
next
  case (Some r)
  then have "device_id r = did" using device_row_Some by blast
  with Some healthy_intro [OF assms] show ?thesis
    by (simp add: Leave_def GetDevice_row DeleteDevice_without without_def BroadcastDeviceRemoved_def
        Broadcast_def removeSubscriber_def)
qed

lemma prunable_props:
  "r \<in> set (prunable th active d) \<Longrightarrow> r \<in> set (devices d) \<and> dev_status r = StatusOffline \<and>
     last_heartbeat r < th \<and> device_id r \<notin> set active"
  by (auto simp: prunable_def dest: in_set_takeD)

lemma prunable_length: "length (prunable th active d) \<le> pruneBatchLimit"
  by (simp add: prunable_def)

lemma take_sorted_le:
  "sorted (map f xs) \<Longrightarrow> x \<in> set (take n xs) \<Longrightarrow> y \<in> set (drop n xs) \<Longrightarrow> f x \<le> f y"
proof -
  assume s: "sorted (map f xs)" and x: "x \<in> set (take n xs)" and y: "y \<in> set (drop n xs)"
  have "sorted (map f (take n xs) @ map f (drop n xs))" using s by (metis append_take_drop_id map_append)
  then show "f x \<le> f y" using x y by (auto simp: sorted_append)
qed

lemma prunable_oldest:
  assumes "r \<in> set (prunable th active d)" and "q \<in> set (devices d)" and "q \<notin> set (prunable th active d)"
    and "dev_status q = StatusOffline" and "last_heartbeat q < th" and "device_id q \<notin> set active"
  shows "last_heartbeat r \<le> last_heartbeat q"
proof -
  let ?xs = "sort_key last_heartbeat (filter (\<lambda>r. dev_status r = StatusOffline \<and> last_heartbeat r < th \<and> device_id r \<notin> set active) (devices d))"
  have "q \<in> set ?xs" using assms by simp
  then have "q \<in> set (take pruneBatchLimit ?xs) \<union> set (drop pruneBatchLimit ?xs)"
    by (metis append_take_drop_id set_append)
  then have "q \<in> set (drop pruneBatchLimit ?xs)" using assms(3) by (simp add: prunable_def)
  moreover have "r \<in> set (take pruneBatchLimit ?xs)" using assms(1) by (simp add: prunable_def)
  ultimately show ?thesis by (intro take_sorted_le [where f = last_heartbeat]) simp_all
qed

lemma hdb_run_prune_events [simp]:
  "hdb (snd (run (for_each ds (\<lambda>d. bind_proc (removeSubscriber (device_id d)) (\<lambda>_. BroadcastDeviceRemoved d))) s)) = hdb s"
  by (induction ds arbitrary: s)
    (simp_all add: removeSubscriber_def BroadcastDeviceRemoved_def Broadcast_def)

text \<open>
  Pruning removes, with everything that refers to them, at most 500 devices; each was
  offline, silent for longer than the retention and not subscribed, and none that it keeps
  under the same conditions has been silent for longer.
\<close>

theorem pruneInactive_effect:
  assumes "faults s = []" and "run (pruneInactive m now) s = (res, s')"
  shows "\<exists>P. hdb s' = without (device_id ` set P) (hdb s) \<and> length P \<le> 500 \<and>
    (\<forall>r \<in> set P. r \<in> set (devices (hdb s)) \<and> dev_status r = StatusOffline \<and>
       last_heartbeat r < now - mon_retention m \<and> map_of (subscribers s) (device_id r) = None) \<and>
    (\<forall>q \<in> set (devices (hdb s)). \<forall>r \<in> set P. q \<notin> set P \<and> dev_status q = StatusOffline \<and>
       last_heartbeat q < now - mon_retention m \<and> map_of (subscribers s) (device_id q) = None \<longrightarrow>
       last_heartbeat r \<le> last_heartbeat q)"
proof -
  let ?th = "now - mon_retention m"
  let ?P = "prunable ?th (map fst (subscribers s)) (hdb s)"
  have sub: "map_of (subscribers s) k = None \<longleftrightarrow> k \<notin> set (map fst (subscribers s))" for k
    by (simp add: map_of_eq_None_iff)
  have "hdb s' = without (device_id ` set ?P) (hdb s)"
    using healthy_intro [OF assms(1)] assms(2) hdb_run_prune_events
    by (auto simp: pruneInactive_def ActiveSubscribers_def DeletePrunedDevices_without Let_def dest!: arg_cong [of _ _ snd])
  moreover have "length ?P \<le> 500" using prunable_length by (simp add: pruneBatchLimit_def [symmetric])
  moreover have "r \<in> set (devices (hdb s)) \<and> dev_status r = StatusOffline \<and> last_heartbeat r < ?th \<and>
      map_of (subscribers s) (device_id r) = None" if "r \<in> set ?P" for r
    using prunable_props [OF that] by (simp only: sub) blast
  moreover have "last_heartbeat r \<le> last_heartbeat q"
    if "q \<in> set (devices (hdb s))" "r \<in> set ?P" "q \<notin> set ?P \<and> dev_status q = StatusOffline \<and>
      last_heartbeat q < ?th \<and> map_of (subscribers s) (device_id q) = None" for q r
    using that by (intro prunable_oldest [of r ?th "map fst (subscribers s)" "hdb s" q]) (simp_all only: sub, blast+)
  ultimately show ?thesis by blast
qed


subsection \<open>Concrete runs\<close>

theorem Join_outcome_witness:
  "run (Join (sign_cert sample_env) ''ca'' (jclock sample_env) ''d9'' ''n9'' ''10.0.0.9'' ''HUB-TOK-001'') sample_hub =
    (Inr \<lparr>client_cert = ''cert-d9'', client_key = ''key'', ca_cert = ''ca''\<rparr>,
     sample_hub\<lparr>hdb := (hdb sample_hub)\<lparr>pending_join_tokens := [], devices := devices (hdb sample_hub) @
       [\<lparr>device_id = ''d9'', nickname = ''n9'', last_ip = ''10.0.0.9'', ssh_port = 0,
         dev_status = StatusRegistered, last_heartbeat = 11\<rparr>]\<rparr>\<rparr>)"
  by (subst Join_outcome [OF sample_hub_ok(1,2)]) (simp add: live_token_def burn_token_def sample_defs)

lemma sample_channels [simp]: "channels_ok sample_hub"
  by (simp add: channels_ok_def new_chan_def)

theorem broadcast_delivery_witness:
  "buf (chans (broadcastLocked SubscribeReady ''d1'' sample_hub) 1) = [SubscribeReady]"
proof -
  have "map_of (subscribers sample_hub) ''d2'' = Some 1" by simp
  then have "buf (chans (broadcastLocked SubscribeReady ''d1'' sample_hub) 1) =
      (if ''d2'' = ''d1'' then buf (chans sample_hub 1) else deliver SubscribeReady (buf (chans sample_hub 1)))"
    using broadcast_delivery [OF sample_channels, of SubscribeReady "''d1''"] by blast
  then show ?thesis by (simp add: deliver_def chan_cap_def new_chan_def)
qed

theorem resubscribe_replaces_witness:
  "map_of (subscribers (snd (run (Subscribe ''d1'') sample_hub))) ''d1'' = Some 2"
  using resubscribe_replaces [of sample_hub "''d1''" 0 2 "snd (run (Subscribe ''d1'') sample_hub)"]
  by (simp add: Subscribe_def add_subscriber_def Let_def)

theorem Register_effect_witness:
  "device_row (hdb (snd (run (Register 70 ''d3'' ''10.0.0.9'' 22 [] ProtocolVersion) sample_hub))) ''d3'' =
    Some \<lparr>device_id = ''d3'', nickname = ''d3-nick'', last_ip = ''10.0.0.9'', ssh_port = 22,
          dev_status = StatusOnline, last_heartbeat = 70\<rparr>"
proof -
  have "device_row (hdb sample_hub) ''d3'' = Some ((sample_device ''d3'')\<lparr>dev_status := StatusOffline\<rparr>)"
    by (simp add: device_row_def sample_defs)
  then show ?thesis
    using Register_effect [OF sample_hub_ok, of "''d3''" _ 70 "''10.0.0.9''" 22 "[]", OF _ prod.collapse [symmetric]]
    by (simp add: sample_device_def)
qed

theorem Heartbeat_effect_witness:
  "device_row (hdb (snd (run (Heartbeat 70 ''d2'' []) sample_hub))) ''d2'' =
    Some ((sample_device ''d2'')\<lparr>last_heartbeat := 70\<rparr>)"
proof -
  let ?r = "(sample_device ''d2'')\<lparr>dev_status := StatusOffline\<rparr>"
  have "device_row (hdb sample_hub) ''d2'' = Some ?r" by (simp add: device_row_def sample_defs)
  moreover have "recoverable sample_hub ''d2'' ?r" by (simp add: recoverable_def sample_defs)
  ultimately show ?thesis
    using Heartbeat_effect [OF sample_hub_ok(1,2), of "''d2''" ?r 70 "[]", OF _ prod.collapse [symmetric]]
    by (simp add: sample_device_def)
qed

theorem checkStale_effect_witness:
  "device_row (hdb (snd (run (checkStale (NewHeartbeatMonitor 0 0) (second * 31)) sample_hub))) ''d1'' =
    Some ((sample_device ''d1'')\<lparr>dev_status := StatusOffline\<rparr>)"
  by (subst checkStale_effect [OF sample_hub_ok(1,2)])
    (simp add: device_row_def sample_defs NewHeartbeatMonitor_def DefaultHeartbeatTimeout_def Let_def second_def millisecond_def)

theorem Leave_effect_witness:
  "fst (run (Leave ''d1'') sample_hub) = Inr () \<and> device_row (hdb (snd (run (Leave ''d1'') sample_hub))) ''d1'' = None"
proof -
  have "device_row (hdb sample_hub) ''d1'' = Some (sample_device ''d1'')"
    by (simp add: device_row_def sample_defs)
  then show ?thesis unfolding Leave_effect [OF sample_hub_ok(2)] by (auto simp: device_row_None)
qed

definition sample_monitor :: monitor_cfg where
  "sample_monitor = \<lparr>mon_timeout = 3, mon_check = 1, mon_retention = 5, mon_prune_every = 1\<rparr>"

theorem pruneInactive_effect_witness:
  "\<exists>P :: device list. hdb (snd (run (pruneInactive sample_monitor 20) sample_hub)) = without (device_id ` set P) (hdb sample_hub) \<and>
     length P \<le> 500"
  using pruneInactive_effect [OF sample_hub_ok(2) prod.collapse [symmetric], of sample_monitor 20] by blast


end
