(* ===== verification/PairingProps.thy ===== *)
theory PairingProps
  imports RegistryProps
begin

text \<open>
  Pairing: which confirmations are refused and what a refused one leaves behind, what a
  successful one records and announces, and the invite codes (their format, the uniformity of
  their letters, and when the generator returns).
\<close>

subsection \<open>Invitations\<close>

definition invite_row :: "db \<Rightarrow> string \<Rightarrow> pending_invite option" where
  "invite_row d code = find (\<lambda>v. invite_code v = code) (pending_invites d)"

lemma GetInvite_row:
  "GetInvite code d = (case invite_row d code of None \<Rightarrow> (Inl ErrNoRows, d) | Some v \<Rightarrow> (Inr v, d))"
  by (simp add: GetInvite_def invite_row_def query_row_def split: option.split)

text \<open>The checks of \<open>ConfirmPairing\<close>, in their order.\<close>

definition invite_refusal :: "time \<Rightarrow> string \<Rightarrow> pending_invite option \<Rightarrow> hub_err option" where
  "invite_refusal now did v =
     (case v of None \<Rightarrow> Some ErrInvalidInviteCode
      | Some v \<Rightarrow> if to_device v \<noteq> did then Some ErrInvalidInviteCode
                  else if now > invite_expires_at v then Some ErrInviteExpired
                  else if invite_attempts v \<ge> maxPairingAttempts then Some ErrMaxAttemptsExceeded
                  else None)"

text \<open>
  A confirmation with an unknown code, by another device than the invited one, after the
  expiry or after the attempts are used up is refused and leaves the whole hub as it was. A
  wrong guess therefore does not count as an attempt.
\<close>

theorem ConfirmPairing_refused:
  assumes "faults s = []" and "invite_refusal now did (invite_row (hdb s) code) = Some e"
  shows "run (ConfirmPairing now now' did code key) s = (Inl e, s)"
  using assms healthy_intro [OF assms(1)]
  by (auto simp: ConfirmPairing_def GetInvite_row invite_refusal_def split: option.splits if_splits)

lemma run_sendToDevice:
  "run (sendToDevice did ev) s =
     ((), case map_of (subscribers s) did of None \<Rightarrow> s | Some c \<Rightarrow> send_chan ev c s)"
  by (simp add: sendToDevice_def lookup_subscriber_def late_send_def split: option.split)

text \<open>The delivery of an event to one device, when nothing interferes.\<close>

definition push :: "string \<Rightarrow> event \<Rightarrow> hub \<Rightarrow> hub" where
  "push did ev s = (case map_of (subscribers s) did of None \<Rightarrow> s | Some c \<Rightarrow> send_chan ev c s)"

lemma run_push [simp]: "run (sendToDevice did ev) s = ((), push did ev s)"
  by (simp add: run_sendToDevice push_def)

lemma hdb_push [simp]: "hdb (push did ev s) = hdb s"
  by (simp add: push_def split: option.split)

definition confirmed_db :: "time \<Rightarrow> string \<Rightarrow> string \<Rightarrow> string \<Rightarrow> db \<Rightarrow> db" where
  "confirmed_db now frm did code d = d\<lparr>
     pairings := pairings d @ [\<lparr>device_a = frm, device_b = did, paired_at = now\<rparr>],
     pending_invites := filter (\<lambda>v. invite_code v \<noteq> code) (pending_invites d)\<rparr>"

lemma invites_after_increment:
  "filter (\<lambda>v. invite_code v \<noteq> code) (update_where (\<lambda>r. invite_code r = code)
     (\<lambda>r. r\<lparr>invite_attempts := invite_attempts r + 1\<rparr>) vs) = filter (\<lambda>v. invite_code v \<noteq> code) vs"
  by (induction vs) (simp_all add: update_where_def)

text \<open>
  A valid confirmation between two devices that are not yet paired in that order records
  the pairing, which holds in both directions from then on, uses up the invitation, returns
  the initiator's key, id and nickname, and pushes PairingCompleted to both devices.
\<close>

theorem ConfirmPairing_effect:
  assumes "faults s = []" and "invite_row (hdb s) code = Some v"
    and "invite_refusal now did (Some v) = None"
    and "device_row (hdb s) (from_device v) = Some r"
    and "\<forall>p \<in> set (pairings (hdb s)). \<not> (device_a p = from_device v \<and> device_b p = did)"
  shows "run (ConfirmPairing now now' did code key) s =
      (Inr \<lparr>peer_key = from_public_key v, peer_id = from_device v, peer_nick = nickname r\<rparr>,
       push did (PairingCompleted (from_device v) (from_public_key v))
        (push (from_device v) (PairingCompleted did key)
          (s\<lparr>hdb := confirmed_db now' (from_device v) did code (hdb s)\<rparr>))) \<and>
    fst (IsPaired (from_device v) did (confirmed_db now' (from_device v) did code (hdb s))) = Inr True \<and>
    fst (IsPaired did (from_device v) (confirmed_db now' (from_device v) did code (hdb s))) = Inr True \<and>
    invite_row (confirmed_db now' (from_device v) did code (hdb s)) code = None"
proof -
  have id: "device_id r = from_device v" using device_row_Some [OF assms(4)] by simp
  have np: "\<not> (\<exists>p \<in> set (pairings (hdb s)). device_a p = from_device v \<and> device_b p = did)"
    using assms(5) by blast
  have ok: "to_device v = did" "\<not> invite_expires_at v < now" "\<not> invite_attempts v \<ge> maxPairingAttempts"
    using assms(3) by (auto simp: invite_refusal_def split: if_splits)
  have "run (ConfirmPairing now now' did code key) s =
      (Inr \<lparr>peer_key = from_public_key v, peer_id = from_device v, peer_nick = nickname r\<rparr>,
       push did (PairingCompleted (from_device v) (from_public_key v))
        (push (from_device v) (PairingCompleted did key)
          (s\<lparr>hdb := confirmed_db now' (from_device v) did code (hdb s)\<rparr>)))"
    using healthy_intro [OF assms(1)] assms(2,4) ok np
    by (simp add: ConfirmPairing_def GetInvite_row GetDevice_row IncrementInviteAttempts_def
        CreatePairing_def DeleteInvite_def delete_where_def invites_after_increment confirmed_db_def id)
  moreover have "fst (IsPaired a b (confirmed_db now' (from_device v) did code (hdb s))) = Inr True"
    if "(a = from_device v \<and> b = did) \<or> (a = did \<and> b = from_device v)" for a b
    using that by (auto simp: IsPaired_def Let_def affected_pos_iff confirmed_db_def)
  moreover have "invite_row (confirmed_db now' (from_device v) did code (hdb s)) code = None"
    by (simp add: invite_row_def confirmed_db_def find_None_iff_ex)
  ultimately show ?thesis by blast
qed

text \<open>
  An invitation is created only between two devices that are both online and not yet
  paired in either direction; it names the addressed device, expires ten minutes later, has no
  attempts, and only the addressed device is told.
\<close>

theorem RequestPairing_effect:
  assumes "faults s = []" and "run (RequestPairing now code did nick key) s = (Inr c, s')"
  shows "\<exists>a b. device_row (hdb s) did = Some a \<and> nick_row (hdb s) nick = Some b \<and>
    dev_status a = StatusOnline \<and> dev_status b = StatusOnline \<and>
    fst (IsPaired did (device_id b) (hdb s)) = Inr False \<and> invite_row (hdb s) code = None \<and> c = code \<and>
    s' = push (device_id b) (PairingRequested did (nickname a))
      (s\<lparr>hdb := (hdb s)\<lparr>pending_invites := pending_invites (hdb s) @
         [\<lparr>invite_code = code, from_device = did, to_device = device_id b, from_public_key = key,
           invite_expires_at = now + 600 * second, invite_attempts = 0\<rparr>]\<rparr>\<rparr>)"
proof -
  have ip: "snd (IsPaired x y d) = d" "fst (IsPaired x y d) \<noteq> Inl e" for x y d e
    by (simp_all add: IsPaired_def Let_def)
  have ci: "CreateInvite v d = (if invite_row d (invite_code v) = None
      then (Inr (), d\<lparr>pending_invites := pending_invites d @ [v]\<rparr>) else (Inl ErrConstraint, d))" for v d
    by (auto simp: CreateInvite_def invite_row_def find_None_iff_ex)
  show ?thesis
    using assms(2) healthy_intro [OF assms(1)]
    by (auto simp: RequestPairing_def GetDevice_row GetDeviceByNickname_row ip ci inviteCodeTTL_def minute_def
        dest: device_row_Some split: option.splits if_splits sum.splits)
qed

subsection \<open>Codes\<close>

lemma alphabet_length: "length inviteAlphabet = 36"
  by (simp add: inviteAlphabet_def)

lemma unat_code_index: "unat (b mod 36 :: 8 word) = unat b mod 36"
  by (simp add: unat_mod_distrib)

lemma code_char_in: "code_char b \<in> set inviteAlphabet"
  unfolding code_char_def unat_code_index by (rule nth_mem) (simp add: alphabet_length)

text \<open>The bytes the generator accepts.\<close>

definition accepted :: "8 word \<Rightarrow> bool" where
  "accepted b \<longleftrightarrow> b < maxUnbiased"

lemma not_accepted: "maxUnbiased \<le> b \<longleftrightarrow> \<not> accepted b"
  by (simp add: accepted_def not_less)

lemma random_fill_total:
  "n \<le> length (filter accepted bs) \<longleftrightarrow> (\<exists>seg rest. random_fill n bs acc = Some (seg, rest))"
  by (induction n bs acc rule: random_fill.induct) (auto simp: not_accepted)

lemma random_fill_shape:
  "random_fill n bs acc = Some (seg, rest) \<Longrightarrow>
   \<exists>used. bs = used @ rest \<and> seg = acc @ map code_char (filter accepted used) \<and>
     length (filter accepted used) = n"
proof (induction n bs acc rule: random_fill.induct)
  case (1 bs acc)
  then show ?case by (intro exI [of _ "[]"]) simp
next
  case (3 n b bs acc)
  show ?case
  proof (cases "accepted b")
    case True
    with 3 obtain used where "bs = used @ rest" "seg = (acc @ [code_char b]) @ map code_char (filter accepted used)"
      "length (filter accepted used) = n" by (auto simp: not_accepted)
    with True show ?thesis by (intro exI [of _ "b # used"]) simp
  next
    case False
    with 3 obtain used where "bs = used @ rest" "seg = acc @ map code_char (filter accepted used)"
      "length (filter accepted used) = Suc n" by (auto simp: not_accepted)
    with False show ?thesis by (intro exI [of _ "b # used"]) simp
  qed
qed simp

text \<open>
  The generator returns as soon as the random source has delivered six bytes below 252,
  and every code it returns is HUB, a dash, three letters or digits, a dash, three letters or
  digits.
\<close>

theorem GenerateInviteCode_format:
  "(\<exists>code rest. GenerateInviteCode bs = Some (code, rest)) = (6 \<le> length (filter accepted bs)) \<and>
   (\<forall>code rest. GenerateInviteCode bs = Some (code, rest) \<longrightarrow>
     (\<exists>a b. code = ''HUB-'' @ a @ ''-'' @ b \<and> length a = 3 \<and> length b = 3 \<and>
       set (a @ b) \<subseteq> set inviteAlphabet))"
proof (intro conjI allI impI)
  show "(\<exists>code rest. GenerateInviteCode bs = Some (code, rest)) = (6 \<le> length (filter accepted bs))"
  proof (cases "randomSegment 3 bs")
    case None
    then have "\<not> 3 \<le> length (filter accepted bs)" using random_fill_total [of 3 bs "[]"] by (simp add: randomSegment_def)
    with None show ?thesis by (simp add: GenerateInviteCode_def)
  next
    case (Some z)
    obtain seg rest where z: "z = (seg, rest)" by (cases z)
    with Some obtain used where "bs = used @ rest" "length (filter accepted used) = 3"
      using random_fill_shape [of 3 bs "[]" seg rest] by (auto simp: randomSegment_def)
    then have "6 \<le> length (filter accepted bs) \<longleftrightarrow> 3 \<le> length (filter accepted rest)" by simp
    also have "\<dots> \<longleftrightarrow> (\<exists>seg2 rest2. randomSegment 3 rest = Some (seg2, rest2))"
      unfolding randomSegment_def by (rule random_fill_total)
    finally show ?thesis using Some z by (auto simp: GenerateInviteCode_def split: option.splits)
  qed
next
  fix code rest
  assume "GenerateInviteCode bs = Some (code, rest)"
  then obtain a r b where ab: "randomSegment 3 bs = Some (a, r)" "randomSegment 3 r = Some (b, rest)"
    and code: "code = ''HUB-'' @ a @ ''-'' @ b"
    by (auto simp: GenerateInviteCode_def split: option.splits)
  have seg: "length x = 3 \<and> set x \<subseteq> set inviteAlphabet" if seg: "randomSegment 3 y = Some (x, z)" for x y z
  proof -
    from random_fill_shape [of 3 y "[]" x z] seg obtain used where
      "x = map code_char (filter accepted used)" "length (filter accepted used) = 3" by (auto simp: randomSegment_def)
    then show ?thesis using code_char_in by auto
  qed
  have "length a = 3 \<and> length b = 3 \<and> set (a @ b) \<subseteq> set inviteAlphabet"
    using seg [OF ab(1)] seg [OF ab(2)] by simp
  with code show "\<exists>a b. code = ''HUB-'' @ a @ ''-'' @ b \<and> length a = 3 \<and> length b = 3 \<and>
      set (a @ b) \<subseteq> set inviteAlphabet" by blast
qed

lemma card_word8: "card {b :: 8 word. P (unat b)} = card {n. n < 256 \<and> P n}"
proof -
  have inj: "inj_on unat {b :: 8 word. P (unat b)}" by (rule inj_onI) (simp add: word_unat_eq_iff)
  have "unat ` {b :: 8 word. P (unat b)} = {n. n < 256 \<and> P n}"
  proof (intro equalityI subsetI)
    fix n
    assume n: "n \<in> {n. n < 256 \<and> P n}"
    then have "unat (word_of_nat n :: 8 word) = n" by (simp add: unat_of_nat)
    with n show "n \<in> unat ` {b :: 8 word. P (unat b)}" by (intro image_eqI [of _ _ "word_of_nat n"]) auto
  next
    fix n
    assume "n \<in> unat ` {b :: 8 word. P (unat b)}"
    then obtain b :: "8 word" where "n = unat b" "P (unat b)" by auto
    then show "n \<in> {n. n < 256 \<and> P n}" using unsigned_less [of b] by simp
  qed
  then show ?thesis using card_image [OF inj] by simp
qed

lemma card_residue:
  assumes "(i :: nat) < 36"
  shows "card {n. n < 252 \<and> n mod 36 = i} = 7"
proof -
  have "{n. n < 252 \<and> n mod 36 = i} = (\<lambda>k. i + 36 * k) ` {..<7}"
  proof (intro equalityI subsetI)
    fix n
    assume "n \<in> {n. n < 252 \<and> n mod 36 = i}"
    then have "n = i + 36 * (n div 36)" and "n div 36 < 7" using mod_mult_div_eq [of n 36] by auto
    then show "n \<in> (\<lambda>k. i + 36 * k) ` {..<7}" by (metis imageI lessThan_iff)
  next
    fix n
    assume "n \<in> (\<lambda>k. i + 36 * k) ` {..<7}"
    then show "n \<in> {n. n < 252 \<and> n mod 36 = i}" using assms by auto
  qed
  moreover have "inj_on (\<lambda>k. i + 36 * k) {..<7}" by (rule inj_onI) simp
  ultimately show ?thesis by (simp add: card_image)
qed

lemma alphabet_distinct: "distinct inviteAlphabet"
  by (simp add: inviteAlphabet_def)

text \<open>
  Among the bytes the generator accepts, each of the 36 letters and digits is produced by
  exactly seven, so a uniform random source gives uniform codes.
\<close>

theorem code_letters_uniform:
  "\<forall>ch \<in> set inviteAlphabet. card {b. accepted b \<and> code_char b = ch} = 7"
proof
  fix ch
  assume ch: "ch \<in> set inviteAlphabet"
  obtain i where i: "i < 36" "ch = inviteAlphabet ! i"
    using ch by (auto simp: in_set_conv_nth alphabet_length)
  have "accepted b \<longleftrightarrow> unat b < 252" for b
    by (simp add: accepted_def maxUnbiased_def word_less_nat_alt)
  moreover have "code_char b = ch \<longleftrightarrow> unat b mod 36 = i" for b
    unfolding code_char_def unat_code_index i(2)
    by (rule nth_eq_iff_index_eq [OF alphabet_distinct]) (simp_all add: alphabet_length i)
  ultimately have "card {b. accepted b \<and> code_char b = ch} = card {n. n < 256 \<and> n < 252 \<and> n mod 36 = i}"
    using card_word8 [of "\<lambda>n. n < 252 \<and> n mod 36 = i"] by simp
  also have "{n. n < 256 \<and> n < 252 \<and> n mod 36 = i} = {n. n < 252 \<and> n mod 36 = i}" by auto
  finally show "card {b. accepted b \<and> code_char b = ch} = 7" using card_residue [OF i(1)] by simp
qed

subsection \<open>Concrete runs\<close>

definition sample_pairing_hub :: hub where
  "sample_pairing_hub = init_hub (sample_db\<lparr>pending_invites := [\<lparr>invite_code = ''HUB-AAA-BBB'',
     from_device = ''d1'', to_device = ''d2'', from_public_key = ''k1'', invite_expires_at = 700, invite_attempts = 0\<rparr>]\<rparr>)"

theorem ConfirmPairing_refused_witness:
  "run (ConfirmPairing 20 21 ''d2'' ''HUB-XXX-XXX'' ''k2'') sample_pairing_hub = (Inl ErrInvalidInviteCode, sample_pairing_hub)"
  by (rule ConfirmPairing_refused)
    (simp_all add: sample_pairing_hub_def init_hub_def invite_row_def invite_refusal_def)

theorem ConfirmPairing_effect_witness:
  "fst (run (ConfirmPairing 20 21 ''d2'' ''HUB-AAA-BBB'' ''k2'') sample_pairing_hub) =
     Inr \<lparr>peer_key = ''k1'', peer_id = ''d1'', peer_nick = ''d1-nick''\<rparr>"
proof -
  let ?v = "\<lparr>invite_code = ''HUB-AAA-BBB'', from_device = ''d1'', to_device = ''d2'',
     from_public_key = ''k1'', invite_expires_at = 700, invite_attempts = 0\<rparr>"
  have "faults sample_pairing_hub = []" "invite_row (hdb sample_pairing_hub) ''HUB-AAA-BBB'' = Some ?v"
    "invite_refusal 20 ''d2'' (Some ?v) = None"
    "device_row (hdb sample_pairing_hub) (from_device ?v) = Some (sample_device ''d1'')"
    "\<forall>p \<in> set (pairings (hdb sample_pairing_hub)). \<not> (device_a p = from_device ?v \<and> device_b p = ''d2'')"
    by (simp_all add: sample_pairing_hub_def invite_row_def invite_refusal_def maxPairingAttempts_def device_row_def sample_defs)
  from ConfirmPairing_effect [OF this] show ?thesis by (simp add: sample_device_def)
qed

theorem RequestPairing_effect_witness:
  "\<exists>a. device_row (hdb sample_pairing_hub) ''d1'' = Some a \<and> dev_status a = StatusOnline"
proof -
  have "fst (run (RequestPairing 20 ''HUB-NEW-001'' ''d1'' ''d2-nick'' ''k1'') sample_pairing_hub) = Inr ''HUB-NEW-001''"
    by (simp add: RequestPairing_def sample_pairing_hub_def GetDevice_row GetDeviceByNickname_row device_row_def
        nick_row_def IsPaired_def affected_def CreateInvite_def healthy_def sample_defs)
  then have "run (RequestPairing 20 ''HUB-NEW-001'' ''d1'' ''d2-nick'' ''k1'') sample_pairing_hub =
      (Inr ''HUB-NEW-001'', snd (run (RequestPairing 20 ''HUB-NEW-001'' ''d1'' ''d2-nick'' ''k1'') sample_pairing_hub))"
    by (metis prod.collapse)
  moreover have "faults sample_pairing_hub = []" by (simp add: sample_pairing_hub_def init_hub_def)
  ultimately show ?thesis using RequestPairing_effect by blast
qed

theorem GenerateInviteCode_format_witness:
  "\<exists>a b. fst (the (GenerateInviteCode [0, 255, 1, 2, 3, 4, 5])) = ''HUB-'' @ a @ ''-'' @ b \<and> length a = 3 \<and> length b = 3"
proof -
  have "GenerateInviteCode [0, 255, 1, 2, 3, 4, 5] = Some (''HUB-ABC-DEF'', [])" by code_simp
  with GenerateInviteCode_format [of "[0, 255, 1, 2, 3, 4, 5]"] show ?thesis by fastforce
qed

theorem code_letters_uniform_witness:
  "card {b. accepted b \<and> code_char b = CHR ''A''} = 7"
  using code_letters_uniform by (simp add: inviteAlphabet_def)

end
