(* ===== verification/LifecycleProps.thy ===== *)
theory LifecycleProps
  imports RegistryProps
begin

text \<open>
  Startup and shutdown: the time bound of the stop sequence and when it closes the store, the
  steps of \<open>Hub.Start\<close> and \<open>Hub.Stop\<close> as a transition relation with its invariant, and the
  reconciliation at startup.
\<close>

subsection \<open>Stop outcomes, by severity\<close>

fun severity :: "stop_outcome \<Rightarrow> nat" where
  "severity StopGraceful = 0"
| "severity StopForced = 1"
| "severity StopHung = 2"

instantiation stop_outcome :: linorder
begin

definition less_eq_stop_outcome :: "stop_outcome \<Rightarrow> stop_outcome \<Rightarrow> bool" where
  "a \<le> b \<longleftrightarrow> severity a \<le> severity b"

definition less_stop_outcome :: "stop_outcome \<Rightarrow> stop_outcome \<Rightarrow> bool" where
  "a < b \<longleftrightarrow> severity a < severity b"

lemma severity_inject: "severity a = severity b \<Longrightarrow> a = b"
  by (cases a; cases b) simp_all

instance
  by standard (auto simp: less_eq_stop_outcome_def less_stop_outcome_def intro: severity_inject)

end

text \<open>A server that stops later never gets a milder outcome.\<close>

definition later :: "time option \<Rightarrow> time option \<Rightarrow> bool" where
  "later a b \<longleftrightarrow> (case b of None \<Rightarrow> True | Some y \<Rightarrow> (case a of None \<Rightarrow> False | Some x \<Rightarrow> x \<le> y))"

lemma at_most_later: "later a b \<Longrightarrow> at_most b l \<Longrightarrow> at_most a l"
  by (auto simp: later_def at_most_def split: option.splits)

lemma StopServer_monotone:
  "later g g' \<Longrightarrow> later f f' \<Longrightarrow> fst (StopServer g f grace hl) \<le> fst (StopServer g' f' grace hl)"
  by (auto simp: StopServer_def Let_def less_eq_stop_outcome_def dest: at_most_later)

lemma StopServer_time:
  assumes "0 \<le> grace" and "\<And>x. g = Some x \<Longrightarrow> 0 \<le> x"
  shows "0 \<le> snd (StopServer g f grace hl) \<and>
    snd (StopServer g f grace hl) \<le> grace + max hl minForcedWait"
proof -
  have "0 < minForcedWait" by (simp add: minForcedWait_def millisecond_def)
  then show ?thesis using assms
    by (auto simp: StopServer_def at_most_def Let_def split: option.splits)
qed

lemma StopServer_graceful: "fst (StopServer g f grace hl) = StopGraceful \<longleftrightarrow> at_most g grace"
  by (simp add: StopServer_def Let_def)

lemma StopServer_hung:
  "fst (StopServer g f grace hl) = StopHung \<longleftrightarrow>
     \<not> at_most g grace \<and> \<not> at_most f (grace + max hl minForcedWait)"
  by (auto simp: StopServer_def Let_def max_def)

subsection \<open>The bound of the whole sequence\<close>

text \<open>The instants are measured from the start of the sequence and are not negative.\<close>

definition plausible :: "stop_timing \<Rightarrow> bool" where
  "plausible tm \<longleftrightarrow> 0 \<le> reach_server tm \<and>
     (\<forall>x. graceful_takes tm = Some x \<longrightarrow> 0 \<le> x) \<and> (\<forall>x. forced_takes tm = Some x \<longrightarrow> 0 \<le> x)"

lemma split_bounds:
  "0 \<le> d \<Longrightarrow> 0 \<le> w \<Longrightarrow> 0 \<le> fst (splitRemaining d now w) \<and> 0 \<le> snd (splitRemaining d now w) \<and>
   fst (splitRemaining d now w) + snd (splitRemaining d now w) = max 0 (d - now)"
  by (auto simp: splitRemaining_def Let_def)

lemma times_positive: "0 < DefaultShutdownBudget" "0 < shutdownGrace" "0 < minForcedWait"
  by (simp_all add: DefaultShutdownBudget_def shutdownGrace_def minForcedWait_def second_def millisecond_def)

definition server_stop :: "stop_timing \<Rightarrow> stop_outcome \<times> duration" where
  "server_stop tm = (case splitRemaining DefaultShutdownBudget (reach_server tm) shutdownGrace of
     (grace, hl) \<Rightarrow> StopServer (graceful_takes tm) (forced_takes tm) grace hl)"

lemma stop_decision_server:
  "stop_decision True tm =
    (let (outcome, took) = server_stop tm; (settled, closes) = stopResultFor outcome; now = reach_server tm + took
     in if \<not> closes then (settled, False, now)
        else if waitForBackground (background_done tm) now DefaultShutdownBudget
        then (True, True, max now (the (background_done tm)))
        else (True, False, max now DefaultShutdownBudget))"
  by (simp add: stop_decision_def server_stop_def)

lemma server_stop_time:
  assumes "plausible tm"
  shows "0 \<le> snd (server_stop tm) \<and>
    snd (server_stop tm) \<le> max 0 (DefaultShutdownBudget - reach_server tm) + minForcedWait"
proof -
  obtain grace hl where sp: "splitRemaining DefaultShutdownBudget (reach_server tm) shutdownGrace = (grace, hl)"
    by (cases "splitRemaining DefaultShutdownBudget (reach_server tm) shutdownGrace")
  have b: "0 \<le> grace" "0 \<le> hl" "grace + hl = max 0 (DefaultShutdownBudget - reach_server tm)"
    using split_bounds [of DefaultShutdownBudget shutdownGrace "reach_server tm"] times_positive sp by simp_all
  have "0 \<le> snd (StopServer (graceful_takes tm) (forced_takes tm) grace hl) \<and>
      snd (StopServer (graceful_takes tm) (forced_takes tm) grace hl) \<le> grace + max hl minForcedWait"
    using assms b(1) by (intro StopServer_time) (auto simp: plausible_def)
  moreover have "max hl minForcedWait \<le> hl + minForcedWait" using b(2) times_positive(3) by simp
  ultimately have "0 \<le> snd (StopServer (graceful_takes tm) (forced_takes tm) grace hl) \<and>
      snd (StopServer (graceful_takes tm) (forced_takes tm) grace hl)
        \<le> max 0 (DefaultShutdownBudget - reach_server tm) + minForcedWait"
    using b(3) by linarith
  then show ?thesis using sp by (simp add: server_stop_def)
qed


text \<open>
  The sequence can report that it settled although it took longer than the budget: when
  the sweep has used the budget up, the forced stop still gets its floor.
\<close>

theorem settled_after_the_budget:
  "\<exists>tm. plausible tm \<and> reach_server tm \<le> DefaultShutdownBudget \<and>
     (\<exists>took. stop_decision True tm = (True, False, took) \<and> took > DefaultShutdownBudget)"
proof -
  let ?tm = "\<lparr>reach_server = 6 * second, graceful_takes = None, forced_takes = Some (300 * millisecond),
    background_done = None\<rparr>"
  have "stop_decision True ?tm = (True, False, 6 * second + 300 * millisecond)"
    by (simp add: stop_decision_server server_stop_def splitRemaining_def StopServer_def stopResultFor_def at_most_def
        Let_def DefaultShutdownBudget_def shutdownGrace_def minForcedWait_def second_def millisecond_def)
  then show ?thesis
    by (intro exI [of _ ?tm] conjI exI [of _ "6 * second + 300 * millisecond"])
      (simp_all add: plausible_def DefaultShutdownBudget_def second_def millisecond_def)
qed

subsection \<open>The lifecycle as a transition relation\<close>

text \<open>
  A configuration is the hub and the number of \<open>Start\<close> calls between their two critical
  sections. Such a call may give up (the reconciliation or \<open>net.Listen\<close> failed). \<open>Stop\<close> may be
  called at any time, by anyone, any number of times.
\<close>

inductive life_step :: "hub_life \<times> nat \<Rightarrow> hub_life \<times> nat \<Rightarrow> bool" where
  enter: "start_enter h = (True, h') \<Longrightarrow> life_step (h, n) (h', Suc n)"
| refused: "start_enter h = (False, h') \<Longrightarrow> life_step (h, n) (h', n)"
| publish: "start_publish h = (b, h') \<Longrightarrow> life_step (h, Suc n) (h', n)"
| give_up: "life_step (h, Suc n) (h, n)"
| stop: "hub_Stop tm h = (r, h') \<Longrightarrow> life_step (h, n) (h', n)"

inductive_cases life_stepE: "life_step c d"

definition life_inv :: "hub_life \<times> nat \<Rightarrow> bool" where
  "life_inv c \<longleftrightarrow> (case c of (h, n) \<Rightarrow>
     ready_count h + n \<le> 1 \<and>
     (life h = NotStarted \<longrightarrow> ready_count h + n = 0) \<and>
     (bg_running h \<longrightarrow> store_open h) \<and>
     (\<not> store_open h \<longrightarrow> life h = Stopped) \<and>
     (life h = Stopped \<longleftrightarrow> stop_result h \<noteq> None))"

lemma life_inv_step: "life_step c d \<Longrightarrow> life_inv c \<Longrightarrow> life_inv d"
  by (cases rule: life_step.cases)
    (auto simp: life_inv_def start_enter_def start_publish_def hub_Stop_def hub_stop_def
      split: if_splits option.splits prod.splits)

lemma life_inv_reach: "life_step\<^sup>*\<^sup>* c d \<Longrightarrow> life_inv c \<Longrightarrow> life_inv d"
  by (induction rule: rtranclp_induct) (auto intro: life_inv_step)

text \<open>
  C22: whatever the order of the calls of \<open>Start\<close> and \<open>Stop\<close> and however they overlap, \<open>OnReady\<close>
  runs at most once, the background goroutines never run on a closed store, and only a
  stopped hub has closed its store.
\<close>

theorem lifecycle_safe:
  assumes "life_step\<^sup>*\<^sup>* (new_life, 0) (h, n)"
  shows "ready_count h \<le> 1 \<and> (bg_running h \<longrightarrow> store_open h) \<and> (\<not> store_open h \<longrightarrow> life h = Stopped)"
  using life_inv_reach [OF assms] by (simp add: life_inv_def new_life_def)

text \<open>
  C12: after a first \<open>Stop\<close> nothing starts: \<open>OnReady\<close> does not run any more, and a later \<open>Stop\<close>
  returns the first outcome and changes nothing.
\<close>

theorem stop_is_final:
  assumes "hub_Stop tm h = (r, h1)" and "life_inv (h, n)" and "life_step\<^sup>*\<^sup>* (h1, n) (h2, m)"
  shows "ready_count h2 = ready_count h1 \<and> hub_Stop tm' h2 = (r, h2)"
proof -
  have start: "life h1 = Stopped \<and> stop_result h1 = Some r"
    using assms(1,2) by (auto simp: hub_Stop_def hub_stop_def life_inv_def split: option.splits prod.splits)
  have "case c of (g, k) \<Rightarrow> life g = Stopped \<and> stop_result g = Some r \<and> ready_count g = ready_count h1"
    if "life_step\<^sup>*\<^sup>* (h1, n) c" for c
    using that
  proof (induction rule: rtranclp_induct)
    case base
    then show ?case using start by simp
  next
    case (step c d)
    from step.hyps(2) step.IH show ?case
      by (cases rule: life_step.cases)
        (auto simp: start_enter_def start_publish_def hub_Stop_def split: if_splits)
  qed
  from this [OF assms(3)] show ?thesis by (simp add: hub_Stop_def)
qed

subsection \<open>Startup\<close>

text \<open>
  After a successful reconciliation no device is online, and nothing but statuses has
  changed.
\<close>

theorem reconciled_none_online:
  assumes "run ReconcileDeviceStatuses s = (Inr (), s')"
  shows "(\<forall>r \<in> set (devices (hdb s')). dev_status r \<noteq> StatusOnline) \<and>
    map device_id (devices (hdb s')) = map device_id (devices (hdb s)) \<and>
    shares (hdb s') = shares (hdb s) \<and> pairings (hdb s') = pairings (hdb s)"
proof -
  obtain n where inr: "fst (exec_sql MarkAllOffline s) = Inr n" and s': "s' = snd (exec_sql MarkAllOffline s)"
  proof -
    obtain x t where xt: "exec_sql MarkAllOffline s = (x, t)" by (cases "exec_sql MarkAllOffline s")
    then have "(case x of Inl e \<Rightarrow> (Inl e, t) | Inr _ \<Rightarrow> (Inr (), t)) = (Inr (), s')"
      using assms by (simp only: ReconcileDeviceStatuses_def run_attempt run_sql prod.case run.simps(1) split: sum.split)
    then obtain m where "x = Inr m" and "t = s'" by (cases x) simp_all
    with xt show ?thesis by (intro that [of m]) simp_all
  qed
  have h: "hdb s' = snd (MarkAllOffline (hdb s))" unfolding s' by (rule exec_sql_Inr [OF inr])
  have "\<forall>r \<in> set (devices (hdb s')). dev_status r \<noteq> StatusOnline"
    unfolding h using all_offline_MarkAllOffline unfolding all_offline_def by blast
  moreover have "map device_id (devices (hdb s')) = map device_id (devices (hdb s)) \<and>
      shares (hdb s') = shares (hdb s) \<and> pairings (hdb s') = pairings (hdb s)"
    unfolding h by (simp add: MarkAllOffline_def Let_def map_key_update_where)
  ultimately show ?thesis by blast
qed

subsection \<open>Concrete runs\<close>

definition sample_timing :: stop_timing where
  "sample_timing = \<lparr>reach_server = second, graceful_takes = Some second, forced_takes = None,
     background_done = Some (2 * second)\<rparr>"

lemma sample_timing_decision:
  "plausible sample_timing" "stop_decision True sample_timing = (True, True, 2 * second)"
  by (simp_all add: sample_timing_def plausible_def stop_decision_server server_stop_def splitRemaining_def
      StopServer_def stopResultFor_def at_most_def waitForBackground_def
      Let_def DefaultShutdownBudget_def shutdownGrace_def minForcedWait_def second_def millisecond_def)


theorem lifecycle_safe_witness:
  "ready_count (snd (start_publish (snd (start_enter new_life)))) \<le> 1"
proof -
  have enters: "life_step (new_life, 0) (snd (start_enter new_life), Suc 0)"
    by (rule life_step.enter) (simp add: start_enter_def new_life_def)
  have publishes: "life_step (snd (start_enter new_life), Suc 0) (snd (start_publish (snd (start_enter new_life))), 0)"
    by (rule life_step.publish [OF prod.collapse [symmetric]])
  have "life_step\<^sup>*\<^sup>* (new_life, 0) (snd (start_publish (snd (start_enter new_life))), 0)"
    by (rule rtranclp.rtrancl_into_rtrancl [OF r_into_rtranclp [of life_step, OF enters] publishes])
  from lifecycle_safe [OF this] show ?thesis by simp
qed

theorem stop_is_final_witness:
  "hub_Stop sample_timing (snd (hub_Stop sample_timing new_life)) =
     (fst (hub_Stop sample_timing new_life), snd (hub_Stop sample_timing new_life))"
  using stop_is_final [where tm = sample_timing and h = new_life and n = 0 and tm' = sample_timing,
      OF prod.collapse [symmetric] _ rtranclp.rtrancl_refl]
  by (simp add: life_inv_def new_life_def)

theorem reconciled_none_online_witness:
  "\<not> list_ex (\<lambda>r. dev_status r = StatusOnline) (devices (hdb (snd (run ReconcileDeviceStatuses sample_hub))))"
proof -
  have "fst (run ReconcileDeviceStatuses sample_hub) = Inr ()"
    using healthy_intro [OF sample_hub_ok(2)]
    by (simp add: ReconcileDeviceStatuses_def MarkAllOffline_def Let_def)
  then have "run ReconcileDeviceStatuses sample_hub = (Inr (), snd (run ReconcileDeviceStatuses sample_hub))"
    by (metis prod.collapse)
  from reconciled_none_online [OF this] show ?thesis by (auto simp: list_ex_iff)
qed

end
