(* ===== verification/ServerProps.thy ===== *)
theory ServerProps
  imports RegistryProps
begin

text \<open>
  The service boundary: what the interceptors let through, that an RPC changes the rows of its
  caller only, and what the Subscribe stream forwards.
\<close>

subsection \<open>Interceptors\<close>

text \<open>
  A draining hub refuses every RPC, and an unauthenticated caller is refused every RPC but
  Join; in both cases nothing is read from or written to the database and no state changes.
\<close>

theorem refused_before_the_handler:
  assumes "draining s \<or> (\<not> is_join r \<and> (\<exists>e. ExtractDeviceID ctx = Inl e))"
  shows "run (serve env ctx r) s = (Inl (if draining s then ErrHubShuttingDown else ErrNotAuthenticated), s)"
  using assms by (auto simp: serve_def DrainInterceptor_def AuthInterceptor_def Draining_def)

text \<open>The certificate that identifies the caller: the leaf of the first verified chain.\<close>

lemma ExtractDeviceID_Inr:
  "ExtractDeviceID ctx = Inr did \<longleftrightarrow>
     (\<exists>p cns chains. ctx = Some p \<and> verified_chains p = Some ((did # cns) # chains))"
  by (auto simp: ExtractDeviceID_def split: option.splits list.splits)

subsection \<open>An RPC changes the rows of its caller only\<close>

definition same_rows :: "string \<Rightarrow> db \<Rightarrow> db \<Rightarrow> bool" where
  "same_rows k d0 d \<longleftrightarrow> filter (\<lambda>r. device_id r = k) (devices d) = filter (\<lambda>r. device_id r = k) (devices d0) \<and>
     filter (\<lambda>x. share_device x = k) (shares d) = filter (\<lambda>x. share_device x = k) (shares d0)"

lemma filter_update_other:
  assumes "did \<noteq> k" and "\<And>r. device_id (f r) = device_id r"
  shows "filter (\<lambda>r. device_id r = k) (update_where (\<lambda>r. device_id r = did \<and> Q r) f rows) =
    filter (\<lambda>r. device_id r = k) rows"
  using assms by (induction rows) (auto simp: update_where_def)

lemma filter_update_other':
  assumes "did \<noteq> k" and "\<And>r. device_id (f r) = device_id r"
  shows "filter (\<lambda>r. device_id r = k) (update_where (\<lambda>r. device_id r = did) f rows) =
    filter (\<lambda>r. device_id r = k) rows"
  using filter_update_other [OF assms, where Q = "\<lambda>_. True"] by simp

lemma same_rows_queries:
  "same_rows k d0 d \<Longrightarrow> same_rows k d0 (snd (GetDevice did d))"
  "same_rows k d0 d \<Longrightarrow> same_rows k d0 (snd (GetDeviceByNickname nick d))"
  "same_rows k d0 d \<Longrightarrow> same_rows k d0 (snd (ListOnlineDevices d))"
  "same_rows k d0 d \<Longrightarrow> same_rows k d0 (snd (ListAllDevices d))"
  "same_rows k d0 d \<Longrightarrow> same_rows k d0 (snd (GetShares did d))"
  "same_rows k d0 d \<Longrightarrow> same_rows k d0 (snd (GetSharesForDevices ids d))"
  "same_rows k d0 d \<Longrightarrow> same_rows k d0 (snd (IsPaired a b d))"
  "same_rows k d0 d \<Longrightarrow> same_rows k d0 (snd (GetInvite code d))"
  by (simp_all add: GetDevice_def GetDeviceByNickname_def ListOnlineDevices_def ListAllDevices_def
      GetShares_def GetSharesForDevices_def IsPaired_def GetInvite_def Let_def)

lemma same_rows_pairing:
  "same_rows k d0 d \<Longrightarrow> same_rows k d0 (snd (CreatePairing now a b d))"
  "same_rows k d0 d \<Longrightarrow> same_rows k d0 (snd (CreateInvite v d))"
  "same_rows k d0 d \<Longrightarrow> same_rows k d0 (snd (IncrementInviteAttempts code d))"
  "same_rows k d0 d \<Longrightarrow> same_rows k d0 (snd (DeleteInvite code d))"
  by (simp_all add: same_rows_def CreatePairing_def CreateInvite_def IncrementInviteAttempts_def DeleteInvite_def)

lemma same_rows_device_writes:
  assumes "did \<noteq> k" and "same_rows k d0 d"
  shows "same_rows k d0 (snd (UpdateDeviceStatus did st ip port d))"
    "same_rows k d0 (snd (UpdateDeviceNickname did nick d))"
    "same_rows k d0 (snd (UpdateHeartbeat now did d))"
    "same_rows k d0 (snd (MarkOnlineIfOffline did ip d))"
  using assms
  by (simp_all add: same_rows_def UpdateDeviceStatus_def UpdateDeviceNickname_def UpdateHeartbeat_def
      MarkOnlineIfOffline_def Let_def filter_update_other filter_update_other')

lemma insert_shares_other:
  "did \<noteq> k \<Longrightarrow> filter (\<lambda>x. share_device x = k) (shares (snd (insert_shares did shs d))) =
     filter (\<lambda>x. share_device x = k) (shares d)"
  by (induction shs arbitrary: d) simp_all

lemma filter_delete_other:
  "(\<And>x. P x \<Longrightarrow> \<not> Q x) \<Longrightarrow> filter P (delete_where Q xs) = filter P xs"
  by (induction xs) (auto simp: delete_where_def)

lemma same_rows_SetShares:
  assumes "did \<noteq> k" and "same_rows k d0 d"
  shows "same_rows k d0 (snd (SetShares did shs d))"
proof -
  let ?d1 = "d\<lparr>shares := delete_where (\<lambda>r. share_device r = did) (shares d)\<rparr>"
  have "snd (SetShares did shs d) = d \<or> snd (SetShares did shs d) = snd (insert_shares did shs ?d1)"
    by (auto simp: SetShares_def in_tx_def split: prod.splits sum.splits)
  moreover have "same_rows k d0 (snd (insert_shares did shs ?d1))"
    using assms insert_shares_other [OF assms(1), of shs ?d1] devices_insert_shares [of did shs ?d1]
      filter_delete_other [of "\<lambda>x. share_device x = k" "\<lambda>r. share_device r = did" "shares d"]
    by (auto simp: same_rows_def)
  ultimately show ?thesis using assms(2) by metis
qed

lemma same_rows_DeleteDevice:
  "did \<noteq> k \<Longrightarrow> same_rows k d0 d \<Longrightarrow> same_rows k d0 (snd (DeleteDevice did d))"
  by (simp add: DeleteDevice_without without_def same_rows_def conj_commute cong: conj_cong)

lemma same_rows_exec:
  "(\<And>d. same_rows k d0 d \<Longrightarrow> same_rows k d0 (w d)) \<Longrightarrow> same_rows k d0 (hdb s) \<Longrightarrow>
   same_rows k d0 (hdb (exec_write w s))"
  using hdb_exec_write [of w s] by metis

lemma confined_sql:
  "(\<And>d. same_rows k d0 d \<Longrightarrow> same_rows k d0 (snd (f d))) \<Longrightarrow> safe (\<lambda>s. same_rows k d0 (hdb s)) (sql f)"
  by (rule safe_exec)

lemma confined_section:
  "(\<And>s. hdb (snd (f s)) = hdb s) \<Longrightarrow> safe (\<lambda>s. same_rows k d0 (hdb s)) (atom f)"
  by (rule safe_atom) simp

lemma confined_sections:
  "safe (\<lambda>s. same_rows k d0 (hdb s)) (Broadcast ev excl)"
  "safe (\<lambda>s. same_rows k d0 (hdb s)) (removeSubscriber did)"
  "safe (\<lambda>s. same_rows k d0 (hdb s)) Draining"
  "safe (\<lambda>s. same_rows k d0 (hdb s)) (canRecover did)"
  "safe (\<lambda>s. same_rows k d0 (hdb s)) (sendToDevice did ev)"
  unfolding Broadcast_def removeSubscriber_def Draining_def canRecover_def sendToDevice_def
    lookup_subscriber_def late_send_def
  by (intro safe_bind safe_case_option safe_Ret confined_section; simp)+

lemma confined_status:
  assumes "did \<noteq> k"
  shows "safe (\<lambda>s. same_rows k d0 (hdb s)) (recoverAndAnnounce did ip ev)"
    and "safe (\<lambda>s. same_rows k d0 (hdb s)) (markOnlineUnlessDraining did ip port)"
proof -
  have "same_rows k d0 (hdb (exec_write (\<lambda>d. snd (MarkOnlineIfOffline did ip d)) s))"
    "same_rows k d0 (hdb (exec_write (\<lambda>d. snd (UpdateDeviceStatus did StatusOnline ip port d)) s))"
    if "same_rows k d0 (hdb s)" for s
    using that assms by (auto intro!: same_rows_exec same_rows_device_writes)
  then show "safe (\<lambda>s. same_rows k d0 (hdb s)) (recoverAndAnnounce did ip ev)"
    and "safe (\<lambda>s. same_rows k d0 (hdb s)) (markOnlineUnlessDraining did ip port)"
    unfolding recoverAndAnnounce_def markOnlineUnlessDraining_def
    using recover_section_cases [of did ip ev] mark_online_section_cases [of did ip port]
    by (intro safe_atom; metis broadcast_frame(1))+
qed

lemmas confined_steps =
  safe_intros confined_sections confined_status confined_sql same_rows_queries same_rows_pairing
  same_rows_device_writes same_rows_SetShares same_rows_DeleteDevice

lemma confined_writeErr: "safe (\<lambda>s. same_rows k d0 (hdb s)) (writeErr did e)"
  unfolding writeErr_def by (intro confined_steps)

lemma confined_operations:
  assumes "did \<noteq> k"
  shows "safe (\<lambda>s. same_rows k d0 (hdb s)) (Register now did ip port shs v)"
    "safe (\<lambda>s. same_rows k d0 (hdb s)) (Rename did nick)"
    "safe (\<lambda>s. same_rows k d0 (hdb s)) (Heartbeat now did ip)"
    "safe (\<lambda>s. same_rows k d0 (hdb s)) (UpdateShares did shs)"
    "safe (\<lambda>s. same_rows k d0 (hdb s)) (Deregister did)"
    "safe (\<lambda>s. same_rows k d0 (hdb s)) (Leave did)"
    "safe (\<lambda>s. same_rows k d0 (hdb s)) (RequestPairing now code did nick key)"
    "safe (\<lambda>s. same_rows k d0 (hdb s)) (ConfirmPairing now now' did code key)"
    "safe (\<lambda>s. same_rows k d0 (hdb s)) ListDevicesWithShares"
  unfolding Register_def Rename_def Heartbeat_def UpdateShares_def Deregister_def Leave_def
    RequestPairing_def ConfirmPairing_def ListDevicesWithShares_def BroadcastDeviceRemoved_def Let_def
  by (intro confined_steps confined_writeErr assms | assumption)+

lemma serve_keeps_other_rows:
  assumes "ExtractDeviceID ctx = Inr did" and "\<not> is_join r" and "did \<noteq> k"
    and "run (serve env ctx r) s = (res, s')"
  shows "same_rows k (hdb s) (hdb s')"
proof -
  have "safe (\<lambda>t. same_rows k (hdb s) (hdb t)) (handle_rpc env ctx r)"
    using assms(1,2)
    by (cases r)
      (auto simp: Server_Register_def Server_Rename_def Server_Heartbeat_def Server_UpdateShares_def
        Server_Deregister_def Server_Leave_def Server_RequestPairing_def Server_ConfirmPairing_def
        Server_ListDevices_def RegistryGetSharesForDevices_def
        intro!: safe_intros confined_operations [OF assms(3)] confined_sql same_rows_queries)
  then have "safe (\<lambda>t. same_rows k (hdb s) (hdb t)) (serve env ctx r)"
    unfolding serve_def DrainInterceptor_def AuthInterceptor_def
    using assms(1) by (intro confined_steps) (auto split: sum.split intro: safe_intros)
  then have "same_rows k (hdb s) (hdb (snd (run (serve env ctx r) s)))"
    by (rule safe_run) (simp add: same_rows_def)
  with assms(4) show ?thesis by simp
qed

text \<open>
  An RPC other than Join leaves the device row and the shares of every device but its
  authenticated caller as they were, whatever the caller sends and whichever statements of the
  database fail.
\<close>

theorem rpc_confined_to_caller:
  assumes "ExtractDeviceID ctx = Inr did" and "\<not> is_join r" and "did \<noteq> k"
    and "run (serve env ctx r) s = (res, s')"
  shows "filter (\<lambda>x. device_id x = k) (devices (hdb s')) = filter (\<lambda>x. device_id x = k) (devices (hdb s)) \<and>
    filter (\<lambda>x. share_device x = k) (shares (hdb s')) = filter (\<lambda>x. share_device x = k) (shares (hdb s))"
  using serve_keeps_other_rows [OF assms] by (simp add: same_rows_def)

subsection \<open>The stream\<close>

text \<open>
  The forwarding loop delivers the events of the caller's channel in the order they were
  queued, without gaps, whether or not the channel has been closed meanwhile; at most the one
  event whose send failed is lost.
\<close>

theorem forward_loop_in_order:
  "\<exists>n. fst (run (forward_loop c choices sent) s) = sent @ take n (buf (chans s c)) \<and>
     (buf (chans (snd (run (forward_loop c choices sent) s)) c) = drop n (buf (chans s c)) \<or>
      buf (chans (snd (run (forward_loop c choices sent) s)) c) = drop (Suc n) (buf (chans s c)))"
proof (induction c choices sent arbitrary: s rule: forward_loop.induct)
  case (1 c sent)
  show ?case by (intro exI [of _ 0]) simp
next
  case (2 c cs sent)
  show ?case by (intro exI [of _ 0]) simp
next
  case (3 c send_ok cs sent)
  show ?case
  proof (cases "buf (chans s c)")
    case Nil
    show ?thesis
    proof (cases "closed (chans s c)")
      case True
      with Nil show ?thesis by (simp add: recv_chan_def)
    next
      case False
      have "recv_chan c s = (None, s)" using Nil False by (simp add: recv_chan_def)
      then show ?thesis using "3.IH"(1) [of s] by simp
    qed
  next
    case (Cons ev evs)
    let ?s1 = "s\<lparr>chans := (chans s)(c := (chans s c)\<lparr>buf := evs\<rparr>)\<rparr>"
    have r: "recv_chan c s = (Some (Some ev), ?s1)" using Cons by (simp add: recv_chan_def)
    show ?thesis
    proof (cases send_ok)
      case True
      obtain n where n: "fst (run (forward_loop c cs (sent @ [ev])) ?s1) = (sent @ [ev]) @ take n evs"
        "buf (chans (snd (run (forward_loop c cs (sent @ [ev])) ?s1)) c) = drop n evs \<or>
         buf (chans (snd (run (forward_loop c cs (sent @ [ev])) ?s1)) c) = drop (Suc n) evs"
        using "3.IH"(2) [OF True, of ev ?s1] by auto
      then show ?thesis using r Cons True by (intro exI [of _ "Suc n"]) simp
    next
      case False
      then show ?thesis using r Cons by (intro exI [of _ 0]) simp
    qed
  qed
qed

subsection \<open>Concrete runs\<close>

theorem refused_before_the_handler_witness:
  "run (serve sample_env None RHeartbeat) sample_hub = (Inl ErrNotAuthenticated, sample_hub)"
  using refused_before_the_handler [of sample_hub RHeartbeat None sample_env]
  by (simp add: ExtractDeviceID_def)

theorem rpc_confined_to_caller_witness:
  "filter (\<lambda>x. device_id x = ''d2'') (devices (hdb (snd (run (serve sample_env (sample_ctx ''d1'') RLeave) sample_hub)))) =
   filter (\<lambda>x. device_id x = ''d2'') (devices (hdb sample_hub))"
proof -
  have "ExtractDeviceID (sample_ctx ''d1'') = Inr ''d1''" by (simp add: ExtractDeviceID_def sample_ctx_def)
  from rpc_confined_to_caller [OF this, of RLeave "''d2''", OF _ _ prod.collapse [symmetric]] show ?thesis by simp
qed

end
