(* ===== verification/GoPath.thy ===== *)
theory GoPath
  imports Prelude
begin

text \<open>
  The parts of Go's \<open>path\<close> and \<open>path/filepath\<close> packages (on Unix) that the agent's share access
  uses: lexical operations on path strings, the directory tree, and the resolution of
  symbolic links. A path is a string; its elements are what the slashes separate.
\<close>

subsection \<open>Strings\<close>

fun split_slash :: "string \<Rightarrow> string list" where
  "split_slash [] = [[]]"
| "split_slash (ch # s) =
     (if ch = CHR ''/'' then [] # split_slash s
      else (case split_slash s of [] \<Rightarrow> [[ch]] | e # es \<Rightarrow> (ch # e) # es))"

fun join_slash :: "string list \<Rightarrow> string" where
  "join_slash [] = []"
| "join_slash [e] = e"
| "join_slash (e # es) = e @ CHR ''/'' # join_slash es"

definition rooted :: "string \<Rightarrow> bool" where
  "rooted p \<longleftrightarrow> (case p of [] \<Rightarrow> False | ch # _ \<Rightarrow> ch = CHR ''/'')"

fun trim_prefix_slash :: "string \<Rightarrow> string" where
  "trim_prefix_slash [] = []"
| "trim_prefix_slash (ch # s) = (if ch = CHR ''/'' then s else ch # s)"

definition dotdot :: string where "dotdot = ''..''"

subsection \<open>Lexical cleaning\<close>

text \<open>
  One element of \<open>Clean\<close>: an empty element and a dot disappear, a double dot removes the
  element before it; where there is none it is kept in a relative path and dropped in a
  rooted one. The accumulator holds the elements read so far, the last one first.
\<close>

fun clean_elem :: "bool \<Rightarrow> string list \<Rightarrow> string \<Rightarrow> string list" where
  "clean_elem r acc e =
     (if e = [] \<or> e = ''.'' then acc
      else if e = dotdot
      then (case acc of
              [] \<Rightarrow> if r then [] else [dotdot]
            | x # xs \<Rightarrow> if x = dotdot then dotdot # acc else xs)
      else e # acc)"

definition clean_elems :: "bool \<Rightarrow> string list \<Rightarrow> string list" where
  "clean_elems r es = rev (foldl (clean_elem r) [] es)"

definition elems :: "string \<Rightarrow> string list" where
  "elems p = clean_elems (rooted p) (split_slash p)"

definition render :: "bool \<Rightarrow> string list \<Rightarrow> string" where
  "render r es = (if r then CHR ''/'' # join_slash es else if es = [] then ''.'' else join_slash es)"

definition Clean :: "string \<Rightarrow> string" where
  "Clean p = render (rooted p) (elems p)"

text \<open>\<open>filepath.Join(a, b)\<close>: empty elements are ignored.\<close>

definition Join2 :: "string \<Rightarrow> string \<Rightarrow> string" where
  "Join2 a b = (if a = [] then (if b = [] then [] else Clean b)
                else if b = [] then Clean a else Clean (a @ CHR ''/'' # b))"

text \<open>\<open>filepath.Rel\<close> on paths that need not be clean; \<open>None\<close> is its error.\<close>

fun drop_common :: "string list \<Rightarrow> string list \<Rightarrow> string list \<times> string list" where
  "drop_common (a # as) (b # bs) = (if a = b then drop_common as bs else (a # as, b # bs))"
| "drop_common as bs = (as, bs)"

definition Rel :: "string \<Rightarrow> string \<Rightarrow> string option" where
  "Rel base targ =
     (if rooted base \<noteq> rooted targ then None
      else (case drop_common (elems base) (elems targ) of (as, bs) \<Rightarrow>
        if as \<noteq> [] \<and> hd as = dotdot then None
        else Some (render False (replicate (length as) dotdot @ bs))))"

definition Dir :: "string \<Rightarrow> string" where
  "Dir p = Clean (rev (dropWhile (\<lambda>ch. ch \<noteq> CHR ''/'') (rev p)))"

definition Base :: "string \<Rightarrow> string" where
  "Base p =
     (if p = [] then ''.''
      else (let q = rev (dropWhile (\<lambda>ch. ch = CHR ''/'') (rev p)) in
            if q = [] then ''/''
            else rev (takeWhile (\<lambda>ch. ch \<noteq> CHR ''/'') (rev q))))"

text \<open>The check \<open>rel == ".." || HasPrefix(rel, "../")\<close>.\<close>

definition escapes :: "string \<Rightarrow> bool" where
  "escapes rel \<longleftrightarrow> rel = dotdot \<or> take 3 rel = ''../''"

subsection \<open>The directory tree\<close>

text \<open>
  The tree maps the element list of a canonical path (one that passes through directories
  only) to its entry; the root is the empty list and always a directory. A file entry is the
  number of its inode, so that two entries can be hard links to one file. The access rights of
  the host's own user are left out: its calls fail for the reasons below only.
\<close>

datatype entry = EFile nat | EDir | ELink string

type_synonym tree = "(string list \<times> entry) list"

datatype fs_err = ENOENT | ENOTDIR | ELOOP | EEXIST | EISDIR | ENOTEMPTY | EINVAL | EPERM

definition entry_at :: "tree \<Rightarrow> string list \<Rightarrow> entry option" where
  "entry_at tr q = (if q = [] then Some EDir else map_of tr q)"

text \<open>
  Resolution of the remaining elements from a canonical directory. \<open>n\<close> links may still be
  followed; \<open>follow\<close> says whether a link at the last element is followed, \<open>absent_ok\<close> whether a
  missing last element is accepted (as a place to create).
\<close>

function walk :: "tree \<Rightarrow> bool \<Rightarrow> bool \<Rightarrow> nat \<Rightarrow> string list \<Rightarrow> string list \<Rightarrow> fs_err + string list" where
  "walk tr follow absent_ok n dest [] = Inr dest"
| "walk tr follow absent_ok n dest (e # es) =
     (if e = [] \<or> e = ''.'' then walk tr follow absent_ok n dest es
      else if e = dotdot then walk tr follow absent_ok n (butlast dest) es
      else (case entry_at tr (dest @ [e]) of
              None \<Rightarrow> if es = [] \<and> absent_ok then Inr (dest @ [e]) else Inl ENOENT
            | Some EDir \<Rightarrow> walk tr follow absent_ok n (dest @ [e]) es
            | Some (EFile i) \<Rightarrow> if es = [] then Inr (dest @ [e]) else Inl ENOTDIR
            | Some (ELink t) \<Rightarrow>
                if es = [] \<and> \<not> follow then Inr (dest @ [e])
                else if n = 0 then Inl ELOOP
                else walk tr follow absent_ok (n - 1) (if rooted t then [] else dest) (split_slash t @ es)))"
  by pat_completeness auto
termination
  by (relation "measures [\<lambda>(tr, fo, ab, n, dest, es). n, \<lambda>(tr, fo, ab, n, dest, es). length es]") auto

text \<open>
  \<open>filepath.EvalSymlinks\<close> gives up after 255 links, the kernel after 40. A relative path
  starts at the working directory.
\<close>

definition go_links :: nat where "go_links = 255"
definition kernel_links :: nat where "kernel_links = 40"

definition start_dir :: "string list \<Rightarrow> string \<Rightarrow> string list" where
  "start_dir cwd p = (if rooted p then [] else cwd)"

definition EvalSymlinks :: "string list \<Rightarrow> tree \<Rightarrow> string \<Rightarrow> fs_err + string" where
  "EvalSymlinks cwd tr p =
     (case walk tr True False go_links (start_dir cwd p) (split_slash p) of
        Inl e \<Rightarrow> Inl e | Inr es \<Rightarrow> Inr (render True es))"

definition kernel_path :: "bool \<Rightarrow> bool \<Rightarrow> string list \<Rightarrow> tree \<Rightarrow> string \<Rightarrow> fs_err + string list" where
  "kernel_path follow absent_ok cwd tr p =
     walk tr follow absent_ok kernel_links (start_dir cwd p) (split_slash p)"

subsection \<open>Elements of clean paths\<close>

lemma split_slash_nonempty [simp]: "split_slash s \<noteq> []"
  by (induction s) (auto split: list.split)

lemma split_slash_elem: "e \<in> set (split_slash s) \<Longrightarrow> CHR ''/'' \<notin> set e"
proof (induction s arbitrary: e)
  case (Cons ch s)
  then show ?case by (cases "split_slash s") (auto split: if_splits)
qed simp

lemma split_slash_no_slash: "CHR ''/'' \<notin> set e \<Longrightarrow> split_slash e = [e]"
  by (induction e) auto

lemma split_slash_append: "CHR ''/'' \<notin> set e \<Longrightarrow> split_slash (e @ CHR ''/'' # s) = e # split_slash s"
  by (induction e) auto

lemma split_join:
  "es \<noteq> [] \<Longrightarrow> \<forall>e \<in> set es. CHR ''/'' \<notin> set e \<Longrightarrow> split_slash (join_slash es) = es"
  by (induction es rule: join_slash.induct) (simp_all add: split_slash_no_slash split_slash_append)

text \<open>A plain element: what survives cleaning other than a leading double dot.\<close>

definition plain :: "string \<Rightarrow> bool" where
  "plain e \<longleftrightarrow> e \<noteq> [] \<and> e \<noteq> ''.'' \<and> e \<noteq> dotdot \<and> CHR ''/'' \<notin> set e"

lemma plain_no_slash: "plain e \<Longrightarrow> CHR ''/'' \<notin> set e" and dotdot_no_slash: "CHR ''/'' \<notin> set dotdot"
  by (simp_all add: plain_def dotdot_def)

lemma clean_elem_plain [simp]: "plain e \<Longrightarrow> clean_elem r acc e = e # acc"
  by (simp add: plain_def)

lemma clean_fold_plain: "\<forall>e \<in> set es. plain e \<Longrightarrow> foldl (clean_elem r) acc es = rev es @ acc"
  by (induction es arbitrary: acc) (simp_all del: clean_elem.simps)

lemma clean_rooted_plain:
  "\<forall>e \<in> set acc. plain e \<Longrightarrow> \<forall>e \<in> set es. CHR ''/'' \<notin> set e \<Longrightarrow>
   \<forall>e \<in> set (foldl (clean_elem True) acc es). plain e"
proof (induction es arbitrary: acc)
  case (Cons e es)
  have "\<forall>x \<in> set (clean_elem True acc e). plain x"
    using Cons.prems by (cases acc) (auto simp: plain_def)
  then have "\<forall>x \<in> set (foldl (clean_elem True) (clean_elem True acc e) es). plain x"
    by (rule Cons.IH) (use Cons.prems(2) in simp)
  then show ?case by (simp only: foldl_Cons)
qed simp

lemma elems_plain: "rooted p \<Longrightarrow> \<forall>e \<in> set (elems p). plain e"
  using clean_rooted_plain [of "[]" "split_slash p"] split_slash_elem [of _ p]
  by (auto simp: elems_def clean_elems_def simp del: clean_elem.simps)

lemma rooted_render [simp]: "rooted (render True es)"
  by (simp add: render_def rooted_def)

lemma split_render:
  "\<forall>e \<in> set es. plain e \<Longrightarrow> split_slash (render True es) = [] # (if es = [] then [[]] else es)"
  by (simp add: render_def split_join plain_def)

lemma elems_render: "\<forall>e \<in> set es. plain e \<Longrightarrow> elems (render True es) = es"
  by (cases "es = []") (simp_all add: elems_def split_render clean_elems_def clean_fold_plain)

lemma elems_Clean: "rooted p \<Longrightarrow> elems (Clean p) = elems p"
  by (simp add: Clean_def elems_render elems_plain)

lemma rooted_Clean: "rooted p \<Longrightarrow> rooted (Clean p)"
  by (simp add: Clean_def)

lemma drop_common_prefix: "drop_common as bs = ([], cs) \<longleftrightarrow> bs = as @ cs"
  by (induction as bs rule: drop_common.induct) auto

lemma drop_common_parts: "drop_common as bs = (xs, ys) \<Longrightarrow> set xs \<subseteq> set as \<and> set ys \<subseteq> set bs"
  by (induction as bs rule: drop_common.induct) (auto split: if_splits)

lemma render_False_head:
  "\<forall>e \<in> set (es :: string list). CHR ''/'' \<notin> set e \<Longrightarrow> es \<noteq> [] \<Longrightarrow> hd es \<noteq> [] \<Longrightarrow>
   escapes (render False es) \<longleftrightarrow> hd es = dotdot"
proof (cases es)
  case (Cons e fs)
  assume a: "\<forall>e \<in> set es. CHR ''/'' \<notin> set e" "hd es \<noteq> []"
  with Cons have e: "CHR ''/'' \<notin> set e" "e \<noteq> []" by simp_all
  show ?thesis
  proof (cases fs)
    case Nil
    have "take 3 e \<noteq> ''../''"
    proof
      assume "take 3 e = ''../''"
      then have "CHR ''/'' \<in> set (take 3 e)" by simp
      then show False using e(1) in_set_takeD by fast
    qed
    then show ?thesis using Nil Cons e by (simp add: escapes_def render_def)
  next
    case (Cons f gs)
    have "take 3 (e @ CHR ''/'' # t) = ''../'' \<longleftrightarrow> e = ''..''" for t
      using e by (cases e; cases "tl e"; cases "tl (tl e)") (auto simp: take_Cons' numeral_eq_Suc)
    moreover have "e @ CHR ''/'' # t \<noteq> ''..''" for t
      by (cases e; cases "tl e"; cases "tl (tl e)") auto
    ultimately show ?thesis using \<open>es = e # fs\<close> Cons e by (auto simp: escapes_def render_def dotdot_def)
  qed
qed simp

text \<open>
  The containment check: for rooted paths it accepts exactly the targets whose elements
  extend those of the base.
\<close>

lemma Rel_contained:
  assumes "rooted base" and "rooted targ"
  shows "(\<exists>rel. Rel base targ = Some rel \<and> \<not> escapes rel) \<longleftrightarrow> (\<exists>cs. elems targ = elems base @ cs)"
proof -
  obtain as bs where d: "drop_common (elems base) (elems targ) = (as, bs)"
    by (cases "drop_common (elems base) (elems targ)")
  have pl: "\<forall>e \<in> set as. plain e" "\<forall>e \<in> set bs. plain e"
    using drop_common_parts [OF d] elems_plain [OF assms(1)] elems_plain [OF assms(2)] by auto
  show ?thesis
  proof (cases as)
    case Nil
    have "\<not> escapes (render False bs)"
    proof (cases bs)
      case Nil
      then show ?thesis by (simp add: escapes_def render_def dotdot_def)
    next
      case (Cons b cs)
      then show ?thesis using pl(2) render_False_head [of bs] by (auto simp: plain_def)
    qed
    then show ?thesis using d Nil assms drop_common_prefix [of "elems base" "elems targ" bs]
      by (auto simp: Rel_def)
  next
    case (Cons a xs)
    have "escapes (render False (replicate (length as) dotdot @ bs))"
    proof -
      let ?es = "replicate (length as) dotdot @ bs"
      have "\<forall>e \<in> set ?es. CHR ''/'' \<notin> set e" using pl(2) plain_no_slash dotdot_no_slash by (simp add: ball_Un)
      moreover have hd: "hd ?es = dotdot" and "?es \<noteq> []" using Cons by simp_all
      moreover have "hd ?es \<noteq> []" unfolding hd by (simp add: dotdot_def)
      ultimately show ?thesis using render_False_head by metis
    qed
    moreover have "elems targ \<noteq> elems base @ cs" for cs
      using d Cons drop_common_prefix [of "elems base" "elems targ" cs] by auto
    ultimately show ?thesis using d assms by (auto simp: Rel_def split: if_splits)
  qed
qed

subsection \<open>What resolution returns\<close>

text \<open>All proper and improper prefixes of \<open>q\<close> but the empty one are directories.\<close>

definition real_dir :: "tree \<Rightarrow> string list \<Rightarrow> bool" where
  "real_dir tr q \<longleftrightarrow> (\<forall>i. 0 < i \<and> i \<le> length q \<longrightarrow> entry_at tr (take i q) = Some EDir)"

lemma real_dir_Nil [simp]: "real_dir tr []"
  by (simp add: real_dir_def)

lemma real_dir_snoc: "real_dir tr (q @ [e]) \<longleftrightarrow> real_dir tr q \<and> entry_at tr (q @ [e]) = Some EDir"
  unfolding real_dir_def by (auto simp: le_Suc_eq)

lemma real_dir_butlast: "real_dir tr q \<Longrightarrow> real_dir tr (butlast q)"
  by (cases q rule: rev_cases) (auto simp: real_dir_snoc)

lemma real_dir_prefix: "real_dir tr (p @ q) \<Longrightarrow> real_dir tr p"
proof (induction q rule: rev_induct)
  case (snoc e q)
  then show ?case using real_dir_snoc [of tr "p @ q" e] by simp
qed simp

text \<open>A canonical path: its parent is a chain of directories and its elements are plain.\<close>

definition canonical :: "tree \<Rightarrow> string list \<Rightarrow> bool" where
  "canonical tr q \<longleftrightarrow> real_dir tr (butlast q) \<and> (\<forall>e \<in> set q. plain e)"

definition is_link :: "tree \<Rightarrow> string list \<Rightarrow> bool" where
  "is_link tr q \<longleftrightarrow> (\<exists>t. entry_at tr q = Some (ELink t))"

lemma walk_canonical:
  assumes "walk tr fo ab n dest es = Inr q" and "real_dir tr dest" and "\<forall>e \<in> set dest. plain e"
    and "\<forall>e \<in> set es. CHR ''/'' \<notin> set e"
  shows "canonical tr q \<and> (fo \<longrightarrow> \<not> is_link tr q) \<and> (\<not> ab \<longrightarrow> entry_at tr q \<noteq> None)"
  using assms
proof (induction tr fo ab n dest es rule: walk.induct)
  case (1 tr fo ab n dest)
  have "entry_at tr dest = Some EDir"
    using 1(2) by (cases dest rule: rev_cases) (simp_all add: entry_at_def real_dir_snoc)
  with 1 show ?case by (auto simp: canonical_def is_link_def real_dir_butlast)
next
  case (2 tr fo ab n dest e es)
  note IH = 2(1-4) and w = 2(5) and d = 2(6,7) and no = 2(8)
  consider (skip) "e = [] \<or> e = ''.''" | (up) "\<not> (e = [] \<or> e = ''.'')" "e = dotdot" | (down) "\<not> (e = [] \<or> e = ''.'')" "e \<noteq> dotdot"
    by blast
  then show ?case
  proof cases
    case skip
    then have "walk tr fo ab n dest es = Inr q" using w by auto
    with IH(1) skip d no show ?thesis by simp
  next
    case up
    then have "walk tr fo ab n (butlast dest) es = Inr q" using w by (simp split: if_splits)
    moreover have "real_dir tr (butlast dest)" "\<forall>e \<in> set (butlast dest). plain e"
      using d real_dir_butlast by (auto dest: in_set_butlastD)
    ultimately show ?thesis using IH(2) up no by simp
  next
    case down
    then have pl: "plain e" using no by (simp add: plain_def)
    have can: "canonical tr (dest @ [e])" using d pl by (auto simp: canonical_def)
    show ?thesis
    proof (cases "entry_at tr (dest @ [e])")
      case None
      with w down can show ?thesis by (auto simp: is_link_def split: if_splits)
    next
      case (Some x)
      show ?thesis
      proof (cases x)
        case (EFile i)
        with Some w down can show ?thesis by (auto simp: is_link_def split: if_splits)
      next
        case EDir
        then have "walk tr fo ab n (dest @ [e]) es = Inr q" using Some w down by simp
        moreover have "real_dir tr (dest @ [e])" using d Some EDir by (simp add: real_dir_snoc)
        ultimately show ?thesis using IH(3) [OF down(1) down(2) Some EDir] d pl no by simp
      next
        case (ELink t)
        show ?thesis
        proof (cases "es = [] \<and> \<not> fo")
          case True
          with Some ELink w down can show ?thesis by simp
        next
          case False
          then have "n \<noteq> 0" and w': "walk tr fo ab (n - 1) (if rooted t then [] else dest) (split_slash t @ es) = Inr q"
            using Some ELink w down by (auto split: if_splits)
          moreover have "\<forall>x \<in> set (split_slash t @ es). CHR ''/'' \<notin> set x"
            using no split_slash_elem by auto
          moreover have "real_dir tr (if rooted t then [] else dest)" "\<forall>x \<in> set (if rooted t then [] else dest). plain x"
            using d by simp_all
          ultimately show ?thesis using IH(4) [OF down(1) down(2) Some ELink False] by blast
        qed
      qed
    qed
  qed
qed

text \<open>A canonical path that is not a link resolves to itself.\<close>

lemma walk_step_dir:
  "plain e \<Longrightarrow> entry_at tr (dest @ [e]) = Some EDir \<Longrightarrow> walk tr fo ab n dest (e # es) = walk tr fo ab n (dest @ [e]) es"
  by (simp add: plain_def)

lemma walk_last:
  assumes "plain e" and "fo \<longrightarrow> \<not> is_link tr (dest @ [e])" and "entry_at tr (dest @ [e]) = None \<longrightarrow> ab"
  shows "walk tr fo ab n dest [e] = Inr (dest @ [e])"
  using assms by (auto simp: plain_def is_link_def split: option.splits entry.splits)

lemma walk_through:
  "real_dir tr (dest @ ds) \<Longrightarrow> \<forall>e \<in> set ds. plain e \<Longrightarrow>
   walk tr fo ab n dest (ds @ es) = walk tr fo ab n (dest @ ds) es"
proof (induction ds arbitrary: dest)
  case (Cons d ds)
  have "real_dir tr (dest @ [d])" using real_dir_prefix [of tr "dest @ [d]" ds] Cons.prems(1) by simp
  then have "entry_at tr (dest @ [d]) = Some EDir" by (simp add: real_dir_snoc)
  then have "walk tr fo ab n dest ((d # ds) @ es) = walk tr fo ab n (dest @ [d]) (ds @ es)"
    using Cons.prems(2) walk_step_dir by simp
  then show ?case using Cons.IH [of "dest @ [d]"] Cons.prems by simp
qed simp

lemma walk_fixpoint:
  assumes "canonical tr q" and "fo \<longrightarrow> \<not> is_link tr q" and "entry_at tr q = None \<longrightarrow> ab"
  shows "walk tr fo ab n [] q = Inr q"
proof (cases q rule: rev_cases)
  case (snoc ds e)
  then have "walk tr fo ab n [] q = walk tr fo ab n ds [e]"
    using assms(1) walk_through [of tr "[]" ds fo ab n "[e]"] by (simp add: canonical_def)
  then show ?thesis using assms snoc walk_last [of e fo tr ds ab n] by (simp add: canonical_def)
qed simp

text \<open>
  A path whose parent is a regular file: no call succeeds on it.
\<close>

definition under_file :: "tree \<Rightarrow> string list \<Rightarrow> bool" where
  "under_file tr q \<longleftrightarrow> canonical tr (butlast q) \<and> q \<noteq> [] \<and> plain (last q) \<and>
     (\<exists>i. entry_at tr (butlast q) = Some (EFile i))"

lemma canonical_child:
  assumes "canonical tr q" and "\<not> is_link tr q" and "entry_at tr q \<noteq> None" and "plain e"
  shows "canonical tr (q @ [e]) \<or> under_file tr (q @ [e])"
proof -
  obtain x where x: "entry_at tr q = Some x" using assms(3) by blast
  show ?thesis
  proof (cases x)
    case (EFile i)
    then show ?thesis using x assms by (simp add: under_file_def)
  next
    case EDir
    have "real_dir tr q"
      using x EDir assms(1) by (cases q rule: rev_cases) (simp_all add: canonical_def real_dir_snoc)
    then show ?thesis using assms by (simp add: canonical_def)
  next
    case (ELink t)
    then show ?thesis using x assms(2) by (simp add: is_link_def)
  qed
qed

lemma walk_under_file:
  assumes "under_file tr q"
  shows "walk tr fo ab n [] q = Inl ENOTDIR"
proof -
  obtain ds e where q: "q = ds @ [e]" using assms by (cases q rule: rev_cases) (simp_all add: under_file_def)
  with assms obtain i where c: "canonical tr ds" "plain e" "entry_at tr ds = Some (EFile i)"
    by (auto simp: under_file_def)
  obtain cs d where ds: "ds = cs @ [d]" using c(3) by (cases ds rule: rev_cases) (simp_all add: entry_at_def)
  have "walk tr fo ab n [] q = walk tr fo ab n cs [d, e]"
    using c(1) q ds walk_through [of tr "[]" cs fo ab n "[d, e]"] by (simp add: canonical_def)
  also have "\<dots> = Inl ENOTDIR"
    using c ds by (simp add: canonical_def plain_def)
  finally show ?thesis .
qed

end
