(* ===== verification/GoOs.thy ===== *)
theory GoOs
  imports GoPath
begin

text \<open>
  The calls of Go's \<open>os\<close> package the SFTP handlers make, as Unix executes them: a state with
  the directory tree and the inodes, and for every call its result and the new state. The
  working directory is part of the state. Modification times are not kept, and the umask is
  zero.
\<close>

record fsys =
  tree :: tree
  inodes :: "(nat \<times> (string \<times> nat)) list"
  cwd :: "string list"

definition inode :: "fsys \<Rightarrow> nat \<Rightarrow> string \<times> nat" where
  "inode fs i = (case map_of (inodes fs) i of None \<Rightarrow> ([], 0) | Some x \<Rightarrow> x)"

definition set_inode :: "nat \<Rightarrow> string \<times> nat \<Rightarrow> fsys \<Rightarrow> fsys" where
  "set_inode i x fs = fs\<lparr>inodes := AList.update i x (inodes fs)\<rparr>"

definition fresh_inode :: "fsys \<Rightarrow> nat" where
  "fresh_inode fs = Suc (fold max (map fst (inodes fs)) 0)"

definition put_entry :: "string list \<Rightarrow> entry \<Rightarrow> fsys \<Rightarrow> fsys" where
  "put_entry q x fs = fs\<lparr>tree := AList.update q x (tree fs)\<rparr>"

definition del_entry :: "string list \<Rightarrow> fsys \<Rightarrow> fsys" where
  "del_entry q fs = fs\<lparr>tree := AList.delete q (tree fs)\<rparr>"

definition is_prefix :: "string list \<Rightarrow> string list \<Rightarrow> bool" where
  "is_prefix p q \<longleftrightarrow> take (length p) q = p"

definition has_children :: "string list \<Rightarrow> fsys \<Rightarrow> bool" where
  "has_children q fs \<longleftrightarrow> (\<exists>x \<in> set (tree fs). length (fst x) = Suc (length q) \<and> is_prefix q (fst x))"

definition locate :: "bool \<Rightarrow> bool \<Rightarrow> fsys \<Rightarrow> string \<Rightarrow> fs_err + string list" where
  "locate follow absent_ok fs p = kernel_path follow absent_ok (cwd fs) (tree fs) p"

subsection \<open>Opening\<close>

datatype open_flag = O_WRONLY | O_RDWR | O_CREATE | O_TRUNC | O_EXCL | O_APPEND

text \<open>An open file: its inode.\<close>

definition create_file :: "string list \<Rightarrow> nat \<Rightarrow> fsys \<Rightarrow> nat \<times> fsys" where
  "create_file q m fs = (let i = fresh_inode fs in (i, put_entry q (EFile i) (set_inode i ([], m) fs)))"

definition os_OpenFile :: "string \<Rightarrow> open_flag set \<Rightarrow> nat \<Rightarrow> fsys \<Rightarrow> (fs_err + nat) \<times> fsys" where
  "os_OpenFile p flags m fs =
     (let exclusive = (O_CREATE \<in> flags \<and> O_EXCL \<in> flags);
          writes = (O_WRONLY \<in> flags \<or> O_RDWR \<in> flags)
      in case locate (\<not> exclusive) (O_CREATE \<in> flags) fs p of
           Inl e \<Rightarrow> (Inl e, fs)
         | Inr q \<Rightarrow>
             (case entry_at (tree fs) q of
                None \<Rightarrow> (case create_file q m fs of (i, fs') \<Rightarrow> (Inr i, fs'))
              | Some x \<Rightarrow>
                  if exclusive then (Inl EEXIST, fs)
                  else (case x of
                          EDir \<Rightarrow> (Inl EISDIR, fs)
                        | ELink t \<Rightarrow> (Inl ELOOP, fs)
                        | EFile i \<Rightarrow>
                            (Inr i, if O_TRUNC \<in> flags \<and> writes then set_inode i ([], snd (inode fs i)) fs else fs))))"

text \<open>\<open>os.Open\<close> of a file or a directory for reading.\<close>

definition os_Open :: "string \<Rightarrow> fsys \<Rightarrow> fs_err + entry" where
  "os_Open p fs =
     (case locate True False fs p of
        Inl e \<Rightarrow> Inl e
      | Inr q \<Rightarrow> (case entry_at (tree fs) q of None \<Rightarrow> Inl ENOENT | Some x \<Rightarrow> Inr x))"

subsection \<open>Writing and reading an open file\<close>

definition bytes_at :: "string \<Rightarrow> nat \<Rightarrow> string \<Rightarrow> string" where
  "bytes_at c off p =
     (let c' = c @ replicate (off - length c) (CHR 0x00)
      in take off c' @ p @ drop (off + length p) c')"

definition file_WriteAt :: "nat \<Rightarrow> string \<Rightarrow> nat \<Rightarrow> fsys \<Rightarrow> fsys" where
  "file_WriteAt i p off fs = set_inode i (bytes_at (fst (inode fs i)) off p, snd (inode fs i)) fs"

definition file_Append :: "nat \<Rightarrow> string \<Rightarrow> fsys \<Rightarrow> fsys" where
  "file_Append i p fs = set_inode i (fst (inode fs i) @ p, snd (inode fs i)) fs"

definition file_ReadAt :: "nat \<Rightarrow> nat \<Rightarrow> nat \<Rightarrow> fsys \<Rightarrow> string" where
  "file_ReadAt i len off fs = take len (drop off (fst (inode fs i)))"

subsection \<open>Commands\<close>

definition os_Remove :: "string \<Rightarrow> fsys \<Rightarrow> fs_err option \<times> fsys" where
  "os_Remove p fs =
     (case locate False False fs p of
        Inl e \<Rightarrow> (Some e, fs)
      | Inr q \<Rightarrow>
          if q = [] then (Some EINVAL, fs)
          else if entry_at (tree fs) q = Some EDir \<and> has_children q fs then (Some ENOTEMPTY, fs)
          else (None, del_entry q fs))"

definition os_Mkdir :: "string \<Rightarrow> fsys \<Rightarrow> fs_err option \<times> fsys" where
  "os_Mkdir p fs =
     (case locate False True fs p of
        Inl e \<Rightarrow> (Some e, fs)
      | Inr q \<Rightarrow> if entry_at (tree fs) q \<noteq> None then (Some EEXIST, fs) else (None, put_entry q EDir fs))"

definition os_Link :: "string \<Rightarrow> string \<Rightarrow> fsys \<Rightarrow> fs_err option \<times> fsys" where
  "os_Link p p' fs =
     (case locate False False fs p of
        Inl e \<Rightarrow> (Some e, fs)
      | Inr q \<Rightarrow>
          (case locate False True fs p' of
             Inl e \<Rightarrow> (Some e, fs)
           | Inr q' \<Rightarrow>
               if entry_at (tree fs) q' \<noteq> None then (Some EEXIST, fs)
               else (case entry_at (tree fs) q of
                       None \<Rightarrow> (Some ENOENT, fs)
                     | Some EDir \<Rightarrow> (Some EPERM, fs)
                     | Some x \<Rightarrow> (None, put_entry q' x fs))))"

text \<open>The tree after everything at and below \<open>q\<close> has moved to \<open>q'\<close>, replacing what was there.\<close>

definition move_tree :: "string list \<Rightarrow> string list \<Rightarrow> tree \<Rightarrow> tree" where
  "move_tree q q' tr = map (\<lambda>(k, x). (if is_prefix q k then q' @ drop (length q) k else k, x))
     (filter (\<lambda>(k, x). \<not> is_prefix q' k \<or> is_prefix q k) tr)"

definition os_Rename :: "string \<Rightarrow> string \<Rightarrow> fsys \<Rightarrow> fs_err option \<times> fsys" where
  "os_Rename p p' fs =
     (case locate False False fs p of
        Inl e \<Rightarrow> (Some e, fs)
      | Inr q \<Rightarrow>
          (case locate False True fs p' of
             Inl e \<Rightarrow> (Some e, fs)
           | Inr q' \<Rightarrow>
               if q = q' then (None, fs)
               else if q = [] \<or> is_prefix q q' \<or> is_prefix q' q then (Some EINVAL, fs)
               else if entry_at (tree fs) q' = Some EDir \<and> entry_at (tree fs) q \<noteq> Some EDir then (Some EEXIST, fs)
               else if entry_at (tree fs) q' = Some EDir \<and> has_children q' fs then (Some ENOTEMPTY, fs)
               else if entry_at (tree fs) q' \<noteq> None \<and> entry_at (tree fs) q' \<noteq> Some EDir \<and> entry_at (tree fs) q = Some EDir
               then (Some ENOTDIR, fs)
               else (None, fs\<lparr>tree := move_tree q q' (tree fs)\<rparr>)))"

text \<open>\<open>Chmod\<close>, \<open>Chtimes\<close> and \<open>Truncate\<close> follow a link at the last element.\<close>

definition with_inode :: "string \<Rightarrow> (nat \<Rightarrow> fsys \<Rightarrow> fs_err option \<times> fsys) \<Rightarrow> fsys \<Rightarrow> fs_err option \<times> fsys" where
  "with_inode p act fs =
     (case locate True False fs p of
        Inl e \<Rightarrow> (Some e, fs)
      | Inr q \<Rightarrow> (case entry_at (tree fs) q of Some (EFile i) \<Rightarrow> act i fs | _ \<Rightarrow> (None, fs)))"

definition os_Chmod :: "string \<Rightarrow> nat \<Rightarrow> fsys \<Rightarrow> fs_err option \<times> fsys" where
  "os_Chmod p m = with_inode p (\<lambda>i fs. (None, set_inode i (fst (inode fs i), m) fs))"

definition os_Chtimes :: "string \<Rightarrow> fsys \<Rightarrow> fs_err option \<times> fsys" where
  "os_Chtimes p = with_inode p (\<lambda>i fs. (None, fs))"

definition os_Truncate :: "string \<Rightarrow> nat \<Rightarrow> fsys \<Rightarrow> fs_err option \<times> fsys" where
  "os_Truncate p n fs =
     (case locate True False fs p of
        Inl e \<Rightarrow> (Some e, fs)
      | Inr q \<Rightarrow>
          (case entry_at (tree fs) q of
             Some (EFile i) \<Rightarrow>
               (None, set_inode i (take n (fst (inode fs i)) @ replicate (n - length (fst (inode fs i))) (CHR 0x00),
                                   snd (inode fs i)) fs)
           | _ \<Rightarrow> (Some EISDIR, fs)))"

definition os_Stat :: "string \<Rightarrow> fsys \<Rightarrow> fs_err + entry" where
  "os_Stat p fs = os_Open p fs"

definition os_Lstat :: "string \<Rightarrow> fsys \<Rightarrow> fs_err + entry" where
  "os_Lstat p fs =
     (case locate False False fs p of
        Inl e \<Rightarrow> Inl e
      | Inr q \<Rightarrow> (case entry_at (tree fs) q of None \<Rightarrow> Inl ENOENT | Some x \<Rightarrow> Inr x))"

definition os_Readlink :: "string \<Rightarrow> fsys \<Rightarrow> fs_err + string" where
  "os_Readlink p fs = (case os_Lstat p fs of Inl e \<Rightarrow> Inl e | Inr (ELink t) \<Rightarrow> Inr t | Inr _ \<Rightarrow> Inl EINVAL)"

text \<open>The names and entries of a directory.\<close>

definition readdir :: "string list \<Rightarrow> fsys \<Rightarrow> (string \<times> entry) list" where
  "readdir q fs = map (\<lambda>(k, x). (last k, x))
     (filter (\<lambda>(k, x). length k = Suc (length q) \<and> is_prefix q k) (tree fs))"

definition os_Readdir :: "string \<Rightarrow> fsys \<Rightarrow> fs_err + (string \<times> entry) list" where
  "os_Readdir p fs =
     (case locate True False fs p of
        Inl e \<Rightarrow> Inl e
      | Inr q \<Rightarrow> (case entry_at (tree fs) q of
                   None \<Rightarrow> Inl ENOENT
                 | Some x \<Rightarrow> if x = EDir then Inr (readdir q fs) else Inl ENOTDIR))"

subsection \<open>What a call can change\<close>

text \<open>
  \<open>confined_to Ds fs fs'\<close>: the entries outside the directories \<open>Ds\<close> are as before, every old
  inode whose bytes or mode changed has a name below \<open>Ds\<close>, and no old inode got a first name
  there.
\<close>

definition below :: "string list list \<Rightarrow> string list \<Rightarrow> bool" where
  "below Ds q \<longleftrightarrow> (\<exists>D \<in> set Ds. is_prefix D q)"

definition has_name :: "string list list \<Rightarrow> fsys \<Rightarrow> nat \<Rightarrow> bool" where
  "has_name Ds fs i \<longleftrightarrow> (\<exists>x \<in> set (tree fs). below Ds (fst x) \<and> snd x = EFile i)"

definition known :: "fsys \<Rightarrow> nat set" where
  "known fs = fst ` set (inodes fs)"

definition confined_to :: "string list list \<Rightarrow> fsys \<Rightarrow> fsys \<Rightarrow> bool" where
  "confined_to Ds fs fs' \<longleftrightarrow>
     (\<forall>q. \<not> below Ds q \<longrightarrow> map_of (tree fs') q = map_of (tree fs) q) \<and>
     known fs \<subseteq> known fs' \<and>
     (\<forall>i \<in> known fs. (inode fs' i \<noteq> inode fs i \<longrightarrow> has_name Ds fs i) \<and> (has_name Ds fs' i \<longrightarrow> has_name Ds fs i))"

lemma confined_refl [simp]: "confined_to D fs fs"
  by (simp add: confined_to_def)

lemma confined_trans: "confined_to Ds fs fs' \<Longrightarrow> confined_to Ds fs' fs'' \<Longrightarrow> confined_to Ds fs fs''"
  unfolding confined_to_def by (metis subsetD subset_trans)

lemma below_mono: "below Ds q \<Longrightarrow> set Ds \<subseteq> set Es \<Longrightarrow> below Es q"
  by (auto simp: below_def)

lemma fold_max_ge: "(a :: nat) \<le> fold max xs a \<and> (\<forall>x \<in> set xs. x \<le> fold max xs a)"
proof (induction xs arbitrary: a)
  case (Cons x xs)
  from Cons.IH [of "max x a"] show ?case by auto
qed simp

lemma fresh_inode_new: "fresh_inode fs \<notin> known fs"
  using fold_max_ge [of 0 "map fst (inodes fs)"] by (fastforce simp: fresh_inode_def known_def)

lemma inode_set: "inode (set_inode i x fs) j = (if j = i then x else inode fs j)"
  by (simp add: inode_def set_inode_def update_conv')

lemma tree_set_inode [simp]: "tree (set_inode i x fs) = tree fs"
  by (simp add: set_inode_def)

lemma inode_entry [simp]: "inode (put_entry q x fs) i = inode fs i" "inode (del_entry q fs) i = inode fs i"
  "inode (fs\<lparr>tree := tr\<rparr>) i = inode fs i"
  by (simp_all add: inode_def put_entry_def del_entry_def)

lemma known_entry [simp]: "known (put_entry q x fs) = known fs" "known (del_entry q fs) = known fs"
  "known (fs\<lparr>tree := tr\<rparr>) = known fs" "known (set_inode i y fs) = insert i (known fs)"
  by (simp_all add: known_def put_entry_def del_entry_def set_inode_def dom_update)

lemma set_update: "set (AList.update q x al) \<subseteq> insert (q, x) (set al)"
  by (induction al) auto

lemma set_delete: "set (AList.delete q al) \<subseteq> set al"
  by (auto simp: AList.delete_eq)

lemma has_name_set_inode [simp]: "has_name Ds (set_inode i x fs) j = has_name Ds fs j"
  by (simp add: has_name_def)

lemma has_name_put: "has_name Ds (put_entry q x fs) i \<Longrightarrow> has_name Ds fs i \<or> x = EFile i"
  using set_update [of q x "tree fs"] by (fastforce simp: has_name_def put_entry_def)

lemma has_name_del: "has_name Ds (del_entry q fs) i \<Longrightarrow> has_name Ds fs i"
  using set_delete [of q "tree fs"] by (fastforce simp: has_name_def del_entry_def)

lemma confined_put:
  assumes "below Ds q" and "\<And>i. x = EFile i \<Longrightarrow> has_name Ds fs i \<or> i \<notin> known fs"
  shows "confined_to Ds fs (put_entry q x fs)"
  using assms has_name_put [of Ds q x fs]
  by (auto simp: confined_to_def) (auto simp: put_entry_def update_conv')

lemma confined_del: "below Ds q \<Longrightarrow> confined_to Ds fs (del_entry q fs)"
  using has_name_del by (auto simp: confined_to_def) (auto simp: del_entry_def AList.delete_conv')

lemma confined_set_inode: "has_name Ds fs i \<or> i \<notin> known fs \<Longrightarrow> confined_to Ds fs (set_inode i x fs)"
  by (auto simp: confined_to_def inode_set split: if_splits)

lemma confined_create: "below Ds q \<Longrightarrow> confined_to Ds fs (snd (create_file q m fs))"
  using fresh_inode_new [of fs] confined_put [of Ds q "EFile (fresh_inode fs)" "set_inode (fresh_inode fs) ([], m) fs"]
    confined_set_inode [of Ds fs "fresh_inode fs" "([], m)"]
    has_name_put [of Ds q "EFile (fresh_inode fs)" "set_inode (fresh_inode fs) ([], m) fs"]
  by (auto simp: create_file_def Let_def confined_to_def inode_set) (auto simp: put_entry_def update_conv')

lemma is_prefix_iff: "is_prefix p q \<longleftrightarrow> (\<exists>r. q = p @ r)"
  unfolding is_prefix_def by (metis append_eq_conv_conj)

lemma below_append: "below Ds q \<Longrightarrow> below Ds (q @ r)"
  by (force simp: below_def is_prefix_iff)

lemma prefix_below: "is_prefix q k \<Longrightarrow> below Ds q \<Longrightarrow> below Ds k"
  by (force simp: below_def is_prefix_iff)

lemma map_of_move_tree:
  assumes "below Ds q" and "below Ds q'" and "\<not> below Ds k"
  shows "map_of (move_tree q q' tr) k = map_of tr k"
proof (induction tr)
  case (Cons a tr)
  obtain p x where a: "a = (p, x)" by (cases a)
  have "is_prefix q p \<Longrightarrow> p \<noteq> k" "is_prefix q' p \<Longrightarrow> p \<noteq> k" "q' @ drop (length q) p \<noteq> k"
    using assms prefix_below below_append by metis+
  then show ?case using Cons a by (auto simp: move_tree_def)
qed (simp add: move_tree_def)

lemma has_name_move:
  assumes "below Ds q" and "has_name Ds (fs\<lparr>tree := move_tree q q' (tree fs)\<rparr>) i"
  shows "has_name Ds fs i"
proof -
  obtain y where y: "y \<in> set (move_tree q q' (tree fs))" "below Ds (fst y)" "snd y = EFile i"
    using assms(2) by (auto simp: has_name_def)
  then have "\<exists>z \<in> set (tree fs). y = (\<lambda>(k, x). (if is_prefix q k then q' @ drop (length q) k else k, x)) z"
    unfolding move_tree_def set_map set_filter by blast
  then obtain z where z: "z \<in> set (tree fs)" "y = (\<lambda>(k, x). (if is_prefix q k then q' @ drop (length q) k else k, x)) z"
    by blast
  obtain k x where "z = (k, x)" by (cases z)
  with z have kx: "(k, x) \<in> set (tree fs)" "y = (if is_prefix q k then q' @ drop (length q) k else k, x)"
    by (simp_all only: case_prod_conv)
  have "below Ds k"
  proof (cases "is_prefix q k")
    case True
    then show ?thesis using prefix_below assms(1) by blast
  next
    case False
    then show ?thesis using y(2) kx(2) by simp
  qed
  then show ?thesis using kx y(3) by (force simp: has_name_def)
qed

lemma confined_rename:
  assumes "below Ds q" and "below Ds q'"
  shows "confined_to Ds fs (fs\<lparr>tree := move_tree q q' (tree fs)\<rparr>)"
  unfolding confined_to_def using has_name_move [OF assms(1)] map_of_move_tree [OF assms] by simp

lemma has_name_entry:
  assumes "entry_at (tree fs) q = Some (EFile i)" and "below Ds q"
  shows "has_name Ds fs i"
proof -
  have "map_of (tree fs) q = Some (EFile i)" using assms(1) by (cases "q = []") (simp_all add: entry_at_def)
  then show ?thesis using assms(2) map_of_SomeD by (force simp: has_name_def)
qed

subsection \<open>Calls on a canonical path\<close>

text \<open>
  When the calls are handed the rendering of a canonical path, the kernel acts on that entry:
  its parent is a chain of directories, so no link above it is followed.
\<close>

lemma locate_canonical:
  assumes "canonical (tree fs) q" and "fo \<longrightarrow> \<not> is_link (tree fs) q" and "entry_at (tree fs) q = None \<longrightarrow> ab"
  shows "locate fo ab fs (render True q) = Inr q"
proof -
  have "walk (tree fs) fo ab kernel_links [] (split_slash (render True q)) = walk (tree fs) fo ab kernel_links [] q"
    using assms(1) by (cases "q = []") (simp_all add: canonical_def split_render)
  then show ?thesis using walk_fixpoint [OF assms] by (simp add: locate_def kernel_path_def start_dir_def)
qed

lemma locate_canonical_absent:
  assumes "canonical (tree fs) q" and "entry_at (tree fs) q = None"
  shows "locate fo False fs (render True q) = Inl ENOENT"
proof (cases q rule: rev_cases)
  case (snoc ds e)
  then have "walk (tree fs) fo False kernel_links [] q = walk (tree fs) fo False kernel_links ds [e]"
    using assms(1) walk_through [of "tree fs" "[]" ds fo False kernel_links "[e]"] by (simp add: canonical_def)
  moreover have "split_slash (render True q) = [] # q"
    using assms(1) snoc by (subst split_render) (auto simp: canonical_def)
  ultimately show ?thesis using assms snoc
    by (simp add: locate_def kernel_path_def start_dir_def canonical_def plain_def)
qed (use assms in \<open>simp add: entry_at_def\<close>)

lemma confined_OpenFile:
  assumes "canonical (tree fs) q" and "below D q" and "\<not> is_link (tree fs) q"
  shows "confined_to D fs (snd (os_OpenFile (render True q) flags m fs))"
proof (cases "entry_at (tree fs) q")
  case None
  show ?thesis
  proof (cases "O_CREATE \<in> flags")
    case True
    then have "locate fo True fs (render True q) = Inr q" for fo
      using assms by (intro locate_canonical) simp_all
    then show ?thesis using None True confined_create [OF assms(2), of fs m]
      by (cases "create_file q m fs") (simp add: os_OpenFile_def Let_def)
  next
    case False
    then show ?thesis using locate_canonical_absent [OF assms(1) None] by (simp add: os_OpenFile_def Let_def)
  qed
next
  case (Some x)
  then have "locate fo ab fs (render True q) = Inr q" for fo ab
    using assms by (intro locate_canonical) simp_all
  moreover have "has_name D fs i" if "x = EFile i" for i
    using that Some has_name_entry assms(2) by blast
  ultimately show ?thesis using Some confined_set_inode
    by (auto simp: os_OpenFile_def Let_def split: entry.split)
qed

lemma confined_Remove:
  assumes "canonical (tree fs) q" and "below D q"
  shows "confined_to D fs (snd (os_Remove (render True q) fs))"
  using locate_canonical [of fs q False False] locate_canonical_absent [of fs q False] assms confined_del
  by (cases "entry_at (tree fs) q") (auto simp: os_Remove_def)

lemma confined_Mkdir:
  assumes "canonical (tree fs) q" and "below D q"
  shows "confined_to D fs (snd (os_Mkdir (render True q) fs))"
  using locate_canonical [of fs q False True] assms confined_put by (auto simp: os_Mkdir_def)

lemma confined_Link:
  assumes "canonical (tree fs) q" and "below D q" and "canonical (tree fs) q'" and "below D q'"
  shows "confined_to D fs (snd (os_Link (render True q) (render True q') fs))"
proof (cases "entry_at (tree fs) q")
  case None
  then show ?thesis using locate_canonical_absent [OF assms(1)] by (simp add: os_Link_def)
next
  case (Some x)
  moreover have "has_name D fs i" if "x = EFile i" for i
    using that Some has_name_entry assms(2) by blast
  ultimately show ?thesis
    using locate_canonical [of fs q False False] locate_canonical [of fs q' False True] assms confined_put
    by (auto simp: os_Link_def split: entry.split)
qed

lemma confined_Rename:
  assumes "canonical (tree fs) q" and "below D q" and "canonical (tree fs) q'" and "below D q'"
  shows "confined_to D fs (snd (os_Rename (render True q) (render True q') fs))"
  using locate_canonical [of fs q False False] locate_canonical_absent [of fs q False]
    locate_canonical [of fs q' False True] assms confined_rename
  by (cases "entry_at (tree fs) q") (auto simp: os_Rename_def)

lemma confined_with_inode:
  assumes "canonical (tree fs) q" and "below D q" and "\<not> is_link (tree fs) q"
    and "\<And>i. entry_at (tree fs) q = Some (EFile i) \<Longrightarrow> confined_to D fs (snd (act i fs))"
  shows "confined_to D fs (snd (with_inode (render True q) act fs))"
proof (cases "entry_at (tree fs) q")
  case None
  then show ?thesis using locate_canonical_absent [OF assms(1) None] by (simp add: with_inode_def)
next
  case (Some x)
  then show ?thesis using locate_canonical [of fs q True False] assms
    by (auto simp: with_inode_def split: entry.split)
qed

lemma Truncate_with_inode:
  "snd (os_Truncate p n fs) = snd (with_inode p (\<lambda>i fs. (None,
     set_inode i (take n (fst (inode fs i)) @ replicate (n - length (fst (inode fs i))) (CHR 0x00), snd (inode fs i)) fs)) fs)"
  by (auto simp: os_Truncate_def with_inode_def split: sum.split option.split entry.split)

lemma confined_attributes:
  assumes "canonical (tree fs) q" and "below D q" and "\<not> is_link (tree fs) q"
  shows "confined_to D fs (snd (os_Chmod (render True q) m fs))"
    and "confined_to D fs (snd (os_Chtimes (render True q) fs))"
    and "confined_to D fs (snd (os_Truncate (render True q) n fs))"
  unfolding os_Chmod_def os_Chtimes_def Truncate_with_inode
  by (rule confined_with_inode [OF assms]; simp add: confined_set_inode has_name_entry assms(2))+

text \<open>Below a regular file every call fails and changes nothing.\<close>

lemma locate_under_file:
  assumes "under_file (tree fs) q"
  shows "locate fo ab fs (render True q) = Inl ENOTDIR"
proof -
  have "q \<noteq> []" "\<forall>e \<in> set q. plain e"
    using assms by (cases q rule: rev_cases; auto simp: under_file_def canonical_def)+
  then have "split_slash (render True q) = [] # q" by (simp add: split_render)
  then show ?thesis using walk_under_file [OF assms] by (simp add: locate_def kernel_path_def start_dir_def)
qed

lemma unchanged_under_file:
  assumes "under_file (tree fs) q"
  shows "snd (os_OpenFile (render True q) flags m fs) = fs" "snd (os_Remove (render True q) fs) = fs"
    "snd (os_Mkdir (render True q) fs) = fs" "snd (os_Link p (render True q) fs) = fs"
    "snd (os_Rename (render True q) p fs) = fs" "snd (os_Rename p (render True q) fs) = fs"
    "snd (os_Chmod (render True q) m fs) = fs" "snd (os_Chtimes (render True q) fs) = fs"
    "snd (os_Truncate (render True q) n fs) = fs"
  using locate_under_file [OF assms]
  by (simp_all add: os_OpenFile_def os_Remove_def os_Mkdir_def os_Link_def os_Rename_def os_Chmod_def
      os_Chtimes_def os_Truncate_def with_inode_def Let_def split: sum.split)

subsection \<open>Trees without links\<close>

definition linkless :: "tree \<Rightarrow> bool" where
  "linkless tr \<longleftrightarrow> list_all (\<lambda>x. case snd x of ELink t \<Rightarrow> False | _ \<Rightarrow> True) tr"

lemma linkless_entry: "linkless tr \<Longrightarrow> entry_at tr q \<noteq> Some (ELink t)"
  by (auto simp: linkless_def entry_at_def list_all_iff dest!: map_of_SomeD split: if_splits)

lemma linkless_not_link [simp]: "linkless tr \<Longrightarrow> \<not> is_link tr q"
  by (simp add: is_link_def linkless_entry)

lemma linkless_put: "linkless (tree fs) \<Longrightarrow> \<forall>t. x \<noteq> ELink t \<Longrightarrow> linkless (tree (put_entry q x fs))"
  using set_update [of q x "tree fs"]
  by (force simp: linkless_def list_all_iff put_entry_def split: entry.splits)

lemma linkless_del: "linkless (tree fs) \<Longrightarrow> linkless (tree (del_entry q fs))"
  using set_delete [of q "tree fs"] by (auto simp: linkless_def list_all_iff del_entry_def)

lemma linkless_move: "linkless tr \<Longrightarrow> linkless (move_tree q q' tr)"
  by (auto simp: linkless_def list_all_iff move_tree_def)

lemma linkless_OpenFile: "linkless (tree fs) \<Longrightarrow> linkless (tree (snd (os_OpenFile p fl m fs)))"
  by (auto simp: os_OpenFile_def create_file_def Let_def intro: linkless_put
      split: sum.split option.split entry.split)

lemma linkless_Link: "linkless (tree fs) \<Longrightarrow> linkless (tree (snd (os_Link p p' fs)))"
  by (auto simp: os_Link_def linkless_entry intro!: linkless_put split: sum.split option.split entry.split)

lemma linkless_commands:
  assumes "linkless (tree fs)"
  shows "linkless (tree (snd (os_Remove p fs)))" "linkless (tree (snd (os_Mkdir p fs)))"
    "linkless (tree (snd (os_Rename p p' fs)))"
  using assms by (auto simp: os_Remove_def os_Mkdir_def os_Rename_def
      intro: linkless_put linkless_del linkless_move split: sum.split)

lemma tree_attributes:
  "tree (snd (os_Chmod p m fs)) = tree fs" "tree (snd (os_Chtimes p fs)) = tree fs"
  "tree (snd (os_Truncate p n fs)) = tree fs"
  by (auto simp: os_Chmod_def os_Chtimes_def os_Truncate_def with_inode_def
      split: sum.split option.split entry.split)

text \<open>Without links, resolution is lexical.\<close>

lemma walk_linkless:
  assumes "walk tr fo ab n dest es = Inr q" and "linkless tr" and "\<forall>e \<in> set dest. plain e"
    and "\<forall>e \<in> set es. CHR ''/'' \<notin> set e"
  shows "q = rev (foldl (clean_elem True) (rev dest) es)"
  using assms
proof (induction tr fo ab n dest es rule: walk.induct)
  case (2 tr fo ab n dest e es)
  note IH = 2(1-4) and w = 2(5) and ll = 2(6) and d = 2(7) and no = 2(8)
  consider (skip) "e = [] \<or> e = ''.''" | (up) "\<not> (e = [] \<or> e = ''.'')" "e = dotdot" | (down) "\<not> (e = [] \<or> e = ''.'')" "e \<noteq> dotdot"
    by blast
  then show ?case
  proof cases
    case skip
    then show ?thesis using IH(1) w ll d no by auto
  next
    case up
    then have "walk tr fo ab n (butlast dest) es = Inr q" using w by (simp split: if_splits)
    moreover have "clean_elem True (rev dest) e = rev (butlast dest)"
      using up d by (cases dest rule: rev_cases) (auto simp: plain_def dotdot_def)
    moreover have "\<forall>e \<in> set (butlast dest). plain e" using d by (auto dest: in_set_butlastD)
    ultimately show ?thesis using IH(2) up ll no by (simp del: clean_elem.simps)
  next
    case down
    then have pl: "plain e" using no by (simp add: plain_def)
    consider "entry_at tr (dest @ [e]) = None" | i where "entry_at tr (dest @ [e]) = Some (EFile i)"
      | "entry_at tr (dest @ [e]) = Some EDir"
      using linkless_entry [OF ll] by (metis entry.exhaust option.exhaust)
    then show ?thesis
    proof cases
      case 3
      then have "walk tr fo ab n (dest @ [e]) es = Inr q" using w down by simp
      then show ?thesis using IH(3) [OF down(1) down(2) 3 refl] ll d pl no by (simp del: clean_elem.simps)
    qed (use w down pl in \<open>auto split: if_splits simp del: clean_elem.simps\<close>)
  qed
qed simp

end
