(* ===== verification/AgentAcl.thy ===== *)
theory AgentAcl
  imports GoOs
begin

text \<open>
  The access policy of a share and the translation of a peer's virtual path into a path of the
  host (internal/agent/sharesacl.go).
\<close>

subsection \<open>Decisions\<close>

text \<open>The interface \<open>DeviceResolver\<close> is its only method; \<open>None\<close> stands for the nil interface.\<close>

type_synonym resolver = "(string \<Rightarrow> string option) option"

record share_acl =
  acl_alias :: string
  acl_path :: string
  acl_read_only :: bool
  acl_allow_all :: bool
  acl_devices :: "string list"

record access_decision =
  dec_allow :: bool
  dec_read_only :: bool

definition peer_nickname :: "string \<Rightarrow> resolver \<Rightarrow> string" where
  "peer_nickname did r = (case r of None \<Rightarrow> [] | Some f \<Rightarrow> (case f did of None \<Rightarrow> [] | Some n \<Rightarrow> n))"

fun match_token :: "string list \<Rightarrow> string \<Rightarrow> string \<Rightarrow> bool" where
  "match_token [] did nick = False"
| "match_token (tok # toks) did nick =
     (if tok = did \<or> (nick \<noteq> [] \<and> tok = nick) then True else match_token toks did nick)"

definition Decide :: "share_acl \<Rightarrow> string \<Rightarrow> resolver \<Rightarrow> access_decision" where
  "Decide a did r =
     (if acl_allow_all a then \<lparr>dec_allow = True, dec_read_only = acl_read_only a\<rparr>
      else if acl_devices a = [] then \<lparr>dec_allow = False, dec_read_only = False\<rparr>
      else if match_token (acl_devices a) did (peer_nickname did r)
      then \<lparr>dec_allow = True, dec_read_only = acl_read_only a\<rparr>
      else \<lparr>dec_allow = False, dec_read_only = False\<rparr>)"

subsection \<open>From the configuration\<close>

record share_view =
  sv_alias :: string
  sv_path :: string
  sv_permissions :: string
  sv_allowed :: "string list"

fun lift_all :: "string list \<Rightarrow> bool \<times> string list" where
  "lift_all [] = (False, [])"
| "lift_all (tok # toks) =
     (case lift_all toks of (al, ds) \<Rightarrow> if tok = ''all'' then (True, ds) else (al, tok # ds))"

definition acl_of :: "share_view \<Rightarrow> share_acl" where
  "acl_of s = (case lift_all (sv_allowed s) of (al, ds) \<Rightarrow>
     \<lparr>acl_alias = sv_alias s, acl_path = sv_path s, acl_read_only = (sv_permissions s \<noteq> ''rw''),
      acl_allow_all = al, acl_devices = ds\<rparr>)"

definition ShareACLsFromConfig :: "share_view list \<Rightarrow> share_acl list" where
  "ShareACLsFromConfig ss = map acl_of ss"

subsection \<open>Paths\<close>

text \<open>The text before the first slash, and after it (\<open>None\<close> without a slash).\<close>

definition split_first :: "string \<Rightarrow> string \<times> string option" where
  "split_first s =
     (takeWhile (\<lambda>ch. ch \<noteq> CHR ''/'') s,
      if CHR ''/'' \<in> set s then Some (tl (dropWhile (\<lambda>ch. ch \<noteq> CHR ''/'') s)) else None)"

definition clean_virtual :: "string \<Rightarrow> string" where
  "clean_virtual v = Clean (CHR ''/'' # trim_prefix_slash v)"

datatype path_err = WrongShare | Escapes | FsErr fs_err

definition ResolveSharePath :: "string \<Rightarrow> string \<Rightarrow> string \<Rightarrow> path_err + string" where
  "ResolveSharePath shareRoot virtualPath expectedAlias =
     (let trimmed = trim_prefix_slash (clean_virtual virtualPath);
          (alias, rest) = (case split_first trimmed of (a, None) \<Rightarrow> (trimmed, []) | (a, Some r) \<Rightarrow> (a, r))
      in if alias \<noteq> expectedAlias then Inl WrongShare
         else
           (let root = Clean shareRoot;
                joined = Clean (Join2 root rest)
            in case Rel root joined of
                 None \<Rightarrow> Inl Escapes
               | Some rel \<Rightarrow> if escapes rel then Inl Escapes else Inr joined))"

definition containedReal :: "fsys \<Rightarrow> string \<Rightarrow> string \<Rightarrow> path_err + string" where
  "containedReal fs shareRoot realPath =
     (case EvalSymlinks (cwd fs) (tree fs) shareRoot of
        Inl e \<Rightarrow> Inl (FsErr e)
      | Inr rootCanon \<Rightarrow>
          (case EvalSymlinks (cwd fs) (tree fs) realPath of
             Inl e \<Rightarrow> Inl (FsErr e)
           | Inr pCanon \<Rightarrow>
               (case Rel rootCanon pCanon of
                  None \<Rightarrow> Inl Escapes
                | Some rel \<Rightarrow> if escapes rel then Inl Escapes else Inr pCanon)))"

definition containedWritePath :: "fsys \<Rightarrow> string \<Rightarrow> string \<Rightarrow> path_err + string" where
  "containedWritePath fs shareRoot realPath =
     (case containedReal fs shareRoot (Dir realPath) of
        Inl e \<Rightarrow> Inl e
      | Inr parentReal \<Rightarrow> Inr (Join2 parentReal (Base realPath)))"

subsection \<open>Facts about decisions\<close>

lemma match_token_iff: "match_token toks did nick \<longleftrightarrow> did \<in> set toks \<or> (nick \<noteq> [] \<and> nick \<in> set toks)"
  by (induction toks) auto

lemma lift_all_eq: "lift_all toks = (''all'' \<in> set toks, filter (\<lambda>t. t \<noteq> ''all'') toks)"
  by (induction toks) auto

text \<open>
  A share admits a peer exactly when its list of devices contains the reserved word all,
  the peer's id (unless that is the word itself), or the nickname the hub advertises for that
  id; it is writable exactly when its permission is rw.
\<close>

theorem share_policy:
  "dec_allow (Decide (acl_of s) did r) =
     (''all'' \<in> set (sv_allowed s) \<or> did \<in> set (sv_allowed s) \<or>
      (peer_nickname did r \<noteq> [] \<and> peer_nickname did r \<in> set (sv_allowed s))) \<and>
   dec_read_only (Decide (acl_of s) did r) =
     (dec_allow (Decide (acl_of s) did r) \<and> sv_permissions s \<noteq> ''rw'')"
  by (auto simp: Decide_def acl_of_def lift_all_eq match_token_iff filter_empty_conv)

subsection \<open>Facts about paths\<close>

lemma join_snoc: "join_slash (ds @ [e]) = (if ds = [] then e else join_slash ds @ CHR ''/'' # e)"
  by (induction ds rule: join_slash.induct) auto

lemma render_snoc:
  "render True (ds @ [e]) = (if ds = [] then CHR ''/'' # e else render True ds @ CHR ''/'' # e)"
  by (simp add: render_def join_snoc)

lemma rev_split_last:
  assumes "CHR ''/'' \<notin> set e"
  shows "dropWhile (\<lambda>ch. ch \<noteq> CHR ''/'') (rev (a @ CHR ''/'' # e)) = CHR ''/'' # rev a"
    and "takeWhile (\<lambda>ch. ch \<noteq> CHR ''/'') (rev (a @ CHR ''/'' # e)) = rev e"
proof -
  have "\<forall>ch \<in> set (rev e). ch \<noteq> CHR ''/''" using assms by auto
  then have "dropWhile (\<lambda>ch. ch \<noteq> CHR ''/'') (rev e @ CHR ''/'' # rev a) = CHR ''/'' # rev a"
    and "takeWhile (\<lambda>ch. ch \<noteq> CHR ''/'') (rev e @ CHR ''/'' # rev a) = rev e"
    using dropWhile_append2 [of "rev e" "\<lambda>ch. ch \<noteq> CHR ''/''"] takeWhile_append2 [of "rev e" "\<lambda>ch. ch \<noteq> CHR ''/''"]
    by auto
  then show "dropWhile (\<lambda>ch. ch \<noteq> CHR ''/'') (rev (a @ CHR ''/'' # e)) = CHR ''/'' # rev a"
    and "takeWhile (\<lambda>ch. ch \<noteq> CHR ''/'') (rev (a @ CHR ''/'' # e)) = rev e"
    by simp_all
qed

lemma split_slash_snoc_slash: "split_slash (p @ [CHR ''/'']) = split_slash p @ [[]]"
proof (induction p)
  case (Cons ch p)
  then show ?case by (cases "split_slash p") auto
qed simp

lemma split_slash_two: "split_slash (p @ CHR ''/'' # e) = split_slash p @ split_slash e"
proof (induction p)
  case (Cons ch p)
  then show ?case by (cases "split_slash p") auto
qed simp

lemma elems_append:
  assumes "rooted p" and "\<forall>x \<in> set (split_slash e). plain x"
  shows "elems (p @ CHR ''/'' # e) = elems p @ split_slash e"
proof -
  have "rooted (p @ CHR ''/'' # e)" using assms(1) by (cases p) (simp_all add: rooted_def)
  then show ?thesis using assms
    by (simp add: elems_def clean_elems_def split_slash_two clean_fold_plain del: clean_elem.simps)
qed

lemma Clean_rooted: "rooted p \<Longrightarrow> Clean p = render True (elems p)"
  by (simp add: Clean_def)

lemma Dir_render:
  assumes "\<forall>x \<in> set (ds @ [e]). plain x"
  shows "Dir (render True (ds @ [e])) = render True ds"
proof -
  have e: "CHR ''/'' \<notin> set e" using assms plain_no_slash by simp
  let ?a = "if ds = [] then [] else render True ds"
  have p: "render True (ds @ [e]) = ?a @ CHR ''/'' # e" by (simp add: render_snoc)
  have "Dir (render True (ds @ [e])) = Clean (?a @ [CHR ''/''])"
    unfolding Dir_def p rev_split_last(1) [OF e] by simp
  moreover have "rooted (?a @ [CHR ''/''])" by (simp add: rooted_def render_def)
  moreover have "elems (?a @ [CHR ''/'']) = ds"
  proof (cases "ds = []")
    case False
    have "split_slash (render True ds) = [] # ds" using False assms by (simp add: split_render)
    then show ?thesis using False assms \<open>rooted (?a @ [CHR ''/''])\<close>
      by (simp add: elems_def clean_elems_def split_slash_snoc_slash clean_fold_plain)
  qed (simp add: elems_def clean_elems_def rooted_def)
  ultimately show ?thesis by (simp add: Clean_rooted)
qed

lemma Base_render:
  assumes "\<forall>x \<in> set (ds @ [e]). plain x"
  shows "Base (render True (ds @ [e])) = e"
proof -
  have e: "CHR ''/'' \<notin> set e" "e \<noteq> []" using assms plain_no_slash by (auto simp: plain_def)
  let ?a = "if ds = [] then [] else render True ds"
  have p: "render True (ds @ [e]) = ?a @ CHR ''/'' # e" by (simp add: render_snoc)
  have "dropWhile (\<lambda>ch. ch = CHR ''/'') (rev (?a @ CHR ''/'' # e)) = rev (?a @ CHR ''/'' # e)"
    using e by (cases e rule: rev_cases) auto
  then show ?thesis unfolding Base_def p Let_def using e rev_split_last(2) [OF e(1), of ?a] by simp
qed

lemma Join2_render:
  assumes "\<forall>x \<in> set q. plain x" and "plain e"
  shows "Join2 (render True q) e = render True (q @ [e])"
proof -
  have "e \<noteq> []" "render True q \<noteq> []" using assms(2) by (simp_all add: plain_def render_def)
  moreover have "rooted (render True q @ CHR ''/'' # e)" by (simp add: rooted_def render_def)
  moreover have "split_slash e = [e]" using assms(2) plain_no_slash split_slash_no_slash by blast
  then have "elems (render True q @ CHR ''/'' # e) = q @ [e]"
    using assms by (simp add: elems_append elems_render)
  ultimately show ?thesis by (simp add: Join2_def Clean_rooted)
qed

lemma EvalSymlinks_canonical:
  assumes "EvalSymlinks d tr p = Inr s" and "rooted p"
  shows "\<exists>q. s = render True q \<and> canonical tr q \<and> \<not> is_link tr q \<and> entry_at tr q \<noteq> None"
proof -
  obtain q where q: "walk tr True False go_links [] (split_slash p) = Inr q" "s = render True q"
    using assms by (auto simp: EvalSymlinks_def start_dir_def split: sum.splits)
  with walk_canonical [OF q(1)] split_slash_elem show ?thesis by auto
qed

text \<open>The directory a share root stands for.\<close>

definition root_dir :: "fsys \<Rightarrow> string \<Rightarrow> string list option" where
  "root_dir fs r = (case walk (tree fs) True False go_links (start_dir (cwd fs) r) (split_slash r) of
     Inl e \<Rightarrow> None | Inr q \<Rightarrow> Some q)"

lemma containedReal_below:
  assumes "rooted r" and "rooted p" and "containedReal fs r p = Inr s"
  shows "\<exists>D q. root_dir fs r = Some D \<and> s = render True q \<and> canonical (tree fs) q \<and>
    \<not> is_link (tree fs) q \<and> entry_at (tree fs) q \<noteq> None \<and> below [D] q"
proof -
  obtain rc where rc: "EvalSymlinks (cwd fs) (tree fs) r = Inr rc" and pc: "EvalSymlinks (cwd fs) (tree fs) p = Inr s"
    and rel: "\<exists>rel. Rel rc s = Some rel \<and> \<not> escapes rel"
    using assms(3) by (auto simp: containedReal_def split: sum.splits option.splits if_splits)
  obtain D where D: "root_dir fs r = Some D" "rc = render True D" "canonical (tree fs) D"
    using rc EvalSymlinks_canonical [OF rc assms(1)] walk_canonical
    by (fastforce simp: EvalSymlinks_def root_dir_def start_dir_def assms(1) split: sum.splits dest: split_slash_elem)
  obtain q where q: "s = render True q" "canonical (tree fs) q" "\<not> is_link (tree fs) q" "entry_at (tree fs) q \<noteq> None"
    using EvalSymlinks_canonical [OF pc assms(2)] by blast
  have "\<exists>cs. elems s = elems rc @ cs" using rel Rel_contained [of rc s] D(2) q(1) by simp
  then have "below [D] q"
    using D(2,3) q(1,2) by (auto simp: elems_render canonical_def below_def is_prefix_iff)
  with D q show ?thesis by blast
qed

lemma containedWritePath_below:
  assumes "rooted r" and "rooted p" and "Clean p = p" and "containedWritePath fs r p = Inr s"
  shows "\<exists>D q. root_dir fs r = Some D \<and> s = render True q \<and> (canonical (tree fs) q \<or> under_file (tree fs) q) \<and> below [D] q"
proof -
  have p: "p = render True (elems p)" and pl: "\<forall>x \<in> set (elems p). plain x"
    using assms(2,3) Clean_rooted elems_plain by auto
  obtain par where par: "containedReal fs r (Dir p) = Inr par" and s: "s = Join2 par (Base p)"
    using assms(4) by (auto simp: containedWritePath_def split: sum.splits)
  show ?thesis
  proof (cases "elems p" rule: rev_cases)
    case Nil
    then have "p = ''/''" using p by (simp add: render_def)
    then have d: "Dir p = ''/''" "Base p = ''/''"
      by (simp_all add: Dir_def Base_def Clean_def elems_def clean_elems_def render_def rooted_def)
    obtain D q where D: "root_dir fs r = Some D" "par = render True q" "canonical (tree fs) q" "below [D] q"
      using containedReal_below [OF assms(1) _ par] d by (auto simp: rooted_def)
    have "s = par"
    proof -
      have "rooted (par @ ''//'')" using D(2) by (simp add: rooted_def render_def)
      moreover have "elems (par @ ''//'') = q"
      proof -
        have "split_slash (par @ ''//'') = split_slash par @ [[], []]"
          using split_slash_two [of par "''/''"] by simp
        then show ?thesis using D(2,3) \<open>rooted (par @ ''//'')\<close>
          by (cases "q = []") (simp_all add: elems_def clean_elems_def split_render canonical_def clean_fold_plain)
      qed
      ultimately show ?thesis using s d D(2) by (simp add: Join2_def Clean_rooted) (simp add: render_def)
    qed
    with D show ?thesis by blast
  next
    case (snoc ds e)
    then have de: "\<forall>x \<in> set (ds @ [e]). plain x" using pl by simp
    have d: "Dir p = render True ds" "Base p = e"
      using p snoc Dir_render [OF de] Base_render [OF de] by simp_all
    obtain D q where D: "root_dir fs r = Some D" "par = render True q" "canonical (tree fs) q" "below [D] q"
      "\<not> is_link (tree fs) q" "entry_at (tree fs) q \<noteq> None"
      using containedReal_below [OF assms(1) _ par] d by auto
    have "s = render True (q @ [e])" using s d D(2,3) de by (simp add: Join2_render canonical_def)
    moreover have "canonical (tree fs) (q @ [e]) \<or> under_file (tree fs) (q @ [e])"
      using canonical_child [OF D(3,5,6), of e] de by simp
    moreover have "below [D] (q @ [e])" using D(4) by (rule below_append)
    ultimately show ?thesis using D(1) by blast
  qed
qed

end
