(* ===== verification/Sftp.thy ===== *)
theory Sftp
  imports AgentAcl "HOL-Library.Word"
begin

unbundle bit_operations_syntax

text \<open>
  The SFTP request handlers of the agent (internal/agent/sftphandler.go). A request is what
  pkg/sftp hands to a handler; the library's conversion of a mode word (\<open>FileStat.FileMode\<close>)
  is taken as a field of the attributes. A handler runs over the state of \<open>GoOs\<close> as one step.
  The configuration can change at any moment, so the list of shares is a function of how often
  the request has asked for it.
\<close>

subsection \<open>Requests\<close>

record pflags =
  pf_read :: bool
  pf_write :: bool
  pf_append :: bool
  pf_creat :: bool
  pf_trunc :: bool
  pf_excl :: bool

record attr_flags =
  af_size :: bool
  af_uidgid :: bool
  af_permissions :: bool
  af_acmodtime :: bool

record file_stat =
  st_size :: "64 word"
  st_mode :: "32 word"

record request =
  rq_method :: string
  rq_filepath :: string
  rq_target :: string
  rq_pflags :: pflags
  rq_attr_flags :: attr_flags
  rq_attributes :: "file_stat option"

datatype sftp_err = PermissionDenied | NoSuchFile | OpUnsupported | OsError fs_err

record acl_handlers =
  ah_device :: string
  ah_resolver :: resolver
  ah_snapshot :: "nat \<Rightarrow> share_acl list"

subsection \<open>From a virtual path to a path of the host\<close>

definition decision :: "acl_handlers \<Rightarrow> share_acl \<Rightarrow> access_decision" where
  "decision h a = Decide a (ah_device h) (ah_resolver h)"

definition findShare :: "acl_handlers \<Rightarrow> nat \<Rightarrow> string \<Rightarrow> (share_acl \<times> access_decision) option" where
  "findShare h k alias =
     (case find (\<lambda>a. acl_alias a = alias) (ah_snapshot h k) of
        None \<Rightarrow> None | Some a \<Rightarrow> Some (a, decision h a))"

definition splitVirtual :: "string \<Rightarrow> (string \<times> string) option" where
  "splitVirtual virtual =
     (let cleaned = clean_virtual virtual in
      if cleaned = ''/'' then None
      else (case split_first (trim_prefix_slash cleaned) of
              (a, None) \<Rightarrow> Some (trim_prefix_slash cleaned, []) | (a, Some r) \<Rightarrow> Some (a, r)))"

definition resolveErr :: "path_err \<Rightarrow> sftp_err" where
  "resolveErr e = (if e = FsErr ENOENT then NoSuchFile else PermissionDenied)"

definition resolveReadReal :: "acl_handlers \<Rightarrow> nat \<Rightarrow> string \<Rightarrow> fsys \<Rightarrow> sftp_err + string" where
  "resolveReadReal h k virtualPath fs =
     (case splitVirtual virtualPath of
        None \<Rightarrow> Inl PermissionDenied
      | Some (alias, rest) \<Rightarrow>
          (case findShare h k alias of
             None \<Rightarrow> Inl PermissionDenied
           | Some (acl, dec) \<Rightarrow>
               if \<not> dec_allow dec then Inl PermissionDenied
               else (case ResolveSharePath (acl_path acl) virtualPath alias of
                       Inl e \<Rightarrow> Inl PermissionDenied
                     | Inr lexical \<Rightarrow>
                         (case containedReal fs (acl_path acl) lexical of
                            Inl e \<Rightarrow> Inl (resolveErr e) | Inr real \<Rightarrow> Inr real))))"

definition resolveWriteReal :: "acl_handlers \<Rightarrow> nat \<Rightarrow> string \<Rightarrow> fsys \<Rightarrow> sftp_err + string" where
  "resolveWriteReal h k virtualPath fs =
     (case splitVirtual virtualPath of
        None \<Rightarrow> Inl PermissionDenied
      | Some (alias, rest) \<Rightarrow>
          (case findShare h k alias of
             None \<Rightarrow> Inl PermissionDenied
           | Some (acl, dec) \<Rightarrow>
               if \<not> dec_allow dec \<or> dec_read_only dec then Inl PermissionDenied
               else (case ResolveSharePath (acl_path acl) virtualPath alias of
                       Inl e \<Rightarrow> Inl PermissionDenied
                     | Inr lexical \<Rightarrow>
                         (case containedWritePath fs (acl_path acl) lexical of
                            Inl e \<Rightarrow> Inl (resolveErr e) | Inr real \<Rightarrow> Inr real))))"

subsection \<open>Opening\<close>

definition openFlagsForRequest :: "request \<Rightarrow> open_flag set" where
  "openFlagsForRequest r =
     (let p = rq_pflags r in
      (if pf_read p \<and> pf_write p then {O_RDWR}
       else if pf_write p then {O_WRONLY}
       else if pf_read p then {O_WRONLY}
       else {O_WRONLY, O_CREATE, O_TRUNC}) \<union>
      (if pf_append p then {O_APPEND} else {}) \<union>
      (if pf_creat p then {O_CREATE} else {}) \<union>
      (if pf_trunc p then {O_TRUNC} else {}) \<union>
      (if pf_excl p then {O_EXCL} else {}))"

definition ModePerm :: "32 word" where "ModePerm = 0x1FF"
definition default_mode :: "32 word" where "default_mode = 0x1A4"

definition requestedMode :: "request \<Rightarrow> 32 word" where
  "requestedMode r =
     (if af_permissions (rq_attr_flags r)
      then (case rq_attributes r of
              None \<Rightarrow> default_mode
            | Some attrs \<Rightarrow> if st_mode attrs \<noteq> 0 then st_mode attrs AND ModePerm else default_mode)
      else default_mode)"

text \<open>A handle: the inode and the flags it was opened with.\<close>

datatype handle = OsFile nat "open_flag set" | AppendHandle nat "open_flag set"

fun handle_inode :: "handle \<Rightarrow> nat" where
  "handle_inode (OsFile i fl) = i"
| "handle_inode (AppendHandle i fl) = i"

text \<open>
  \<open>os.File.WriteAt\<close> refuses a file opened for appending; \<open>appendHandle.WriteAt\<close> ignores the
  offset and writes at the end, where the kernel puts a write to such a file.
\<close>

fun handle_WriteAt :: "handle \<Rightarrow> string \<Rightarrow> nat \<Rightarrow> fsys \<Rightarrow> bool \<times> fsys" where
  "handle_WriteAt (OsFile i fl) p off fs =
     (if O_APPEND \<in> fl then (False, fs) else (True, file_WriteAt i p off fs))"
| "handle_WriteAt (AppendHandle i fl) p off fs = (True, file_Append i p fs)"

text \<open>\<open>None\<close>: the file was opened for writing only.\<close>

fun handle_ReadAt :: "handle \<Rightarrow> nat \<Rightarrow> nat \<Rightarrow> fsys \<Rightarrow> string option" where
  "handle_ReadAt (OsFile i fl) n off fs = (if O_RDWR \<in> fl then Some (file_ReadAt i n off fs) else None)"
| "handle_ReadAt (AppendHandle i fl) n off fs = (if O_RDWR \<in> fl then Some (file_ReadAt i n off fs) else None)"

definition Fileread :: "acl_handlers \<Rightarrow> request \<Rightarrow> fsys \<Rightarrow> sftp_err + entry" where
  "Fileread h r fs =
     (case resolveReadReal h 0 (rq_filepath r) fs of
        Inl e \<Rightarrow> Inl e
      | Inr real \<Rightarrow> (case os_Open real fs of Inl e \<Rightarrow> Inl (OsError e) | Inr f \<Rightarrow> Inr f))"

definition Filewrite :: "acl_handlers \<Rightarrow> request \<Rightarrow> fsys \<Rightarrow> (sftp_err + handle) \<times> fsys" where
  "Filewrite h r fs =
     (case resolveWriteReal h 0 (rq_filepath r) fs of
        Inl e \<Rightarrow> (Inl e, fs)
      | Inr real \<Rightarrow>
          (case os_OpenFile real (openFlagsForRequest r) (unat (requestedMode r)) fs of
             (Inl e, fs') \<Rightarrow> (Inl (OsError e), fs')
           | (Inr f, fs') \<Rightarrow>
               if pf_append (rq_pflags r) then (Inr (AppendHandle f (openFlagsForRequest r)), fs')
               else (Inr (OsFile f (openFlagsForRequest r)), fs')))"

definition OpenFile :: "acl_handlers \<Rightarrow> request \<Rightarrow> fsys \<Rightarrow> (sftp_err + handle) \<times> fsys" where
  "OpenFile h r fs =
     (case resolveWriteReal h 0 (rq_filepath r) fs of
        Inl e \<Rightarrow> (Inl e, fs)
      | Inr real \<Rightarrow>
          (case os_OpenFile real (openFlagsForRequest r) (unat (requestedMode r)) fs of
             (Inl e, fs') \<Rightarrow> (Inl (OsError e), fs')
           | (Inr f, fs') \<Rightarrow>
               if pf_append (rq_pflags r) then (Inr (AppendHandle f (openFlagsForRequest r)), fs')
               else (Inr (OsFile f (openFlagsForRequest r)), fs')))"

subsection \<open>Commands\<close>

definition os_err :: "fs_err option \<times> fsys \<Rightarrow> sftp_err option \<times> fsys" where
  "os_err x = (map_option OsError (fst x), snd x)"

text \<open>\<open>os.Truncate\<close> of the size as a signed word.\<close>

definition truncate_int64 :: "string \<Rightarrow> 64 word \<Rightarrow> fsys \<Rightarrow> fs_err option \<times> fsys" where
  "truncate_int64 real n fs = (if sint n < 0 then (Some EINVAL, fs) else os_Truncate real (nat (sint n)) fs)"

definition applySetstat :: "request \<Rightarrow> string \<Rightarrow> fsys \<Rightarrow> sftp_err option \<times> fsys" where
  "applySetstat r real fs =
     (case rq_attributes r of
        None \<Rightarrow> (None, fs)
      | Some attrs \<Rightarrow>
          (let flags = rq_attr_flags r;
               (e1, fs1) = (if af_permissions flags then os_Chmod real (unat (st_mode attrs)) fs else (None, fs))
           in if e1 \<noteq> None then os_err (e1, fs1)
              else
                (let (e2, fs2) = (if af_acmodtime flags then os_Chtimes real fs1 else (None, fs1))
                 in if e2 \<noteq> None then os_err (e2, fs2)
                    else
                      (let (e3, fs3) = (if af_size flags then truncate_int64 real (st_size attrs) fs2 else (None, fs2))
                       in if e3 \<noteq> None then os_err (e3, fs3)
                          else if af_uidgid flags then (Some OpUnsupported, fs3)
                          else (None, fs3)))))"

definition Filecmd :: "acl_handlers \<Rightarrow> request \<Rightarrow> fsys \<Rightarrow> sftp_err option \<times> fsys" where
  "Filecmd h r fs =
     (if rq_method r = ''Symlink'' then (Some PermissionDenied, fs)
      else (case resolveWriteReal h 0 (rq_filepath r) fs of
              Inl e \<Rightarrow> (Some e, fs)
            | Inr real \<Rightarrow>
                if rq_method r = ''Setstat'' then applySetstat r real fs
                else if rq_method r = ''Rename''
                then (case resolveWriteReal h 1 (rq_target r) fs of
                        Inl e \<Rightarrow> (Some e, fs) | Inr targetReal \<Rightarrow> os_err (os_Rename real targetReal fs))
                else if rq_method r = ''Rmdir'' \<or> rq_method r = ''Remove'' then os_err (os_Remove real fs)
                else if rq_method r = ''Mkdir'' then os_err (os_Mkdir real fs)
                else if rq_method r = ''Link''
                then (case resolveWriteReal h 1 (rq_target r) fs of
                        Inl e \<Rightarrow> (Some e, fs) | Inr targetReal \<Rightarrow> os_err (os_Link real targetReal fs))
                else (Some OpUnsupported, fs)))"

subsection \<open>Listing\<close>

text \<open>An \<open>os.FileInfo\<close>: its name and what it describes.\<close>

type_synonym file_info = "string \<times> entry"

fun root_infos :: "acl_handlers \<Rightarrow> share_acl list \<Rightarrow> fsys \<Rightarrow> file_info list" where
  "root_infos h [] fs = []"
| "root_infos h (a # as) fs =
     (if \<not> dec_allow (decision h a) then root_infos h as fs
      else (case os_Stat (acl_path a) fs of
              Inl e \<Rightarrow> root_infos h as fs
            | Inr fi \<Rightarrow> (acl_alias a, fi) # root_infos h as fs))"

definition Filelist :: "acl_handlers \<Rightarrow> request \<Rightarrow> fsys \<Rightarrow> sftp_err + file_info list" where
  "Filelist h r fs =
     (if rq_filepath r = ''/'' \<or> rq_filepath r = [] then Inr (root_infos h (ah_snapshot h 0) fs)
      else (case resolveReadReal h 0 (rq_filepath r) fs of
              Inl e \<Rightarrow> Inl e
            | Inr real \<Rightarrow>
                if rq_method r = ''List''
                then (case os_Readdir real fs of Inl e \<Rightarrow> Inl (OsError e) | Inr entries \<Rightarrow> Inr entries)
                else if rq_method r = ''Stat''
                then (case os_Stat real fs of Inl e \<Rightarrow> Inl (OsError e) | Inr fi \<Rightarrow> Inr [(Base real, fi)])
                else if rq_method r = ''Lstat''
                then (case os_Lstat real fs of Inl e \<Rightarrow> Inl (OsError e) | Inr fi \<Rightarrow> Inr [(Base real, fi)])
                else if rq_method r = ''Readlink''
                then (case os_Readlink real fs of Inl e \<Rightarrow> Inl (OsError e) | Inr t \<Rightarrow> Inr [(t, ELink t)])
                else Inl OpUnsupported))"

text \<open>\<open>ListAt\<close> with a buffer of \<open>n\<close> entries: what it fills in, and whether it reports the end.\<close>

definition ListAt :: "'a list \<Rightarrow> nat \<Rightarrow> nat \<Rightarrow> 'a list \<times> bool" where
  "ListAt l n off =
     (if off \<ge> length l then ([], True)
      else (let m = min n (length l - off) in (take m (drop off l), off + m \<ge> length l)))"

end
