(* ===== verification/SftpProps.thy ===== *)
theory SftpProps
  imports Sftp
begin

text \<open>
  What the SFTP handlers promise the owner of the shared directories: peers read inside the
  shares that admit them, change only what lies inside shares that grant them writing, see
  nothing of the other shares, and cannot destroy data by opening a file.
\<close>

subsection \<open>Where resolved paths lie\<close>

definition shares_rooted :: "acl_handlers \<Rightarrow> bool" where
  "shares_rooted h \<longleftrightarrow> (\<forall>k. \<forall>a \<in> set (ah_snapshot h k). rooted (acl_path a))"

definition grants_read :: "acl_handlers \<Rightarrow> share_acl \<Rightarrow> bool" where
  "grants_read h a \<longleftrightarrow> dec_allow (decision h a)"

definition grants_write :: "acl_handlers \<Rightarrow> share_acl \<Rightarrow> bool" where
  "grants_write h a \<longleftrightarrow> dec_allow (decision h a) \<and> \<not> dec_read_only (decision h a)"

definition write_roots :: "acl_handlers \<Rightarrow> fsys \<Rightarrow> nat \<Rightarrow> string list list" where
  "write_roots h fs k =
     List.map_filter (\<lambda>a. if grants_write h a then root_dir fs (acl_path a) else None) (ah_snapshot h k)"

lemma findShare_Some:
  "findShare h k alias = Some (a, d) \<Longrightarrow> a \<in> set (ah_snapshot h k) \<and> acl_alias a = alias \<and> d = decision h a"
  by (auto simp: findShare_def find_Some_iff split: option.splits)

lemma ResolveSharePath_rooted:
  assumes "ResolveSharePath r v alias = Inr p" and "rooted r"
  shows "rooted p" and "Clean p = p" and "\<exists>cs. elems p = elems r @ cs"
proof -
  obtain rest where p: "p = Clean (Join2 (Clean r) rest)"
    and rel: "\<exists>rel. Rel (Clean r) p = Some rel \<and> \<not> escapes rel"
    using assms(1) by (auto simp: ResolveSharePath_def Let_def split: prod.splits option.splits if_splits)
  have rc: "rooted (Clean r)" "Clean r \<noteq> []" using rooted_Clean [OF assms(2)] by (auto simp: rooted_def)
  then have "rooted (Clean r @ CHR ''/'' # rest)" by (cases "Clean r") (simp_all add: rooted_def)
  then have j: "rooted (Join2 (Clean r) rest)"
    using rc by (auto simp: Join2_def intro: rooted_Clean)
  then show "rooted p" and "Clean p = p" using p by (simp_all add: rooted_Clean Clean_rooted elems_render elems_plain)
  then show "\<exists>cs. elems p = elems r @ cs"
    using rel Rel_contained [OF rc(1), of p] assms(2) by (simp add: elems_Clean)
qed

lemma resolveRead_below:
  assumes "resolveReadReal h k v fs = Inr s" and "shares_rooted h"
  shows "\<exists>a D q. a \<in> set (ah_snapshot h k) \<and> grants_read h a \<and> root_dir fs (acl_path a) = Some D \<and>
    s = render True q \<and> canonical (tree fs) q \<and> \<not> is_link (tree fs) q \<and> below [D] q"
proof -
  obtain al rst a d p where sv: "splitVirtual v = Some (al, rst)" and f: "findShare h k al = Some (a, d)"
    and dec: "dec_allow d" and p: "ResolveSharePath (acl_path a) v al = Inr p"
    and s: "containedReal fs (acl_path a) p = Inr s"
    using assms(1) by (auto simp: resolveReadReal_def split: option.splits sum.splits if_splits)
  have a: "a \<in> set (ah_snapshot h k)" "rooted (acl_path a)" "grants_read h a"
    using findShare_Some [OF f] assms(2) dec by (auto simp: shares_rooted_def grants_read_def)
  from containedReal_below [OF a(2) ResolveSharePath_rooted(1) [OF p a(2)] s] a show ?thesis by blast
qed

lemma resolveWrite_below:
  assumes "resolveWriteReal h k v fs = Inr s" and "shares_rooted h"
  shows "\<exists>q. s = render True q \<and> (canonical (tree fs) q \<or> under_file (tree fs) q) \<and> below (write_roots h fs k) q"
proof -
  obtain al rst a d p where f: "findShare h k al = Some (a, d)"
    and dec: "dec_allow d" "\<not> dec_read_only d" and p: "ResolveSharePath (acl_path a) v al = Inr p"
    and s: "containedWritePath fs (acl_path a) p = Inr s"
    using assms(1) by (auto simp: resolveWriteReal_def split: option.splits sum.splits if_splits)
  have a: "a \<in> set (ah_snapshot h k)" "rooted (acl_path a)" "grants_write h a"
    using findShare_Some [OF f] assms(2) dec by (auto simp: shares_rooted_def grants_write_def)
  obtain D q where D: "root_dir fs (acl_path a) = Some D" "s = render True q"
    "canonical (tree fs) q \<or> under_file (tree fs) q" "below [D] q"
    using containedWritePath_below [OF a(2) ResolveSharePath_rooted(1,2) [OF p a(2)] s] by blast
  have "D \<in> set (write_roots h fs k)"
    using D(1) a by (force simp: write_roots_def List.map_filter_def)
  then have "below (write_roots h fs k) q" using D(4) below_mono by fastforce
  with D show ?thesis by blast
qed

text \<open>The condition under which a write-side call that follows links stays inside.\<close>

definition leaf_is_link :: "string \<Rightarrow> fsys \<Rightarrow> bool" where
  "leaf_is_link s fs = (case os_Lstat s fs of Inr (ELink t) \<Rightarrow> True | _ \<Rightarrow> False)"

definition target_is_link :: "acl_handlers \<Rightarrow> request \<Rightarrow> fsys \<Rightarrow> bool" where
  "target_is_link h r fs =
     (case resolveWriteReal h 0 (rq_filepath r) fs of Inl e \<Rightarrow> False | Inr s \<Rightarrow> leaf_is_link s fs)"

lemma leaf_is_link:
  assumes "canonical (tree fs) q"
  shows "leaf_is_link (render True q) fs \<longleftrightarrow> is_link (tree fs) q"
proof (cases "entry_at (tree fs) q")
  case None
  then show ?thesis using locate_canonical_absent [OF assms None]
    by (simp add: leaf_is_link_def os_Lstat_def is_link_def)
next
  case (Some x)
  then show ?thesis using locate_canonical [OF assms, of False False]
    by (cases x) (simp_all add: leaf_is_link_def os_Lstat_def is_link_def)
qed

lemma open_confined:
  assumes "s = render True q" and "canonical (tree fs) q \<or> under_file (tree fs) q" and "below Ds q"
    and "\<not> leaf_is_link s fs"
  shows "confined_to Ds fs (snd (os_OpenFile s fl m fs))"
  using assms confined_OpenFile [of fs q Ds fl m] leaf_is_link [of fs q] by (auto simp: unchanged_under_file)

lemma setstat_confined:
  assumes "s = render True q" and "canonical (tree fs) q \<or> under_file (tree fs) q" and "below Ds q"
    and "\<not> leaf_is_link s fs"
  shows "confined_to Ds fs (snd (applySetstat r s fs))"
proof -
  have step: "confined_to Ds f (snd (os_Chmod s n f))" "confined_to Ds f (snd (os_Chtimes s f))"
    "confined_to Ds f (snd (truncate_int64 s w f))" if "tree f = tree fs" for f n w
  proof -
    have "confined_to Ds f (snd (os_Chmod s n f)) \<and> confined_to Ds f (snd (os_Chtimes s f)) \<and>
      confined_to Ds f (snd (truncate_int64 s w f))"
    proof (cases "under_file (tree f) q")
      case True
      then show ?thesis using assms(1) by (simp add: unchanged_under_file truncate_int64_def)
    next
      case False
      then have q: "canonical (tree f) q" "\<not> is_link (tree f) q" using assms leaf_is_link that by auto
      then show ?thesis
        using confined_attributes [OF q(1) assms(3) q(2)] assms(1) by (simp add: truncate_int64_def)
    qed
    then show "confined_to Ds f (snd (os_Chmod s n f))" "confined_to Ds f (snd (os_Chtimes s f))"
      "confined_to Ds f (snd (truncate_int64 s w f))" by blast+
  qed
  have same: "tree (snd (os_Chmod s n f)) = tree f" "tree (snd (os_Chtimes s f)) = tree f" for f n
    by (simp_all add: tree_attributes)
  show ?thesis
  proof (cases "rq_attributes r")
    case (Some attrs)
    define f1 where "f1 = snd (if af_permissions (rq_attr_flags r) then os_Chmod s (unat (st_mode attrs)) fs else (None, fs))"
    define f2 where "f2 = snd (if af_acmodtime (rq_attr_flags r) then os_Chtimes s f1 else (None, f1))"
    define f3 where "f3 = snd (if af_size (rq_attr_flags r) then truncate_int64 s (st_size attrs) f2 else (None, f2))"
    have t: "tree f1 = tree fs" "tree f2 = tree fs" using same by (auto simp: f1_def f2_def)
    have "confined_to Ds fs f1" "confined_to Ds f1 f2" "confined_to Ds f2 f3"
      using step t by (auto simp: f1_def f2_def f3_def)
    then have "confined_to Ds fs f1" "confined_to Ds fs f2" "confined_to Ds fs f3"
      using confined_trans by blast+
    moreover have "snd (applySetstat r s fs) \<in> {f1, f2, f3}"
    proof -
      obtain e1 e2 e3 where
        e: "(if af_permissions (rq_attr_flags r) then os_Chmod s (unat (st_mode attrs)) fs else (None, fs)) = (e1, f1)"
        "(if af_acmodtime (rq_attr_flags r) then os_Chtimes s f1 else (None, f1)) = (e2, f2)"
        "(if af_size (rq_attr_flags r) then truncate_int64 s (st_size attrs) f2 else (None, f2)) = (e3, f3)"
        using that surjective_pairing f1_def f2_def f3_def by blast
      show ?thesis
        unfolding applySetstat_def Some Let_def option.case e prod.case by (simp add: os_err_def)
    qed
    ultimately show ?thesis by auto
  qed (simp add: applySetstat_def)
qed

subsection \<open>What one request can change\<close>

lemma filewrite_confined:
  assumes "shares_rooted h" and "\<not> target_is_link h r fs" and "set (write_roots h fs 0) \<subseteq> set Ds"
  shows "confined_to Ds fs (snd (Filewrite h r fs))"
proof (cases "resolveWriteReal h 0 (rq_filepath r) fs")
  case (Inr s)
  obtain q where "s = render True q" "canonical (tree fs) q \<or> under_file (tree fs) q" "below Ds q"
    using resolveWrite_below [OF Inr assms(1)] below_mono assms(3) by blast
  moreover have "\<not> leaf_is_link s fs" using assms(2) Inr by (simp add: target_is_link_def)
  ultimately have "confined_to Ds fs (snd (os_OpenFile s (openFlagsForRequest r) (unat (requestedMode r)) fs))"
    by (rule open_confined)
  then show ?thesis using Inr
    by (cases "os_OpenFile s (openFlagsForRequest r) (unat (requestedMode r)) fs")
      (auto simp: Filewrite_def split: sum.split)
qed (simp add: Filewrite_def)

lemma OpenFile_Filewrite: "OpenFile h r fs = Filewrite h r fs"
  by (simp add: OpenFile_def Filewrite_def)

lemma os_err_snd [simp]: "snd (os_err x) = snd x"
  by (simp add: os_err_def)

lemma target_below:
  assumes "resolveWriteReal h k v fs = Inr s" and "shares_rooted h" and "set (write_roots h fs k) \<subseteq> set Ds"
  obtains q where "s = render True q" "canonical (tree fs) q \<or> under_file (tree fs) q" "below Ds q"
  using resolveWrite_below [OF assms(1,2)] below_mono assms(3) by blast

lemma filecmd_confined:
  assumes "shares_rooted h" and "rq_method r = ''Setstat'' \<longrightarrow> \<not> target_is_link h r fs"
    and "set (write_roots h fs 0) \<subseteq> set Ds" and "set (write_roots h fs 1) \<subseteq> set Ds"
  shows "confined_to Ds fs (snd (Filecmd h r fs))"
proof (cases "rq_method r = ''Symlink'' \<or> (\<exists>e. resolveWriteReal h 0 (rq_filepath r) fs = Inl e)")
  case True
  then show ?thesis by (auto simp: Filecmd_def)
next
  case False
  then obtain s where s: "resolveWriteReal h 0 (rq_filepath r) fs = Inr s" and m: "rq_method r \<noteq> ''Symlink''"
    by (cases "resolveWriteReal h 0 (rq_filepath r) fs") auto
  obtain q where q: "s = render True q" "canonical (tree fs) q \<or> under_file (tree fs) q" "below Ds q"
    using target_below [OF s assms(1,3)] .
  have set: "confined_to Ds fs (snd (applySetstat r s fs))" if "rq_method r = ''Setstat''"
    using setstat_confined [OF q] assms(2) s that by (simp add: target_is_link_def)
  have rm: "confined_to Ds fs (snd (os_Remove s fs))" "confined_to Ds fs (snd (os_Mkdir s fs))"
    using q confined_Remove [of fs q Ds] confined_Mkdir [of fs q Ds] by (auto simp: unchanged_under_file)
  have two: "confined_to Ds fs (snd (os_Rename s t fs))" "confined_to Ds fs (snd (os_Link s t fs))"
    if t: "resolveWriteReal h 1 (rq_target r) fs = Inr t" for t
  proof -
    obtain q' where q': "t = render True q'" "canonical (tree fs) q' \<or> under_file (tree fs) q'" "below Ds q'"
      using target_below [OF t assms(1,4)] .
    have u: "snd (os_Link (render True q) p fs) = fs" if "under_file (tree fs) q" for p
      using locate_under_file [OF that] by (simp add: os_Link_def)
    show "confined_to Ds fs (snd (os_Rename s t fs))" "confined_to Ds fs (snd (os_Link s t fs))"
      using q q' u confined_Rename [of fs q Ds q'] confined_Link [of fs q Ds q']
      by (auto simp: unchanged_under_file)
  qed
  show ?thesis
    using s m set rm two by (auto simp: Filecmd_def split: sum.split)
qed

subsection \<open>Sessions\<close>

text \<open>
  What peers can make the handlers do: any sequence of handler calls and of writes through
  handles that are still open, each under the peer and the configuration of its moment.
\<close>

datatype peer_event =
    PRead request
  | PWrite request
  | POpen request
  | PCmd request
  | PList request
  | PWriteAt nat string nat

definition add_handle :: "(sftp_err + handle) \<times> fsys \<Rightarrow> handle list \<Rightarrow> fsys \<times> handle list" where
  "add_handle res hs = (snd res, case fst res of Inl e \<Rightarrow> hs | Inr f \<Rightarrow> f # hs)"

fun serve :: "acl_handlers \<times> peer_event \<Rightarrow> fsys \<times> handle list \<Rightarrow> fsys \<times> handle list" where
  "serve (h, PRead r) (fs, hs) = (fs, hs)"
| "serve (h, PList r) (fs, hs) = (fs, hs)"
| "serve (h, PWrite r) (fs, hs) = add_handle (Filewrite h r fs) hs"
| "serve (h, POpen r) (fs, hs) = add_handle (OpenFile h r fs) hs"
| "serve (h, PCmd r) (fs, hs) = (snd (Filecmd h r fs), hs)"
| "serve (h, PWriteAt n p off) (fs, hs) =
     (if n < length hs then (snd (handle_WriteAt (hs ! n) p off fs), hs) else (fs, hs))"

definition session :: "(acl_handlers \<times> peer_event) list \<Rightarrow> fsys \<Rightarrow> fsys \<times> handle list" where
  "session evs fs = fold serve evs (fs, [])"

text \<open>Every share writable for the peer has its root among \<open>Ds\<close>.\<close>

definition confines :: "string list list \<Rightarrow> acl_handlers \<Rightarrow> bool" where
  "confines Ds h \<longleftrightarrow> shares_rooted h \<and>
     (\<forall>k. \<forall>a \<in> set (ah_snapshot h k). grants_write h a \<longrightarrow> elems (acl_path a) \<in> set Ds)"

definition session_ok :: "string list list \<Rightarrow> fsys \<Rightarrow> fsys \<times> handle list \<Rightarrow> bool" where
  "session_ok Ds fs0 s \<longleftrightarrow> confined_to Ds fs0 (fst s) \<and> linkless (tree (fst s)) \<and>
     (\<forall>f \<in> set (snd s). has_name Ds fs0 (handle_inode f) \<or> handle_inode f \<notin> known fs0)"

lemma root_dir_linkless:
  assumes "linkless (tree fs)" and "rooted r" and "root_dir fs r = Some D"
  shows "D = elems r"
proof -
  have "walk (tree fs) True False go_links [] (split_slash r) = Inr D"
    using assms(2,3) by (simp add: root_dir_def start_dir_def split: sum.splits)
  from walk_linkless [OF this assms(1)] split_slash_elem show ?thesis
    using assms(2) by (auto simp: elems_def clean_elems_def simp del: clean_elem.simps)
qed

lemma write_roots_linkless:
  assumes "linkless (tree fs)" and "confines Ds h"
  shows "set (write_roots h fs k) \<subseteq> set Ds"
proof
  fix D assume "D \<in> set (write_roots h fs k)"
  then obtain a where "a \<in> set (ah_snapshot h k)" "grants_write h a" "root_dir fs (acl_path a) = Some D"
    by (auto simp: write_roots_def List.map_filter_def split: if_splits)
  then show "D \<in> set Ds" using assms root_dir_linkless [of fs "acl_path a" D]
    by (auto simp: confines_def shares_rooted_def)
qed

lemma leaf_linkless [simp]: "linkless (tree fs) \<Longrightarrow> \<not> leaf_is_link s fs"
  by (auto simp: leaf_is_link_def os_Lstat_def linkless_entry split: sum.split option.split entry.split)

lemma target_linkless [simp]: "linkless (tree fs) \<Longrightarrow> \<not> target_is_link h r fs"
  by (simp add: target_is_link_def split: sum.split)

lemma locate_canonical_Inr:
  assumes "locate fo ab fs (render True q) = Inr q'" and "canonical (tree fs) q" and "\<not> is_link (tree fs) q"
  shows "q' = q"
proof (cases "entry_at (tree fs) q = None \<and> \<not> ab")
  case True
  then show ?thesis using assms locate_canonical_absent [OF assms(2)] by simp
next
  case False
  then show ?thesis using locate_canonical [OF assms(2), of fo ab] assms by auto
qed

lemma opened_inode:
  assumes "os_OpenFile s fl m fs = (Inr i, fs')" and "s = render True q"
    and "canonical (tree fs) q \<or> under_file (tree fs) q" and "below Ds q" and "linkless (tree fs)"
  shows "has_name Ds fs i \<or> i \<notin> known fs"
proof (cases "under_file (tree fs) q")
  case True
  then show ?thesis using assms(1,2) locate_under_file [OF True] by (simp add: os_OpenFile_def Let_def)
next
  case False
  then have q: "canonical (tree fs) q" using assms(3) by simp
  obtain fo ab q' where q': "locate fo ab fs s = Inr q'"
    and e: "case entry_at (tree fs) q' of None \<Rightarrow> i = fresh_inode fs | Some x \<Rightarrow> x = EFile i"
    using assms(1) by (auto simp: os_OpenFile_def create_file_def Let_def split: sum.splits option.splits entry.splits if_splits)
  have "q' = q" using locate_canonical_Inr [of fo ab fs q q'] q' assms(2,5) q by simp
  then show ?thesis using e fresh_inode_new has_name_entry assms(4) by (fastforce split: option.splits)
qed

lemma Filewrite_handle:
  assumes "fst (Filewrite h r fs) = Inr f" and "linkless (tree fs)" and "confines Ds h"
  shows "has_name Ds fs (handle_inode f) \<or> handle_inode f \<notin> known fs"
proof -
  obtain s where s: "resolveWriteReal h 0 (rq_filepath r) fs = Inr s"
    using assms(1) by (auto simp: Filewrite_def split: sum.splits)
  have "shares_rooted h" using assms(3) by (simp add: confines_def)
  from target_below [OF s this write_roots_linkless [OF assms(2,3)]] obtain q
    where q: "s = render True q" "canonical (tree fs) q \<or> under_file (tree fs) q" "below Ds q" .
  obtain fs' where "os_OpenFile s (openFlagsForRequest r) (unat (requestedMode r)) fs = (Inr (handle_inode f), fs')"
    using assms(1) s by (auto simp: Filewrite_def split: sum.splits prod.splits if_splits)
  from opened_inode [OF this q assms(2)] show ?thesis .
qed

lemma linkless_Filewrite: "linkless (tree fs) \<Longrightarrow> linkless (tree (snd (Filewrite h r fs)))"
proof (cases "resolveWriteReal h 0 (rq_filepath r) fs")
  case (Inr s)
  assume "linkless (tree fs)"
  then have "linkless (tree (snd (os_OpenFile s (openFlagsForRequest r) (unat (requestedMode r)) fs)))"
    by (rule linkless_OpenFile)
  then show ?thesis using Inr
    by (cases "os_OpenFile s (openFlagsForRequest r) (unat (requestedMode r)) fs")
      (auto simp: Filewrite_def split: sum.split)
qed (simp add: Filewrite_def)

lemma tree_applySetstat: "tree (snd (applySetstat r s fs)) = tree fs"
proof (cases "rq_attributes r")
  case (Some attrs)
  have t: "tree (snd (truncate_int64 s w f)) = tree f" for w f
    by (simp add: truncate_int64_def tree_attributes)
  obtain e1 f1 e2 f2 e3 f3 where
    e: "(if af_permissions (rq_attr_flags r) then os_Chmod s (unat (st_mode attrs)) fs else (None, fs)) = (e1, f1)"
    "(if af_acmodtime (rq_attr_flags r) then os_Chtimes s f1 else (None, f1)) = (e2, f2)"
    "(if af_size (rq_attr_flags r) then truncate_int64 s (st_size attrs) f2 else (None, f2)) = (e3, f3)"
    using that surjective_pairing by blast
  have "tree f1 = tree fs" using e(1) tree_attributes(1) [of s "unat (st_mode attrs)" fs] by (auto split: if_splits)
  moreover have "tree f2 = tree f1" using e(2) tree_attributes(2) [of s f1] by (auto split: if_splits)
  moreover have "tree f3 = tree f2" using e(3) t [of "st_size attrs" f2] by (auto split: if_splits)
  moreover have "snd (applySetstat r s fs) \<in> {f1, f2, f3}"
    unfolding applySetstat_def Some Let_def option.case e prod.case by simp
  ultimately show ?thesis by auto
qed (simp add: applySetstat_def)

lemma linkless_Filecmd: "linkless (tree fs) \<Longrightarrow> linkless (tree (snd (Filecmd h r fs)))"
  by (auto simp: Filecmd_def tree_applySetstat linkless_commands linkless_Link split: sum.split)

lemma handle_WriteAt_effect:
  "snd (handle_WriteAt f p off fs) = fs \<or> (\<exists>x. snd (handle_WriteAt f p off fs) = set_inode (handle_inode f) x fs)"
  by (cases f) (auto simp: file_WriteAt_def file_Append_def)

lemma confined_set_named:
  "confined_to Ds fs0 fs \<Longrightarrow> has_name Ds fs0 i \<or> i \<notin> known fs0 \<Longrightarrow> confined_to Ds fs0 (set_inode i x fs)"
  by (auto simp: confined_to_def inode_set)

lemma session_step:
  assumes "session_ok Ds fs0 s" and "confines Ds (fst ev)"
  shows "session_ok Ds fs0 (serve ev s)"
proof -
  obtain h e where ev: "ev = (h, e)" by (cases ev)
  obtain fs hs where s: "s = (fs, hs)" by (cases s)
  have ok: "confined_to Ds fs0 fs" "linkless (tree fs)"
    "\<forall>f \<in> set hs. has_name Ds fs0 (handle_inode f) \<or> handle_inode f \<notin> known fs0"
    using assms(1) s by (simp_all add: session_ok_def)
  have h: "confines Ds h" "shares_rooted h" using assms(2) ev by (simp_all add: confines_def)
  note roots = write_roots_linkless [OF ok(2) h(1)]
  have open_ok: "session_ok Ds fs0 (add_handle (Filewrite h r fs) hs)" for r
  proof -
    have "confined_to Ds fs0 (snd (Filewrite h r fs))"
      by (rule confined_trans [OF ok(1) filewrite_confined [OF h(2) target_linkless [OF ok(2)] roots]])
    moreover have "has_name Ds fs0 (handle_inode f) \<or> handle_inode f \<notin> known fs0" if "fst (Filewrite h r fs) = Inr f" for f
      using Filewrite_handle [OF that ok(2) h(1)] ok(1) by (auto simp: confined_to_def)
    ultimately show ?thesis using ok linkless_Filewrite [OF ok(2)]
      by (auto simp: session_ok_def add_handle_def split: sum.split)
  qed
  show ?thesis
  proof (cases e)
    case (PCmd r)
    have "confined_to Ds fs0 (snd (Filecmd h r fs))"
      using confined_trans [OF ok(1) filecmd_confined [OF h(2) _ roots roots]] ok(2) by simp
    then show ?thesis using PCmd ev s ok linkless_Filecmd by (simp add: session_ok_def)
  next
    case (PWriteAt n p off)
    have "confined_to Ds fs0 (snd (handle_WriteAt (hs ! n) p off fs)) \<and>
      tree (snd (handle_WriteAt (hs ! n) p off fs)) = tree fs" if "n < length hs"
      using handle_WriteAt_effect [of "hs ! n" p off fs] ok confined_set_named that by fastforce
    then show ?thesis using PWriteAt ev s ok by (simp add: session_ok_def)
  qed (use ev s assms(1) open_ok in \<open>simp_all add: OpenFile_Filewrite\<close>)
qed

text \<open>
  C3: in a tree without symbolic links, whatever a peer sends, in whatever order and under
  whatever reloads of the configuration, every entry outside the roots of the shares that were
  ever writable for it stays as it was, and so do the bytes and the mode of every file that has
  no name below them; and the peer cannot plant a link.
\<close>

theorem peers_stay_inside:
  assumes "linkless (tree fs)" and "\<forall>ev \<in> set evs. confines Ds (fst ev)"
  shows "confined_to Ds fs (fst (session evs fs)) \<and> linkless (tree (fst (session evs fs)))"
proof -
  have "session_ok Ds fs (fold serve evs s)" if "session_ok Ds fs s" for s
    using that assms(2) session_step by (induction evs arbitrary: s) auto
  moreover have "session_ok Ds fs (fs, [])" using assms(1) by (simp add: session_ok_def)
  ultimately show ?thesis by (simp add: session_def session_ok_def)
qed

subsection \<open>A sample host\<close>

definition sample_fs :: fsys where
  "sample_fs = \<lparr>tree = [([''srv''], EDir), ([''srv'', ''docs''], EDir), ([''srv'', ''docs'', ''a''], EFile 0),
     ([''etc''], EDir), ([''etc'', ''pw''], EFile 1)],
     inodes = [(0, (''hi'', 420)), (1, (''key'', 384))], cwd = []\<rparr>"

definition docs_share :: share_acl where
  "docs_share = acl_of \<lparr>sv_alias = ''docs'', sv_path = ''/srv/docs'', sv_permissions = ''rw'', sv_allowed = [''all'']\<rparr>"

definition private_share :: share_acl where
  "private_share = acl_of \<lparr>sv_alias = ''pw'', sv_path = ''/etc'', sv_permissions = ''ro'', sv_allowed = [''boss'']\<rparr>"

definition sample_peer :: acl_handlers where
  "sample_peer = \<lparr>ah_device = ''d1'', ah_resolver = None, ah_snapshot = (\<lambda>k. [docs_share, private_share])\<rparr>"

definition sample_reader :: acl_handlers where
  "sample_reader = \<lparr>ah_device = ''boss'', ah_resolver = None, ah_snapshot = (\<lambda>k. [private_share])\<rparr>"

definition sample_request :: "string \<Rightarrow> string \<Rightarrow> request" where
  "sample_request m p = \<lparr>rq_method = m, rq_filepath = p, rq_target = ''/docs/b'',
     rq_pflags = \<lparr>pf_read = True, pf_write = True, pf_append = False, pf_creat = True, pf_trunc = False, pf_excl = False\<rparr>,
     rq_attr_flags = \<lparr>af_size = False, af_uidgid = False, af_permissions = False, af_acmodtime = False\<rparr>,
     rq_attributes = None\<rparr>"

lemmas sample_sftp = sample_fs_def sample_peer_def sample_reader_def docs_share_def private_share_def sample_request_def

lemma sample_decisions:
  "grants_write sample_peer docs_share" "\<not> grants_write sample_peer private_share"
  "grants_read sample_peer docs_share" "\<not> grants_read sample_peer private_share"
  "grants_read sample_reader private_share" "\<not> grants_write sample_reader private_share"
  by (simp_all add: grants_write_def grants_read_def decision_def Decide_def acl_of_def peer_nickname_def sample_sftp)

lemma sample_rooted: "shares_rooted sample_peer" "shares_rooted sample_reader"
  by (simp_all add: shares_rooted_def sample_sftp acl_of_def rooted_def)

lemma sample_confines: "confines [[''srv'', ''docs'']] sample_peer"
proof -
  have "elems (acl_path docs_share) = [''srv'', ''docs'']" by code_simp
  moreover have "ah_snapshot sample_peer k = [docs_share, private_share]" for k by (simp add: sample_peer_def)
  ultimately show ?thesis using sample_rooted(1) sample_decisions(1,2) by (auto simp: confines_def)
qed

lemma peers_stay_inside_witness:
  "confined_to [[''srv'', ''docs'']] sample_fs
     (fst (session [(sample_peer, PWrite (sample_request ''Put'' ''/docs/new'')), (sample_peer, PWriteAt 0 ''x'' 3)] sample_fs))"
  using peers_stay_inside [of sample_fs "[(sample_peer, PWrite (sample_request ''Put'' ''/docs/new'')), (sample_peer, PWriteAt 0 ''x'' 3)]"]
    sample_confines by (simp add: linkless_def sample_fs_def)

subsection \<open>A link at the last element\<close>

text \<open>
  The write side checks the parent directory only and then opens the last element without
  refusing links, so a link the owner keeps inside a writable share leads a peer's writes out
  of it, although reading through it is refused.
\<close>

definition link_fs :: fsys where
  "link_fs = put_entry [''srv'', ''docs'', ''l''] (ELink ''/etc/pw'') sample_fs"

definition put_request :: request where
  "put_request = (sample_request ''Put'' ''/docs/l'')\<lparr>rq_pflags := \<lparr>pf_read = False, pf_write = True,
     pf_append = False, pf_creat = True, pf_trunc = True, pf_excl = False\<rparr>\<rparr>"


subsection \<open>Reading\<close>

lemma os_Open_canonical:
  assumes "canonical (tree fs) q" and "\<not> is_link (tree fs) q" and "os_Open (render True q) fs = Inr x"
  shows "entry_at (tree fs) q = Some x"
  using assms locate_canonical_Inr [of True False fs q]
  by (auto simp: os_Open_def split: sum.splits option.splits)

text \<open>
  A file or directory handed out for reading is an entry at or below the resolved root of a
  share that admits the peer, whatever links the path runs through; and a directory listing
  shows the entries of such a directory.
\<close>

theorem reads_stay_inside:
  assumes "shares_rooted h"
  shows "(\<forall>x. Fileread h r fs = Inr x \<longrightarrow>
      (\<exists>a D q. a \<in> set (ah_snapshot h 0) \<and> grants_read h a \<and> root_dir fs (acl_path a) = Some D \<and>
        below [D] q \<and> entry_at (tree fs) q = Some x)) \<and>
    (\<forall>infos. rq_method r = ''List'' \<and> rq_filepath r \<noteq> ''/'' \<and> rq_filepath r \<noteq> [] \<and> Filelist h r fs = Inr infos \<longrightarrow>
      (\<exists>a D q. a \<in> set (ah_snapshot h 0) \<and> grants_read h a \<and> root_dir fs (acl_path a) = Some D \<and>
        below [D] q \<and> infos = readdir q fs))"
proof (intro conjI allI impI)
  fix x assume "Fileread h r fs = Inr x"
  then obtain s where s: "resolveReadReal h 0 (rq_filepath r) fs = Inr s" and o: "os_Open s fs = Inr x"
    by (auto simp: Fileread_def split: sum.splits)
  from resolveRead_below [OF s assms] obtain a D q where
    "a \<in> set (ah_snapshot h 0)" "grants_read h a" "root_dir fs (acl_path a) = Some D" and
    q: "s = render True q" "canonical (tree fs) q" "\<not> is_link (tree fs) q" and "below [D] q" by blast
  moreover have "entry_at (tree fs) q = Some x" using os_Open_canonical [OF q(2,3)] o q(1) by simp
  ultimately show "\<exists>a D q. a \<in> set (ah_snapshot h 0) \<and> grants_read h a \<and> root_dir fs (acl_path a) = Some D \<and>
        below [D] q \<and> entry_at (tree fs) q = Some x" by blast
next
  fix infos
  assume l: "rq_method r = ''List'' \<and> rq_filepath r \<noteq> ''/'' \<and> rq_filepath r \<noteq> [] \<and> Filelist h r fs = Inr infos"
  then obtain s where s: "resolveReadReal h 0 (rq_filepath r) fs = Inr s" and d: "os_Readdir s fs = Inr infos"
    by (auto simp: Filelist_def split: sum.splits)
  from resolveRead_below [OF s assms] obtain a D q where
    "a \<in> set (ah_snapshot h 0)" "grants_read h a" "root_dir fs (acl_path a) = Some D" and
    q: "s = render True q" "canonical (tree fs) q" "\<not> is_link (tree fs) q" and "below [D] q" by blast
  moreover have "infos = readdir q fs"
    using d q locate_canonical_Inr [of True False fs q]
    by (auto simp: os_Readdir_def split: sum.splits option.splits if_splits)
  ultimately show "\<exists>a D q. a \<in> set (ah_snapshot h 0) \<and> grants_read h a \<and> root_dir fs (acl_path a) = Some D \<and>
        below [D] q \<and> infos = readdir q fs" by blast
qed

lemma reads_stay_inside_witness:
  "\<exists>a D q. a \<in> set (ah_snapshot sample_peer 0) \<and> grants_read sample_peer a \<and>
     root_dir sample_fs (acl_path a) = Some D \<and> below [D] q \<and> entry_at (tree sample_fs) q = Some (EFile 0)"
proof -
  have "Fileread sample_peer (sample_request ''Get'' ''/docs/x/../a'') sample_fs = Inr (EFile 0)" by code_simp
  with reads_stay_inside [OF sample_rooted(1), of "sample_request ''Get'' ''/docs/x/../a''" sample_fs]
  show ?thesis by blast
qed

text \<open>
  A peer that no share grants writing is refused every opening for writing and every
  command with the permission error, and changes nothing.
\<close>

theorem no_grant_no_change:
  assumes "\<forall>k. \<forall>a \<in> set (ah_snapshot h k). \<not> grants_write h a"
  shows "Filewrite h r fs = (Inl PermissionDenied, fs) \<and> OpenFile h r fs = (Inl PermissionDenied, fs) \<and>
    Filecmd h r fs = (Some PermissionDenied, fs)"
proof -
  have "resolveWriteReal h k v fs = Inl PermissionDenied" for k v
  proof -
    have "\<not> dec_allow d \<or> dec_read_only d" if "findShare h k al = Some (a, d)" for al a d
      using findShare_Some [OF that] assms by (auto simp: grants_write_def)
    then show ?thesis by (fastforce simp: resolveWriteReal_def split: option.split)
  qed
  then show ?thesis by (simp add: Filewrite_def OpenFile_def Filecmd_def)
qed

lemma no_grant_no_change_witness:
  "Filewrite sample_reader (sample_request ''Put'' ''/pw/pw'') sample_fs = (Inl PermissionDenied, sample_fs)"
proof -
  have "\<not> grants_write sample_reader a" if "a \<in> set (ah_snapshot sample_reader k)" for k a
    using that sample_decisions(6) by (simp add: sample_reader_def)
  then show ?thesis using no_grant_no_change [of sample_reader] by blast
qed

subsection \<open>Hidden shares\<close>

definition visible_only :: "acl_handlers \<Rightarrow> acl_handlers" where
  "visible_only h = h\<lparr>ah_snapshot := (\<lambda>k. filter (grants_read h) (ah_snapshot h k))\<rparr>"

lemma decision_visible [simp]: "decision (visible_only h) a = decision h a"
  by (simp add: visible_only_def decision_def)

lemma find_filter:
  "distinct (map f xs) \<Longrightarrow> find (\<lambda>a. f a = k) (filter P xs) =
   (case find (\<lambda>a. f a = k) xs of None \<Rightarrow> None | Some a \<Rightarrow> if P a then Some a else None)"
proof (induction xs)
  case (Cons x xs)
  have "find (\<lambda>a. f a = k) (filter P xs) = None" if "f x = k" "k \<notin> f ` set xs"
    using that(2) unfolding find_None_iff by force
  with Cons show ?case by auto
qed simp

lemma findShare_visible:
  assumes "distinct (map acl_alias (ah_snapshot h k))"
  shows "findShare (visible_only h) k al =
    (case findShare h k al of None \<Rightarrow> None | Some (a, d) \<Rightarrow> if dec_allow d then Some (a, d) else None)"
proof -
  have "ah_snapshot (visible_only h) k = filter (grants_read h) (ah_snapshot h k)" by (simp add: visible_only_def)
  then show ?thesis using find_filter [OF assms, of al "grants_read h"]
    by (cases "find (\<lambda>a. acl_alias a = al) (ah_snapshot h k)") (simp_all add: findShare_def grants_read_def)
qed

lemma root_infos_visible: "root_infos (visible_only h) (filter (grants_read h) as) fs = root_infos h as fs"
  by (induction as) (auto simp: grants_read_def split: sum.split)

text \<open>
  C23: a share that does not admit the peer leaves no trace: with distinct aliases every handler
  returns the same and changes the same as if such shares were not configured at all, the
  errors and the root listing included.
\<close>

theorem hidden_shares_invisible:
  assumes "\<forall>k. distinct (map acl_alias (ah_snapshot h k))"
  shows "Fileread (visible_only h) r fs = Fileread h r fs \<and>
    Filewrite (visible_only h) r fs = Filewrite h r fs \<and>
    OpenFile (visible_only h) r fs = OpenFile h r fs \<and>
    Filecmd (visible_only h) r fs = Filecmd h r fs \<and>
    Filelist (visible_only h) r fs = Filelist h r fs"
proof -
  have r: "resolveReadReal (visible_only h) k v fs = resolveReadReal h k v fs" for k v
    using findShare_visible assms by (auto simp: resolveReadReal_def split: option.split)
  have w: "resolveWriteReal (visible_only h) k v fs = resolveWriteReal h k v fs" for k v
    using findShare_visible assms by (auto simp: resolveWriteReal_def split: option.split)
  have "ah_snapshot (visible_only h) 0 = filter (grants_read h) (ah_snapshot h 0)" by (simp add: visible_only_def)
  then show ?thesis
    unfolding Fileread_def Filewrite_def OpenFile_def Filecmd_def Filelist_def r w
    by (simp add: root_infos_visible)
qed

lemma hidden_shares_invisible_witness:
  "Filelist (visible_only sample_peer) (sample_request ''List'' ''/'') sample_fs =
   Filelist sample_peer (sample_request ''List'' ''/'') sample_fs"
  using hidden_shares_invisible [of sample_peer "sample_request ''List'' ''/''" sample_fs]
  by (simp add: sample_sftp acl_of_def)

text \<open>Every path is resolved before the method is looked at, so there is no link left to read.\<close>

lemma readlink_always_fails:
  assumes "shares_rooted h" and "rq_method r = ''Readlink''" and "rq_filepath r \<noteq> ''/''" and "rq_filepath r \<noteq> []"
  shows "\<exists>e. Filelist h r fs = Inl e"
proof (cases "resolveReadReal h 0 (rq_filepath r) fs")
  case (Inr s)
  obtain q where q: "s = render True q" "canonical (tree fs) q" "\<not> is_link (tree fs) q"
    using resolveRead_below [OF Inr assms(1)] by blast
  have "\<not> leaf_is_link s fs" using leaf_is_link [OF q(2)] q(1,3) by simp
  then have "\<exists>e. os_Readlink s fs = Inl e"
    by (auto simp: leaf_is_link_def os_Readlink_def split: sum.split entry.split)
  then show ?thesis using Inr assms(2-4) by (auto simp: Filelist_def)
qed (use assms in \<open>auto simp: Filelist_def\<close>)

subsection \<open>Opening and writing\<close>

lemma flags_append: "O_APPEND \<in> openFlagsForRequest r \<longleftrightarrow> pf_append (rq_pflags r)"
  by (auto simp: openFlagsForRequest_def Let_def)

lemma flags_trunc:
  "O_TRUNC \<in> openFlagsForRequest r \<longleftrightarrow>
   pf_trunc (rq_pflags r) \<or> \<not> pf_read (rq_pflags r) \<and> \<not> pf_write (rq_pflags r)"
  by (auto simp: openFlagsForRequest_def Let_def)

lemma os_OpenFile_keeps:
  "O_TRUNC \<notin> fl \<Longrightarrow> i \<in> known fs \<Longrightarrow> inode (snd (os_OpenFile s fl m fs)) i = inode fs i"
  using fresh_inode_new [of fs]
  by (auto simp: os_OpenFile_def create_file_def Let_def inode_set split: sum.split option.split entry.split)

text \<open>
  Opening a file for writing destroys no data unless the client asked for truncation, or
  asked for neither reading nor writing: the bytes and the mode of every existing file are as
  before the opening.
\<close>

theorem opening_keeps_data:
  assumes "pf_read (rq_pflags r) \<or> pf_write (rq_pflags r)" and "\<not> pf_trunc (rq_pflags r)" and "i \<in> known fs"
  shows "inode (snd (Filewrite h r fs)) i = inode fs i \<and> inode (snd (OpenFile h r fs)) i = inode fs i"
proof -
  have fl: "O_TRUNC \<notin> openFlagsForRequest r" using assms flags_trunc by simp
  have "inode (snd (Filewrite h r fs)) i = inode fs i"
  proof (cases "resolveWriteReal h 0 (rq_filepath r) fs")
    case (Inr s)
    have "inode (snd (os_OpenFile s (openFlagsForRequest r) (unat (requestedMode r)) fs)) i = inode fs i"
      by (rule os_OpenFile_keeps [OF fl assms(3)])
    then show ?thesis using Inr
      by (cases "os_OpenFile s (openFlagsForRequest r) (unat (requestedMode r)) fs")
        (auto simp: Filewrite_def split: sum.split)
  qed (simp add: Filewrite_def)
  then show ?thesis by (simp add: OpenFile_Filewrite)
qed

lemma opening_keeps_data_witness:
  "inode (snd (Filewrite sample_peer (sample_request ''Put'' ''/docs/a'') sample_fs)) 0 = (''hi'', 420)"
  using opening_keeps_data [of "sample_request ''Put'' ''/docs/a''" 0 sample_fs sample_peer]
  by (simp add: sample_request_def known_def sample_fs_def inode_def)

text \<open>What a run of writes through one handle leaves in the file.\<close>

definition write_all :: "handle \<Rightarrow> (string \<times> nat) list \<Rightarrow> fsys \<Rightarrow> fsys" where
  "write_all f ws fs = fold (\<lambda>(p, off) fs. snd (handle_WriteAt f p off fs)) ws fs"

lemma write_all_append:
  "fst (inode (write_all (AppendHandle i fl) ws fs) i) = fst (inode fs i) @ concat (map fst ws)"
  by (induction ws arbitrary: fs) (auto simp: write_all_def file_Append_def inode_set)

lemma length_bytes_at: "length (bytes_at c off p) = max (length c) (off + length p)"
  by (simp add: bytes_at_def Let_def)

lemma read_bytes_at: "take (length p) (drop off (bytes_at c off p)) = p"
  by (simp add: bytes_at_def Let_def)

text \<open>
  A handle opened for writing takes every write: with the append flag the writes land one
  after the other at the end of the file whatever offsets they carry, in the order they are
  made; without it a write succeeds, and its bytes are read back at its offset.
\<close>

theorem writes_land:
  assumes "fst (Filewrite h r fs) = Inr f"
  shows "(if pf_append (rq_pflags r)
          then fst (inode (write_all f ws fs1) (handle_inode f)) = fst (inode fs1 (handle_inode f)) @ concat (map fst ws)
          else (case handle_WriteAt f p off fs1 of
                  (ok, fs2) \<Rightarrow> ok \<and> file_ReadAt (handle_inode f) (length p) off fs2 = p))"
proof -
  obtain s i fs' where f: "f = (if pf_append (rq_pflags r) then AppendHandle i (openFlagsForRequest r)
      else OsFile i (openFlagsForRequest r))"
    using assms by (auto simp: Filewrite_def split: sum.splits prod.splits if_splits)
  show ?thesis
  proof (cases "pf_append (rq_pflags r)")
    case True
    then show ?thesis using f write_all_append by simp
  next
    case False
    then show ?thesis using f flags_append [of r]
      by (simp add: file_WriteAt_def file_ReadAt_def inode_set read_bytes_at)
  qed
qed

lemma writes_land_witness:
  "case handle_WriteAt (OsFile 0 {O_RDWR, O_CREATE}) ''xyz'' 1 sample_fs of
     (ok, fs2) \<Rightarrow> ok \<and> file_ReadAt 0 3 1 fs2 = ''xyz''"
proof -
  have "fst (Filewrite sample_peer (sample_request ''Put'' ''/docs/a'') sample_fs) = Inr (OsFile 0 {O_RDWR, O_CREATE})"
    by code_simp
  from writes_land [OF this, of "[]" sample_fs "''xyz''" 1] show ?thesis
    by (simp add: sample_request_def numeral_3_eq_3)
qed

subsection \<open>Listing\<close>

text \<open>The client's loop: pages of \<open>n\<close> entries until the end is reported.\<close>

fun list_pages :: "nat \<Rightarrow> nat \<Rightarrow> 'a list \<Rightarrow> nat \<Rightarrow> 'a list option" where
  "list_pages 0 n l off = None"
| "list_pages (Suc k) n l off =
     (case ListAt l n off of
        (xs, True) \<Rightarrow> Some xs
      | (xs, False) \<Rightarrow> map_option (append xs) (list_pages k n l (off + length xs)))"

lemma list_pages_from:
  "0 < n \<Longrightarrow> length l - off < k \<Longrightarrow> list_pages k n l off = Some (drop off l)"
proof (induction k arbitrary: off)
  case (Suc k)
  show ?case
  proof (cases "length l \<le> off + n")
    case True
    then show ?thesis by (auto simp: ListAt_def Let_def min_def)
  next
    case False
    then have "list_pages k n l (off + n) = Some (drop (off + n) l)" using Suc by simp
    moreover have "take n (drop off l) @ drop (off + n) l = drop off l"
      by (metis add.commute append_take_drop_id drop_drop)
    ultimately show ?thesis using False by (simp add: ListAt_def Let_def)
  qed
qed simp

text \<open>
  Reading a listing page by page, with a buffer of any positive size, ends and yields every
  entry once and in order; at most one call more than there are entries is needed.
\<close>

theorem pages_are_the_listing:
  assumes "0 < n"
  shows "list_pages (Suc (length infos)) n infos 0 = Some infos"
  using list_pages_from [OF assms, of infos 0 "Suc (length infos)"] by simp

lemma pages_are_the_listing_witness:
  "list_pages 4 2 [(''a'', EFile 0), (''b'', EDir), (''c'', EDir)] 0 = Some [(''a'', EFile 0), (''b'', EDir), (''c'', EDir)]"
  using pages_are_the_listing [of 2 "[(''a'', EFile 0), (''b'', EDir), (''c'', EDir)]"] by (simp add: eval_nat_numeral)

end
