(* ===== verification/AgentConfig.thy ===== *)
theory AgentConfig
  imports AgentAcl "HOL-Library.Multiset" "HOL-Library.List_Lexorder" "HOL-Library.Char_ord"
begin

text \<open>
  The agent's configuration (internal/agent/config): reading it from a parsed KDL document,
  editing who may use a share, and the difference of two configurations. The document is the
  value the KDL library returns; \<open>home\<close> is what \<open>os.UserHomeDir\<close> returns (\<open>None\<close> its error).
\<close>

subsection \<open>Configurations\<close>

record share_config =
  sc_path :: string
  sc_alias :: string
  sc_permissions :: string
  sc_allowed :: "string list"

record mount_config =
  mc_device :: string
  mc_share :: string
  mc_to :: string

record agent_config =
  ac_ssh_port :: int
  ac_mount_tool :: string

record config =
  cf_nickname :: string
  cf_hub_address :: string
  cf_agent :: agent_config
  cf_shares :: "share_config list"
  cf_mounts :: "mount_config list"

definition DefaultConfig :: config where
  "DefaultConfig = \<lparr>cf_nickname = [], cf_hub_address = [],
     cf_agent = \<lparr>ac_ssh_port = 2222, ac_mount_tool = ''sshfs''\<rparr>, cf_shares = [], cf_mounts = []\<rparr>"

subsection \<open>Loading\<close>

text \<open>A value of the document: a string, an integer, or anything else.\<close>

datatype kdl_value = KString string | KInt int | KOther

datatype kdl_node =
  Node (n_name: "kdl_value option") (n_args: "kdl_value list")
    (n_props: "(string \<times> kdl_value option) list") (n_children: "kdl_node list")

fun as_string :: "kdl_value \<Rightarrow> string" where
  "as_string (KString s) = s"
| "as_string _ = []"

definition nodeName :: "kdl_node \<Rightarrow> string" where
  "nodeName n = (case n_name n of None \<Rightarrow> [] | Some v \<Rightarrow> as_string v)"

definition firstArgString :: "kdl_node \<Rightarrow> string" where
  "firstArgString n = (case n_args n of [] \<Rightarrow> [] | v # _ \<Rightarrow> as_string v)"

definition firstArgInt :: "kdl_node \<Rightarrow> int" where
  "firstArgInt n = (case n_args n of [] \<Rightarrow> 0 | v # _ \<Rightarrow> (case v of KInt i \<Rightarrow> i | _ \<Rightarrow> 0))"

definition propString :: "kdl_node \<Rightarrow> string \<Rightarrow> string" where
  "propString n key = (case map_of (n_props n) key of Some (Some v) \<Rightarrow> as_string v | _ \<Rightarrow> [])"

definition parseDeviceConfig :: "kdl_node \<Rightarrow> string" where
  "parseDeviceConfig n = fold (\<lambda>ch dc. if nodeName ch = ''nickname'' then firstArgString ch else dc) (n_children n) []"

definition parseHubConfig :: "kdl_node \<Rightarrow> string" where
  "parseHubConfig n = fold (\<lambda>ch hc. if nodeName ch = ''address'' then firstArgString ch else hc) (n_children n) []"

text \<open>\<open>None\<close>: a mount-tool that is not a string.\<close>

fun parseAgentConfig :: "kdl_node list \<Rightarrow> agent_config \<Rightarrow> agent_config option" where
  "parseAgentConfig [] ac = Some ac"
| "parseAgentConfig (ch # chs) ac =
     (if nodeName ch = ''ssh-port''
      then parseAgentConfig chs (if firstArgInt ch \<noteq> 0 then ac\<lparr>ac_ssh_port := firstArgInt ch\<rparr> else ac)
      else if nodeName ch = ''mount-tool''
      then (case n_args ch of
              [] \<Rightarrow> parseAgentConfig chs ac
            | KString s # _ \<Rightarrow> parseAgentConfig chs (ac\<lparr>ac_mount_tool := s\<rparr>)
            | _ \<Rightarrow> None)
      else parseAgentConfig chs ac)"

fun string_args :: "kdl_value list \<Rightarrow> string list" where
  "string_args [] = []"
| "string_args (v # vs) = (case v of KString s \<Rightarrow> s # string_args vs | _ \<Rightarrow> string_args vs)"

definition parse_share :: "kdl_node \<Rightarrow> share_config" where
  "parse_share ch =
     \<lparr>sc_path = firstArgString ch, sc_alias = propString ch ''alias'', sc_permissions = propString ch ''permissions'',
      sc_allowed = concat (map (\<lambda>gc. if nodeName gc = ''allowed-devices'' then string_args (n_args gc) else [])
                               (n_children ch))\<rparr>"

definition parseSharesBlock :: "kdl_node \<Rightarrow> share_config list" where
  "parseSharesBlock n = map parse_share (filter (\<lambda>ch. nodeName ch = ''share'') (n_children n))"

definition parse_mount :: "kdl_node \<Rightarrow> mount_config" where
  "parse_mount ch =
     \<lparr>mc_device = propString ch ''device'', mc_share = propString ch ''share'', mc_to = propString ch ''to''\<rparr>"

definition parseMountsBlock :: "kdl_node \<Rightarrow> mount_config list" where
  "parseMountsBlock n = map parse_mount (filter (\<lambda>ch. nodeName ch = ''mount'') (n_children n))"

definition NormalizePermissions :: "string \<Rightarrow> string" where
  "NormalizePermissions perm =
     (if perm = ''read-only'' then ''ro'' else if perm = ''read-write'' then ''rw'' else perm)"

definition ExpandHome :: "string option \<Rightarrow> string \<Rightarrow> string" where
  "ExpandHome home path =
     (case path of
        [] \<Rightarrow> path
      | ch # cs \<Rightarrow> if ch \<noteq> CHR ''~'' then path else (case home of None \<Rightarrow> path | Some d \<Rightarrow> Join2 d cs))"

fun load_node :: "kdl_node \<Rightarrow> config \<Rightarrow> config option" where
  "load_node n cfg =
     (if nodeName n = ''device'' then Some (cfg\<lparr>cf_nickname := parseDeviceConfig n\<rparr>)
      else if nodeName n = ''hub'' then Some (cfg\<lparr>cf_hub_address := parseHubConfig n\<rparr>)
      else if nodeName n = ''agent''
      then map_option (\<lambda>ac. cfg\<lparr>cf_agent := ac\<rparr>) (parseAgentConfig (n_children n) (cf_agent cfg))
      else if nodeName n = ''shares'' then Some (cfg\<lparr>cf_shares := parseSharesBlock n\<rparr>)
      else if nodeName n = ''mounts'' then Some (cfg\<lparr>cf_mounts := parseMountsBlock n\<rparr>)
      else Some cfg)"

fun load_nodes :: "kdl_node list \<Rightarrow> config \<Rightarrow> config option" where
  "load_nodes [] cfg = Some cfg"
| "load_nodes (n # ns) cfg = (case load_node n cfg of None \<Rightarrow> None | Some cfg' \<Rightarrow> load_nodes ns cfg')"

definition Load :: "string option \<Rightarrow> kdl_node list option \<Rightarrow> config option" where
  "Load home doc =
     (case doc of
        None \<Rightarrow> None
      | Some nodes \<Rightarrow>
          (case load_nodes nodes DefaultConfig of
             None \<Rightarrow> None
           | Some cfg \<Rightarrow>
               (let tool = ac_mount_tool (cf_agent cfg) in
                if tool \<notin> {[], ''sshfs'', ''fuse-t''} then None
                else Some (cfg\<lparr>cf_agent := (cf_agent cfg)\<lparr>ac_mount_tool := if tool = [] then ''sshfs'' else tool\<rparr>,
                  cf_shares := map (\<lambda>s. s\<lparr>sc_permissions := NormalizePermissions (sc_permissions s),
                                          sc_path := ExpandHome home (sc_path s)\<rparr>) (cf_shares cfg),
                  cf_mounts := map (\<lambda>m. m\<lparr>mc_to := ExpandHome home (mc_to m)\<rparr>) (cf_mounts cfg)\<rparr>))))"

subsection \<open>Editing the devices of a share\<close>

text \<open>The index of the share, in place of the pointer the code returns.\<close>

fun findShare :: "share_config list \<Rightarrow> string \<Rightarrow> nat option" where
  "findShare [] al = None"
| "findShare (s # ss) al = (if sc_alias s = al then Some 0 else map_option Suc (findShare ss al))"

fun add_missing :: "string set \<Rightarrow> string list \<Rightarrow> string list" where
  "add_missing present [] = []"
| "add_missing present (d # ds) =
     (if d \<in> present then add_missing present ds else d # add_missing (insert d present) ds)"

definition AllowDevices :: "string \<Rightarrow> string list \<Rightarrow> config \<Rightarrow> string list option \<times> config" where
  "AllowDevices al devices c =
     (case findShare (cf_shares c) al of
        None \<Rightarrow> (None, c)
      | Some i \<Rightarrow>
          (let s = cf_shares c ! i; added = add_missing (set (sc_allowed s)) devices
           in (Some added, c\<lparr>cf_shares := (cf_shares c)[i := s\<lparr>sc_allowed := sc_allowed s @ added\<rparr>]\<rparr>)))"

definition DenyDevices :: "string \<Rightarrow> string list \<Rightarrow> config \<Rightarrow> (string list \<times> string list) option \<times> config" where
  "DenyDevices al devices c =
     (case findShare (cf_shares c) al of
        None \<Rightarrow> (None, c)
      | Some i \<Rightarrow>
          (let s = cf_shares c ! i;
               removed = filter (\<lambda>d. d \<in> set devices) (sc_allowed s);
               kept = filter (\<lambda>d. d \<notin> set devices) (sc_allowed s);
               notFound = add_missing (set removed) devices
           in (Some (removed, notFound), c\<lparr>cf_shares := (cf_shares c)[i := s\<lparr>sc_allowed := kept\<rparr>]\<rparr>)))"

definition AllowsAll :: "config \<Rightarrow> string \<Rightarrow> bool" where
  "AllowsAll c al =
     (case findShare (cf_shares c) al of None \<Rightarrow> False | Some i \<Rightarrow> ''all'' \<in> set (sc_allowed (cf_shares c ! i)))"

subsection \<open>Differences\<close>

record config_diff =
  SharesChanged :: bool
  MountsAdded :: "mount_config list"
  MountsRemoved :: "mount_config list"

definition sharesFrom :: "config option \<Rightarrow> share_config list" where
  "sharesFrom c = (case c of None \<Rightarrow> [] | Some c \<Rightarrow> cf_shares c)"

definition mountsFrom :: "config option \<Rightarrow> mount_config list" where
  "mountsFrom c = (case c of None \<Rightarrow> [] | Some c \<Rightarrow> cf_mounts c)"

definition shareEqual :: "share_config \<Rightarrow> share_config \<Rightarrow> bool" where
  "shareEqual a b =
     (if sc_path a \<noteq> sc_path b \<or> sc_alias a \<noteq> sc_alias b \<or> sc_permissions a \<noteq> sc_permissions b then False
      else if length (sc_allowed a) \<noteq> length (sc_allowed b) then False
      else list_all2 (=) (sc_allowed a) (sc_allowed b))"

text \<open>
  \<open>sort.Slice\<close> is not stable; \<open>sorter\<close> stands for whatever order it leaves equal aliases in.
\<close>

definition sharesEqual :: "(share_config list \<Rightarrow> share_config list) \<Rightarrow> share_config list \<Rightarrow> share_config list \<Rightarrow> bool" where
  "sharesEqual sorter a b = (length a = length b \<and> list_all2 shareEqual (sorter a) (sorter b))"

definition mountKey :: "mount_config \<Rightarrow> string" where
  "mountKey m = mc_device m @ CHR 0x00 # mc_share m"

definition mountsNotIn :: "mount_config list \<Rightarrow> mount_config list \<Rightarrow> mount_config list" where
  "mountsNotIn a b = filter (\<lambda>m. mountKey m \<notin> mountKey ` set b) a"

definition ComputeDiff :: "(share_config list \<Rightarrow> share_config list) \<Rightarrow> config option \<Rightarrow> config option \<Rightarrow> config_diff" where
  "ComputeDiff sorter old new =
     \<lparr>SharesChanged = (\<not> sharesEqual sorter (sharesFrom old) (sharesFrom new)),
      MountsAdded = mountsNotIn (mountsFrom new) (mountsFrom old),
      MountsRemoved = mountsNotIn (mountsFrom old) (mountsFrom new)\<rparr>"

subsection \<open>From shares to access lists\<close>

definition sharesToACL :: "share_config list \<Rightarrow> share_acl list" where
  "sharesToACL ss = ShareACLsFromConfig
     (map (\<lambda>s. \<lparr>sv_alias = sc_alias s, sv_path = sc_path s, sv_permissions = sc_permissions s,
                 sv_allowed = sc_allowed s\<rparr>) ss)"

subsection \<open>Facts\<close>

lemma findShare_index: "findShare ss al = Some i \<Longrightarrow> i < length ss \<and> sc_alias (ss ! i) = al"
proof (induction ss arbitrary: i)
  case (Cons s ss)
  then show ?case by (cases i) (auto split: if_splits)
qed simp

lemma add_missing_set: "set (add_missing present ds) = set ds - present"
  by (induction present ds rule: add_missing.induct) auto

lemma add_missing_distinct: "distinct (add_missing present ds)"
  by (induction present ds rule: add_missing.induct) (auto simp: add_missing_set)

text \<open>Whether the first share with this alias admits the peer, and lets it write.\<close>

definition admits :: "config \<Rightarrow> string \<Rightarrow> string \<Rightarrow> resolver \<Rightarrow> access_decision option" where
  "admits c al did r = map_option (\<lambda>a. Decide a did r) (find (\<lambda>a. acl_alias a = al) (sharesToACL (cf_shares c)))"

lemma acl_alias_acl_of [simp]: "acl_alias (acl_of v) = sv_alias v"
  by (simp add: acl_of_def split: prod.split)

lemma find_share_acl:
  "find (\<lambda>a. acl_alias a = al) (sharesToACL ss) =
   map_option (\<lambda>i. acl_of \<lparr>sv_alias = sc_alias (ss ! i), sv_path = sc_path (ss ! i),
     sv_permissions = sc_permissions (ss ! i), sv_allowed = sc_allowed (ss ! i)\<rparr>) (findShare ss al)"
  by (induction ss) (auto simp: sharesToACL_def ShareACLsFromConfig_def option.map_comp o_def)

lemma findShare_update:
  "sc_alias s = sc_alias (ss ! i) \<Longrightarrow> findShare (ss[i := s]) al = findShare ss al"
proof (induction ss arbitrary: i)
  case (Cons x ss)
  then show ?case by (cases i) auto
qed simp

definition token_match :: "string list \<Rightarrow> string \<Rightarrow> resolver \<Rightarrow> bool" where
  "token_match toks did r \<longleftrightarrow> ''all'' \<in> set toks \<or> did \<in> set toks \<or>
     (peer_nickname did r \<noteq> [] \<and> peer_nickname did r \<in> set toks)"

lemma Decide_tokens:
  "dec_allow (Decide (acl_of v) did r) = token_match (sv_allowed v) did r"
  by (auto simp: token_match_def Decide_def acl_of_def lift_all_eq match_token_iff filter_empty_conv)

lemma admits_tokens:
  "map_option dec_allow (admits c al did r) =
   map_option (\<lambda>i. token_match (sc_allowed (cf_shares c ! i)) did r) (findShare (cf_shares c) al)"
  by (simp add: admits_def find_share_acl option.map_comp o_def Decide_tokens)

text \<open>
  Editing a share changes exactly whom it admits: after AllowDevices a peer is admitted
  when it was before or a new token names it, after DenyDevices when a token that was kept
  names it; both leave every other alias alone, and repeating either of them reports no change.
\<close>

theorem edits_change_admission:
  assumes "findShare (cf_shares c) al = Some i"
  shows "map_option dec_allow (admits (snd (AllowDevices al ds c)) al did r) =
      Some (token_match (sc_allowed (cf_shares c ! i)) did r \<or> token_match ds did r) \<and>
    map_option dec_allow (admits (snd (DenyDevices al ds c)) al did r) =
      Some (token_match (filter (\<lambda>d. d \<notin> set ds) (sc_allowed (cf_shares c ! i))) did r) \<and>
    fst (AllowDevices al ds (snd (AllowDevices al ds c))) = Some [] \<and>
    map_option fst (fst (DenyDevices al ds (snd (DenyDevices al ds c)))) = Some [] \<and>
    (al' \<noteq> al \<longrightarrow> admits (snd (AllowDevices al ds c)) al' did r = admits c al' did r \<and>
      admits (snd (DenyDevices al ds c)) al' did r = admits c al' did r)"
proof -
  let ?s = "cf_shares c ! i"
  have i: "i < length (cf_shares c)" "sc_alias ?s = al" using findShare_index [OF assms] by simp_all
  have f: "findShare ((cf_shares c)[i := ?s\<lparr>sc_allowed := x\<rparr>]) a = findShare (cf_shares c) a" for x a
    by (rule findShare_update) simp
  have none: "add_missing (set (sc_allowed ?s) \<union> (set ds - set (sc_allowed ?s))) ds = []"
    by (rule set_empty [THEN iffD1]) (auto simp: add_missing_set)
  have other: "admits (c\<lparr>cf_shares := (cf_shares c)[i := ?s\<lparr>sc_allowed := x\<rparr>]\<rparr>) al' did r = admits c al' did r"
    if "al' \<noteq> al" for x
  proof (cases "findShare (cf_shares c) al'")
    case (Some j)
    then have "j \<noteq> i" using findShare_index [OF Some] i that by auto
    then show ?thesis using Some f by (simp add: admits_def find_share_acl)
  qed (simp add: admits_def find_share_acl f)
  have "fst (AllowDevices al ds (snd (AllowDevices al ds c))) = Some []"
    "map_option fst (fst (DenyDevices al ds (snd (DenyDevices al ds c)))) = Some []"
    using assms i f none by (auto simp: AllowDevices_def DenyDevices_def Let_def add_missing_set)
  moreover have "map_option dec_allow (admits (snd (AllowDevices al ds c)) al did r) =
      Some (token_match (sc_allowed ?s) did r \<or> token_match ds did r)"
    "map_option dec_allow (admits (snd (DenyDevices al ds c)) al did r) =
      Some (token_match (filter (\<lambda>d. d \<notin> set ds) (sc_allowed ?s)) did r)"
    using assms i f by (auto simp: AllowDevices_def DenyDevices_def Let_def admits_tokens token_match_def add_missing_set)
  moreover have "al' \<noteq> al \<longrightarrow> admits (snd (AllowDevices al ds c)) al' did r = admits c al' did r \<and>
      admits (snd (DenyDevices al ds c)) al' did r = admits c al' did r"
    using assms other by (simp add: AllowDevices_def DenyDevices_def Let_def)
  ultimately show ?thesis by blast
qed

definition sample_config :: config where
  "sample_config = DefaultConfig\<lparr>
     cf_shares := [\<lparr>sc_path = ''/a'', sc_alias = ''A'', sc_permissions = ''rw'', sc_allowed = [''x'']\<rparr>,
                   \<lparr>sc_path = ''/b'', sc_alias = ''B'', sc_permissions = ''ro'', sc_allowed = []\<rparr>],
     cf_mounts := [\<lparr>mc_device = ''mac'', mc_share = ''A'', mc_to = ''/m''\<rparr>]\<rparr>"

lemma edits_change_admission_witness:
  "map_option dec_allow (admits (snd (AllowDevices ''B'' [''d7''] sample_config)) ''B'' ''d7'' None) = Some True"
  using edits_change_admission [of sample_config "''B''" 1 "[''d7'']" "''d7''" None "''A''"]
  by (simp add: sample_config_def token_match_def)

subsection \<open>Differences are exact\<close>

text \<open>What \<open>sort.Slice\<close> documents of sorting by alias.\<close>

definition sorts_by_alias :: "(share_config list \<Rightarrow> share_config list) \<Rightarrow> bool" where
  "sorts_by_alias sorter \<longleftrightarrow> (\<forall>xs. mset (sorter xs) = mset xs \<and> sorted (map sc_alias (sorter xs)))"

lemma shareEqual_iff: "shareEqual a b \<longleftrightarrow> a = b"
  by (cases a; cases b) (auto simp: shareEqual_def list.rel_eq)

lemma sharesEqual_iff:
  assumes "sorts_by_alias sorter" and "distinct (map sc_alias a)" and "distinct (map sc_alias b)"
  shows "sharesEqual sorter a b \<longleftrightarrow> set a = set b"
proof -
  have eq: "sharesEqual sorter a b \<longleftrightarrow> length a = length b \<and> sorter a = sorter b"
    unfolding sharesEqual_def shareEqual_iff by (simp add: list.rel_eq)
  have m: "mset (sorter x) = mset x" "sorted (map sc_alias (sorter x))" for x
    using assms(1) by (simp_all add: sorts_by_alias_def)
  have d: "distinct (map sc_alias (sorter x))" "distinct x" if "distinct (map sc_alias x)" for x
  proof -
    have "mset (map sc_alias (sorter x)) = mset (map sc_alias x)" using m by simp
    then show "distinct (map sc_alias (sorter x))" using that mset_eq_imp_distinct_iff by blast
    show "distinct x" using that by (simp add: distinct_map)
  qed
  show ?thesis
  proof
    assume "sharesEqual sorter a b"
    then have "mset a = mset b" using eq m by metis
    then show "set a = set b" by (rule mset_eq_setD)
  next
    assume "set a = set b"
    then have ab: "mset a = mset b" using d assms(2,3) set_eq_iff_mset_eq_distinct by blast
    have "sorter a = sorter b"
    proof (rule map_sorted_distinct_set_unique [where f = sc_alias])
      have "set (sorter a) = set a" "set (sorter b) = set b" using m mset_eq_setD by blast+
      then show "set (sorter a) = set (sorter b)" using \<open>set a = set b\<close> by simp
      then show "inj_on sc_alias (set (sorter a) \<union> set (sorter b))"
        using d(1) [OF assms(2)] by (simp add: distinct_map)
    qed (use m d assms(2,3) in auto)
    then show "sharesEqual sorter a b" using eq ab by (metis size_mset)
  qed
qed

definition mount_ids :: "mount_config list \<Rightarrow> (string \<times> string) set" where
  "mount_ids ms = (\<lambda>m. (mc_device m, mc_share m)) ` set ms"

lemma split_at_nul:
  "CHR 0x00 \<notin> set d \<Longrightarrow> CHR 0x00 \<notin> set d' \<Longrightarrow> d @ CHR 0x00 # s = d' @ CHR 0x00 # s' \<longleftrightarrow> d = d' \<and> s = s'"
proof (induction d arbitrary: d')
  case Nil
  then show ?case by (cases d') auto
next
  case (Cons ch d)
  then show ?case by (cases d') auto
qed

text \<open>
  On configurations without duplicate aliases and without the zero byte in device names
  the difference is exact: the shares are reported changed precisely when the two sets of
  shares differ, whatever their order; the mounts added and removed are those whose device and
  share occur in one configuration only; and removing the one and adding the other leads from
  the old set of mounts to the new.
\<close>

theorem diff_is_exact:
  assumes "sorts_by_alias sorter"
    and "distinct (map sc_alias (cf_shares old))" and "distinct (map sc_alias (cf_shares new))"
    and "\<forall>m \<in> set (cf_mounts old) \<union> set (cf_mounts new). CHR 0x00 \<notin> set (mc_device m)"
  shows "SharesChanged (ComputeDiff sorter (Some old) (Some new)) = (set (cf_shares old) \<noteq> set (cf_shares new)) \<and>
    set (MountsAdded (ComputeDiff sorter (Some old) (Some new))) =
      {m \<in> set (cf_mounts new). (mc_device m, mc_share m) \<notin> mount_ids (cf_mounts old)} \<and>
    set (MountsRemoved (ComputeDiff sorter (Some old) (Some new))) =
      {m \<in> set (cf_mounts old). (mc_device m, mc_share m) \<notin> mount_ids (cf_mounts new)} \<and>
    mount_ids (cf_mounts new) =
      mount_ids (cf_mounts old) - mount_ids (MountsRemoved (ComputeDiff sorter (Some old) (Some new)))
      \<union> mount_ids (MountsAdded (ComputeDiff sorter (Some old) (Some new)))"
proof -
  have key: "mountKey m \<in> mountKey ` set ms \<longleftrightarrow> (mc_device m, mc_share m) \<in> mount_ids ms"
    if "CHR 0x00 \<notin> set (mc_device m)" "\<forall>m \<in> set ms. CHR 0x00 \<notin> set (mc_device m)" for m ms
    using that split_at_nul by (auto simp: mountKey_def mount_ids_def image_iff)
  have notin: "set (mountsNotIn a b) = {m \<in> set a. (mc_device m, mc_share m) \<notin> mount_ids b}"
    if "\<forall>m \<in> set a. CHR 0x00 \<notin> set (mc_device m)" "\<forall>m \<in> set b. CHR 0x00 \<notin> set (mc_device m)" for a b
    using key that by (auto simp: mountsNotIn_def)
  have added: "set (MountsAdded (ComputeDiff sorter (Some old) (Some new))) =
      {m \<in> set (cf_mounts new). (mc_device m, mc_share m) \<notin> mount_ids (cf_mounts old)}"
    and removed: "set (MountsRemoved (ComputeDiff sorter (Some old) (Some new))) =
      {m \<in> set (cf_mounts old). (mc_device m, mc_share m) \<notin> mount_ids (cf_mounts new)}"
    using notin assms(4) by (simp_all add: ComputeDiff_def mountsFrom_def)
  have "mount_ids (MountsAdded (ComputeDiff sorter (Some old) (Some new))) =
      mount_ids (cf_mounts new) - mount_ids (cf_mounts old)"
    "mount_ids (MountsRemoved (ComputeDiff sorter (Some old) (Some new))) =
      mount_ids (cf_mounts old) - mount_ids (cf_mounts new)"
    unfolding mount_ids_def added removed by (auto simp: mount_ids_def image_iff)
  then show ?thesis
    using added removed sharesEqual_iff [OF assms(1-3)] by (auto simp: ComputeDiff_def sharesFrom_def)
qed

lemma diff_is_exact_witness:
  "SharesChanged (ComputeDiff (sort_key sc_alias) (Some sample_config)
     (Some (sample_config\<lparr>cf_shares := rev (cf_shares sample_config)\<rparr>))) = False"
proof -
  have "sorts_by_alias (sort_key sc_alias)" by (simp add: sorts_by_alias_def)
  moreover have "distinct (map sc_alias (cf_shares sample_config))"
    and "\<forall>m \<in> set (cf_mounts sample_config). CHR 0x00 \<notin> set (mc_device m)"
    by (simp_all add: sample_config_def)
  ultimately show ?thesis
    using diff_is_exact [of "sort_key sc_alias" sample_config "sample_config\<lparr>cf_shares := rev (cf_shares sample_config)\<rparr>"]
    by (simp add: rev_map [symmetric])
qed

text \<open>A mount whose target alone was edited is in neither list.\<close>

lemma retargeted_mount_unreported:
  "MountsAdded (ComputeDiff sorter (Some (sample_config)) (Some (sample_config\<lparr>cf_mounts :=
      [\<lparr>mc_device = ''mac'', mc_share = ''A'', mc_to = ''/other''\<rparr>]\<rparr>))) = [] \<and>
   MountsRemoved (ComputeDiff sorter (Some (sample_config)) (Some (sample_config\<lparr>cf_mounts :=
      [\<lparr>mc_device = ''mac'', mc_share = ''A'', mc_to = ''/other''\<rparr>]\<rparr>))) = []"
  by (simp add: ComputeDiff_def mountsNotIn_def mountsFrom_def mountKey_def sample_config_def)

subsection \<open>Loading normalises\<close>

text \<open>
  A configuration that loads has a mount tool the agent knows, no tilde at the start of a
  share's path when the home directory is known, and no permission in the long spelling, and
  loading fails for every other mount tool.
\<close>

theorem loaded_config_normal:
  assumes "Load (Some home) doc = Some c" and "rooted home"
  shows "ac_mount_tool (cf_agent c) \<in> {''sshfs'', ''fuse-t''} \<and>
    (\<forall>s \<in> set (cf_shares c). sc_permissions s \<notin> {''read-only'', ''read-write''} \<and> take 1 (sc_path s) \<noteq> ''~'') \<and>
    (\<forall>m \<in> set (cf_mounts c). take 1 (mc_to m) \<noteq> ''~'')"
proof -
  have no: "take 1 (ExpandHome (Some home) p) \<noteq> ''~''" for p
  proof (cases p)
    case (Cons ch cs)
    have "rooted (Join2 home cs)"
    proof -
      have h: "home \<noteq> []" "rooted (home @ x)" for x using assms(2) by (cases home; simp add: rooted_def)+
      then show ?thesis using assms(2) by (auto simp: Join2_def intro: rooted_Clean)
    qed
    then have "take 1 (Join2 home cs) = ''/''" by (cases "Join2 home cs") (simp_all add: rooted_def)
    then show ?thesis using Cons by (simp add: ExpandHome_def)
  qed (simp add: ExpandHome_def)
  show ?thesis
    using assms(1) no
    by (auto simp: Load_def Let_def NormalizePermissions_def split: option.splits if_splits)
qed

lemma loaded_config_normal_witness:
  "case Load (Some ''/home/u'') (Some [Node (Some (KString ''shares'')) [] []
      [Node (Some (KString ''share'')) [KString ''~/docs''] [(''alias'', Some (KString ''d'')), (''permissions'', Some (KString ''read-write''))] []]]) of
     None \<Rightarrow> False | Some c \<Rightarrow> ac_mount_tool (cf_agent c) \<in> {''sshfs'', ''fuse-t''}"
proof -
  obtain c where c: "Load (Some ''/home/u'') (Some [Node (Some (KString ''shares'')) [] []
      [Node (Some (KString ''share'')) [KString ''~/docs''] [(''alias'', Some (KString ''d'')), (''permissions'', Some (KString ''read-write''))] []]]) = Some c"
    by (simp add: Load_def nodeName_def DefaultConfig_def Let_def)
  from loaded_config_normal [OF c] show ?thesis using c by (simp add: rooted_def)
qed

end
