(* ===== verification/AgentKeys.thy ===== *)
theory AgentKeys
  imports Prelude
begin

text \<open>
  What the agent keeps about its peers in the directory of known devices: their public keys
  (internal/agent/keys.go) and their nicknames (internal/agent/nicknames.go). The directory is
  \<open>None\<close> while it does not exist, and otherwise the list of its files. A step of a saving
  operation can fail; the directories it passes through are kept, since the process can be
  killed at any of them. The JSON encoder and decoder are parameters.
\<close>

subsection \<open>Strings\<close>

definition has_suffix :: "string \<Rightarrow> string \<Rightarrow> bool" where
  "has_suffix s suf \<longleftrightarrow> length suf \<le> length s \<and> drop (length s - length suf) s = suf"

definition trim_suffix :: "string \<Rightarrow> string \<Rightarrow> string" where
  "trim_suffix s suf = (if has_suffix s suf then take (length s - length suf) s else s)"

definition newline :: string where "newline = [CHR 0x0A]"

fun contains_dotdot :: "string \<Rightarrow> bool" where
  "contains_dotdot (a # b # s) = (a = CHR ''.'' \<and> b = CHR ''.'' \<or> contains_dotdot (b # s))"
| "contains_dotdot _ = False"

subsection \<open>Device ids\<close>

text \<open>The control characters are single bytes, so the loop over runes is one over bytes.\<close>

definition validateDeviceID :: "string \<Rightarrow> bool" where
  "validateDeviceID d \<longleftrightarrow>
     \<not> (d = [] \<or> d = ''.'' \<or> d = ''..'' \<or>
        list_ex (\<lambda>ch. ch = CHR ''/'' \<or> ch = CHR 0x5C) d \<or> contains_dotdot d \<or>
        list_ex (\<lambda>ch. of_char ch < (0x20 :: nat) \<or> of_char ch = (0x7f :: nat)) d)"

subsection \<open>Files of the directory\<close>

type_synonym dir_files = "(string \<times> string) list option"

definition file_of :: "string \<Rightarrow> dir_files \<Rightarrow> string option" where
  "file_of name d = (case d of None \<Rightarrow> None | Some fs \<Rightarrow> map_of fs name)"

definition put_file :: "string \<Rightarrow> string \<Rightarrow> dir_files \<Rightarrow> dir_files" where
  "put_file name c d = map_option (AList.update name c) d"

definition del_file :: "string \<Rightarrow> dir_files \<Rightarrow> dir_files" where
  "del_file name d = map_option (AList.delete name) d"

definition make_dir :: "dir_files \<Rightarrow> dir_files" where
  "make_dir d = (case d of None \<Rightarrow> Some [] | Some fs \<Rightarrow> Some fs)"

datatype file_step = SMkdir | SCreateTemp | SWrite | SChmod | SClose | SRename | SRead | SMarshal

datatype keys_err = InvalidDeviceID | StepFailed file_step | ParseFailed | InvalidKeyInFile

text \<open>
  Temporary file, write, mode, close, rename. A failed write leaves the prefix \<open>part\<close>; after any
  failure the temporary file is removed. The second component lists the directories passed
  through, the last one first.
\<close>

definition replace_file ::
  "(file_step \<Rightarrow> bool) \<Rightarrow> string \<Rightarrow> string \<Rightarrow> string \<Rightarrow> string \<Rightarrow> dir_files list \<Rightarrow> keys_err option \<times> dir_files list" where
  "replace_file fail part tmp dest content ds =
     (let d = hd ds in
      if fail SCreateTemp then (Some (StepFailed SCreateTemp), ds)
      else
        (let d1 = put_file tmp [] d;
             undo = (\<lambda>step x. (Some (StepFailed step), del_file tmp x # x # d1 # ds))
         in if fail SWrite then undo SWrite (put_file tmp part d1)
            else
              (let d2 = put_file tmp content d1 in
               if fail SChmod then undo SChmod d2
               else if fail SClose then undo SClose d2
               else if fail SRename then undo SRename d2
               else (None, put_file dest content (del_file tmp d2) # d2 # d1 # ds))))"

definition peer_temp :: "string \<Rightarrow> string" where
  "peer_temp rnd = ''.peerkey-'' @ rnd @ ''.pub.tmp''"

definition SavePeerPublicKey ::
  "(file_step \<Rightarrow> bool) \<Rightarrow> string \<Rightarrow> string \<Rightarrow> string \<Rightarrow> string \<Rightarrow> dir_files \<Rightarrow> keys_err option \<times> dir_files list" where
  "SavePeerPublicKey fail part rnd deviceID publicKey d =
     (if \<not> validateDeviceID deviceID then (Some InvalidDeviceID, [d])
      else if fail SMkdir then (Some (StepFailed SMkdir), [d])
      else (let content = (if has_suffix publicKey newline then publicKey else publicKey @ newline)
            in replace_file fail part (peer_temp rnd) (deviceID @ ''.pub'') content [make_dir d, d]))"

definition LoadPeerPublicKey :: "(file_step \<Rightarrow> bool) \<Rightarrow> string \<Rightarrow> dir_files \<Rightarrow> keys_err + string" where
  "LoadPeerPublicKey fail deviceID d =
     (if \<not> validateDeviceID deviceID then Inl InvalidDeviceID
      else if fail SRead then Inl (StepFailed SRead)
      else (case file_of (deviceID @ ''.pub'') d of
              None \<Rightarrow> Inl (StepFailed SRead) | Some c \<Rightarrow> Inr (trim_suffix c newline)))"

definition ListPairedDevices :: "(file_step \<Rightarrow> bool) \<Rightarrow> dir_files \<Rightarrow> keys_err + string list" where
  "ListPairedDevices fail d =
     (case d of
        None \<Rightarrow> Inr []
      | Some fs \<Rightarrow>
          if fail SRead then Inl (StepFailed SRead)
          else Inr (map (\<lambda>x. trim_suffix (fst x) ''.pub'') (filter (\<lambda>x. has_suffix (fst x) ''.pub'') fs)))"

text \<open>\<open>Daemon.isPaired\<close>.\<close>

definition isPaired :: "dir_files \<Rightarrow> string \<Rightarrow> bool" where
  "isPaired d deviceID = (if \<not> validateDeviceID deviceID then False else file_of (deviceID @ ''.pub'') d \<noteq> None)"

subsection \<open>Nicknames\<close>

type_synonym nicknames = "(string \<times> string) list"

definition nicknamesFile :: string where "nicknamesFile = ''nicknames.json''"

definition nick_temp :: "string \<Rightarrow> string" where
  "nick_temp rnd = ''.nicknames-'' @ rnd @ ''.json.tmp''"

text \<open>The decoder: \<open>None\<close> a syntax error, \<open>Some None\<close> the value null.\<close>

definition LoadNicknames ::
  "(string \<Rightarrow> nicknames option option) \<Rightarrow> (file_step \<Rightarrow> bool) \<Rightarrow> dir_files \<Rightarrow> keys_err + nicknames" where
  "LoadNicknames dec fail d =
     (case file_of nicknamesFile d of
        None \<Rightarrow> Inr []
      | Some c \<Rightarrow>
          if fail SRead then Inl (StepFailed SRead)
          else (case dec c of
                  None \<Rightarrow> Inl ParseFailed
                | Some v \<Rightarrow>
                    (let m = (case v of None \<Rightarrow> [] | Some m \<Rightarrow> m) in
                     if list_all validateDeviceID (map fst m) then Inr m else Inl InvalidKeyInFile)))"

definition SaveNicknames ::
  "(nicknames \<Rightarrow> string) \<Rightarrow> (file_step \<Rightarrow> bool) \<Rightarrow> string \<Rightarrow> string \<Rightarrow> nicknames \<Rightarrow> dir_files \<Rightarrow> keys_err option \<times> dir_files list" where
  "SaveNicknames enc fail part rnd m d =
     (if \<not> list_all validateDeviceID (map fst m) then (Some InvalidDeviceID, [d])
      else if fail SMkdir then (Some (StepFailed SMkdir), [d])
      else if fail SMarshal then (Some (StepFailed SMarshal), [make_dir d, d])
      else replace_file fail part (nick_temp rnd) nicknamesFile (enc m @ newline) [make_dir d, d])"

definition SetNickname ::
  "(nicknames \<Rightarrow> string) \<Rightarrow> (string \<Rightarrow> nicknames option option) \<Rightarrow> (file_step \<Rightarrow> bool) \<Rightarrow> string \<Rightarrow> string \<Rightarrow>
   string \<Rightarrow> string \<Rightarrow> dir_files \<Rightarrow> keys_err option \<times> dir_files list" where
  "SetNickname enc dec fail part rnd deviceID nickname d =
     (if nickname = [] then (None, [d])
      else if \<not> validateDeviceID deviceID then (Some InvalidDeviceID, [d])
      else (case LoadNicknames dec fail d of
              Inl e \<Rightarrow> (Some e, [d])
            | Inr m \<Rightarrow> SaveNicknames enc fail part rnd (AList.update deviceID nickname m) d))"

subsection \<open>Saving is atomic\<close>

lemma has_suffix_append: "has_suffix (s @ suf) suf"
  by (simp add: has_suffix_def)

lemma trim_suffix_append [simp]: "trim_suffix (s @ suf) suf = s"
  by (simp add: trim_suffix_def has_suffix_append)

lemma file_of_put: "\<not> d = None \<Longrightarrow> file_of n (put_file m c d) = (if n = m then Some c else file_of n d)"
  by (cases d) (auto simp: file_of_def put_file_def update_conv')

lemma file_of_del: "file_of n (del_file m d) = (if n = m then None else file_of n d)"
  by (cases d) (auto simp: file_of_def del_file_def AList.delete_conv')

lemma file_of_make_dir [simp]: "file_of n (make_dir d) = file_of n d"
  by (cases d) (simp_all add: file_of_def make_dir_def)

lemma dir_exists [simp]: "put_file m c d = None \<longleftrightarrow> d = None" "del_file m d = None \<longleftrightarrow> d = None" "make_dir d = None \<longleftrightarrow> False"
  by (simp_all add: put_file_def del_file_def make_dir_def split: option.split)

text \<open>
  In every directory passed through, a file other than the temporary one is as before, except
  that the destination may already have its whole new content.
\<close>

lemma replace_file_states:
  assumes "hd ds \<noteq> None" and "x \<in> set (snd (replace_file fail part tmp dest content ds))" and "n \<noteq> tmp"
  shows "x \<in> set ds \<or> file_of n x = file_of n (hd ds) \<or> (n = dest \<and> file_of n x = Some content)"
  using assms by (auto simp: replace_file_def Let_def file_of_put file_of_del split: if_splits)

lemma replace_file_result:
  assumes "hd ds \<noteq> None" and "tmp \<noteq> dest" and "file_of tmp (hd ds) = None" and "ds \<noteq> []"
    and "replace_file fail part tmp dest content ds = (e, ds')"
  shows "file_of n (hd ds') = (if e = None \<and> n = dest then Some content else file_of n (hd ds))"
  using assms by (auto simp: replace_file_def Let_def file_of_put file_of_del split: if_splits)

lemma peer_temp_not_pub [simp]: "peer_temp rnd \<noteq> d @ ''.pub''" "d @ ''.pub'' \<noteq> peer_temp rnd"
proof -
  have "rev (peer_temp rnd) ! 0 \<noteq> rev (d @ ''.pub'') ! 0" by (simp add: peer_temp_def)
  then show "peer_temp rnd \<noteq> d @ ''.pub''" "d @ ''.pub'' \<noteq> peer_temp rnd" by metis+
qed

lemma nick_temp_not_file [simp]: "nick_temp rnd \<noteq> nicknamesFile"
  by (simp add: nick_temp_def nicknamesFile_def)

text \<open>
  A peer's key survives: when saving succeeds, loading returns the key without its trailing
  line break and the device counts as paired; when it fails no key changes; and at no moment
  of it, so even if the process is killed there, does the file of any device hold anything but
  its old content or the whole new key.
\<close>

theorem saved_key_loads:
  assumes "file_of (peer_temp rnd) d = None"
  shows "(case SavePeerPublicKey fail part rnd did key d of
      (e, ds) \<Rightarrow>
        (e = None \<longrightarrow> LoadPeerPublicKey (\<lambda>s. False) did (hd ds) = Inr (trim_suffix key newline) \<and> isPaired (hd ds) did) \<and>
        (e \<noteq> None \<longrightarrow> LoadPeerPublicKey (\<lambda>s. False) other (hd ds) = LoadPeerPublicKey (\<lambda>s. False) other d) \<and>
        (\<forall>x \<in> set ds. LoadPeerPublicKey (\<lambda>s. False) other x = LoadPeerPublicKey (\<lambda>s. False) other d \<or>
           (other = did \<and> LoadPeerPublicKey (\<lambda>s. False) other x = Inr (trim_suffix key newline))))"
proof -
  obtain e ds where s: "SavePeerPublicKey fail part rnd did key d = (e, ds)"
    by (cases "SavePeerPublicKey fail part rnd did key d")
  define cont where "cont = (if has_suffix key newline then key else key @ newline)"
  have c: "trim_suffix cont newline = trim_suffix key newline"
    by (simp add: trim_suffix_def [of key] cont_def)
  show ?thesis
  proof (cases "validateDeviceID did \<and> \<not> fail SMkdir")
    case False
    then show ?thesis by (auto simp: SavePeerPublicKey_def)
  next
    case True
    then have r: "replace_file fail part (peer_temp rnd) (did @ ''.pub'') cont [make_dir d, d] = (e, ds)"
      using s by (simp add: SavePeerPublicKey_def Let_def cont_def)
    have fin: "file_of (n @ ''.pub'') (hd ds) = (if e = None \<and> n = did then Some cont else file_of (n @ ''.pub'') d)" for n
      using replace_file_result [OF _ _ _ _ r, of "n @ ''.pub''"] assms by simp
    have mid: "file_of (n @ ''.pub'') x = file_of (n @ ''.pub'') d \<or> (n = did \<and> file_of (n @ ''.pub'') x = Some cont)"
      if "x \<in> set ds" for n x
      using replace_file_states [of "[make_dir d, d]" x fail part "peer_temp rnd" "did @ ''.pub''" cont "n @ ''.pub''"] that r
      by auto
    have l: "LoadPeerPublicKey (\<lambda>s. False) o' x = (if \<not> validateDeviceID o' then Inl InvalidDeviceID
        else case file_of (o' @ ''.pub'') x of None \<Rightarrow> Inl (StepFailed SRead) | Some y \<Rightarrow> Inr (trim_suffix y newline))" for o' x
      by (simp add: LoadPeerPublicKey_def)
    have key_ok: "LoadPeerPublicKey (\<lambda>s. False) other x = LoadPeerPublicKey (\<lambda>s. False) other d \<or>
        other = did \<and> LoadPeerPublicKey (\<lambda>s. False) other x = Inr (trim_suffix key newline)" if "x \<in> set ds" for x
      using mid [OF that, of other]
    proof
      assume "file_of (other @ ''.pub'') x = file_of (other @ ''.pub'') d"
      then show ?thesis by (simp add: l)
    next
      assume "other = did \<and> file_of (other @ ''.pub'') x = Some cont"
      then have "other = did" "LoadPeerPublicKey (\<lambda>s. False) other x = Inr (trim_suffix cont newline)"
        using True by (auto simp: l)
      then show ?thesis using c by simp
    qed
    have "LoadPeerPublicKey (\<lambda>s. False) did (hd ds) = Inr (trim_suffix cont newline) \<and> isPaired (hd ds) did" if "e = None"
      using fin [of did] that True by (simp add: l isPaired_def)
    moreover have "LoadPeerPublicKey (\<lambda>s. False) other (hd ds) = LoadPeerPublicKey (\<lambda>s. False) other d" if "e \<noteq> None"
      using fin [of other] that by (simp add: l)
    ultimately show ?thesis unfolding s prod.case using key_ok c by simp
  qed
qed

lemma saved_key_loads_witness:
  "case SavePeerPublicKey (\<lambda>s. False) [] ''1'' ''d1'' ''ssh-ed25519 K'' None of
     (e, ds) \<Rightarrow> LoadPeerPublicKey (\<lambda>s. False) ''d1'' (hd ds) = Inr ''ssh-ed25519 K''"
proof -
  have "file_of (peer_temp ''1'') None = None" by (simp add: file_of_def)
  note th = saved_key_loads [OF this, where fail = "\<lambda>s. False" and part = "[]" and did = "''d1''"
      and key = "''ssh-ed25519 K''" and other = "''d1''"]
  have "fst (SavePeerPublicKey (\<lambda>s. False) [] ''1'' ''d1'' ''ssh-ed25519 K'' None) = None" by code_simp
  moreover have "trim_suffix ''ssh-ed25519 K'' newline = ''ssh-ed25519 K''" by code_simp
  ultimately show ?thesis using th by (simp add: case_prod_beta)
qed

text \<open>
  Nicknames survive: when saving succeeds the same table is loaded again, and when it fails
  or is interrupted at any point the file holds the old table or the new one.
\<close>

theorem saved_nicknames_load:
  assumes "file_of (nick_temp rnd) d = None" and "dec (enc m @ newline) = Some (Some m)"
  shows "(case SaveNicknames enc fail part rnd m d of
      (e, ds) \<Rightarrow>
        LoadNicknames dec (\<lambda>s. False) (hd ds) = (if e = None then Inr m else LoadNicknames dec (\<lambda>s. False) d) \<and>
        list_all (\<lambda>x. LoadNicknames dec (\<lambda>s. False) x \<in> {LoadNicknames dec (\<lambda>s. False) d, Inr m}) ds)"
proof -
  obtain e ds where s: "SaveNicknames enc fail part rnd m d = (e, ds)"
    by (cases "SaveNicknames enc fail part rnd m d")
  have l: "LoadNicknames dec (\<lambda>s. False) x = LoadNicknames dec (\<lambda>s. False) y"
    if "file_of nicknamesFile x = file_of nicknamesFile y" for x y
    using that by (simp add: LoadNicknames_def)
  have new: "LoadNicknames dec (\<lambda>s. False) x = Inr m"
    if "file_of nicknamesFile x = Some (enc m @ newline)" "list_all validateDeviceID (map fst m)" for x
    using that assms(2) by (simp add: LoadNicknames_def)
  show ?thesis
  proof (cases "list_all validateDeviceID (map fst m) \<and> \<not> fail SMkdir \<and> \<not> fail SMarshal")
    case False
    then show ?thesis using l [of "make_dir d" d] by (auto simp: SaveNicknames_def)
  next
    case True
    then have r: "replace_file fail part (nick_temp rnd) nicknamesFile (enc m @ newline) [make_dir d, d] = (e, ds)"
      using s by (simp add: SaveNicknames_def)
    have "file_of nicknamesFile (hd ds) = (if e = None then Some (enc m @ newline) else file_of nicknamesFile d)"
      using replace_file_result [OF _ _ _ _ r, of nicknamesFile] assms(1) by simp
    then have last_one: "LoadNicknames dec (\<lambda>s. False) (hd ds) = (if e = None then Inr m else LoadNicknames dec (\<lambda>s. False) d)"
      using new [of "hd ds"] l [of "hd ds" d] True by (cases e) simp_all
    have any: "LoadNicknames dec (\<lambda>s. False) x = LoadNicknames dec (\<lambda>s. False) d \<or> LoadNicknames dec (\<lambda>s. False) x = Inr m"
      if "x \<in> set ds" for x
    proof -
      have "x \<in> set [make_dir d, d] \<or> file_of nicknamesFile x = file_of nicknamesFile (hd [make_dir d, d]) \<or>
          (nicknamesFile = nicknamesFile \<and> file_of nicknamesFile x = Some (enc m @ newline))"
        by (rule replace_file_states [where fail = fail and part = part and tmp = "nick_temp rnd"])
          (use that r nick_temp_not_file [of rnd, symmetric] in auto)
      then have "file_of nicknamesFile x = file_of nicknamesFile d \<or> file_of nicknamesFile x = Some (enc m @ newline)"
        by auto
      then show ?thesis using l [of x d] new [of x] True by blast
    qed
    from last_one any have "LoadNicknames dec (\<lambda>s. False) (hd ds) = (if e = None then Inr m else LoadNicknames dec (\<lambda>s. False) d)"
      and "\<forall>x \<in> set ds. LoadNicknames dec (\<lambda>s. False) x = LoadNicknames dec (\<lambda>s. False) d \<or>
        LoadNicknames dec (\<lambda>s. False) x = Inr m" by blast+
    then show ?thesis unfolding s prod.case list_all_iff by simp
  qed
qed

lemma saved_nicknames_load_witness:
  "case SaveNicknames (\<lambda>m. ''{}'') (\<lambda>s. s = SRename) [] ''1'' [(''d1'', ''mac'')] None of
     (e, ds) \<Rightarrow> LoadNicknames (\<lambda>s. Some (Some [(''d1'', ''mac'')])) (\<lambda>s. False) (hd ds) = Inr []"
proof -
  have f: "file_of (nick_temp ''1'') None = None" by (simp add: file_of_def)
  have "fst (SaveNicknames (\<lambda>m. ''{}'') (\<lambda>s. s = SRename) [] ''1'' [(''d1'', ''mac'')] None) \<noteq> None" by code_simp
  moreover have "LoadNicknames (\<lambda>s. Some (Some [(''d1'', ''mac'')])) (\<lambda>s. False) None = Inr []"
    by (simp add: LoadNicknames_def file_of_def)
  ultimately show ?thesis
    using saved_nicknames_load [OF f, of "\<lambda>s. Some (Some [(''d1'', ''mac'')])" "\<lambda>m. ''{}''" "[(''d1'', ''mac'')]"
        "\<lambda>s. s = SRename" "[]"]
    by (simp add: case_prod_beta)
qed

end
