(* ===== verification/Mounter.thy ===== *)
theory Mounter
  imports AgentConfig AgentKeys
begin

text \<open>
  The agent's table of SSHFS mounts (internal/agent/mounter.go). Every call that leaves the
  program (a command, a system call on the mount target, a question to the clock or to the
  context) is a \<open>host_call\<close>; the host answers as a function of everything asked before, so that
  theorems about all hosts cover every behaviour of the kernel, of sshfs and of the umount
  commands. The calls and their answers are kept, the latest first.
\<close>

subsection \<open>Calls and answers\<close>

datatype host_call =
    CProbe string
  | CStat string
  | CUnmount string bool
  | CMkdirAll string
  | CChmod string nat
  | CReadDir string
  | CWriteKnownHosts string string
  | CLoadKey string
  | CStart "string list"
  | CWait
  | CKill
  | CCancelled

datatype host_err = ENotConn | ENotExist | EOther string

datatype reply = ROk | RErr host_err | RBool bool | RCount nat | RText string | RTimeout

type_synonym history = "(host_call \<times> reply) list"

type_synonym host = "history \<Rightarrow> host_call \<Rightarrow> reply"

type_synonym mount_key = "string \<times> string"

text \<open>A mount; \<open>mt_gen\<close> tells two mounts of the same share apart, as their pointers do.\<close>

record mount =
  mt_device :: string
  mt_share :: string
  mt_path :: string
  mt_ip :: string
  mt_port :: int
  mt_gen :: nat

record mount_backend =
  mb_binary :: string
  mb_extra :: "string list"

record mounter_config =
  mo_key_path :: string
  mo_known_devices :: string
  mo_known_hosts :: string
  mo_backend :: mount_backend
  mo_stub :: bool
  mo_verify_polls :: nat

record mounter =
  activeMounts :: "mount_key \<rightharpoonup> mount"
  probes :: "mount_key \<rightharpoonup> nat"
  next_gen :: nat
  history :: history

definition ask :: "host \<Rightarrow> host_call \<Rightarrow> mounter \<Rightarrow> reply \<times> mounter" where
  "ask env c m = (let r = env (history m) c in (r, m\<lparr>history := (c, r) # history m\<rparr>))"

subsection \<open>Backends and arguments\<close>

definition resolveBackend :: "string \<Rightarrow> mount_backend" where
  "resolveBackend tool =
     (if tool = ''fuse-t'' then \<lparr>mb_binary = ''sshfs'', mb_extra = [''cache=no'']\<rparr>
      else \<lparr>mb_binary = ''sshfs'', mb_extra = []\<rparr>)"

definition validateMountTool :: "string \<Rightarrow> string \<Rightarrow> bool" where
  "validateMountTool tool goos =
     (if tool = [] \<or> tool = ''sshfs'' then True
      else if tool = ''fuse-t'' then goos = ''darwin''
      else False)"

fun nat_digits :: "nat \<Rightarrow> string" where
  "nat_digits n = (if n < 10 then [char_of (48 + n)] else nat_digits (n div 10) @ [char_of (48 + n mod 10)])"

definition itoa :: "int \<Rightarrow> string" where
  "itoa i = (if i < 0 then CHR ''-'' # nat_digits (nat (- i)) else nat_digits (nat i))"

definition sshKeepaliveInterval :: int where "sshKeepaliveInterval = 15"
definition sshKeepaliveCountMax :: int where "sshKeepaliveCountMax = 3"

definition buildMountArgs ::
  "mount_backend \<Rightarrow> int \<Rightarrow> string \<Rightarrow> string \<Rightarrow> string \<Rightarrow> string \<Rightarrow> string \<Rightarrow> string list" where
  "buildMountArgs b sshPort keyPath knownHosts deviceIP share to' =
     [''-p'', itoa sshPort,
      ''-o'', ''IdentityFile='' @ keyPath,
      ''-o'', ''StrictHostKeyChecking=yes'',
      ''-o'', ''UserKnownHostsFile='' @ knownHosts,
      ''-o'', ''reconnect'',
      ''-o'', ''ServerAliveInterval='' @ itoa sshKeepaliveInterval,
      ''-o'', ''ServerAliveCountMax='' @ itoa sshKeepaliveCountMax] @
     concat (map (\<lambda>opt. [''-o'', opt]) (mb_extra b)) @
     [''hubfuse@'' @ deviceIP @ '':'' @ share, to']"

definition unmountLadder :: "string \<Rightarrow> bool \<Rightarrow> string list list" where
  "unmountLadder goos force =
     (if goos = ''darwin''
      then [[''umount'']] @ (if force then [[''diskutil'', ''unmount'', ''force''], [''umount'', ''-f'']] else [])
      else [[''fusermount'', ''-u''], [''fusermount'', ''-uz'']] @ (if force then [[''umount'', ''-l'']] else []))"

text \<open>\<open>unmountPath\<close>: the rungs in order until one succeeds; \<open>dead\<close> says after which the context is done.\<close>

fun unmountPath :: "(string list \<Rightarrow> string option) \<Rightarrow> (string list \<Rightarrow> bool) \<Rightarrow> string \<Rightarrow> string list list \<Rightarrow> string option \<Rightarrow> string option" where
  "unmountPath exec dead path [] lastErr = lastErr"
| "unmountPath exec dead path (argv # steps) lastErr =
     (case exec (argv @ [path]) of
        None \<Rightarrow> None
      | Some e \<Rightarrow> if dead (argv @ [path]) then Some e else unmountPath exec dead path steps (Some e))"

subsection \<open>Health of a mount\<close>

datatype mountHealth = Healthy | Dead | Unknown

definition classifyMountHealth :: "reply \<Rightarrow> mountHealth" where
  "classifyMountHealth r =
     (case r of
        RErr e \<Rightarrow> if e = ENotConn \<or> e = ENotExist then Dead else Unknown
      | RBool b \<Rightarrow> if b then Healthy else Dead
      | _ \<Rightarrow> Unknown)"

datatype probeOutcome = EntryCurrent | EntryReplaced | EntryVanished

text \<open>
  A probe is started unless one of the same generation is still outstanding; its answer is
  awaited, or \<open>RTimeout\<close> when the deadline or the context comes first, in which case it stays
  outstanding. Meanwhile the lock is free: \<open>others\<close> is what other goroutines do to the table.
\<close>

definition awaitProbe :: "host \<Rightarrow> mount_key \<Rightarrow> mount \<Rightarrow> mounter \<Rightarrow> mountHealth \<times> mounter" where
  "awaitProbe env key mnt m =
     (case ask env (CStat (mt_path mnt)) m of
        (r, m1) \<Rightarrow>
          if r = RTimeout then (Unknown, m1)
          else (classifyMountHealth r,
                if probes m1 key = Some (mt_gen mnt) then m1\<lparr>probes := (probes m1)(key := None)\<rparr> else m1))"

definition probeGenerationLocked ::
  "host \<Rightarrow> (mounter \<Rightarrow> mounter) \<Rightarrow> mount_key \<Rightarrow> mount \<Rightarrow> mounter \<Rightarrow> mountHealth \<times> probeOutcome \<times> mounter" where
  "probeGenerationLocked env others key mnt m =
     (let m1 = (if probes m key = Some (mt_gen mnt) then m
                else (snd (ask env (CProbe (mt_path mnt)) m))\<lparr>probes := (probes m)(key \<mapsto> mt_gen mnt)\<rparr>);
          (health, m2) = awaitProbe env key mnt (others m1)
      in case activeMounts m2 key of
           None \<Rightarrow> (Unknown, EntryVanished, m2)
         | Some cur \<Rightarrow> if cur \<noteq> mnt then (Unknown, EntryReplaced, m2)
                        else (health, EntryCurrent, m2))"

subsection \<open>The mount target\<close>

definition guardMode :: nat where "guardMode = 320"
definition mountableMode :: nat where "mountableMode = 448"
definition normalMode :: nat where "normalMode = 493"

datatype mount_err =
    EGuard host_err | EContents host_err | ENonEmpty nat | EDirsUnset | EBadDeviceID | ELoadKey host_err
  | EWriteHosts host_err | EMountable host_err | EStart host_err | EMountCancelled | ENotAppeared
  | EStale mount_err | ENoMount | EUnmount host_err | EUnguard host_err

definition err_of :: "reply \<Rightarrow> host_err option" where
  "err_of r = (case r of RErr e \<Rightarrow> Some e | RTimeout \<Rightarrow> Some (EOther ''timeout'') | _ \<Rightarrow> None)"

definition guardTarget :: "host \<Rightarrow> mounter_config \<Rightarrow> string \<Rightarrow> mounter \<Rightarrow> mount_err option \<times> mounter" where
  "guardTarget env cfg path m =
     (if mo_stub cfg then (None, m)
      else (case ask env (CMkdirAll (Dir path)) m of
              (r1, m1) \<Rightarrow>
                (case err_of r1 of
                   Some e \<Rightarrow> (Some (EGuard e), m1)
                 | None \<Rightarrow>
                     (case ask env (CMkdirAll path) m1 of
                        (r2, m2) \<Rightarrow>
                          (case err_of r2 of
                             Some e \<Rightarrow> (Some (EGuard e), m2)
                           | None \<Rightarrow>
                               (case ask env (CChmod path guardMode) m2 of
                                  (r3, m3) \<Rightarrow> (map_option EGuard (err_of r3), m3)))))))"

definition makeMountable :: "host \<Rightarrow> mounter_config \<Rightarrow> string \<Rightarrow> mounter \<Rightarrow> mount_err option \<times> mounter" where
  "makeMountable env cfg path m =
     (if mo_stub cfg then (None, m)
      else (case ask env (CChmod path mountableMode) m of (r, m1) \<Rightarrow> (map_option EMountable (err_of r), m1)))"

definition unguardTarget :: "host \<Rightarrow> mounter_config \<Rightarrow> string \<Rightarrow> mounter \<Rightarrow> mount_err option \<times> mounter" where
  "unguardTarget env cfg path m =
     (if mo_stub cfg then (None, m)
      else (case ask env (CChmod path normalMode) m of
              (r, m1) \<Rightarrow> (case err_of r of
                            None \<Rightarrow> (None, m1)
                          | Some e \<Rightarrow> if e = ENotExist then (None, m1) else (Some (EUnguard e), m1))))"

text \<open>The number of local files: \<open>Inl\<close> an error.\<close>

definition targetHasLocalContents :: "host \<Rightarrow> mounter_config \<Rightarrow> string \<Rightarrow> mounter \<Rightarrow> (mount_err + nat) \<times> mounter" where
  "targetHasLocalContents env cfg path m =
     (if mo_stub cfg then (Inr 0, m)
      else (case ask env (CReadDir path) m of
              (r, m1) \<Rightarrow>
                (case r of
                   RCount n \<Rightarrow> (Inr n, m1)
                 | RErr e \<Rightarrow> if e = ENotExist then (Inr 0, m1) else (Inl (EContents e), m1)
                 | _ \<Rightarrow> (Inl (EContents (EOther ''timeout'')), m1))))"

subsection \<open>Unmounting\<close>

definition mountpointGoneCtx :: "host \<Rightarrow> string \<Rightarrow> mounter \<Rightarrow> bool \<times> mounter" where
  "mountpointGoneCtx env path m =
     (case ask env (CStat path) m of
        (r, m1) \<Rightarrow> (case r of RErr e \<Rightarrow> True | RBool b \<Rightarrow> \<not> b | _ \<Rightarrow> False, m1))"

definition drop_entry :: "host \<Rightarrow> mount_key \<Rightarrow> mounter \<Rightarrow> mounter" where
  "drop_entry env key m = snd (ask env CWait (m\<lparr>activeMounts := (activeMounts m)(key := None)\<rparr>))"

definition reguard_after :: "host \<Rightarrow> mounter_config \<Rightarrow> bool \<Rightarrow> string \<Rightarrow> mounter \<Rightarrow> mounter" where
  "reguard_after env cfg reguard path m = (if reguard then snd (guardTarget env cfg path m) else m)"

definition unmountKey ::
  "host \<Rightarrow> mounter_config \<Rightarrow> mount_key \<Rightarrow> bool \<Rightarrow> bool \<Rightarrow> mounter \<Rightarrow> mount_err option \<times> mounter" where
  "unmountKey env cfg key force reguard m =
     (case activeMounts m key of
        None \<Rightarrow> (Some ENoMount, m)
      | Some mnt \<Rightarrow>
          (case ask env (CUnmount (mt_path mnt) force) m of
             (r, m1) \<Rightarrow>
               (case err_of r of
                  Some e \<Rightarrow>
                    (case mountpointGoneCtx env (mt_path mnt) m1 of
                       (gone, m2) \<Rightarrow>
                         if gone then (None, reguard_after env cfg reguard (mt_path mnt) (drop_entry env key m2))
                         else (Some (EUnmount e), m2))
                | None \<Rightarrow> (None, reguard_after env cfg reguard (mt_path mnt) (drop_entry env key m1)))))"

definition Unmount :: "host \<Rightarrow> mounter_config \<Rightarrow> string \<Rightarrow> string \<Rightarrow> mounter \<Rightarrow> mount_err option \<times> mounter" where
  "Unmount env cfg device share m = unmountKey env cfg (device, share) False True m"

fun unmount_keys ::
  "host \<Rightarrow> mounter_config \<Rightarrow> bool \<Rightarrow> bool \<Rightarrow> mount_key list \<Rightarrow> mounter \<Rightarrow> mount_err list \<times> mounter" where
  "unmount_keys env cfg force reguard [] m = ([], m)"
| "unmount_keys env cfg force reguard (k # ks) m =
     (case unmountKey env cfg k force reguard m of
        (e, m1) \<Rightarrow>
          (case unmount_keys env cfg force reguard ks m1 of
             (es, m2) \<Rightarrow> (case e of None \<Rightarrow> es | Some x \<Rightarrow> x # es, m2)))"

text \<open>The order in which the map is iterated, \<open>keys\<close>, is arbitrary.\<close>

definition UnmountDevice :: "host \<Rightarrow> mounter_config \<Rightarrow> mount_key list \<Rightarrow> string \<Rightarrow> mounter \<Rightarrow> mount_err list \<times> mounter" where
  "UnmountDevice env cfg keys device m = unmount_keys env cfg True True (filter (\<lambda>k. fst k = device) keys) m"

definition UnmountAllForce :: "host \<Rightarrow> mounter_config \<Rightarrow> mount_key list \<Rightarrow> mounter \<Rightarrow> mount_err list \<times> mounter" where
  "UnmountAllForce env cfg keys m = unmount_keys env cfg True False keys m"

definition UnmountAll :: "host \<Rightarrow> mounter_config \<Rightarrow> mount_key list \<Rightarrow> mounter \<Rightarrow> mount_err list \<times> mounter" where
  "UnmountAll env cfg keys m = unmount_keys env cfg False True keys m"

definition IsActive :: "string \<Rightarrow> string \<Rightarrow> mounter \<Rightarrow> bool" where
  "IsActive device share m = (activeMounts m (device, share) \<noteq> None)"

subsection \<open>Mounting\<close>

text \<open>\<open>writeKnownHostsFile\<close>: the path of the file it wrote.\<close>

definition known_hosts_line :: "string \<Rightarrow> int \<Rightarrow> string \<Rightarrow> string" where
  "known_hosts_line ip port key =
     (if port \<noteq> 22 then ''['' @ ip @ '']:'' @ itoa port else ip) @ '' '' @
     rev (dropWhile (\<lambda>ch. ch = CHR 0x0A) (rev key)) @ newline"

definition writeKnownHostsFile ::
  "host \<Rightarrow> mounter_config \<Rightarrow> string \<Rightarrow> string \<Rightarrow> int \<Rightarrow> mounter \<Rightarrow> (mount_err + string) \<times> mounter" where
  "writeKnownHostsFile env cfg deviceID ip port m =
     (if mo_known_devices cfg = [] \<or> mo_known_hosts cfg = [] then (Inl EDirsUnset, m)
      else if \<not> validateDeviceID deviceID then (Inl EBadDeviceID, m)
      else (case ask env (CLoadKey deviceID) m of
              (r1, m1) \<Rightarrow>
                (case r1 of
                   RText key \<Rightarrow>
                     (case ask env (CMkdirAll (mo_known_hosts cfg)) m1 of
                        (r2, m2) \<Rightarrow>
                          (case err_of r2 of
                             Some e \<Rightarrow> (Inl (EWriteHosts e), m2)
                           | None \<Rightarrow>
                               (let path = Join2 (mo_known_hosts cfg) deviceID in
                                case ask env (CWriteKnownHosts path (known_hosts_line ip port key)) m2 of
                                  (r3, m3) \<Rightarrow>
                                    (case err_of r3 of Some e \<Rightarrow> (Inl (EWriteHosts e), m3) | None \<Rightarrow> (Inr path, m3)))))
                 | RErr e \<Rightarrow> (Inl (ELoadKey e), m1)
                 | _ \<Rightarrow> (Inl (ELoadKey (EOther [])), m1))))"

text \<open>
  The verification loop: \<open>n\<close> is the number of checks the verification timeout leaves room for.
  A failure kills and reaps the backend and guards the target again.
\<close>

definition give_up :: "host \<Rightarrow> mounter_config \<Rightarrow> string \<Rightarrow> mounter \<Rightarrow> mounter" where
  "give_up env cfg path m = snd (guardTarget env cfg path (snd (ask env CWait (snd (ask env CKill m)))))"

fun verify_mount :: "nat \<Rightarrow> host \<Rightarrow> mounter_config \<Rightarrow> string \<Rightarrow> mounter \<Rightarrow> mount_err option \<times> mounter" where
  "verify_mount n env cfg path m =
     (case ask env CCancelled m of
        (c, m1) \<Rightarrow>
          if c = RBool True then (Some EMountCancelled, give_up env cfg path m1)
          else (case ask env (CStat path) m1 of
                  (r, m2) \<Rightarrow>
                    if r = RBool True then (None, m2)
                    else (case n of
                            0 \<Rightarrow> (Some ENotAppeared, give_up env cfg path m2)
                          | Suc k \<Rightarrow> verify_mount k env cfg path m2)))"

definition establish ::
  "host \<Rightarrow> mounter_config \<Rightarrow> mount_config \<Rightarrow> string \<Rightarrow> string \<Rightarrow> int \<Rightarrow> mounter \<Rightarrow> mount_err option \<times> mounter" where
  "establish env cfg mc deviceID ip port m =
     (case guardTarget env cfg (mc_to mc) m of
        (Some e, m1) \<Rightarrow> (Some e, m1)
      | (None, m1) \<Rightarrow>
          (case targetHasLocalContents env cfg (mc_to mc) m1 of
             (Inl e, m2) \<Rightarrow> (Some e, m2)
           | (Inr n, m2) \<Rightarrow>
               if n > 0 then (Some (ENonEmpty n), m2)
               else (case writeKnownHostsFile env cfg deviceID ip port m2 of
                       (Inl e, m3) \<Rightarrow> (Some e, m3)
                     | (Inr hosts, m3) \<Rightarrow>
                         (case makeMountable env cfg (mc_to mc) m3 of
                            (Some e, m4) \<Rightarrow> (Some e, m4)
                          | (None, m4) \<Rightarrow>
                              (let args = buildMountArgs (mo_backend cfg) port (mo_key_path cfg) hosts ip (mc_share mc) (mc_to mc) in
                               case ask env (CStart (mb_binary (mo_backend cfg) # args)) m4 of
                                 (r, m5) \<Rightarrow>
                                   (case err_of r of
                                      Some e \<Rightarrow> (Some (EStart e), snd (guardTarget env cfg (mc_to mc) m5))
                                    | None \<Rightarrow>
                                        (case verify_mount (mo_verify_polls cfg) env cfg (mc_to mc) m5 of
                                           (Some e, m6) \<Rightarrow> (Some e, m6)
                                         | (None, m6) \<Rightarrow>
                                             (None, m6\<lparr>activeMounts := (activeMounts m6)((mc_device mc, mc_share mc) \<mapsto>
                                                  \<lparr>mt_device = mc_device mc, mt_share = mc_share mc, mt_path = mc_to mc,
                                                   mt_ip = ip, mt_port = port, mt_gen = next_gen m6\<rparr>),
                                                 next_gen := Suc (next_gen m6)\<rparr>))))))))"

definition remount ::
  "host \<Rightarrow> mounter_config \<Rightarrow> mount_config \<Rightarrow> string \<Rightarrow> string \<Rightarrow> int \<Rightarrow> mounter \<Rightarrow> mount_err option \<times> mounter" where
  "remount env cfg mc deviceID ip port m =
     (case unmountKey env cfg (mc_device mc, mc_share mc) True False m of
        (Some e, m1) \<Rightarrow> (Some (EStale e), m1)
      | (None, m1) \<Rightarrow> establish env cfg mc deviceID ip port m1)"

definition Mount ::
  "host \<Rightarrow> (mounter \<Rightarrow> mounter) \<Rightarrow> mounter_config \<Rightarrow> mount_config \<Rightarrow> string \<Rightarrow> string \<Rightarrow> int \<Rightarrow> mounter \<Rightarrow> mount_err option \<times> mounter" where
  "Mount env others cfg mc deviceID ip port m =
     (let key = (mc_device mc, mc_share mc) in
      case activeMounts m key of
        None \<Rightarrow> establish env cfg mc deviceID ip port m
      | Some existing \<Rightarrow>
          if mt_ip existing = ip \<and> mt_port existing = port
          then (case probeGenerationLocked env others key existing m of
                  (health, outcome, m1) \<Rightarrow>
                    if outcome = EntryReplaced then (None, m1)
                    else if outcome = EntryVanished then (None, m1)
                    else if health = Healthy \<or> health = Unknown then (None, m1)
                    else remount env cfg mc deviceID ip port m1)
          else remount env cfg mc deviceID ip port m)"

end
