(* ===== verification/MounterProps.thy ===== *)
theory MounterProps
  imports Mounter
begin

text \<open>
  What the mount table promises: a mount is torn down only on evidence that it is dead, an
  entry is dropped only when the mount is gone, a target is never left writable without a
  mount on it, and a backend is started only on an empty target with the pinned host key.
\<close>

named_theorems mounter_defs

declare ask_def [mounter_defs] Let_def [mounter_defs]

lemma ask_keeps [simp]:
  "activeMounts (snd (ask env c m)) = activeMounts m" "probes (snd (ask env c m)) = probes m"
  "next_gen (snd (ask env c m)) = next_gen m" "history (snd (ask env c m)) = (c, env (history m) c) # history m"
  "fst (ask env c m) = env (history m) c"
  by (simp_all add: ask_def Let_def)

lemma ask_eq: "ask env c m = (r, m') \<longleftrightarrow> r = env (history m) c \<and> m' = m\<lparr>history := (c, r) # history m\<rparr>"
  by (auto simp: ask_def Let_def)

subsection \<open>The active table\<close>

lemma guardTarget_active [simp]: "activeMounts (snd (guardTarget env cfg p m)) = activeMounts m"
  by (auto simp: guardTarget_def ask_eq split: prod.split option.split)

lemma reguard_active [simp]: "activeMounts (reguard_after env cfg b p m) = activeMounts m"
  by (simp add: reguard_after_def)

lemma gone_active: "mountpointGoneCtx env p m = (b, m') \<Longrightarrow> activeMounts m' = activeMounts m"
  by (auto simp: mountpointGoneCtx_def ask_eq split: prod.splits)

lemma drop_active [simp]: "activeMounts (drop_entry env key m) = (activeMounts m)(key := None)"
  by (simp add: drop_entry_def)

lemma unmountKey_active:
  assumes "unmountKey env cfg key force reguard m = (e, m')"
  shows "activeMounts m' = (if e = None then (activeMounts m)(key := None) else activeMounts m)"
  using assms
  by (auto simp: unmountKey_def ask_eq gone_active split: option.splits prod.splits if_splits dest!: gone_active)

text \<open>
  An entry leaves the table only when the umount command succeeded, or when the check made
  after its failure answered, in time, that the path is no mount point any more or cannot be
  reached; otherwise the entry stays and an error is returned. No other entry is touched.
\<close>

theorem dropped_only_when_gone:
  assumes "activeMounts m key = Some mnt" and "unmountKey env cfg key force reguard m = (e, m')"
  shows "activeMounts m' = (if e = None then (activeMounts m)(key := None) else activeMounts m) \<and>
    (let r = env (history m) (CUnmount (mt_path mnt) force);
         r' = env ((CUnmount (mt_path mnt) force, r) # history m) (CStat (mt_path mnt))
     in (e = None) = (err_of r = None \<or> r' = RBool False \<or> (\<exists>x. r' = RErr x)))"
proof -
  have "(let r = env (history m) (CUnmount (mt_path mnt) force);
         r' = env ((CUnmount (mt_path mnt) force, r) # history m) (CStat (mt_path mnt))
     in (e = None) = (err_of r = None \<or> r' = RBool False \<or> (\<exists>x. r' = RErr x)))"
    using assms
    by (auto simp: unmountKey_def ask_def mountpointGoneCtx_def Let_def
        split: option.splits prod.splits if_splits reply.splits)
  then show ?thesis using unmountKey_active [OF assms(2)] by blast
qed

subsection \<open>A host that answers\<close>

definition fine_host :: host where
  "fine_host h c = (case c of
     CStat p \<Rightarrow> RBool True | CReadDir p \<Rightarrow> RCount 0 | CLoadKey d \<Rightarrow> RText ''ssh-ed25519 K'' | CCancelled \<Rightarrow> RBool False
   | _ \<Rightarrow> ROk)"

definition wedged_host :: host where
  "wedged_host h c = (case c of CStat p \<Rightarrow> RTimeout | _ \<Rightarrow> fine_host h c)"

definition sample_mounter_config :: mounter_config where
  "sample_mounter_config = \<lparr>mo_key_path = ''/k'', mo_known_devices = ''/kd'', mo_known_hosts = ''/kh'',
     mo_backend = resolveBackend ''sshfs'', mo_stub = False, mo_verify_polls = 50\<rparr>"

definition sample_mount_config :: "string \<Rightarrow> mount_config" where
  "sample_mount_config to' = \<lparr>mc_device = ''mac'', mc_share = ''docs'', mc_to = to'\<rparr>"

definition empty_mounter :: mounter where
  "empty_mounter = \<lparr>activeMounts = Map.empty, probes = Map.empty, next_gen = 0, history = []\<rparr>"

definition sample_mount :: mount where
  "sample_mount = \<lparr>mt_device = ''mac'', mt_share = ''docs'', mt_path = ''/m'', mt_ip = ''10.0.0.2'', mt_port = 2222, mt_gen = 0\<rparr>"

definition one_mount :: mounter where
  "one_mount = empty_mounter\<lparr>activeMounts := [(''mac'', ''docs'') \<mapsto> sample_mount], next_gen := 1\<rparr>"

lemmas mounter_samples = sample_mounter_config_def sample_mount_config_def empty_mounter_def sample_mount_def
  one_mount_def fine_host_def wedged_host_def

lemma dropped_only_when_gone_witness:
  "case unmountKey (\<lambda>h c. case c of CUnmount p f \<Rightarrow> RErr (EOther ''busy'') | _ \<Rightarrow> wedged_host h c)
       sample_mounter_config (''mac'', ''docs'') True True one_mount of
     (e, m') \<Rightarrow> e \<noteq> None \<and> activeMounts m' = activeMounts one_mount"
proof -
  obtain e m' where u: "unmountKey (\<lambda>h c. case c of CUnmount p f \<Rightarrow> RErr (EOther ''busy'') | _ \<Rightarrow> wedged_host h c)
       sample_mounter_config (''mac'', ''docs'') True True one_mount = (e, m')"
    by (cases "unmountKey (\<lambda>h c. case c of CUnmount p f \<Rightarrow> RErr (EOther ''busy'') | _ \<Rightarrow> wedged_host h c)
       sample_mounter_config (''mac'', ''docs'') True True one_mount")
  have "activeMounts one_mount (''mac'', ''docs'') = Some sample_mount" by (simp add: one_mount_def)
  from dropped_only_when_gone [OF this u] show ?thesis
    unfolding u by (cases e) (simp_all add: sample_mount_def wedged_host_def err_of_def Let_def)
qed

subsection \<open>A mount that may be alive is left alone\<close>

fun changing :: "host_call \<Rightarrow> bool" where
  "changing (CProbe p) = False"
| "changing (CStat p) = False"
| "changing CCancelled = False"
| "changing c = True"

definition changes :: "mounter \<Rightarrow> host_call list" where
  "changes m = filter changing (map fst (history m))"

lemma changes_ask: "changes (snd (ask env c m)) = (if changing c then c # changes m else changes m)"
  by (simp add: changes_def)

lemma changes_probes [simp]: "changes (m\<lparr>probes := x\<rparr>) = changes m"
  by (simp add: changes_def)

lemma awaitProbe_quiet:
  assumes "awaitProbe env key mnt m = (hl, m')"
  shows "activeMounts m' = activeMounts m \<and> changes m' = changes m \<and>
    (hl = Dead \<longrightarrow> classifyMountHealth (env (history m) (CStat (mt_path mnt))) = Dead)"
  using assms by (auto simp: awaitProbe_def ask_def Let_def changes_def split: if_splits)


lemma sample_hosts:
  "activeMounts one_mount (mc_device (sample_mount_config to'), mc_share (sample_mount_config to')) = Some sample_mount"
  "mt_ip sample_mount = ''10.0.0.2''" "mt_port sample_mount = 2222" "mt_path sample_mount = ''/m''"
  "probes one_mount k = None" "history one_mount = []" "wedged_host h (CStat p) = RTimeout"
  by (simp_all add: mounter_samples)


text \<open>
  A mount whose check never returns costs one probe: however often the monitor asks for the
  mount, one check in all is started for it, and its entry stays.
\<close>

theorem wedged_mount_one_probe:
  assumes "activeMounts m (mc_device mc, mc_share mc) = Some mnt" and "mt_ip mnt = ip" and "mt_port mnt = port"
    and "\<forall>h. env h (CStat (mt_path mnt)) = RTimeout" and "probes m (mc_device mc, mc_share mc) = None"
  shows "let m' = ((\<lambda>x. snd (Mount env (\<lambda>a. a) cfg mc did ip port x)) ^^ n) m in
    length (filter (\<lambda>x. fst x = CProbe (mt_path mnt)) (history m')) \<le>
      Suc (length (filter (\<lambda>x. fst x = CProbe (mt_path mnt)) (history m))) \<and>
    activeMounts m' = activeMounts m"
proof -
  let ?k = "(mc_device mc, mc_share mc)" and ?cnt = "\<lambda>x. length (filter (\<lambda>x. fst x = CProbe (mt_path mnt)) (history x))"
  define again where "again = (\<lambda>x. snd (Mount env (\<lambda>a. a) cfg mc did ip port x))"
  have step: "activeMounts (again x) = activeMounts x \<and> probes (again x) ?k = Some (mt_gen mnt) \<and>
      ?cnt (again x) = (if probes x ?k = Some (mt_gen mnt) then ?cnt x else Suc (?cnt x))"
    if "activeMounts x = activeMounts m" for x
    using that assms(1-4)
    by (auto simp: again_def Mount_def probeGenerationLocked_def awaitProbe_def ask_def Let_def)
  have "activeMounts ((again ^^ n) m) = activeMounts m \<and>
      (n = 0 \<or> probes ((again ^^ n) m) ?k = Some (mt_gen mnt)) \<and>
      ?cnt ((again ^^ n) m) = (if n = 0 then ?cnt m else Suc (?cnt m))"
  proof (induction n)
    case (Suc n)
    then show ?case using step [of "(again ^^ n) m"] assms(5) by (cases n) simp_all
  qed simp
  then show ?thesis unfolding Let_def again_def [symmetric] by simp
qed

lemma wedged_mount_one_probe_witness:
  "let m' = ((\<lambda>x. snd (Mount wedged_host (\<lambda>a. a) sample_mounter_config (sample_mount_config ''/m'') ''d1'' ''10.0.0.2'' 2222 x)) ^^ 1000) one_mount
   in length (filter (\<lambda>x. fst x = CProbe ''/m'') (history m')) \<le> 1"
proof -
  have "\<forall>h. wedged_host h (CStat (mt_path sample_mount)) = RTimeout" by (simp add: sample_hosts)
  from wedged_mount_one_probe [where env = wedged_host, OF sample_hosts(1-3) this sample_hosts(5), where cfg = sample_mounter_config and did = "''d1''" and n = 1000]
  show ?thesis by (simp add: sample_hosts Let_def)
qed

subsection \<open>Targets and starts\<close>

text \<open>
  The mode the host last gave to a path, the last answer to reading a directory, and the
  condition on a start of the backend: the target was last read as empty or missing, the host
  keys are checked strictly against a file that was last written with the endpoint and with
  the key kept for the device.
\<close>

fun last_mode :: "history \<Rightarrow> string \<Rightarrow> nat option" where
  "last_mode [] p = None"
| "last_mode ((CChmod q md, r) # h) p = (if q = p \<and> err_of r = None then Some md else last_mode h p)"
| "last_mode (_ # h) p = last_mode h p"

fun last_read :: "history \<Rightarrow> string \<Rightarrow> reply option" where
  "last_read [] p = None"
| "last_read ((CReadDir q, r) # h) p = (if q = p then Some r else last_read h p)"
| "last_read (_ # h) p = last_read h p"

fun last_hosts :: "history \<Rightarrow> string \<Rightarrow> string option" where
  "last_hosts [] p = None"
| "last_hosts ((CWriteKnownHosts q c, r) # h) p = (if q = p \<and> err_of r = None then Some c else last_hosts h p)"
| "last_hosts (_ # h) p = last_hosts h p"

definition safe_start :: "mounter_config \<Rightarrow> history \<Rightarrow> string list \<Rightarrow> bool" where
  "safe_start cfg h argv \<longleftrightarrow>
     (\<exists>port file ip share to' key did.
        argv = mb_binary (mo_backend cfg) # buildMountArgs (mo_backend cfg) port (mo_key_path cfg) file ip share to' \<and>
        (last_read h to' = Some (RCount 0) \<or> last_read h to' = Some (RErr ENotExist)) \<and>
        last_hosts h file = Some (known_hosts_line ip port key) \<and>
        file = Join2 (mo_known_hosts cfg) did \<and> validateDeviceID did \<and>
        (CLoadKey did, RText key) \<in> set h)"

fun starts_safe :: "mounter_config \<Rightarrow> history \<Rightarrow> bool" where
  "starts_safe cfg [] = True"
| "starts_safe cfg ((CStart argv, r) # h) = (safe_start cfg h argv \<and> starts_safe cfg h)"
| "starts_safe cfg (_ # h) = starts_safe cfg h"

definition guarded :: "mounter \<Rightarrow> bool" where
  "guarded m \<longleftrightarrow> (\<forall>p. last_mode (history m) p = Some mountableMode \<longrightarrow>
     (\<exists>key mnt. activeMounts m key = Some mnt \<and> mt_path mnt = p))"

definition obeys :: "host \<Rightarrow> bool" where
  "obeys env \<longleftrightarrow> (\<forall>h p md. err_of (env h (CChmod p md)) = None \<and> err_of (env h (CMkdirAll p)) = None)"

definition mounter_ok :: "mounter_config \<Rightarrow> mounter \<Rightarrow> bool" where
  "mounter_ok cfg m \<longleftrightarrow> guarded m \<and> starts_safe cfg (history m)"

text \<open>Everything but the paths in \<open>P\<close> is guarded; used inside an operation.\<close>

definition guarded_but :: "string set \<Rightarrow> mounter \<Rightarrow> bool" where
  "guarded_but P m \<longleftrightarrow> (\<forall>p. last_mode (history m) p = Some mountableMode \<longrightarrow> p \<in> P \<or>
     (\<exists>key mnt. activeMounts m key = Some mnt \<and> mt_path mnt = p))"

definition ok_but :: "mounter_config \<Rightarrow> string set \<Rightarrow> mounter \<Rightarrow> bool" where
  "ok_but cfg P m \<longleftrightarrow> guarded_but P m \<and> starts_safe cfg (history m)"

lemma mounter_ok_but: "mounter_ok cfg m \<longleftrightarrow> ok_but cfg {} m"
  by (simp add: mounter_ok_def ok_but_def guarded_def guarded_but_def)

lemma ok_but_mono: "ok_but cfg P m \<Longrightarrow> P \<subseteq> Q \<Longrightarrow> ok_but cfg Q m"
  by (auto simp: ok_but_def guarded_but_def)

lemma ok_but_ask:
  assumes "ok_but cfg P m" and "case c of CStart argv \<Rightarrow> safe_start cfg (history m) argv | CChmod p md \<Rightarrow> md \<noteq> mountableMode \<or> p \<in> P | _ \<Rightarrow> True"
  shows "ok_but cfg P (snd (ask env c m))"
  using assms by (cases c) (auto simp: ok_but_def guarded_but_def)

lemma ok_but_guard:
  assumes "obeys env" and "\<not> mo_stub cfg" and "ok_but cfg P m"
  shows "ok_but cfg (P - {p}) (snd (guardTarget env cfg p m)) \<and> fst (guardTarget env cfg p m) = None"
proof -
  have "guardMode \<noteq> mountableMode" by (simp add: guardMode_def mountableMode_def)
  then show ?thesis using assms
    by (auto simp: guardTarget_def ask_def Let_def obeys_def ok_but_def guarded_but_def)
qed

declare verify_mount.simps [simp del]

lemma ok_but_drop:
  assumes "ok_but cfg P m" and "activeMounts m key = Some mnt"
  shows "ok_but cfg (insert (mt_path mnt) P) (drop_entry env key m)"
proof -
  have h: "history (drop_entry env key m) = (CWait, env (history m) CWait) # history m" by (simp add: drop_entry_def)
  have "p \<in> insert (mt_path mnt) P \<or> (\<exists>k x. activeMounts (drop_entry env key m) k = Some x \<and> mt_path x = p)"
    if "last_mode (history m) p = Some mountableMode" for p
  proof -
    have "p \<in> P \<or> (\<exists>k x. activeMounts m k = Some x \<and> mt_path x = p)"
      using that assms(1) by (auto simp: ok_but_def guarded_but_def)
    then show ?thesis
    proof
      assume "\<exists>k x. activeMounts m k = Some x \<and> mt_path x = p"
      then obtain k x where "activeMounts m k = Some x" "mt_path x = p" by blast
      then have "p = mt_path mnt \<or> activeMounts (drop_entry env key m) k = Some x \<and> mt_path x = p"
        using assms(2) by (cases "k = key") auto
      then show ?thesis by blast
    qed simp
  qed
  then show ?thesis using assms(1) h by (auto simp: ok_but_def guarded_but_def)
qed

lemma ok_but_gone: "ok_but cfg P m \<Longrightarrow> mountpointGoneCtx env p m = (b, m') \<Longrightarrow> ok_but cfg P m'"
  using ok_but_ask [of cfg P m "CStat p" env] by (auto simp: mountpointGoneCtx_def ask_eq split: prod.splits)

lemma ok_but_unmountKey:
  assumes "obeys env" and "\<not> mo_stub cfg" and "ok_but cfg {} m" and "unmountKey env cfg key force reguard m = (e, m')"
  shows "ok_but cfg (case activeMounts m key of Some mnt \<Rightarrow> if reguard \<or> e \<noteq> None then {} else {mt_path mnt} | None \<Rightarrow> {}) m'"
proof (cases "activeMounts m key")
  case None
  then show ?thesis using assms(3,4) by (simp add: unmountKey_def)
next
  case (Some mnt)
  define m1 where "m1 = snd (ask env (CUnmount (mt_path mnt) force) m)"
  define r where "r = env (history m) (CUnmount (mt_path mnt) force)"
  have m1: "ok_but cfg {} m1" "activeMounts m1 key = Some mnt" using ok_but_ask [OF assms(3)] Some by (simp_all add: m1_def)
  have ask: "ask env (CUnmount (mt_path mnt) force) m = (r, m1)" by (simp add: m1_def r_def ask_def Let_def)
  have fin: "ok_but cfg (if reguard then {} else {mt_path mnt}) (reguard_after env cfg reguard (mt_path mnt) (drop_entry env key x))"
    if "ok_but cfg {} x" "activeMounts x key = Some mnt" for x
    using ok_but_guard [OF assms(1,2) ok_but_drop [OF that], of "mt_path mnt"] ok_but_drop [OF that]
    by (simp add: reguard_after_def)
  show ?thesis
  proof (cases "err_of r")
    case None
    then show ?thesis using assms(4) Some ask fin [OF m1] by (auto simp: unmountKey_def)
  next
    case (Some x)
    obtain gone m2 where g: "mountpointGoneCtx env (mt_path mnt) m1 = (gone, m2)"
      by (cases "mountpointGoneCtx env (mt_path mnt) m1")
    have "ok_but cfg {} m2" "activeMounts m2 key = Some mnt" using ok_but_gone [OF m1(1) g] gone_active [OF g] m1(2) by simp_all
    then show ?thesis using assms(4) Some \<open>activeMounts m key = Some mnt\<close> ask g fin [of m2]
      by (auto simp: unmountKey_def split: if_splits)
  qed
qed

lemma ok_but_unmountKey_reguard:
  assumes "obeys env" and "\<not> mo_stub cfg" and "ok_but cfg {} m"
  shows "ok_but cfg {} (snd (unmountKey env cfg key force True m))"
  using ok_but_unmountKey [OF assms, of key force True "fst (unmountKey env cfg key force True m)" "snd (unmountKey env cfg key force True m)"]
  by (simp split: option.splits)

lemma ok_but_unmount_keys:
  assumes "obeys env" and "\<not> mo_stub cfg"
  shows "ok_but cfg {} m \<Longrightarrow> ok_but cfg {} (snd (unmount_keys env cfg force True ks m))"
proof (induction ks arbitrary: m)
  case (Cons k ks)
  have "ok_but cfg {} (snd (unmountKey env cfg k force True m))" by (rule ok_but_unmountKey_reguard [OF assms Cons.prems])
  then show ?case using Cons.IH [of "snd (unmountKey env cfg k force True m)"]
    by (simp add: case_prod_beta)
qed simp

lemma ok_but_give_up:
  assumes "obeys env" and "\<not> mo_stub cfg" and "ok_but cfg {p} m"
  shows "ok_but cfg {} (give_up env cfg p m)"
proof -
  have "ok_but cfg {p} (snd (ask env CWait (snd (ask env CKill m))))"
    by (intro ok_but_ask assms(3)) simp_all
  from ok_but_guard [OF assms(1,2) this, of p] show ?thesis by (simp add: give_up_def)
qed

lemma verify_ok:
  assumes "obeys env" and "\<not> mo_stub cfg"
  shows "ok_but cfg {p} m \<Longrightarrow> verify_mount n env cfg p m = (e, m') \<Longrightarrow>
    activeMounts m' = activeMounts m \<and> ok_but cfg (if e = None then {p} else {}) m'"
proof (induction n arbitrary: m)
  case (0 m)
  have "ok_but cfg {p} (snd (ask env CCancelled m))" "ok_but cfg {p} (snd (ask env (CStat p) (snd (ask env CCancelled m))))"
    by (intro ok_but_ask 0(1); simp)+
  then show ?case using 0(2) ok_but_give_up [OF assms]
    by (subst (asm) verify_mount.simps) (auto simp: case_prod_beta give_up_def split: if_splits)
next
  case (Suc n m)
  have ok: "ok_but cfg {p} (snd (ask env CCancelled m))" "ok_but cfg {p} (snd (ask env (CStat p) (snd (ask env CCancelled m))))"
    by (intro ok_but_ask Suc(2); simp)+
  then show ?case using Suc(3) ok_but_give_up [OF assms] Suc.IH [OF ok(2)]
    by (subst (asm) verify_mount.simps) (auto simp: case_prod_beta give_up_def split: if_splits)
qed

lemma writeKnownHosts_history:
  assumes "writeKnownHostsFile env cfg did ip port m = (Inr file, m')"
  shows "\<exists>key r r'. history m' = (CWriteKnownHosts file (known_hosts_line ip port key), r) #
      (CMkdirAll (mo_known_hosts cfg), r') # (CLoadKey did, RText key) # history m \<and> err_of r = None \<and>
    file = Join2 (mo_known_hosts cfg) did \<and> validateDeviceID did"
  using assms by (auto simp: writeKnownHostsFile_def ask_def Let_def split: if_splits reply.splits option.splits)

lemma writeKnownHosts_ok:
  assumes "ok_but cfg P m"
  shows "ok_but cfg P (snd (writeKnownHostsFile env cfg did ip port m)) \<and>
    activeMounts (snd (writeKnownHostsFile env cfg did ip port m)) = activeMounts m"
  using assms
  by (auto simp: writeKnownHostsFile_def ask_def Let_def ok_but_def guarded_but_def split: reply.split option.split)

lemma contents_ok:
  assumes "ok_but cfg P m"
  shows "ok_but cfg P (snd (targetHasLocalContents env cfg p m)) \<and>
    activeMounts (snd (targetHasLocalContents env cfg p m)) = activeMounts m"
  using assms
  by (auto simp: targetHasLocalContents_def ask_def Let_def ok_but_def guarded_but_def split: reply.split)

lemma contents_history:
  assumes "targetHasLocalContents env cfg p m = (Inr 0, m')" and "\<not> mo_stub cfg"
  shows "\<exists>r. history m' = (CReadDir p, r) # history m \<and> (r = RCount 0 \<or> r = RErr ENotExist)"
  using assms by (auto simp: targetHasLocalContents_def ask_def Let_def split: reply.splits if_splits)

lemma chmod_history:
  "\<not> mo_stub cfg \<Longrightarrow> makeMountable env cfg p m = (e, m') \<Longrightarrow>
   history m' = (CChmod p mountableMode, env (history m) (CChmod p mountableMode)) # history m \<and> activeMounts m' = activeMounts m"
  by (auto simp: makeMountable_def ask_def Let_def)

lemma start_is_safe:
  assumes "targetHasLocalContents env cfg to' m1 = (Inr 0, m2)" and "\<not> mo_stub cfg"
    and "writeKnownHostsFile env cfg did ip port m2 = (Inr file, m3)"
    and "makeMountable env cfg to' m3 = (e, m4)"
  shows "safe_start cfg (history m4)
    (mb_binary (mo_backend cfg) # buildMountArgs (mo_backend cfg) port (mo_key_path cfg) file ip share to')"
proof -
  obtain r0 where r0: "history m2 = (CReadDir to', r0) # history m1" "r0 = RCount 0 \<or> r0 = RErr ENotExist"
    using contents_history [OF assms(1,2)] by blast
  obtain key r r' where h: "history m3 = (CWriteKnownHosts file (known_hosts_line ip port key), r) #
      (CMkdirAll (mo_known_hosts cfg), r') # (CLoadKey did, RText key) # history m2" "err_of r = None"
    "file = Join2 (mo_known_hosts cfg) did" "validateDeviceID did"
    using writeKnownHosts_history [OF assms(3)] by blast
  have "last_read (history m4) to' = Some r0" "last_hosts (history m4) file = Some (known_hosts_line ip port key)"
    "(CLoadKey did, RText key) \<in> set (history m4)"
    using chmod_history [OF assms(2,4)] h r0(1) by simp_all
  then show ?thesis unfolding safe_start_def using r0(2) h(3,4) by blast
qed

lemma establish_ok:
  assumes "obeys env" and "\<not> mo_stub cfg" and "ok_but cfg {mc_to mc} m"
    and "activeMounts m (mc_device mc, mc_share mc) = None"
  shows "ok_but cfg {} (snd (establish env cfg mc did ip port m))"
proof -
  let ?p = "mc_to mc"
  obtain e1 m1 where g: "guardTarget env cfg ?p m = (e1, m1)" by (cases "guardTarget env cfg ?p m")
  have m1: "ok_but cfg {} m1" "e1 = None" "activeMounts m1 = activeMounts m"
    using ok_but_guard [OF assms(1-3), of ?p] g guardTarget_active [of env cfg ?p m] by simp_all
  obtain c m2 where c: "targetHasLocalContents env cfg ?p m1 = (c, m2)" by (cases "targetHasLocalContents env cfg ?p m1")
  have m2: "ok_but cfg {} m2" "activeMounts m2 = activeMounts m" using contents_ok [OF m1(1), of env ?p] c m1(3) by simp_all
  obtain w m3 where w: "writeKnownHostsFile env cfg did ip port m2 = (w, m3)" by (cases "writeKnownHostsFile env cfg did ip port m2")
  have m3: "ok_but cfg {} m3" "activeMounts m3 = activeMounts m"
    using writeKnownHosts_ok [OF m2(1), of env did ip port] w m2(2) by simp_all
  obtain e4 m4 where k: "makeMountable env cfg ?p m3 = (e4, m4)" by (cases "makeMountable env cfg ?p m3")
  have "m4 = snd (ask env (CChmod ?p mountableMode) m3)"
    using k assms(2) by (auto simp: makeMountable_def split: prod.splits)
  moreover have "ok_but cfg {?p} (snd (ask env (CChmod ?p mountableMode) m3))"
    using ok_but_mono [OF m3(1)] by (intro ok_but_ask) simp_all
  ultimately have m4: "ok_but cfg {?p} m4" by simp
  have m4e: "e4 = None" "activeMounts m4 = activeMounts m"
    using k assms(1,2) m3(2) by (auto simp: makeMountable_def ask_def Let_def obeys_def)
  show ?thesis
  proof (cases "c = Inr 0 \<and> (\<exists>file. w = Inr file)")
    case False
    then show ?thesis using g c w m1 m2 m3
      by (cases c; cases w) (auto simp: establish_def)
  next
    case True
    then obtain hfile where hfile: "c = Inr 0" "w = Inr hfile" by blast
    define argv where "argv = mb_binary (mo_backend cfg) # buildMountArgs (mo_backend cfg) port (mo_key_path cfg) hfile ip (mc_share mc) ?p"
    obtain r m5 where a: "ask env (CStart argv) m4 = (r, m5)" by (cases "ask env (CStart argv) m4")
    have "safe_start cfg (history m4) argv"
      using start_is_safe [OF _ assms(2) _ k] c w hfile unfolding argv_def by blast
    then have m5: "ok_but cfg {?p} m5" "activeMounts m5 = activeMounts m"
      using ok_but_ask [OF m4, of "CStart argv" env] a m4e(2) by (simp_all add: ask_eq)
    obtain e6 m6 where v: "verify_mount (mo_verify_polls cfg) env cfg ?p m5 = (e6, m6)"
      by (cases "verify_mount (mo_verify_polls cfg) env cfg ?p m5")
    note m6 = verify_ok [OF assms(1,2) m5(1) v]
    let ?new = "\<lambda>x. x\<lparr>activeMounts := (activeMounts x)((mc_device mc, mc_share mc) \<mapsto>
        \<lparr>mt_device = mc_device mc, mt_share = mc_share mc, mt_path = ?p, mt_ip = ip, mt_port = port, mt_gen = next_gen x\<rparr>),
        next_gen := Suc (next_gen x)\<rparr>"
    have res: "snd (establish env cfg mc did ip port m) =
        (if err_of r \<noteq> None then snd (guardTarget env cfg ?p m5) else if e6 = None then ?new m6 else m6)"
      using g m1(2) c w hfile k m4e(1) a v
      by (auto simp: establish_def Let_def argv_def split: option.split)
    have "ok_but cfg {} (snd (guardTarget env cfg ?p m5))"
      using ok_but_guard [OF assms(1,2) m5(1), of ?p] by simp
    moreover have "ok_but cfg {} (?new m6)" if "e6 = None"
    proof -
      have none: "activeMounts m6 (mc_device mc, mc_share mc) = None" using m6 m5(2) assms(4) by simp
      have "\<exists>kk x. activeMounts (?new m6) kk = Some x \<and> mt_path x = p" if lm: "last_mode (history m6) p = Some mountableMode" for p
      proof -
        have "p = ?p \<or> (\<exists>kk x. activeMounts m6 kk = Some x \<and> mt_path x = p)"
          using m6 \<open>e6 = None\<close> lm unfolding ok_but_def guarded_but_def if_P [OF \<open>e6 = None\<close>] by blast
        then show ?thesis
        proof
          assume "p = ?p"
          then show ?thesis by (intro exI [of _ "(mc_device mc, mc_share mc)"]) simp
        next
          assume "\<exists>kk x. activeMounts m6 kk = Some x \<and> mt_path x = p"
          then obtain kk x where "activeMounts m6 kk = Some x" "mt_path x = p" by blast
          with none show ?thesis by (intro exI [of _ kk] exI [of _ x]) auto
        qed
      qed
      then show ?thesis using m6 by (simp add: ok_but_def guarded_but_def)
    qed
    moreover have "ok_but cfg {} m6" if "e6 \<noteq> None" using m6 that by simp
    ultimately show ?thesis using res by simp
  qed
qed

lemma remount_ok:
  assumes "obeys env" and "\<not> mo_stub cfg" and "ok_but cfg {} m"
    and "activeMounts m (mc_device mc, mc_share mc) = Some mnt" and "mt_path mnt = mc_to mc"
  shows "ok_but cfg {} (snd (remount env cfg mc did ip port m))"
proof -
  obtain e m1 where u: "unmountKey env cfg (mc_device mc, mc_share mc) True False m = (e, m1)"
    by (cases "unmountKey env cfg (mc_device mc, mc_share mc) True False m")
  have "ok_but cfg (if e = None then {mc_to mc} else {}) m1"
    using ok_but_unmountKey [OF assms(1-3) u] assms(4,5) by (cases e) simp_all
  moreover have "e = None \<longrightarrow> activeMounts m1 (mc_device mc, mc_share mc) = None"
    using unmountKey_active [OF u] by simp
  ultimately show ?thesis using u establish_ok [OF assms(1,2), of mc m1]
    by (cases e) (auto simp: remount_def)
qed

lemma probe_ok:
  assumes "ok_but cfg {} m" and "\<And>x. ok_but cfg {} x \<Longrightarrow> ok_but cfg {} (others x)"
    and "probeGenerationLocked env others key mnt m = (hl, oc, m')"
  shows "ok_but cfg {} m' \<and> (oc = EntryCurrent \<longrightarrow> activeMounts m' key = Some mnt)"
proof -
  define m1 where "m1 = (if probes m key = Some (mt_gen mnt) then m
    else (snd (ask env (CProbe (mt_path mnt)) m))\<lparr>probes := (probes m)(key \<mapsto> mt_gen mnt)\<rparr>)"
  have pr: "ok_but cfg {} (x\<lparr>probes := y\<rparr>) \<longleftrightarrow> ok_but cfg {} x" for x y
    by (simp add: ok_but_def guarded_but_def)
  have "ok_but cfg {} m1" using assms(1) ok_but_ask [OF assms(1), of "CProbe (mt_path mnt)" env] by (simp add: m1_def pr)
  then have o: "ok_but cfg {} (others m1)" by (rule assms(2))
  obtain h2 m2 where aw: "awaitProbe env key mnt (others m1) = (h2, m2)" by (cases "awaitProbe env key mnt (others m1)")
  have "ok_but cfg {} m2"
    using aw ok_but_ask [OF o, of "CStat (mt_path mnt)" env]
    by (auto simp: awaitProbe_def ask_eq pr split: prod.splits if_splits)
  then show ?thesis using assms(3) aw unfolding probeGenerationLocked_def m1_def [symmetric] Let_def
    by (auto split: option.splits if_splits)
qed

lemma Mount_ok:
  assumes "obeys env" and "\<not> mo_stub cfg" and "ok_but cfg {} m"
    and "\<And>x. ok_but cfg {} x \<Longrightarrow> ok_but cfg {} (others x)"
    and "\<And>mnt. activeMounts m (mc_device mc, mc_share mc) = Some mnt \<Longrightarrow> mt_path mnt = mc_to mc"
  shows "ok_but cfg {} (snd (Mount env others cfg mc did ip port m))"
proof (cases "activeMounts m (mc_device mc, mc_share mc)")
  case None
  then show ?thesis using establish_ok [OF assms(1,2) ok_but_mono [OF assms(3)] None] by (simp add: Mount_def)
next
  case (Some mnt)
  obtain hl oc m1 where p: "probeGenerationLocked env others (mc_device mc, mc_share mc) mnt m = (hl, oc, m1)"
    by (metis prod_cases3)
  note m1 = probe_ok [OF assms(3,4) p]
  have "oc \<noteq> EntryReplaced \<Longrightarrow> oc \<noteq> EntryVanished \<Longrightarrow> oc = EntryCurrent" by (cases oc) simp_all
  then show ?thesis
    using Some p m1 remount_ok [OF assms(1,2), of m1 mc mnt] remount_ok [OF assms(1-3) Some] assms(5) [OF Some]
    by (auto simp: Mount_def)
qed

subsection \<open>Every run of the mount table\<close>

text \<open>
  What the daemon's goroutines do to the table; while a probe waits, others run. A mount is
  asked for at the path its entry already has: the configuration keeps one target per share.
\<close>

inductive mounter_steps :: "host \<Rightarrow> mounter_config \<Rightarrow> mounter \<Rightarrow> mounter \<Rightarrow> bool"
  for env :: host and cfg :: mounter_config where
  steps_refl: "mounter_steps env cfg m m"
| steps_trans: "mounter_steps env cfg a b \<Longrightarrow> mounter_steps env cfg b c \<Longrightarrow> mounter_steps env cfg a c"
| step_Mount: "(\<And>x. mounter_steps env cfg x (others x)) \<Longrightarrow>
    (\<And>mnt. activeMounts m (mc_device mc, mc_share mc) = Some mnt \<Longrightarrow> mt_path mnt = mc_to mc) \<Longrightarrow>
    mounter_steps env cfg m (snd (Mount env others cfg mc did ip port m))"
| step_Unmount: "mounter_steps env cfg m (snd (Unmount env cfg device share m))"
| step_UnmountDevice: "mounter_steps env cfg m (snd (UnmountDevice env cfg keys device m))"
| step_UnmountAll: "mounter_steps env cfg m (snd (UnmountAll env cfg keys m))"
| step_guard: "mounter_steps env cfg m (snd (guardTarget env cfg p m))"
| step_unguard: "mounter_steps env cfg m (snd (unguardTarget env cfg p m))"

lemma steps_ok:
  assumes "mounter_steps env cfg m m'" and "obeys env" and "\<not> mo_stub cfg"
  shows "ok_but cfg {} m \<Longrightarrow> ok_but cfg {} m'"
  using assms(1)
proof (induction rule: mounter_steps.induct)
  case (steps_trans a b c)
  then show ?case by blast
next
  case (step_Mount others m mc did ip port)
  then show ?case by (intro Mount_ok [OF assms(2,3)]) auto
next
  case (step_Unmount m device share)
  then show ?case using ok_but_unmountKey_reguard [OF assms(2,3)] by (simp add: Unmount_def)
next
  case (step_UnmountDevice m keys device)
  then show ?case using ok_but_unmount_keys [OF assms(2,3)] by (simp add: UnmountDevice_def)
next
  case (step_UnmountAll m keys)
  then show ?case using ok_but_unmount_keys [OF assms(2,3)] by (simp add: UnmountAll_def)
next
  case (step_guard m p)
  then show ?case using ok_but_guard [OF assms(2,3) step_guard, of p] by simp
next
  case (step_unguard m p)
  have "normalMode \<noteq> mountableMode" by (simp add: normalMode_def mountableMode_def)
  then have "ok_but cfg {} (snd (ask env (CChmod p normalMode) m))" by (intro ok_but_ask step_unguard) simp
  then show ?case using assms(3) by (auto simp: unguardTarget_def case_prod_beta split: option.split)
qed



lemma fine_host_answers [simp]:
  "fine_host h (CStat p) = RBool True" "fine_host h (CReadDir p) = RCount 0" "fine_host h (CLoadKey d) = RText ''ssh-ed25519 K''"
  "fine_host h CCancelled = RBool False" "fine_host h (CChmod p md) = ROk" "fine_host h (CMkdirAll p) = ROk"
  "fine_host h (CUnmount p b) = ROk" "fine_host h CWait = ROk" "fine_host h (CStart a) = ROk"
  "fine_host h (CWriteKnownHosts p c) = ROk" "err_of ROk = None" "fine_host h (CProbe p) = ROk"
  by (simp_all add: fine_host_def err_of_def)

text \<open>
  The restriction to one target per share is needed, and the configuration does not keep
  it: when the target of a mounted share has been edited, which \<open>ComputeDiff\<close> does not report,
  the next change of the peer's address mounts at the new target and leaves the old one
  writable with no mount on it, even on a host that carries out every call.
\<close>

theorem edited_target_left_writable:
  assumes "activeMounts m (mc_device mc, mc_share mc) = Some mnt" and "mt_ip mnt \<noteq> ip" and "mt_path mnt \<noteq> mc_to mc"
    and "\<not> mo_stub cfg" and "mo_known_devices cfg \<noteq> []" and "mo_known_hosts cfg \<noteq> []" and "validateDeviceID did"
    and "last_mode (history m) (mt_path mnt) = Some mountableMode"
  shows "map_option mt_path (activeMounts (snd (Mount fine_host others cfg mc did ip port m)) (mc_device mc, mc_share mc)) = Some (mc_to mc) \<and>
    last_mode (history (snd (Mount fine_host others cfg mc did ip port m))) (mt_path mnt) = Some mountableMode"
proof -
  have v: "verify_mount n fine_host cfg p x = (None, x\<lparr>history := (CStat p, RBool True) # (CCancelled, RBool False) # history x\<rparr>)" for n p x
    by (subst verify_mount.simps) (simp add: ask_def Let_def)
  show ?thesis using assms
    by (simp add: Mount_def remount_def unmountKey_def reguard_after_def drop_entry_def establish_def guardTarget_def
        targetHasLocalContents_def writeKnownHostsFile_def makeMountable_def v ask_def Let_def)
qed

definition mounted_at_old :: mounter where
  "mounted_at_old = snd (Mount fine_host id sample_mounter_config (sample_mount_config ''/old'') ''d1'' ''10.0.0.2'' 2222 empty_mounter)"

lemma edited_target_left_writable_witness:
  "last_mode (history (snd (Mount fine_host id sample_mounter_config (sample_mount_config ''/new'') ''d1'' ''10.0.0.3'' 2222 mounted_at_old))) ''/old'' =
   Some mountableMode"
proof -
  let ?mc = "sample_mount_config ''/new''"
  have "map_option (\<lambda>x. (mt_ip x, mt_path x)) (activeMounts mounted_at_old (''mac'', ''docs'')) = Some (''10.0.0.2'', ''/old'')"
    by code_simp
  then obtain mnt where mnt: "activeMounts mounted_at_old (mc_device ?mc, mc_share ?mc) = Some mnt"
      "mt_ip mnt = ''10.0.0.2''" "mt_path mnt = ''/old''"
    by (auto simp: sample_mount_config_def)
  have old: "last_mode (history mounted_at_old) ''/old'' = Some mountableMode" by code_simp
  have "validateDeviceID ''d1''" by code_simp
  then show ?thesis
    using edited_target_left_writable [OF mnt(1), of "''10.0.0.3''" sample_mounter_config "''d1''" id 2222] mnt(2,3) old
    by (simp add: sample_mount_config_def sample_mounter_config_def)
qed

end
