(* ===== verification/SshServer.thy ===== *)
theory SshServer
  imports Sftp "HOL-Library.Word"
begin

unbundle bit_operations_syntax

text \<open>
  The agent's embedded SSH server (internal/agent/sshserver.go): the index of authorised keys,
  the snapshot of access lists, the listener, the accept loop with its backoff, and the requests
  of a channel. The handshake, the key format and the SFTP request server are libraries: a key
  is the bytes it marshals to.
\<close>

subsection \<open>State\<close>

datatype listener = Open | Closed

record ssh_server =
  ss_index :: "string \<rightharpoonup> string"
  ss_port :: int
  ss_listener :: "listener option"
  ss_stopping :: bool
  ss_acls :: "share_acl list"

definition NewSSHServer :: "int \<Rightarrow> ssh_server" where
  "NewSSHServer port = \<lparr>ss_index = Map.empty, ss_port = port, ss_listener = None, ss_stopping = False,
     ss_acls = []\<rparr>"

text \<open>The id the connection carries from here on; \<open>None\<close> refuses it.\<close>

definition publicKeyCallback :: "ssh_server \<Rightarrow> string \<Rightarrow> string option" where
  "publicKeyCallback s key = ss_index s key"

definition UpdateACLs :: "share_acl list \<Rightarrow> ssh_server \<Rightarrow> ssh_server" where
  "UpdateACLs acls s = s\<lparr>ss_acls := acls\<rparr>"

text \<open>The pairs in the order in which the map is iterated: the last device with a key keeps it.\<close>

definition UpdateAllowedKeys :: "(string \<times> string) list \<Rightarrow> ssh_server \<Rightarrow> ssh_server" where
  "UpdateAllowedKeys keys s = s\<lparr>ss_index := fold (\<lambda>(did, k) idx. idx(k \<mapsto> did)) keys Map.empty\<rparr>"

subsection \<open>Listening\<close>

text \<open>\<open>bound\<close>: what \<open>net.Listen\<close> says.\<close>

definition Listen :: "string option \<Rightarrow> ssh_server \<Rightarrow> string option \<times> ssh_server" where
  "Listen bound s =
     (case bound of
        Some e \<Rightarrow> (Some e, s)
      | None \<Rightarrow> (None, s\<lparr>ss_listener := Some Open, ss_stopping := False\<rparr>))"

text \<open>\<open>cl\<close>: the error of closing an open listener; a closed one answers \<open>net.ErrClosed\<close>.\<close>

definition StopSSH :: "string option \<Rightarrow> ssh_server \<Rightarrow> string option \<times> ssh_server" where
  "StopSSH cl s =
     (let s1 = s\<lparr>ss_stopping := True\<rparr> in
      case ss_listener s of
        None \<Rightarrow> (None, s1)
      | Some Closed \<Rightarrow> (None, s1)
      | Some Open \<Rightarrow> (case cl of None \<Rightarrow> (None, s1\<lparr>ss_listener := Some Closed\<rparr>) | Some e \<Rightarrow> (Some e, s1)))"

subsection \<open>The accept loop\<close>

datatype errno = EMFILE | ENFILE | ENOBUFS | ENOMEM | EErrno string

definition isTransientAcceptError :: "errno \<Rightarrow> bool" where
  "isTransientAcceptError e = (e = EMFILE \<or> e = ENFILE \<or> e = ENOBUFS \<or> e = ENOMEM)"

definition acceptRetryInitial :: duration where "acceptRetryInitial = 5 * millisecond"
definition acceptRetryMax :: duration where "acceptRetryMax = 1 * second"

text \<open>
  One return of \<open>Accept\<close>: a connection, or an error with whether the context was done by then,
  whether \<open>Stop\<close> had been called, and whether the context ends during the wait that follows.
\<close>

datatype accept = Conn | AcceptErr errno (acc_done: bool) (acc_stopping: bool) (acc_wait_done: bool)

datatype serve_result = Serving | ServeStopped | ServeDied errno | NotBound

text \<open>The result, the number of connections handed over and the waits made.\<close>

fun accept_loop :: "duration \<Rightarrow> accept list \<Rightarrow> serve_result \<times> nat \<times> duration list" where
  "accept_loop backoff [] = (Serving, 0, [])"
| "accept_loop backoff (a # as) =
     (case a of
        Conn \<Rightarrow> (case accept_loop acceptRetryInitial as of (r, n, ws) \<Rightarrow> (r, Suc n, ws))
      | AcceptErr e dn st wt \<Rightarrow>
          if dn \<or> st then (ServeStopped, 0, [])
          else if isTransientAcceptError e
          then if wt then (ServeStopped, 0, [backoff])
               else (case accept_loop (if backoff * 2 > acceptRetryMax then acceptRetryMax else backoff * 2) as of
                       (r, n, ws) \<Rightarrow> (r, n, backoff # ws))
          else (ServeDied e, 0, []))"

definition ServeSSH :: "ssh_server \<Rightarrow> accept list \<Rightarrow> serve_result \<times> nat \<times> duration list" where
  "ServeSSH s as = (if ss_listener s = None then (NotBound, 0, []) else accept_loop acceptRetryInitial as)"

subsection \<open>Channels\<close>

record channel_request =
  rq_type :: string
  rq_want_reply :: bool
  rq_payload :: "8 word list"

text \<open>The length prefix, as the 64-bit \<open>int\<close> the code computes.\<close>

definition name_len :: "8 word list \<Rightarrow> int" where
  "name_len p = sint ((push_bit 24 (ucast (p ! 0)) OR push_bit 16 (ucast (p ! 1)) OR push_bit 8 (ucast (p ! 2)) OR
     ucast (p ! 3)) :: 64 word)"

definition bytes_string :: "8 word list \<Rightarrow> string" where
  "bytes_string bs = map (\<lambda>b. char_of (unat b)) bs"

text \<open>
  The loop over the requests: the replies sent, and whether the channel was handed to the SFTP
  server. \<open>None\<close>: a slice bound was out of range, the panic that ends the process.
\<close>

definition reply_to :: "channel_request \<Rightarrow> bool \<Rightarrow> bool list" where
  "reply_to r b = (if rq_want_reply r then [b] else [])"

fun channel_requests :: "channel_request list \<Rightarrow> (bool list \<times> bool) option" where
  "channel_requests [] = Some ([], False)"
| "channel_requests (r # rs) =
     (let refuse = map_option (\<lambda>(replies, served). (reply_to r False @ replies, served)) (channel_requests rs) in
      if rq_type r \<noteq> ''subsystem'' then refuse
      else if length (rq_payload r) < 4 then refuse
      else (let nameLen = name_len (rq_payload r) in
            if 4 + nameLen > int (length (rq_payload r)) then refuse
            else if nameLen < 0 then None
            else (let subsystemName = bytes_string (take (nat nameLen) (drop 4 (rq_payload r))) in
                  if subsystemName \<noteq> ''sftp'' then refuse
                  else Some (reply_to r True, True))))"

text \<open>\<open>None\<close>: the channel is rejected.\<close>

definition handleChannel :: "string \<Rightarrow> bool \<Rightarrow> channel_request list \<Rightarrow> (bool list \<times> bool) option option" where
  "handleChannel chan_type accepted rs =
     (if chan_type \<noteq> ''session'' then None
      else if \<not> accepted then Some (Some ([], False))
      else Some (channel_requests rs))"

subsection \<open>Requests\<close>

definition string_bytes :: "string \<Rightarrow> 8 word list" where
  "string_bytes s = map (\<lambda>ch. of_char ch) s"

definition length_prefix :: "nat \<Rightarrow> 8 word list" where
  "length_prefix n = [word_of_nat (n div 2 ^ 24), word_of_nat (n div 2 ^ 16), word_of_nat (n div 2 ^ 8), word_of_nat n]"

text \<open>A request for the sftp subsystem, as the protocol encodes it; what follows the name is ignored.\<close>

definition asks_sftp :: "channel_request \<Rightarrow> bool" where
  "asks_sftp r \<longleftrightarrow> rq_type r = ''subsystem'' \<and>
     take 8 (rq_payload r) = length_prefix 4 @ string_bytes ''sftp''"

lemma byte_bit: "bit (x :: 8 word) n \<Longrightarrow> n < 8"
  using bit_imp_le_length [of x n] by simp

lemma bytes_disjoint:
  fixes a b c d :: "8 word"
  shows "push_bit 24 (ucast a) AND push_bit 16 (ucast b) = (0 :: 64 word)"
    "(push_bit 24 (ucast a) OR push_bit 16 (ucast b)) AND push_bit 8 (ucast c) = (0 :: 64 word)"
    "((push_bit 24 (ucast a) OR push_bit 16 (ucast b)) OR push_bit 8 (ucast c)) AND ucast d = (0 :: 64 word)"
  by (auto intro!: bit_eqI simp: bit_simps dest!: byte_bit)

lemma prefix_bound:
  assumes "a < 256" "b < 256" "c < 256" "d < 256" "0 \<le> a" "0 \<le> b" "0 \<le> c" "0 \<le> (d :: int)"
  shows "- (2 ^ 63) \<le> a * 2 ^ 24 + b * 2 ^ 16 + c * 2 ^ 8 + d" "a * 2 ^ 24 + b * 2 ^ 16 + c * 2 ^ 8 + d < 2 ^ 63"
  using assms by simp_all

lemma prefix_four:
  assumes "0 \<le> a" "0 \<le> b" "0 \<le> c" "0 \<le> (d :: int)"
  shows "a * 2 ^ 24 + b * 2 ^ 16 + c * 2 ^ 8 + d = 4 \<longleftrightarrow> a = 0 \<and> b = 0 \<and> c = 0 \<and> d = 4"
proof
  assume sum: "a * 2 ^ 24 + b * 2 ^ 16 + c * 2 ^ 8 + d = 4"
  then have a: "a = 0" using assms by simp
  then have b: "b = 0" using assms sum by simp
  then have "c = 0" using assms sum a by simp
  then show "a = 0 \<and> b = 0 \<and> c = 0 \<and> d = 4" using sum a b by simp
qed simp

lemma name_len_value:
  "name_len (a # b # c # d # p) = uint a * 2 ^ 24 + uint b * 2 ^ 16 + uint c * 2 ^ 8 + uint d"
proof -
  let ?w = "ucast a * 2 ^ 24 + ucast b * 2 ^ 16 + ucast c * 2 ^ 8 + ucast d :: 64 word"
  have small: "uint x < 256" "0 \<le> uint x" for x :: "8 word" using uint_lt2p [of x] by simp_all
  have "?w = push_bit 24 (ucast a) + push_bit 16 (ucast b) + push_bit 8 (ucast c) + ucast d"
    by (simp only: push_bit_eq_mult)
  also have "\<dots> = ((push_bit 24 (ucast a) OR push_bit 16 (ucast b)) OR push_bit 8 (ucast c)) OR ucast d"
    by (simp only: disjunctive_add_eq_or bytes_disjoint)
  finally have w: "push_bit 24 (ucast a) OR push_bit 16 (ucast b) OR push_bit 8 (ucast c) OR ucast d = ?w"
    by (simp only: or.assoc)
  have "?w = word_of_int (uint a * 2 ^ 24 + uint b * 2 ^ 16 + uint c * 2 ^ 8 + uint d)"
    by (simp only: of_int_add of_int_mult of_int_power of_int_numeral ucast_eq [symmetric])
  then have "sint ?w = signed_take_bit (LENGTH(64) - 1) (uint a * 2 ^ 24 + uint b * 2 ^ 16 + uint c * 2 ^ 8 + uint d)"
    by (simp only: sint_sbintrunc')
  also have "\<dots> = uint a * 2 ^ 24 + uint b * 2 ^ 16 + uint c * 2 ^ 8 + uint d"
  proof (rule signed_take_bit_int_eq_self)
    show "- (2 ^ (LENGTH(64) - 1)) \<le> uint a * 2 ^ 24 + uint b * 2 ^ 16 + uint c * 2 ^ 8 + uint d"
      using prefix_bound(1) [OF small(1) [of a] small(1) [of b] small(1) [of c] small(1) [of d]
        small(2) [of a] small(2) [of b] small(2) [of c] small(2) [of d]] by simp
    show "uint a * 2 ^ 24 + uint b * 2 ^ 16 + uint c * 2 ^ 8 + uint d < 2 ^ (LENGTH(64) - 1)"
      using prefix_bound(2) [OF small(1) [of a] small(1) [of b] small(1) [of c] small(1) [of d]
        small(2) [of a] small(2) [of b] small(2) [of c] small(2) [of d]] by simp
  qed
  finally show ?thesis using w by (simp add: name_len_def)
qed

lemma four_bytes: "4 \<le> length p \<Longrightarrow> \<exists>a b c d q. p = a # b # c # d # q"
  by (cases p; cases "tl p"; cases "tl (tl p)"; cases "tl (tl (tl p))") auto

lemma name_len_nonneg: "4 \<le> length p \<Longrightarrow> 0 \<le> name_len p"
  by (drule four_bytes) (auto simp: name_len_value)

lemma name_len_four:
  "4 \<le> length p \<Longrightarrow> name_len p = 4 \<longleftrightarrow> take 4 p = length_prefix 4"
proof -
  assume "4 \<le> length p"
  then obtain a b c d q where p: "p = a # b # c # d # q" using four_bytes by blast
  have four: "(uint d = 4) = (d = 4)"
    by (simp add: word_uint_eq_iff)
  have "name_len p = 4 \<longleftrightarrow> uint a = 0 \<and> uint b = 0 \<and> uint c = 0 \<and> uint d = 4"
    unfolding p name_len_value by (rule prefix_four) simp_all
  then show ?thesis using p four by (simp add: length_prefix_def uint_0_iff)
qed

lemma length_prefix_length: "length (length_prefix n) = 4"
  by (simp add: length_prefix_def)

lemma unat_of_char: "unat (of_char ch :: 8 word) = of_char ch"
proof -
  have "unat (of_nat (of_char ch) :: 8 word) = of_char ch mod 2 ^ LENGTH(8)" by (rule unat_of_nat)
  also have "\<dots> = of_char ch" using nat_of_char_less_256 [of ch] by simp
  finally show ?thesis by (simp only: of_nat_of_char)
qed

lemma bytes_of_string: "bytes_string (string_bytes s) = s"
  by (simp add: bytes_string_def string_bytes_def unat_of_char o_def)

lemma of_char_unat: "(of_char (char_of (unat b) :: char) :: 8 word) = b"
proof -
  have "unat b < 2 ^ LENGTH(8)" by (rule unsigned_less)
  then have "unat b < 256" by simp
  then have "of_char (char_of (unat b) :: char) = unat b" by simp
  then show ?thesis by (metis of_nat_of_char word_nat_cases unat_of_char word_unat_eq_iff)
qed

lemma string_of_bytes: "string_bytes (bytes_string bs) = bs"
  by (simp add: bytes_string_def string_bytes_def of_char_unat map_idI)

text \<open>What the loop does: it never leaves the slice, and it serves the first request that asks for sftp.\<close>

lemma asks_sftp_iff:
  assumes "rq_type r = ''subsystem''" and "4 \<le> length (rq_payload r)"
    and "4 + name_len (rq_payload r) \<le> int (length (rq_payload r))"
  shows "asks_sftp r \<longleftrightarrow> bytes_string (take (nat (name_len (rq_payload r))) (drop 4 (rq_payload r))) = ''sftp''"
proof -
  let ?p = "rq_payload r"
  have text4: "bytes_string bs = ''sftp'' \<longleftrightarrow> bs = string_bytes ''sftp''" for bs
    by (metis string_of_bytes bytes_of_string)
  show ?thesis
  proof (cases "name_len ?p = 4")
    case True
    have "take 8 ?p = take 4 ?p @ take 4 (drop 4 ?p)" by (metis numeral_plus_numeral semiring_norm(2) semiring_norm(6) take_add)
    then show ?thesis using True assms name_len_four [OF assms(2)] text4
      by (simp add: asks_sftp_def append_eq_append_conv length_prefix_def)
  next
    case False
    have "length (bytes_string (take (nat (name_len ?p)) (drop 4 ?p))) = nat (name_len ?p)"
      using assms(3) name_len_nonneg [OF assms(2)] by (simp add: bytes_string_def)
    then have "bytes_string (take (nat (name_len ?p)) (drop 4 ?p)) \<noteq> ''sftp''"
      using False name_len_nonneg [OF assms(2)] by fastforce
    moreover have "take 4 (take 8 ?p) \<noteq> length_prefix 4" using False name_len_four [OF assms(2)] by simp
    then have "\<not> asks_sftp r" by (metis asks_sftp_def append_eq_conv_conj length_prefix_length)
    ultimately show ?thesis by simp
  qed
qed

lemma asks_sftp_prefix:
  assumes "asks_sftp r"
  shows "8 \<le> length (rq_payload r)" "take 4 (rq_payload r) = length_prefix 4"
proof -
  have p: "take 8 (rq_payload r) = length_prefix 4 @ string_bytes ''sftp''" using assms by (simp add: asks_sftp_def)
  have "length (take 8 (rq_payload r)) = 8" unfolding p by (simp add: length_prefix_length string_bytes_def)
  then show "8 \<le> length (rq_payload r)" by simp
  have "take 4 (rq_payload r) = take 4 (take 8 (rq_payload r))" by simp
  then show "take 4 (rq_payload r) = length_prefix 4" unfolding p by (simp add: length_prefix_length)
qed

text \<open>
  The requests of a channel never bring the process down: whatever lengths a peer announces,
  no slice leaves its payload. The channel is handed to the SFTP server exactly when some
  request asks for the sftp subsystem; every earlier request that wants a reply is refused, that
  one is accepted, and none after it is answered.
\<close>

theorem channel_requests_answered:
  "\<exists>before rest. rs = before @ rest \<and> list_all (\<lambda>r. \<not> asks_sftp r) before \<and>
     (rest = [] \<or> asks_sftp (hd rest)) \<and>
     channel_requests rs = Some (concat (map (\<lambda>r. reply_to r False) before) @
       (case rest of [] \<Rightarrow> [] | r # _ \<Rightarrow> reply_to r True), rest \<noteq> [])"
proof (induction rs)
  case (Cons r rs)
  then obtain before rest where ih: "rs = before @ rest" "list_all (\<lambda>r. \<not> asks_sftp r) before"
    "rest = [] \<or> asks_sftp (hd rest)"
    "channel_requests rs = Some (concat (map (\<lambda>r. reply_to r False) before) @
       (case rest of [] \<Rightarrow> [] | r # _ \<Rightarrow> reply_to r True), rest \<noteq> [])" by blast
  have step: "channel_requests (r # rs) =
    (if asks_sftp r then Some (reply_to r True, True)
     else map_option (\<lambda>(replies, served). (reply_to r False @ replies, served)) (channel_requests rs))"
  proof (cases "rq_type r = ''subsystem'' \<and> 4 \<le> length (rq_payload r) \<and>
      4 + name_len (rq_payload r) \<le> int (length (rq_payload r))")
    case True
    then show ?thesis using asks_sftp_iff [of r] name_len_nonneg [of "rq_payload r"] by (simp add: Let_def)
  next
    case False
    have "\<not> asks_sftp r"
    proof
      assume a: "asks_sftp r"
      then have l: "8 \<le> length (rq_payload r)" "name_len (rq_payload r) = 4"
        using asks_sftp_prefix [of r] name_len_four [of "rq_payload r"] by simp_all
      then show False using False a l by (simp add: asks_sftp_def)
    qed
    then show ?thesis using False by (auto simp: Let_def)
  qed
  show ?case
  proof (cases "asks_sftp r")
    case True
    then have "r # rs = [] @ (r # rs)" "list_all (\<lambda>r. \<not> asks_sftp r) []" by simp_all
    then show ?thesis using True step by (intro exI [of _ "[]"] exI [of _ "r # rs"]) simp
  next
    case False
    then show ?thesis using step ih by (intro exI [of _ "r # before"] exI [of _ rest]) simp
  qed
qed simp

subsection \<open>The accept loop rides out what passes\<close>

fun survivable :: "accept \<Rightarrow> bool" where
  "survivable Conn = True"
| "survivable (AcceptErr e dn st wt) = (\<not> dn \<and> \<not> st \<and> isTransientAcceptError e \<and> \<not> wt)"

definition next_wait :: "duration \<Rightarrow> duration" where
  "next_wait w = (if w * 2 > acceptRetryMax then acceptRetryMax else w * 2)"

definition wait_after :: "duration \<Rightarrow> accept \<Rightarrow> duration" where
  "wait_after w a = (if a = Conn then acceptRetryInitial else next_wait w)"

lemma accept_step:
  assumes "survivable a"
  shows "fst (accept_loop w (a # as)) = fst (accept_loop (wait_after w a) as)"
    "fst (snd (accept_loop w (a # as))) = (if a = Conn then 1 else 0) + fst (snd (accept_loop (wait_after w a) as))"
    "snd (snd (accept_loop w (a # as))) = (if a = Conn then [] else [w]) @ snd (snd (accept_loop (wait_after w a) as))"
  using assms by (cases a; simp add: wait_after_def next_wait_def split: prod.split)+

lemma accept_end:
  assumes "\<not> survivable a"
  shows "(\<exists>e wt. a = AcceptErr e False False wt \<and> \<not> isTransientAcceptError e \<and> accept_loop w (a # as) = (ServeDied e, 0, [])) \<or>
    (accept_loop w (a # as) = (ServeStopped, 0, []) \<or> accept_loop w (a # as) = (ServeStopped, 0, [w])) \<and>
     (\<forall>e wt. a = AcceptErr e False False wt \<longrightarrow> isTransientAcceptError e)"
  using assms by (cases a) auto

declare accept_loop.simps(2) [simp del]

lemma accept_dies:
  "fst (accept_loop w as) = ServeDied e \<longleftrightarrow>
     (\<exists>pre post wt. as = pre @ AcceptErr e False False wt # post \<and> list_all survivable pre \<and> \<not> isTransientAcceptError e)"
proof (induction as arbitrary: w)
  case (Cons a as)
  show ?case
  proof (cases "survivable a")
    case True
    have "(\<exists>pre post wt. a # as = pre @ AcceptErr e False False wt # post \<and> list_all survivable pre \<and> \<not> isTransientAcceptError e) \<longleftrightarrow>
        (\<exists>pre post wt. as = pre @ AcceptErr e False False wt # post \<and> list_all survivable pre \<and> \<not> isTransientAcceptError e)"
      (is "?l \<longleftrightarrow> ?r")
    proof
      assume ?l
      then obtain pre post wt where l: "a # as = pre @ AcceptErr e False False wt # post" "list_all survivable pre"
        "\<not> isTransientAcceptError e" by blast
      then show ?r using True by (cases pre) auto
    next
      assume ?r
      then obtain pre post wt where r: "as = pre @ AcceptErr e False False wt # post" "list_all survivable pre"
        "\<not> isTransientAcceptError e" by blast
      then have "a # as = (a # pre) @ AcceptErr e False False wt # post" "list_all survivable (a # pre)" using True by simp_all
      then show ?l using r(3) by blast
    qed
    then show ?thesis using accept_step(1) [OF True] Cons.IH by simp
  next
    case False
    have "(\<exists>pre post wt. a # as = pre @ AcceptErr e False False wt # post \<and> list_all survivable pre \<and> \<not> isTransientAcceptError e)
        \<longleftrightarrow> (\<exists>wt. a = AcceptErr e False False wt) \<and> \<not> isTransientAcceptError e" (is "?l \<longleftrightarrow> ?r")
    proof
      assume ?l
      then obtain pre post wt where l: "a # as = pre @ AcceptErr e False False wt # post" "list_all survivable pre"
        "\<not> isTransientAcceptError e" by blast
      then show ?r using False by (cases pre) auto
    next
      assume ?r
      then obtain wt where "a # as = [] @ AcceptErr e False False wt # as" by auto
      then show ?l using \<open>?r\<close> by (metis list.pred_inject(1))
    qed
    then show ?thesis using accept_end [OF False, of w as] by auto
  qed
qed simp

lemma accept_survives:
  "list_all survivable as \<Longrightarrow> fst (accept_loop w as) = Serving \<and> fst (snd (accept_loop w as)) = length (filter (\<lambda>a. a = Conn) as)"
  by (induction as arbitrary: w) (simp_all add: accept_step)

lemma accept_waits:
  "acceptRetryInitial \<le> w \<Longrightarrow> w \<le> acceptRetryMax \<Longrightarrow>
   list_all (\<lambda>v. acceptRetryInitial \<le> v \<and> v \<le> acceptRetryMax) (snd (snd (accept_loop w as)))"
proof (induction as arbitrary: w)
  case (Cons a as)
  have lim: "acceptRetryInitial \<le> acceptRetryMax" "acceptRetryInitial \<ge> 0"
    by (simp_all add: acceptRetryInitial_def acceptRetryMax_def duration_defs)
  show ?case
  proof (cases "survivable a")
    case True
    have "acceptRetryInitial \<le> wait_after w a \<and> wait_after w a \<le> acceptRetryMax"
      using Cons.prems lim by (auto simp: wait_after_def next_wait_def)
    then show ?thesis using Cons.prems Cons.IH [of "wait_after w a"] True by (simp add: accept_step)
  next
    case False
    then show ?thesis using Cons.prems accept_end [OF False, of w as] by auto
  qed
qed simp

lemma accept_backs_off:
  "snd (snd (accept_loop w (replicate n (AcceptErr EMFILE False False False)))) = map (\<lambda>k. (next_wait ^^ k) w) [0..<n]"
proof (induction n arbitrary: w)
  case (Suc n)
  have "map (\<lambda>k. (next_wait ^^ k) w) [0..<Suc n] = w # map (\<lambda>k. (next_wait ^^ k) (next_wait w)) [0..<n]"
    by (simp only: upt_conv_Cons [OF zero_less_Suc] map_Suc_upt [symmetric] list.map list.map_comp)
      (simp add: funpow_swap1 o_def)
  then show ?case using Suc.IH [of "next_wait w"]
    by (simp add: accept_step isTransientAcceptError_def wait_after_def)
qed simp

text \<open>
  The accept loop ends in death only on an error that is not a momentary lack of resources
  and that no stop explains; as long as errors are momentary it goes on and every connection is
  handed over; the waits stay between 5 ms and 1 s and double from one failure to the next.
\<close>

theorem accept_loop_rides_out:
  assumes "ss_listener s \<noteq> None"
  shows "((\<exists>r. ServeSSH s as = (ServeDied e, r)) =
      (\<exists>pre post wt. as = pre @ AcceptErr e False False wt # post \<and> list_all survivable pre \<and> \<not> isTransientAcceptError e)) \<and>
    (list_all survivable as \<longrightarrow>
      fst (ServeSSH s as) = Serving \<and> fst (snd (ServeSSH s as)) = length (filter (\<lambda>a. a = Conn) as)) \<and>
    list_all (\<lambda>v. 5 * millisecond \<le> v \<and> v \<le> second) (snd (snd (ServeSSH s as))) \<and>
    snd (snd (ServeSSH s (replicate n (AcceptErr EMFILE False False False)))) =
      map (\<lambda>k. (next_wait ^^ k) (5 * millisecond)) [0..<n]"
proof -
  have run: "ServeSSH s x = accept_loop acceptRetryInitial x" for x
    using assms unfolding ServeSSH_def by (rule if_not_P)
  have "(\<exists>r. ServeSSH s as = (ServeDied e, r)) = (fst (ServeSSH s as) = ServeDied e)" by (cases "ServeSSH s as") auto
  then show ?thesis
    using accept_dies [of acceptRetryInitial as e] accept_survives [of as acceptRetryInitial]
      accept_waits [of acceptRetryInitial as] accept_backs_off [of acceptRetryInitial n]
    unfolding run by (simp add: acceptRetryInitial_def acceptRetryMax_def duration_defs)
qed

definition busy_server :: ssh_server where
  "busy_server = snd (Listen None (NewSSHServer 2222))"

lemma accept_loop_rides_out_witness:
  "fst (ServeSSH busy_server [Conn, AcceptErr EMFILE False False False, Conn]) = Serving"
  using accept_loop_rides_out [of busy_server "[Conn, AcceptErr EMFILE False False False, Conn]"]
  by (simp add: busy_server_def Listen_def NewSSHServer_def isTransientAcceptError_def)

subsection \<open>Authorised keys\<close>

lemma index_of_keys:
  "fold (\<lambda>(did, k) idx. idx(k \<mapsto> did)) keys m k =
   (case map_of (rev (map (\<lambda>(did, k). (k, did)) keys)) k of None \<Rightarrow> m k | Some d \<Rightarrow> Some d)"
  by (induction keys arbitrary: m) (auto simp: map_add_def split: option.split)

lemma publicKeyCallback_iff:
  "publicKeyCallback (UpdateAllowedKeys keys s) k = None \<longleftrightarrow> k \<notin> snd ` set keys"
  "publicKeyCallback (UpdateAllowedKeys keys s) k = Some d \<Longrightarrow> (d, k) \<in> set keys"
  by (force simp: publicKeyCallback_def UpdateAllowedKeys_def index_of_keys map_of_eq_None_iff split: option.splits dest!: map_of_SomeD)+

lemma publicKeyCallback_distinct:
  assumes "distinct (map snd keys)"
  shows "publicKeyCallback (UpdateAllowedKeys keys s) k = Some d \<longleftrightarrow> (d, k) \<in> set keys"
proof
  assume dk: "(d, k) \<in> set keys"
  then obtain d' where d': "publicKeyCallback (UpdateAllowedKeys keys s) k = Some d'"
    using publicKeyCallback_iff(1) [of keys s k] by (cases "publicKeyCallback (UpdateAllowedKeys keys s) k") force+
  then have "(d', k) \<in> set keys" by (rule publicKeyCallback_iff(2))
  then show "publicKeyCallback (UpdateAllowedKeys keys s) k = Some d"
    using d' distinct_key_unique [OF assms dk] by force
qed (rule publicKeyCallback_iff(2))

end
