(* ===== verification/AgentDaemon.thy ===== *)
theory AgentDaemon
  imports Mounter SshServer Server
begin

text \<open>
  The agent daemon's reaction to the hub, to its configuration and to the clock
  (internal/agent/daemon.go, events.go, confighandler.go): the view of the online devices, the
  nickname cache, pairing, the mounts that follow from them, and the reconciliation with its
  backoff. A handler is a function from the daemon's state to the next. Log lines are left out.
\<close>

subsection \<open>State\<close>

record online_device =
  od_id :: string
  od_nickname :: string
  od_ip :: string
  od_port :: int
  od_shares :: "string list"

record reconcile_state =
  rs_last_err :: "mount_err option"
  rs_attempts :: nat
  rs_next_try :: time

record daemon =
  dm_config :: config
  onlineDevices :: "(string \<times> online_device) list"
  dm_nicknames :: nicknames
  dm_known :: dir_files
  dm_mounter :: mounter
  dm_ssh :: ssh_server
  everRegistered :: bool
  reconcileFails :: "mount_key \<rightharpoonup> reconcile_state"
  published :: "pb_share list list"

text \<open>
  What surrounds a handler: the host of its mounts and what other goroutines do to the mount
  table while a probe runs, the orders in which maps are iterated, which file operations made for
  a device fail, the JSON encoder, the key parser, and the clock and the context, which may
  change with every call to the host.
\<close>

record daemon_env =
  de_host :: host
  de_others :: "mounter \<Rightarrow> mounter"
  de_mounter :: mounter_config
  de_iter :: "(string \<times> online_device) list \<Rightarrow> (string \<times> online_device) list"
  de_keys :: "mounter \<Rightarrow> mount_key list"
  de_fail :: "string \<Rightarrow> file_step \<Rightarrow> bool"
  de_part :: string
  de_rnd :: string
  de_enc :: "nicknames \<Rightarrow> string"
  de_parse_key :: "string \<Rightarrow> string option"
  de_sorter :: "share_config list \<Rightarrow> share_config list"
  de_now :: "history \<Rightarrow> time"
  de_cancelled :: "history \<Rightarrow> bool"
  de_interval :: duration

text \<open>
  \<open>NewDaemon\<close>: what loading the configuration, the identity and the cache gave, and whether the
  SSH server could be created with the host key.
\<close>

datatype start_err = LoadConfigFailed | LoadIdentityFailed | MountToolUnsupported | SshServerFailed

definition NewDaemon ::
  "config option \<Rightarrow> bool \<Rightarrow> string \<Rightarrow> bool \<Rightarrow> keys_err + nicknames \<Rightarrow> dir_files \<Rightarrow> start_err + daemon" where
  "NewDaemon loaded identity_ok goos server_ok cached kn =
     (case loaded of
        None \<Rightarrow> Inl LoadConfigFailed
      | Some cfg \<Rightarrow>
          if \<not> identity_ok then Inl LoadIdentityFailed
          else if \<not> validateMountTool (ac_mount_tool (cf_agent cfg)) goos then Inl MountToolUnsupported
          else if \<not> server_ok then Inl SshServerFailed
          else Inr \<lparr>dm_config = cfg, onlineDevices = [],
            dm_nicknames = (case cached of Inl _ \<Rightarrow> [] | Inr ns \<Rightarrow> ns), dm_known = kn,
            dm_mounter = \<lparr>activeMounts = Map.empty, probes = Map.empty, next_gen = 0, history = []\<rparr>,
            dm_ssh = UpdateACLs (sharesToACL (cf_shares cfg)) (NewSSHServer (ac_ssh_port (cf_agent cfg))),
            everRegistered = False, reconcileFails = Map.empty, published = []\<rparr>)"

subsection \<open>Nicknames\<close>

definition NicknameForDeviceID :: "daemon \<Rightarrow> string \<Rightarrow> string option" where
  "NicknameForDeviceID d did =
     (case map_of (onlineDevices d) did of
        Some dev \<Rightarrow> if od_nickname dev \<noteq> [] then Some (od_nickname dev)
                   else (case map_of (dm_nicknames d) did of Some n \<Rightarrow> if n \<noteq> [] then Some n else None | None \<Rightarrow> None)
      | None \<Rightarrow> (case map_of (dm_nicknames d) did of Some n \<Rightarrow> if n \<noteq> [] then Some n else None | None \<Rightarrow> None))"

text \<open>What the SFTP handler of a connection decides about a share; the daemon is its resolver.\<close>

definition peer_access :: "daemon \<Rightarrow> string \<Rightarrow> string \<Rightarrow> access_decision option" where
  "peer_access d al did =
     map_option (\<lambda>a. Decide a did (Some (NicknameForDeviceID d))) (find (\<lambda>a. acl_alias a = al) (ss_acls (dm_ssh d)))"

text \<open>The cache is written out whole; a failure of that leaves the cache as it is.\<close>

definition rememberNickname :: "daemon_env \<Rightarrow> string \<Rightarrow> string \<Rightarrow> daemon \<Rightarrow> daemon" where
  "rememberNickname env did nick d =
     (if nick = [] then d
      else if map_of (dm_nicknames d) did = Some nick then d
      else (let ns = AList.update did nick (dm_nicknames d)
            in d\<lparr>dm_nicknames := ns,
                 dm_known := hd (snd (SaveNicknames (de_enc env) (de_fail env did) (de_part env) (de_rnd env) ns (dm_known d)))\<rparr>))"

fun seed_nicknames :: "daemon_env \<Rightarrow> device_info list \<Rightarrow> daemon \<Rightarrow> daemon" where
  "seed_nicknames env [] d = d"
| "seed_nicknames env (i # is) d =
     (if info_nickname i = [] then seed_nicknames env is d
      else if \<not> isPaired (dm_known d) (info_device i) then seed_nicknames env is d
      else seed_nicknames env is (rememberNickname env (info_device i) (info_nickname i) d))"

text \<open>\<open>None\<close>: there is no connection, or ListDevices failed or ran out of time.\<close>

definition seedNicknamesFromHub :: "daemon_env \<Rightarrow> device_info list option \<Rightarrow> daemon \<Rightarrow> daemon" where
  "seedNicknamesFromHub env listed d = (case listed of None \<Rightarrow> d | Some is \<Rightarrow> seed_nicknames env is d)"

subsection \<open>Keys\<close>

fun load_keys :: "daemon_env \<Rightarrow> dir_files \<Rightarrow> string list \<Rightarrow> (string \<times> string) list" where
  "load_keys env d [] = []"
| "load_keys env d (i # is) =
     (case LoadPeerPublicKey (de_fail env i) i d of
        Inl _ \<Rightarrow> load_keys env d is
      | Inr raw \<Rightarrow> (case de_parse_key env raw of None \<Rightarrow> load_keys env d is | Some k \<Rightarrow> (i, k) # load_keys env d is))"

definition reloadSSHAllowedKeys :: "daemon_env \<Rightarrow> daemon \<Rightarrow> daemon" where
  "reloadSSHAllowedKeys env d =
     (case ListPairedDevices (de_fail env []) (dm_known d) of
        Inl _ \<Rightarrow> d
      | Inr ids \<Rightarrow> d\<lparr>dm_ssh := UpdateAllowedKeys (load_keys env (dm_known d) ids) (dm_ssh d)\<rparr>)"

subsection \<open>Mounting\<close>

definition on_mounter :: "(mounter \<Rightarrow> mounter) \<Rightarrow> daemon \<Rightarrow> daemon" where
  "on_mounter f d = d\<lparr>dm_mounter := f (dm_mounter d)\<rparr>"

definition guard_all :: "daemon_env \<Rightarrow> mount_config list \<Rightarrow> mounter \<Rightarrow> mounter" where
  "guard_all env mcs m = fold (\<lambda>mc m. snd (guardTarget (de_host env) (de_mounter env) (mc_to mc) m)) mcs m"

definition guardConfiguredTargets :: "daemon_env \<Rightarrow> daemon \<Rightarrow> daemon" where
  "guardConfiguredTargets env d = on_mounter (guard_all env (cf_mounts (dm_config d))) d"

definition mountsForOnlineDevice :: "config \<Rightarrow> online_device \<Rightarrow> mount_config list" where
  "mountsForOnlineDevice cfg info =
     filter (\<lambda>mc. mc_device mc = od_nickname info \<and> mc_share mc \<in> set (od_shares info)) (cf_mounts cfg)"

definition mount_at :: "daemon_env \<Rightarrow> mount_config \<Rightarrow> online_device \<Rightarrow> mounter \<Rightarrow> mount_err option \<times> mounter" where
  "mount_at env mc info m = Mount (de_host env) (de_others env) (de_mounter env) mc (od_id info) (od_ip info) (od_port info) m"

definition mount_each :: "daemon_env \<Rightarrow> online_device \<Rightarrow> mount_config list \<Rightarrow> mounter \<Rightarrow> mounter" where
  "mount_each env info mcs m = fold (\<lambda>mc m. snd (mount_at env mc info m)) mcs m"

text \<open>The mounts a device that has just been seen online gets, if it is paired.\<close>

definition auto_mount :: "daemon_env \<Rightarrow> online_device \<Rightarrow> daemon \<Rightarrow> daemon" where
  "auto_mount env info d =
     (let mounts = mountsForOnlineDevice (dm_config d) info in
      if mounts = [] then d
      else if \<not> isPaired (dm_known d) (od_id info) then d
      else on_mounter (mount_each env info mounts) d)"

subsection \<open>Events\<close>

definition put_online :: "online_device \<Rightarrow> daemon \<Rightarrow> daemon" where
  "put_online info d = d\<lparr>onlineDevices := AList.update (od_id info) info (onlineDevices d)\<rparr>"

definition handleDeviceOnline :: "daemon_env \<Rightarrow> string \<Rightarrow> string \<Rightarrow> string \<Rightarrow> int \<Rightarrow> pb_share list \<Rightarrow> daemon \<Rightarrow> daemon" where
  "handleDeviceOnline env did nick ip port shs d =
     (let info = \<lparr>od_id = did, od_nickname = nick, od_ip = ip, od_port = port, od_shares = map pb_alias shs\<rparr>
      in auto_mount env info (rememberNickname env did nick (put_online info d)))"

definition drop_device :: "daemon_env \<Rightarrow> string \<Rightarrow> string \<Rightarrow> daemon \<Rightarrow> daemon" where
  "drop_device env did nick d =
     on_mounter (\<lambda>m. snd (UnmountDevice (de_host env) (de_mounter env) (de_keys env m) nick m))
       (d\<lparr>onlineDevices := AList.delete did (onlineDevices d)\<rparr>)"

definition handleDeviceOffline :: "daemon_env \<Rightarrow> string \<Rightarrow> string \<Rightarrow> daemon \<Rightarrow> daemon" where
  "handleDeviceOffline env did nick d = drop_device env did nick d"

definition handleDeviceRemoved :: "daemon_env \<Rightarrow> string \<Rightarrow> string \<Rightarrow> daemon \<Rightarrow> daemon" where
  "handleDeviceRemoved env did nick d = drop_device env did nick d"

definition ActiveMounts :: "mount_key list \<Rightarrow> mounter \<Rightarrow> mount list" where
  "ActiveMounts keys m = List.map_filter (activeMounts m) keys"

fun unmount_missing :: "daemon_env \<Rightarrow> string \<Rightarrow> string set \<Rightarrow> mount list \<Rightarrow> mounter \<Rightarrow> mounter" where
  "unmount_missing env nick shs [] m = m"
| "unmount_missing env nick shs (mnt # mnts) m =
     (if mt_device mnt \<noteq> nick then unmount_missing env nick shs mnts m
      else if mt_share mnt \<in> shs then unmount_missing env nick shs mnts m
      else unmount_missing env nick shs mnts (snd (Unmount (de_host env) (de_mounter env) (mt_device mnt) (mt_share mnt) m)))"

definition handleSharesUpdated :: "daemon_env \<Rightarrow> string \<Rightarrow> pb_share list \<Rightarrow> daemon \<Rightarrow> daemon" where
  "handleSharesUpdated env did shs d =
     (case map_of (onlineDevices d) did of
        None \<Rightarrow> d
      | Some info \<Rightarrow>
          on_mounter (\<lambda>m. unmount_missing env (od_nickname info) (pb_alias ` set shs) (ActiveMounts (de_keys env m) m) m)
            (d\<lparr>onlineDevices := AList.update did (info\<lparr>od_shares := map pb_alias shs\<rparr>) (onlineDevices d)\<rparr>))"

definition guard_inactive :: "daemon_env \<Rightarrow> mount_config list \<Rightarrow> mounter \<Rightarrow> mounter" where
  "guard_inactive env mcs m =
     fold (\<lambda>mc m. if IsActive (mc_device mc) (mc_share mc) m then m
                  else snd (guardTarget (de_host env) (de_mounter env) (mc_to mc) m)) mcs m"

definition handlePairingCompleted :: "daemon_env \<Rightarrow> string \<Rightarrow> string \<Rightarrow> daemon \<Rightarrow> daemon" where
  "handlePairingCompleted env peer key d =
     (case SavePeerPublicKey (de_fail env peer) (de_part env) (de_rnd env) peer key (dm_known d) of
        (Some _, dirs) \<Rightarrow> d\<lparr>dm_known := hd dirs\<rparr>
      | (None, dirs) \<Rightarrow>
          (let d1 = reloadSSHAllowedKeys env (d\<lparr>dm_known := hd dirs\<rparr>) in
           case map_of (onlineDevices d1) peer of
             None \<Rightarrow> on_mounter (guard_inactive env (cf_mounts (dm_config d1))) d1
           | Some info \<Rightarrow> on_mounter (mount_each env info (mountsForOnlineDevice (dm_config d1) info)) d1))"

fun handleEvent :: "daemon_env \<Rightarrow> event \<Rightarrow> daemon \<Rightarrow> daemon" where
  "handleEvent env (DeviceOnline did nick ip port shs) d = handleDeviceOnline env did nick ip port shs d"
| "handleEvent env (DeviceOffline did nick) d = handleDeviceOffline env did nick d"
| "handleEvent env (SharesUpdated did shs) d = handleSharesUpdated env did shs d"
| "handleEvent env (PairingRequested did nick) d = d"
| "handleEvent env (PairingCompleted did key) d = handlePairingCompleted env did key d"
| "handleEvent env SubscribeReady d = d"
| "handleEvent env (DeviceRemoved did nick) d = handleDeviceRemoved env did nick d"

subsection \<open>The snapshot of a registration\<close>

definition protoToOnlineDevice :: "device_info \<Rightarrow> online_device" where
  "protoToOnlineDevice i = \<lparr>od_id = info_device i, od_nickname = info_nickname i, od_ip = info_ip i,
     od_port = info_port i, od_shares = map pb_alias (info_shares i)\<rparr>"

fun add_devices :: "daemon_env \<Rightarrow> device_info list \<Rightarrow> daemon \<Rightarrow> daemon" where
  "add_devices env [] d = d"
| "add_devices env (i # is) d =
     (let info = protoToOnlineDevice i
      in add_devices env is (auto_mount env info (rememberNickname env (od_id info) (od_nickname info) (put_online info d))))"

definition processInitialDevices :: "daemon_env \<Rightarrow> device_info list \<Rightarrow> daemon \<Rightarrow> daemon" where
  "processInitialDevices env infos d =
     add_devices env infos
       (d\<lparr>onlineDevices := filter (\<lambda>(did, _). did \<in> info_device ` set infos) (onlineDevices d)\<rparr>)"

subsection \<open>Configuration changes\<close>

definition configSharesToProto :: "share_config list \<Rightarrow> pb_share list" where
  "configSharesToProto shs = map (\<lambda>s. \<lparr>pb_alias = sc_alias s, pb_permissions = sc_permissions s, pb_allowed = sc_allowed s\<rparr>) shs"

definition find_online :: "daemon_env \<Rightarrow> string \<Rightarrow> daemon \<Rightarrow> online_device option" where
  "find_online env nick d = find (\<lambda>dev. od_nickname dev = nick) (map snd (de_iter env (onlineDevices d)))"

definition tryMount :: "daemon_env \<Rightarrow> mount_config \<Rightarrow> daemon \<Rightarrow> daemon" where
  "tryMount env mc d =
     (case find_online env (mc_device mc) d of
        None \<Rightarrow> on_mounter (\<lambda>m. snd (guardTarget (de_host env) (de_mounter env) (mc_to mc) m)) d
      | Some dev \<Rightarrow>
          if \<not> isPaired (dm_known d) (od_id dev)
          then on_mounter (\<lambda>m. snd (guardTarget (de_host env) (de_mounter env) (mc_to mc) m)) d
          else on_mounter (\<lambda>m. snd (mount_at env mc dev m)) d)"

definition unmount_removed :: "daemon_env \<Rightarrow> mount_config \<Rightarrow> mounter \<Rightarrow> mounter" where
  "unmount_removed env mc m =
     snd (unguardTarget (de_host env) (de_mounter env) (mc_to mc)
       (snd (Unmount (de_host env) (de_mounter env) (mc_device mc) (mc_share mc) m)))"

definition publish_shares :: "share_config list \<Rightarrow> daemon \<Rightarrow> daemon" where
  "publish_shares shs d =
     (if everRegistered d then d\<lparr>published := configSharesToProto shs # published d\<rparr> else d)
       \<lparr>dm_ssh := UpdateACLs (sharesToACL shs) (dm_ssh d)\<rparr>"

definition onConfigChange :: "daemon_env \<Rightarrow> config option \<Rightarrow> config \<Rightarrow> daemon \<Rightarrow> daemon" where
  "onConfigChange env old new d =
     (let diff = ComputeDiff (de_sorter env) old (Some new);
          d1 = d\<lparr>dm_config := new\<rparr>;
          d2 = (if SharesChanged diff then publish_shares (cf_shares new) d1 else d1);
          d3 = fold (tryMount env) (MountsAdded diff) d2
      in on_mounter (fold (unmount_removed env) (MountsRemoved diff)) d3)"

text \<open>
  The watcher (internal/agent/config/watcher.go): its own copy of the configuration last seen and
  the content of the file. A file that does not load is ignored.
\<close>

definition NewWatcher :: "config option \<Rightarrow> config option" where
  "NewWatcher loaded = loaded"

definition watcher_reload :: "daemon_env \<Rightarrow> config option \<Rightarrow> config option \<times> daemon \<Rightarrow> config option \<times> daemon" where
  "watcher_reload env loaded w =
     (case loaded of None \<Rightarrow> w | Some new \<Rightarrow> (Some new, onConfigChange env (fst w) new (snd w)))"

subsection \<open>Reconciliation\<close>

definition defaultMountMonitorInterval :: duration where "defaultMountMonitorInterval = 15 * second"
definition maxReconcileBackoff :: duration where "maxReconcileBackoff = 10 * minute"

text \<open>The 64-bit shift of a duration.\<close>

definition shift_duration :: "duration \<Rightarrow> nat \<Rightarrow> duration" where
  "shift_duration base n = signed_take_bit 63 (base * 2 ^ n)"

definition reconcile_delay :: "duration \<Rightarrow> nat \<Rightarrow> duration" where
  "reconcile_delay interval attempts =
     (let base = (if interval \<le> 0 then defaultMountMonitorInterval else interval);
          shift = (if attempts > 16 then 16 else attempts);
          delay = shift_duration base shift
      in if delay \<le> 0 \<or> delay > maxReconcileBackoff then maxReconcileBackoff else delay)"

definition reconcileDue :: "time \<Rightarrow> mount_key \<Rightarrow> daemon \<Rightarrow> bool" where
  "reconcileDue now key d = (case reconcileFails d key of None \<Rightarrow> True | Some st \<Rightarrow> \<not> now < rs_next_try st)"

text \<open>Whether the failure is to be logged as an error, and the state.\<close>

definition noteReconcileFailure :: "duration \<Rightarrow> time \<Rightarrow> mount_key \<Rightarrow> mount_err \<Rightarrow> bool \<Rightarrow> daemon \<Rightarrow> bool \<times> daemon" where
  "noteReconcileFailure interval now key e establishing d =
     (let st = (case reconcileFails d key of
                  None \<Rightarrow> \<lparr>rs_last_err = None, rs_attempts = 0, rs_next_try = 0\<rparr> | Some st \<Rightarrow> st);
          st' = (if \<not> establishing then st
                 else st\<lparr>rs_attempts := Suc (rs_attempts st),
                         rs_next_try := now + reconcile_delay interval (rs_attempts st)\<rparr>)
      in (rs_last_err st \<noteq> Some e, d\<lparr>reconcileFails := (reconcileFails d)(key \<mapsto> st'\<lparr>rs_last_err := Some e\<rparr>)\<rparr>))"

definition clearReconcileErr :: "mount_key \<Rightarrow> daemon \<Rightarrow> daemon" where
  "clearReconcileErr key d = d\<lparr>reconcileFails := (reconcileFails d)(key := None)\<rparr>"

definition currentDesiredMount :: "daemon_env \<Rightarrow> mount_key \<Rightarrow> daemon \<Rightarrow> (mount_config \<times> online_device) option" where
  "currentDesiredMount env key d =
     (case find (\<lambda>mc. (mc_device mc, mc_share mc) = key) (cf_mounts (dm_config d)) of
        None \<Rightarrow> None
      | Some mc \<Rightarrow>
          (case find_online env (fst key) d of
             None \<Rightarrow> None
           | Some peer \<Rightarrow>
               if snd key \<notin> set (od_shares peer) then None
               else if \<not> isPaired (dm_known d) (od_id peer) then None
               else Some (mc, peer)))"

definition reconcile_key :: "daemon_env \<Rightarrow> mount_key \<Rightarrow> daemon \<Rightarrow> daemon" where
  "reconcile_key env key d =
     (case currentDesiredMount env key d of
        None \<Rightarrow> d
      | Some (mc, peer) \<Rightarrow>
          (let establishing = (\<not> IsActive (fst key) (snd key) (dm_mounter d)) in
           if establishing \<and> \<not> reconcileDue (de_now env (history (dm_mounter d))) key d then d
           else (case mount_at env mc peer (dm_mounter d) of
                   (e, m1) \<Rightarrow>
                     (let d1 = d\<lparr>dm_mounter := m1\<rparr> in
                      case e of
                        None \<Rightarrow> clearReconcileErr key d1
                      | Some x \<Rightarrow> snd (noteReconcileFailure (de_interval env) (de_now env (history m1)) key x establishing d1)))))"

fun reconcile_keys :: "daemon_env \<Rightarrow> mount_key list \<Rightarrow> daemon \<Rightarrow> daemon" where
  "reconcile_keys env [] d = d"
| "reconcile_keys env (key # keys) d =
     (if de_cancelled env (history (dm_mounter d)) then d
      else reconcile_keys env keys (reconcile_key env key d))"

definition reconcileMounts :: "daemon_env \<Rightarrow> daemon \<Rightarrow> daemon" where
  "reconcileMounts env d =
     reconcile_keys env (map (\<lambda>mc. (mc_device mc, mc_share mc)) (cf_mounts (dm_config d))) d"

end
