(* ===== verification/AgentSession.thy ===== *)
theory AgentSession
  imports AgentDaemon
begin

text \<open>
  The agent's hub session (internal/agent/daemon.go, connector.go, heartbeat.go): the connection
  and the heartbeat failures under \<open>sessionMu\<close>, one session set-up, the retry loop with its
  backoff and its one replacement of the connection, the supervisor, the heartbeat loop, start
  and shutdown. A connection and a session context are numbers; what the hub, the deadlines and
  the context answer comes in a record. Log lines are left out, and with them the counters that
  only decide what is logged.
\<close>

subsection \<open>The state under the session lock\<close>

record session =
  hubClient :: "nat option"
  hubClientClosed :: bool
  sessionCancel :: "nat option"
  heartbeatFails :: nat

definition maxHeartbeatFailures :: nat where "maxHeartbeatFailures = 3"

definition setHubClient :: "nat \<Rightarrow> session \<Rightarrow> session" where
  "setHubClient c s = s\<lparr>hubClient := Some c\<rparr>"

text \<open>The client to close, and whether the swap took place.\<close>

definition swapHubClient :: "nat \<Rightarrow> nat \<Rightarrow> session \<Rightarrow> (nat option \<times> bool) \<times> session" where
  "swapHubClient condemned fresh s =
     (if hubClientClosed s \<or> hubClient s \<noteq> Some condemned then ((None, False), s)
      else ((Some condemned, True), s\<lparr>hubClient := Some fresh\<rparr>))"

definition takeHubClientForShutdown :: "session \<Rightarrow> nat option \<times> session" where
  "takeHubClientForShutdown s = (hubClient s, s\<lparr>hubClientClosed := True\<rparr>)"

text \<open>The context to cancel, if any.\<close>

definition newSessionCtx :: "nat \<Rightarrow> session \<Rightarrow> nat option \<times> session" where
  "newSessionCtx sid s = (sessionCancel s, s\<lparr>sessionCancel := Some sid, heartbeatFails := 0\<rparr>)"

definition noteHeartbeatFailure :: "session \<Rightarrow> nat option \<times> session" where
  "noteHeartbeatFailure s =
     (let n = Suc (heartbeatFails s) in
      if n < maxHeartbeatFailures then (None, s\<lparr>heartbeatFails := n\<rparr>)
      else (sessionCancel s, s\<lparr>heartbeatFails := 0, sessionCancel := None\<rparr>))"

definition clearHeartbeatFailures :: "session \<Rightarrow> session" where
  "clearHeartbeatFailures s = s\<lparr>heartbeatFails := 0\<rparr>"

subsection \<open>The agent\<close>

datatype hub_call =
    RegisterCall "nat option" "pb_share list" int
  | SubscribeCall "nat option"
  | DeregisterCall nat
  | DialCall nat
  | InstallCall nat
  | CloseCall nat

record agent =
  ag_daemon :: daemon
  ag_session :: session
  ag_next :: nat
  ag_ended :: "nat list"
  ag_ready_fired :: bool
  ag_ready :: nat
  ag_heart_fired :: bool
  ag_hearts :: nat
  ag_port :: int
  ag_calls :: "hub_call list"

definition call :: "hub_call \<Rightarrow> agent \<Rightarrow> agent" where
  "call c a = a\<lparr>ag_calls := c # ag_calls a\<rparr>"

definition markReady :: "agent \<Rightarrow> agent" where
  "markReady a = (if ag_ready_fired a then a else a\<lparr>ag_ready_fired := True, ag_ready := Suc (ag_ready a)\<rparr>)"

definition startHeartbeat :: "agent \<Rightarrow> agent" where
  "startHeartbeat a = (if ag_heart_fired a then a else a\<lparr>ag_heart_fired := True, ag_hearts := Suc (ag_hearts a)\<rparr>)"

definition end_session :: "nat option \<Rightarrow> agent \<Rightarrow> agent" where
  "end_session sid a = (case sid of None \<Rightarrow> a | Some x \<Rightarrow> a\<lparr>ag_ended := x # ag_ended a\<rparr>)"

subsection \<open>The connection\<close>

text \<open>\<open>Connector.Dial\<close> and \<open>transportCreds\<close>: the cached credentials, and what loading the files gives.\<close>

datatype dial_err = CredsFailed (tls_cert: bool) | TargetInvalid

definition transportCreds :: "'c option \<Rightarrow> dial_err + 'c \<Rightarrow> (dial_err + 'c) \<times> 'c option" where
  "transportCreds cached loaded =
     (case cached of
        Some c \<Rightarrow> (Inr c, cached)
      | None \<Rightarrow> (case loaded of Inl e \<Rightarrow> (Inl e, None) | Inr c \<Rightarrow> (Inr c, Some c)))"

definition Dial :: "bool \<Rightarrow> dial_err + 'c \<Rightarrow> 'c option \<Rightarrow> (dial_err + 'c) \<times> 'c option" where
  "Dial target_ok loaded cached =
     (case transportCreds cached loaded of
        (Inl e, cached') \<Rightarrow> (Inl e, cached')
      | (Inr c, cached') \<Rightarrow> (if target_ok then Inr c else Inl TargetInvalid, cached'))"

definition backoffInitial :: duration where "backoffInitial = 1 * second"
definition backoffMax :: duration where "backoffMax = 60 * second"

definition next_delay :: "duration \<Rightarrow> duration" where
  "next_delay d = (if d * 2 > backoffMax then backoffMax else d * 2)"

datatype connect_result = Connected | CertNotTrusted | ConnectCancelled | Connecting

text \<open>
  \<open>Connector.Connect\<close>: each element is what loading the credentials would give, whether the
  target is valid, and whether the context ends during the wait that follows.
\<close>

fun connect_loop :: "duration \<Rightarrow> ((dial_err + 'c) \<times> bool \<times> bool) list \<Rightarrow> 'c option \<Rightarrow>
    connect_result \<times> duration list \<times> 'c option" where
  "connect_loop delay [] cached = (Connecting, [], cached)"
| "connect_loop delay ((loaded, target_ok, wait_done) # as) cached =
     (case Dial target_ok loaded cached of
        (Inr c, cached') \<Rightarrow> (Connected, [], cached')
      | (Inl e, cached') \<Rightarrow>
          if e = CredsFailed True then (CertNotTrusted, [], cached')
          else if wait_done then (ConnectCancelled, [delay], cached')
          else (case connect_loop (next_delay delay) as cached' of (r, ws, ca) \<Rightarrow> (r, delay # ws, ca)))"

definition Connect :: "((dial_err + 'c) \<times> bool \<times> bool) list \<Rightarrow> 'c option \<Rightarrow> connect_result \<times> duration list \<times> 'c option" where
  "Connect as cached = connect_loop backoffInitial as cached"

definition close_client :: "nat \<Rightarrow> agent \<Rightarrow> agent" where
  "close_client c a = call (CloseCall c) a"

definition replaceHubClient :: "bool \<Rightarrow> nat option \<Rightarrow> agent \<Rightarrow> bool \<times> agent" where
  "replaceHubClient dial_ok condemned a =
     (case condemned of
        None \<Rightarrow> (False, a)
      | Some c \<Rightarrow>
          if \<not> dial_ok then (False, a)
          else (let fresh = ag_next a; a1 = call (DialCall fresh) (a\<lparr>ag_next := Suc fresh\<rparr>) in
                case swapHubClient c fresh (ag_session a1) of
                  ((old, swapped), s) \<Rightarrow>
                    if \<not> swapped then (False, close_client fresh (a1\<lparr>ag_session := s\<rparr>))
                    else (let a2 = call (InstallCall fresh) (a1\<lparr>ag_session := s\<rparr>) in
                          (True, case old of None \<Rightarrow> a2 | Some o' \<Rightarrow> close_client o' a2))))"

subsection \<open>One session\<close>

text \<open>What failed a call, as the code can tell: the hub's refusal, or anything else.\<close>

datatype rpc_err = HubRejected | Transport

datatype sess_err = SessErr (timed_out: bool) (rejected: bool)

record answers =
  an_register :: "rpc_err + device_info list"
  an_reg_expired :: bool
  an_parent_done :: bool
  an_env :: daemon_env
  an_subscribe :: "rpc_err option"
  an_budget_fired :: bool
  an_session_done :: bool
  an_others :: "agent \<Rightarrow> agent"

definition ourBudgetExpired :: "bool \<Rightarrow> bool \<Rightarrow> rpc_err \<Rightarrow> bool" where
  "ourBudgetExpired parent_done budget_expired e = (budget_expired \<and> \<not> parent_done \<and> e \<noteq> HubRejected)"

definition subscribeWithBudget :: "answers \<Rightarrow> sess_err option" where
  "subscribeWithBudget an =
     (case an_subscribe an of
        Some e \<Rightarrow>
          if an_budget_fired an \<and> \<not> an_session_done an then Some (SessErr True (e = HubRejected))
          else Some (SessErr False (e = HubRejected))
      | None \<Rightarrow>
          if an_budget_fired an
          then (if \<not> an_session_done an then Some (SessErr True False) else Some (SessErr False False))
          else None)"

text \<open>\<open>an_others\<close>: what other goroutines do to the session while the Register call runs.\<close>

definition sessionOnce :: "answers \<Rightarrow> agent \<Rightarrow> (sess_err + nat) \<times> agent" where
  "sessionOnce an a =
     (let cfg = dm_config (ag_daemon a);
          a1 = an_others an (call (RegisterCall (hubClient (ag_session a)) (configSharesToProto (cf_shares cfg)) (ag_port a)) a)
      in case an_register an of
           Inl e \<Rightarrow> (Inl (SessErr (ourBudgetExpired (an_parent_done an) (an_reg_expired an) e) (e = HubRejected)), a1)
         | Inr infos \<Rightarrow>
             (let a2 = startHeartbeat a1;
                  a3 = a2\<lparr>ag_daemon := (ag_daemon a2)\<lparr>everRegistered := True\<rparr>\<rparr>;
                  a4 = markReady a3;
                  a5 = a4\<lparr>ag_daemon := processInitialDevices (an_env an) infos (ag_daemon a4)\<rparr>;
                  sid = ag_next a5
              in case newSessionCtx sid (ag_session a5) of
                   (prev, s) \<Rightarrow>
                     (let a6 = call (SubscribeCall (hubClient s)) (end_session prev (a5\<lparr>ag_session := s, ag_next := Suc sid\<rparr>))
                      in case subscribeWithBudget an of Some e \<Rightarrow> (Inl e, a6) | None \<Rightarrow> (Inr sid, a6))))"

subsection \<open>Retrying\<close>

datatype retry_result = Established nat | RetryStopped | Retrying

text \<open>
  Each element is one attempt: its answers, whether dialling a replacement would work, and
  whether the context ends during the wait after a failure. \<open>spent\<close> is \<open>swapSpent\<close>. The second
  component of the result lists the waits.
\<close>

fun reconnect_loop :: "duration \<Rightarrow> bool \<Rightarrow> (answers \<times> bool \<times> bool) list \<Rightarrow> agent \<Rightarrow> retry_result \<times> duration list \<times> agent" where
  "reconnect_loop delay spent [] a = (Retrying, [], a)"
| "reconnect_loop delay spent ((an, dial_ok, wait_done) # as) a =
     (let attempted = hubClient (ag_session a) in
      case sessionOnce an a of
        (Inr sid, a1) \<Rightarrow> (Established sid, [], a1)
      | (Inl e, a1) \<Rightarrow>
          (case (if timed_out e \<and> \<not> spent then replaceHubClient dial_ok attempted a1 else (spent, a1)) of
             (spent', a2) \<Rightarrow>
               if wait_done then (RetryStopped, [delay], a2)
               else (case reconnect_loop (next_delay delay) spent' as a2 of (r, ws, a3) \<Rightarrow> (r, delay # ws, a3))))"

definition reconnectSession :: "duration \<Rightarrow> (answers \<times> bool \<times> bool) list \<Rightarrow> agent \<Rightarrow> retry_result \<times> duration list \<times> agent" where
  "reconnectSession minInterval as a = reconnect_loop (if minInterval \<le> 0 then backoffInitial else minInterval) False as a"

text \<open>\<open>ssh_died\<close>: the accept loop died while the retries went on.\<close>

datatype first_result = Running nat | Refused sess_err | StoppedEarly | SshDied | StillTrying

definition registerAndSubscribe ::
  "duration \<Rightarrow> answers \<Rightarrow> (answers \<times> bool \<times> bool) list \<Rightarrow> bool \<Rightarrow> agent \<Rightarrow> first_result \<times> agent" where
  "registerAndSubscribe minInterval first as ssh_died a =
     (case sessionOnce first a of
        (Inr sid, a1) \<Rightarrow> (Running sid, a1)
      | (Inl e, a1) \<Rightarrow>
          if rejected e then (Refused e, a1)
          else (case reconnectSession minInterval as (markReady a1) of
                  (Established sid, ws, a2) \<Rightarrow> (Running sid, a2)
                | (RetryStopped, ws, a2) \<Rightarrow> (StoppedEarly, a2)
                | (Retrying, ws, a2) \<Rightarrow> (if ssh_died then SshDied else StillTrying, a2)))"

subsection \<open>The supervisor\<close>

text \<open>The events until the stream ends, with what surrounds each of them.\<close>

definition readStream :: "(daemon_env \<times> event) list \<Rightarrow> agent \<Rightarrow> agent" where
  "readStream evs a = fold (\<lambda>(env, ev) a. a\<lparr>ag_daemon := handleEvent env ev (ag_daemon a)\<rparr>) evs a"

record episode =
  ep_events :: "(daemon_env \<times> event) list"
  ep_done :: bool
  ep_dwell :: duration
  ep_floor_done :: bool
  ep_attempts :: "(answers \<times> bool \<times> bool) list"

datatype supervise_result = SupStopped | SupRetrying | SupReading

text \<open>The pauses: for each session how long it lived, the wait of the floor and those of the retries.\<close>

fun supervise :: "duration \<Rightarrow> episode list \<Rightarrow> agent \<Rightarrow> supervise_result \<times> (duration \<times> duration \<times> duration list) list \<times> agent" where
  "supervise minInterval [] a = (SupReading, [], a)"
| "supervise minInterval (ep # eps) a =
     (let a1 = readStream (ep_events ep) a in
      if ep_done ep then (SupStopped, [], a1)
      else (let floor_wait = (if ep_dwell ep < minInterval then minInterval - ep_dwell ep else 0) in
            if 0 < floor_wait \<and> ep_floor_done ep then (SupStopped, [(ep_dwell ep, floor_wait, [])], a1)
            else (case reconnectSession minInterval (ep_attempts ep) a1 of
                    (Established sid, ws, a2) \<Rightarrow>
                      (case supervise minInterval eps a2 of (r, ps, a3) \<Rightarrow> (r, (ep_dwell ep, floor_wait, ws) # ps, a3))
                  | (RetryStopped, ws, a2) \<Rightarrow> (SupStopped, [(ep_dwell ep, floor_wait, ws)], a2)
                  | (Retrying, ws, a2) \<Rightarrow> (SupRetrying, [(ep_dwell ep, floor_wait, ws)], a2))))"

end
