(* ===== verification/AgentRun.thy ===== *)
theory AgentRun
  imports AgentSession
begin

text \<open>
  The agent's heartbeat loop, its start and its shutdown (internal/agent/heartbeat.go, daemon.go:
  \<open>Run\<close>, \<open>runServices\<close>, \<open>Shutdown\<close>).
\<close>

subsection \<open>Heartbeats\<close>

definition hubKeepaliveTime :: duration where "hubKeepaliveTime = 10 * second"
definition hubKeepaliveTimeout :: duration where "hubKeepaliveTimeout = 5 * second"
definition defaultRegisterTimeout :: duration where "defaultRegisterTimeout = 20 * second"
definition defaultHeartbeatInterval :: duration where "defaultHeartbeatInterval = 10 * second"
definition heartbeatDangerCadence :: duration where "heartbeatDangerCadence = 3 * hubKeepaliveTime"
definition minHeartbeatRPCTimeout :: duration where "minHeartbeatRPCTimeout = 2 * second"

text \<open>\<open>parse\<close> is \<open>time.ParseDuration\<close>.\<close>

definition heartbeatIntervalFromEnv :: "(string \<Rightarrow> duration option) \<Rightarrow> string \<Rightarrow> duration \<Rightarrow> duration" where
  "heartbeatIntervalFromEnv parse raw def =
     (if raw = [] then def
      else (case parse raw of None \<Rightarrow> def | Some interval \<Rightarrow> if interval \<le> 0 then def else interval))"

definition mountMonitorIntervalFromEnv :: "(string \<Rightarrow> duration option) \<Rightarrow> string \<Rightarrow> duration \<Rightarrow> duration" where
  "mountMonitorIntervalFromEnv parse raw def =
     (if raw = [] then def else (case parse raw of None \<Rightarrow> def | Some interval \<Rightarrow> interval))"

text \<open>The period of the ticker and the deadline of a call.\<close>

definition heartbeat_timing :: "duration \<Rightarrow> duration \<times> duration" where
  "heartbeat_timing configured =
     (let interval = (if configured \<le> 0 then defaultHeartbeatInterval else configured)
      in (interval, if interval < minHeartbeatRPCTimeout then minHeartbeatRPCTimeout else interval))"

text \<open>One tick; \<open>ok\<close>: the hub answered in time and did not refuse.\<close>

definition beat :: "bool \<Rightarrow> agent \<Rightarrow> agent" where
  "beat answered a =
     (if answered then a\<lparr>ag_session := clearHeartbeatFailures (ag_session a)\<rparr>
      else (case noteHeartbeatFailure (ag_session a) of
              (cancel, s) \<Rightarrow> end_session cancel (a\<lparr>ag_session := s\<rparr>)))"

definition runHeartbeat :: "bool list \<Rightarrow> agent \<Rightarrow> agent" where
  "runHeartbeat ticks a = fold beat ticks a"

text \<open>The sweeps of \<open>runMountMonitor\<close>, one per tick until the context ends.\<close>

definition runMountMonitor :: "duration \<Rightarrow> daemon_env list \<Rightarrow> agent \<Rightarrow> agent" where
  "runMountMonitor interval ticks a =
     (if interval \<le> 0 then a
      else fold (\<lambda>env a. a\<lparr>ag_daemon := reconcileMounts env (ag_daemon a)\<rparr>) ticks a)"

subsection \<open>Shutdown\<close>

record shutdown_answers =
  sd_env :: daemon_env
  sd_deregister :: "rpc_err option"
  sd_ssh_close :: "string option"
  sd_watcher_close :: "string option option"
  sd_client_close :: bool

datatype shutdown_err = UnmountErr mount_err | DeregisterErr | SshStopErr string | WatcherErr string | ClientCloseErr

definition Shutdown :: "shutdown_answers \<Rightarrow> agent \<Rightarrow> shutdown_err list \<times> agent" where
  "Shutdown sd a =
     (let d = ag_daemon a; env = sd_env sd in
      case UnmountAllForce (de_host env) (de_mounter env) (de_keys env (dm_mounter d)) (dm_mounter d) of
        (unmount_errs, m) \<Rightarrow>
          (case takeHubClientForShutdown (ag_session a) of
             (client, s) \<Rightarrow>
               (let a1 = a\<lparr>ag_daemon := d\<lparr>dm_mounter := m\<rparr>, ag_session := s\<rparr>;
                    a2 = (case client of None \<Rightarrow> a1 | Some c \<Rightarrow> call (DeregisterCall c) a1);
                    dereg_errs = (case client of
                        None \<Rightarrow> []
                      | Some c \<Rightarrow> (case sd_deregister sd of
                            None \<Rightarrow> []
                          | Some e \<Rightarrow> if e = HubRejected then [] else [DeregisterErr]));
                    (ssh_err, ssh) = StopSSH (sd_ssh_close sd) (dm_ssh (ag_daemon a2));
                    a3 = a2\<lparr>ag_daemon := (ag_daemon a2)\<lparr>dm_ssh := ssh\<rparr>\<rparr>;
                    a4 = (case client of None \<Rightarrow> a3 | Some c \<Rightarrow> close_client c a3)
                in (map UnmountErr unmount_errs @ dereg_errs @
                    (case ssh_err of None \<Rightarrow> [] | Some e \<Rightarrow> [SshStopErr e]) @
                    (case sd_watcher_close sd of Some (Some e) \<Rightarrow> [WatcherErr e] | _ \<Rightarrow> []) @
                    (if client \<noteq> None \<and> \<not> sd_client_close sd then [ClientCloseErr] else []), a4))))"

subsection \<open>Start\<close>

text \<open>What \<open>startSSH\<close> meets: whether the key pair is there or can be made, and the bind.\<close>

definition startSSH :: "bool \<Rightarrow> string option \<Rightarrow> agent \<Rightarrow> bool \<times> agent" where
  "startSSH key_ok bound a =
     (if \<not> key_ok then (False, a)
      else (case Listen bound (dm_ssh (ag_daemon a)) of
              (e, ssh) \<Rightarrow> (e = None, a\<lparr>ag_daemon := (ag_daemon a)\<lparr>dm_ssh := ssh\<rparr>\<rparr>)))"

datatype run_end = CtxDone | SshLoopDied

datatype exit_status = ExitOk | ExitFailed

text \<open>\<open>runServices\<close>, from the moment it stops waiting.\<close>

definition runServices :: "run_end \<Rightarrow> shutdown_answers \<Rightarrow> agent \<Rightarrow> exit_status \<times> agent" where
  "runServices why sd a =
     (case Shutdown sd a of
        (errs, a1) \<Rightarrow>
          (case why of
             CtxDone \<Rightarrow> (if errs = [] then ExitOk else ExitFailed, a1)
           | SshLoopDied \<Rightarrow> (ExitFailed, a1)))"

record run_answers =
  rn_connected :: connect_result
  rn_listed :: "device_info list option"
  rn_key_ok :: bool
  rn_bound :: "string option"
  rn_env :: daemon_env
  rn_interval :: duration
  rn_first :: answers
  rn_attempts :: "(answers \<times> bool \<times> bool) list"
  rn_ssh_died :: bool
  rn_episodes :: "episode list"
  rn_end :: run_end
  rn_shutdown :: shutdown_answers

text \<open>The steps before the hub session; \<open>False\<close>: one of them failed.\<close>

definition prepare_run :: "run_answers \<Rightarrow> agent \<Rightarrow> bool \<times> agent" where
  "prepare_run rn a =
     (let a1 = a\<lparr>ag_session := setHubClient (ag_next a) (ag_session a), ag_next := Suc (ag_next a)\<rparr>;
          a2 = a1\<lparr>ag_daemon := seedNicknamesFromHub (rn_env rn) (rn_listed rn) (ag_daemon a1)\<rparr>
      in case startSSH (rn_key_ok rn) (rn_bound rn) a2 of
           (started, a3) \<Rightarrow>
             if \<not> started then (False, a3)
             else (True, a3\<lparr>ag_daemon := guardConfiguredTargets (rn_env rn) (reloadSSHAllowedKeys (rn_env rn) (ag_daemon a3))\<rparr>))"

definition Run :: "run_answers \<Rightarrow> agent \<Rightarrow> exit_status option \<times> agent" where
  "Run rn a =
     (if rn_connected rn = Connecting then (None, a)
      else if rn_connected rn \<noteq> Connected then (Some ExitFailed, a)
      else (case prepare_run rn a of
              (ready, a1) \<Rightarrow>
                if \<not> ready then (Some ExitFailed, a1)
                else (case registerAndSubscribe (rn_interval rn) (rn_first rn) (rn_attempts rn) (rn_ssh_died rn) a1 of
                        (Refused e, a2) \<Rightarrow> (Some ExitFailed, a2)
                      | (SshDied, a2) \<Rightarrow> (Some ExitFailed, a2)
                      | (StillTrying, a2) \<Rightarrow> (None, a2)
                      | (StoppedEarly, a2) \<Rightarrow>
                          if everRegistered (ag_daemon a2)
                          then (case Shutdown (rn_shutdown rn) a2 of (errs, a3) \<Rightarrow> (Some (if errs = [] then ExitOk else ExitFailed), a3))
                          else (Some ExitOk, a2)
                      | (Running sid, a2) \<Rightarrow>
                          (case supervise (rn_interval rn) (rn_episodes rn) a2 of
                             (r, pauses, a3) \<Rightarrow>
                               (case runServices (rn_end rn) (rn_shutdown rn) (startHeartbeat a3) of
                                  (st, a4) \<Rightarrow> (Some st, a4))))))"

end
