(* ===== verification/MountService.thy ===== *)
theory MountService
  imports AgentDaemon MounterProps
begin

text \<open>
  The contract between the daemon and its mount table: what asking for a mount and releasing one
  may do to the table. The daemon's handlers are proved against it; the table of
  internal/agent/mounter.go provides it whenever no other goroutine changes the table meanwhile.
\<close>

subsection \<open>The contract\<close>

definition key_of :: "mount_config \<Rightarrow> mount_key" where
  "key_of mc = (mc_device mc, mc_share mc)"

definition made_for :: "mount_config \<Rightarrow> online_device \<Rightarrow> mount \<Rightarrow> bool" where
  "made_for mc dev mnt \<longleftrightarrow> mt_device mnt = mc_device mc \<and> mt_share mnt = mc_share mc \<and> mt_path mnt = mc_to mc \<and>
     mt_ip mnt = od_ip dev \<and> mt_port mnt = od_port dev"

locale mount_service =
  fixes ensure :: "mount_config \<Rightarrow> online_device \<Rightarrow> 'm \<Rightarrow> 'm"
    and release :: "mount_key \<Rightarrow> 'm \<Rightarrow> 'm"
    and prepare :: "string \<Rightarrow> 'm \<Rightarrow> 'm"
    and active :: "'m \<Rightarrow> mount_key \<Rightarrow> mount option"
  assumes ensure_adds: "active (ensure mc dev m) k = Some mnt \<Longrightarrow>
      active m k = Some mnt \<or> k = key_of mc \<and> made_for mc dev mnt"
    and ensure_else: "k \<noteq> key_of mc \<Longrightarrow> active (ensure mc dev m) k = active m k"
    and release_drops: "active (release k' m) k = Some mnt \<Longrightarrow> active m k = Some mnt"
    and release_else: "k \<noteq> k' \<Longrightarrow> active (release k' m) k = active m k"
    and prepare_keeps: "active (prepare p m) k = active m k"
begin

lemma ensure_all_adds:
  "active (fold (\<lambda>mc m. ensure mc dev m) mcs m) k = Some mnt \<Longrightarrow>
   active m k = Some mnt \<or> (\<exists>mc \<in> set mcs. k = key_of mc \<and> made_for mc dev mnt)"
proof (induction mcs arbitrary: m)
  case (Cons mc mcs)
  then show ?case using ensure_adds [of mc dev m k mnt] by fastforce
qed simp

lemma ensure_all_else:
  "k \<notin> key_of ` set mcs \<Longrightarrow> active (fold (\<lambda>mc m. ensure mc dev m) mcs m) k = active m k"
  by (induction mcs arbitrary: m) (simp_all add: ensure_else)

lemma release_all_drops:
  "active (fold release ks m) k = Some mnt \<Longrightarrow> active m k = Some mnt"
  by (induction ks arbitrary: m) (auto dest: release_drops)

lemma release_all_else: "k \<notin> set ks \<Longrightarrow> active (fold release ks m) k = active m k"
  by (induction ks arbitrary: m) (simp_all add: release_else)

lemma prepare_all_keeps: "active (fold prepare ps m) k = active m k"
  by (induction ps arbitrary: m) (simp_all add: prepare_keeps)

end

subsection \<open>The mount table provides it\<close>

definition quiet :: "daemon_env \<Rightarrow> daemon_env" where
  "quiet env = env\<lparr>de_others := (\<lambda>m. m)\<rparr>"

lemma quiet_fields [simp]:
  "de_others (quiet env) = (\<lambda>m. m)" "de_host (quiet env) = de_host env" "de_mounter (quiet env) = de_mounter env"
  "de_iter (quiet env) = de_iter env" "de_keys (quiet env) = de_keys env" "de_fail (quiet env) = de_fail env"
  "de_part (quiet env) = de_part env" "de_rnd (quiet env) = de_rnd env" "de_enc (quiet env) = de_enc env"
  "de_parse_key (quiet env) = de_parse_key env" "de_sorter (quiet env) = de_sorter env"
  "de_now (quiet env) = de_now env" "de_cancelled (quiet env) = de_cancelled env" "de_interval (quiet env) = de_interval env"
  by (simp_all add: quiet_def)

lemma give_up_active [simp]: "activeMounts (give_up env cfg p m) = activeMounts m"
  by (simp add: give_up_def)

lemma verify_active: "activeMounts (snd (verify_mount n env cfg p m)) = activeMounts m"
proof (induction n arbitrary: m)
  case 0
  show ?case by (subst verify_mount.simps) (simp add: case_prod_beta del: verify_mount.simps)
next
  case (Suc n)
  show ?case by (subst verify_mount.simps) (simp add: case_prod_beta Suc.IH del: verify_mount.simps)
qed

lemma known_hosts_active: "activeMounts (snd (writeKnownHostsFile env cfg did ip port m)) = activeMounts m"
  by (auto simp: writeKnownHostsFile_def ask_def Let_def split: Mounter.reply.split option.split)

lemma contents_active: "activeMounts (snd (targetHasLocalContents env cfg p m)) = activeMounts m"
  by (auto simp: targetHasLocalContents_def ask_def Let_def split: Mounter.reply.split)

lemma mountable_active: "activeMounts (snd (makeMountable env cfg p m)) = activeMounts m"
  by (auto simp: makeMountable_def ask_def Let_def)

lemma unguard_active: "activeMounts (snd (unguardTarget env cfg p m)) = activeMounts m"
  by (auto simp: unguardTarget_def ask_def Let_def split: option.split)

lemma establish_active:
  "\<exists>g. activeMounts (snd (establish env cfg mc did ip port m)) \<in>
    {activeMounts m, (activeMounts m)(key_of mc \<mapsto> \<lparr>mt_device = mc_device mc, mt_share = mc_share mc,
       mt_path = mc_to mc, mt_ip = ip, mt_port = port, mt_gen = g\<rparr>)}"
proof -
  obtain e1 m1 where g: "guardTarget env cfg (mc_to mc) m = (e1, m1)" by (cases "guardTarget env cfg (mc_to mc) m")
  obtain c m2 where c: "targetHasLocalContents env cfg (mc_to mc) m1 = (c, m2)"
    by (cases "targetHasLocalContents env cfg (mc_to mc) m1")
  obtain w m3 where w: "writeKnownHostsFile env cfg did ip port m2 = (w, m3)" by (cases "writeKnownHostsFile env cfg did ip port m2")
  obtain e4 m4 where k: "makeMountable env cfg (mc_to mc) m3 = (e4, m4)" by (cases "makeMountable env cfg (mc_to mc) m3")
  have act: "activeMounts m1 = activeMounts m" "activeMounts m2 = activeMounts m" "activeMounts m3 = activeMounts m"
    "activeMounts m4 = activeMounts m"
    using g c w k guardTarget_active [of env cfg "mc_to mc" m] contents_active [of env cfg "mc_to mc" m1]
      known_hosts_active [of env cfg did ip port m2] mountable_active [of env cfg "mc_to mc" m3] by simp_all
  show ?thesis
  proof (cases "e1 = None \<and> c = Inr 0 \<and> (\<exists>h. w = Inr h) \<and> e4 = None")
    case False
    then have "activeMounts (snd (establish env cfg mc did ip port m)) = activeMounts m"
      using g c w k act by (cases e1; cases c; cases w; cases e4) (auto simp: establish_def)
    then show ?thesis by blast
  next
    case True
    then obtain h where h: "w = Inr h" by blast
    let ?cmd = "CStart (mb_binary (mo_backend cfg) # buildMountArgs (mo_backend cfg) port (mo_key_path cfg) h ip (mc_share mc) (mc_to mc))"
    obtain r m5 where r: "ask env ?cmd m4 = (r, m5)" by (cases "ask env ?cmd m4")
    have m5: "activeMounts m5 = activeMounts m" using r act ask_keeps(1) [of env ?cmd m4] by simp
    obtain e6 m6 where v: "verify_mount (mo_verify_polls cfg) env cfg (mc_to mc) m5 = (e6, m6)"
      by (cases "verify_mount (mo_verify_polls cfg) env cfg (mc_to mc) m5")
    have m6: "activeMounts m6 = activeMounts m"
      using v m5 verify_active [of "mo_verify_polls cfg" env cfg "mc_to mc" m5] by simp
    have "establish env cfg mc did ip port m =
      (case err_of r of
         Some e \<Rightarrow> (Some (EStart e), snd (guardTarget env cfg (mc_to mc) m5))
       | None \<Rightarrow> (case e6 of Some e \<Rightarrow> (Some e, m6)
           | None \<Rightarrow> (None, m6\<lparr>activeMounts := (activeMounts m6)((mc_device mc, mc_share mc) \<mapsto>
                 \<lparr>mt_device = mc_device mc, mt_share = mc_share mc, mt_path = mc_to mc,
                  mt_ip = ip, mt_port = port, mt_gen = next_gen m6\<rparr>), next_gen := Suc (next_gen m6)\<rparr>)))"
      using True h g c w k r v by (simp add: establish_def Let_def del: verify_mount.simps split: option.split)
    then show ?thesis using m5 m6
      by (intro exI [of _ "next_gen m6"]) (auto simp: key_of_def split: option.split)
  qed
qed

definition new_mount :: "mount_config \<Rightarrow> online_device \<Rightarrow> nat \<Rightarrow> mount" where
  "new_mount mc dev g = \<lparr>mt_device = mc_device mc, mt_share = mc_share mc, mt_path = mc_to mc,
     mt_ip = od_ip dev, mt_port = od_port dev, mt_gen = g\<rparr>"

lemma release_active:
  "activeMounts (snd (unmountKey env cfg key force reguard m)) \<in> {activeMounts m, (activeMounts m)(key := None)}"
  using unmountKey_active [of env cfg key force reguard m] by (cases "unmountKey env cfg key force reguard m") (auto split: if_splits)

lemma remount_active:
  "\<exists>g. activeMounts (snd (remount env cfg mc (od_id dev) (od_ip dev) (od_port dev) m)) \<in>
    {activeMounts m, (activeMounts m)(key_of mc := None), (activeMounts m)(key_of mc \<mapsto> new_mount mc dev g)}"
proof -
  obtain e m1 where u: "unmountKey env cfg (key_of mc) True False m = (e, m1)" by (cases "unmountKey env cfg (key_of mc) True False m")
  note a = unmountKey_active [OF u]
  obtain g where "activeMounts (snd (establish env cfg mc (od_id dev) (od_ip dev) (od_port dev) m1)) \<in>
      {activeMounts m1, (activeMounts m1)(key_of mc \<mapsto> new_mount mc dev g)}"
    using establish_active [of env cfg mc "od_id dev" "od_ip dev" "od_port dev" m1] unfolding new_mount_def by blast
  then show ?thesis using u a by (intro exI [of _ g]) (cases e; auto simp: remount_def key_of_def)
qed

lemma probe_active:
  assumes "probeGenerationLocked env (\<lambda>m. m) key mnt m = (hl, oc, m')"
  shows "activeMounts m' = activeMounts m"
proof -
  have "activeMounts (snd (awaitProbe env key mnt x)) = activeMounts x" for x
    by (simp add: awaitProbe_def case_prod_beta)
  then show ?thesis using assms
    unfolding probeGenerationLocked_def Let_def
    by (auto simp: case_prod_beta split: option.splits if_splits)
qed

lemma mount_at_active:
  "\<exists>g. activeMounts (snd (mount_at (quiet env) mc dev m)) \<in>
    {activeMounts m, (activeMounts m)(key_of mc := None), (activeMounts m)(key_of mc \<mapsto> new_mount mc dev g)}"
proof (cases "activeMounts m (key_of mc)")
  case None
  then show ?thesis
    using establish_active [of "de_host env" "de_mounter env" mc "od_id dev" "od_ip dev" "od_port dev" m]
    unfolding mount_at_def Mount_def new_mount_def by (auto simp: key_of_def)
next
  case (Some mnt)
  obtain hl oc m1 where p: "probeGenerationLocked (de_host env) (\<lambda>m. m) (key_of mc) mnt m = (hl, oc, m1)" by (metis prod_cases3)
  note a = probe_active [OF p]
  have "snd (mount_at (quiet env) mc dev m) \<in> {m1} \<union>
      (\<lambda>x. snd (remount (de_host env) (de_mounter env) mc (od_id dev) (od_ip dev) (od_port dev) x)) ` {m, m1}"
    using Some p unfolding mount_at_def Mount_def by (simp add: key_of_def Let_def)
  then show ?thesis using a remount_active [of "de_host env" "de_mounter env" mc dev m]
    remount_active [of "de_host env" "de_mounter env" mc dev m1] by auto
qed

definition release_key :: "daemon_env \<Rightarrow> bool \<Rightarrow> mount_key \<Rightarrow> mounter \<Rightarrow> mounter" where
  "release_key env force key m = snd (unmountKey (de_host env) (de_mounter env) key force True m)"

definition guard_path :: "daemon_env \<Rightarrow> string \<Rightarrow> mounter \<Rightarrow> mounter" where
  "guard_path env p m = snd (guardTarget (de_host env) (de_mounter env) p m)"

interpretation table: mount_service "\<lambda>mc dev m. snd (mount_at (quiet env) mc dev m)" "release_key env force" "guard_path env" activeMounts
  for env force
proof
  fix mc dev m k mnt
  obtain g where "activeMounts (snd (mount_at (quiet env) mc dev m)) \<in>
    {activeMounts m, (activeMounts m)(key_of mc := None), (activeMounts m)(key_of mc \<mapsto> new_mount mc dev g)}"
    using mount_at_active by blast
  then show "activeMounts (snd (mount_at (quiet env) mc dev m)) k = Some mnt \<Longrightarrow>
      activeMounts m k = Some mnt \<or> k = key_of mc \<and> made_for mc dev mnt"
    and "k \<noteq> key_of mc \<Longrightarrow> activeMounts (snd (mount_at (quiet env) mc dev m)) k = activeMounts m k"
    by (auto simp: made_for_def new_mount_def split: if_splits)
next
  fix k' m k mnt
  have a: "activeMounts (release_key env force k' m) \<in> {activeMounts m, (activeMounts m)(k' := None)}"
    unfolding release_key_def by (rule release_active)
  then show "activeMounts (release_key env force k' m) k = Some mnt \<Longrightarrow> activeMounts m k = Some mnt"
    by (auto split: if_splits)
  show "k \<noteq> k' \<Longrightarrow> activeMounts (release_key env force k' m) k = activeMounts m k" using a by auto
next
  fix p m k
  show "activeMounts (guard_path env p m) k = activeMounts m k" by (simp add: guard_path_def)
qed

end
