(* ===== verification/DaemonProps.thy ===== *)
theory DaemonProps
  imports MountService
begin

text \<open>
  What the daemon's handlers guarantee: the view of the online devices follows the hub's events
  and snapshots whatever the disk and the mounts do; a mount is established only for a paired
  online peer; the access lists follow the configuration; the backoff of the reconciliation.
\<close>

named_theorems frame "parts of the daemon's state an operation leaves alone"

subsection \<open>Frames\<close>

lemma on_mounter_frame [frame, simp]:
  "onlineDevices (on_mounter f d) = onlineDevices d" "dm_config (on_mounter f d) = dm_config d"
  "dm_ssh (on_mounter f d) = dm_ssh d" "dm_known (on_mounter f d) = dm_known d"
  "dm_nicknames (on_mounter f d) = dm_nicknames d" "dm_mounter (on_mounter f d) = f (dm_mounter d)"
  "published (on_mounter f d) = published d" "everRegistered (on_mounter f d) = everRegistered d"
  by (simp_all add: on_mounter_def)

lemma rememberNickname_frame [frame, simp]:
  "onlineDevices (rememberNickname env did n d) = onlineDevices d" "dm_config (rememberNickname env did n d) = dm_config d"
  "dm_ssh (rememberNickname env did n d) = dm_ssh d" "dm_mounter (rememberNickname env did n d) = dm_mounter d"
  "everRegistered (rememberNickname env did n d) = everRegistered d" "published (rememberNickname env did n d) = published d"
  by (simp_all add: rememberNickname_def Let_def)

lemma auto_mount_frame [frame, simp]:
  "onlineDevices (auto_mount env info d) = onlineDevices d" "dm_config (auto_mount env info d) = dm_config d"
  "dm_ssh (auto_mount env info d) = dm_ssh d" "dm_known (auto_mount env info d) = dm_known d"
  "everRegistered (auto_mount env info d) = everRegistered d" "published (auto_mount env info d) = published d"
  by (simp_all add: auto_mount_def Let_def)

lemma put_online_frame [frame, simp]:
  "onlineDevices (put_online info d) = AList.update (od_id info) info (onlineDevices d)"
  "dm_config (put_online info d) = dm_config d" "dm_ssh (put_online info d) = dm_ssh d"
  "dm_known (put_online info d) = dm_known d" "dm_mounter (put_online info d) = dm_mounter d"
  "everRegistered (put_online info d) = everRegistered d" "published (put_online info d) = published d"
  by (simp_all add: put_online_def)

lemma reload_keys_frame [frame, simp]:
  "onlineDevices (reloadSSHAllowedKeys env d) = onlineDevices d" "dm_config (reloadSSHAllowedKeys env d) = dm_config d"
  "dm_known (reloadSSHAllowedKeys env d) = dm_known d" "dm_mounter (reloadSSHAllowedKeys env d) = dm_mounter d"
  "everRegistered (reloadSSHAllowedKeys env d) = everRegistered d" "ss_acls (dm_ssh (reloadSSHAllowedKeys env d)) = ss_acls (dm_ssh d)"
  by (simp_all add: reloadSSHAllowedKeys_def UpdateAllowedKeys_def split: sum.split)

subsection \<open>The view of the online devices\<close>

type_synonym view = "string \<rightharpoonup> online_device"

definition view_of :: "daemon \<Rightarrow> view" where
  "view_of d = map_of (onlineDevices d)"

text \<open>What the events say, on a map.\<close>

fun view_step :: "event \<Rightarrow> view \<Rightarrow> view" where
  "view_step (DeviceOnline did nick ip port shs) v =
     v(did \<mapsto> \<lparr>od_id = did, od_nickname = nick, od_ip = ip, od_port = port, od_shares = map pb_alias shs\<rparr>)"
| "view_step (DeviceOffline did nick) v = v(did := None)"
| "view_step (DeviceRemoved did nick) v = v(did := None)"
| "view_step (SharesUpdated did shs) v =
     (case v did of None \<Rightarrow> v | Some info \<Rightarrow> v(did \<mapsto> info\<lparr>od_shares := map pb_alias shs\<rparr>))"
| "view_step _ v = v"

definition snapshot_view :: "device_info list \<Rightarrow> view" where
  "snapshot_view infos = map_of (rev (map (\<lambda>i. (info_device i, protoToOnlineDevice i)) infos))"

lemma view_handleEvent: "view_of (handleEvent env ev d) = view_step ev (view_of d)"
  by (cases ev)
    (auto simp: view_of_def handleDeviceOnline_def handleDeviceOffline_def handleDeviceRemoved_def drop_device_def
      handleSharesUpdated_def handlePairingCompleted_def Let_def update_conv' delete_conv' split: option.split prod.split)

lemma view_add_devices:
  "view_of (add_devices env infos d) = view_of d ++ snapshot_view infos"
proof (induction infos arbitrary: d)
  case (Cons i js)
  show ?case
    unfolding add_devices.simps Let_def Cons.IH
    by (auto simp: view_of_def snapshot_view_def update_conv' protoToOnlineDevice_def map_add_def fun_eq_iff split: option.split)
qed (simp add: snapshot_view_def)

lemma map_of_filter_keys: "map_of (filter (\<lambda>(k, _). k \<in> S) xs) = map_of xs |` S"
  by (induction xs) (auto simp: restrict_map_def fun_eq_iff)

lemma snapshot_domain: "snapshot_view infos did = None \<longleftrightarrow> did \<notin> info_device ` set infos"
  by (simp add: snapshot_view_def map_of_eq_None_iff image_image)

lemma view_snapshot: "view_of (processInitialDevices env infos d) = snapshot_view infos"
proof
  fix did
  let ?kept = "map_of (filter (\<lambda>(did, _). did \<in> info_device ` set infos) (onlineDevices d))"
  have "view_of (processInitialDevices env infos d) = ?kept ++ snapshot_view infos"
    unfolding processInitialDevices_def view_add_devices by (simp add: view_of_def)
  moreover have "?kept did = None" if "snapshot_view infos did = None"
    using that by (simp add: snapshot_domain map_of_filter_keys restrict_map_def)
  ultimately show "view_of (processInitialDevices env infos d) did = snapshot_view infos did"
    by (cases "snapshot_view infos did") (auto simp: map_add_def)
qed

text \<open>
  C16: the daemon's view of who is online refines the hub's stream: after a registration it is
  exactly the snapshot, devices it had before and the snapshot lacks are gone, and from then on
  it is the snapshot with the events applied in their order, whatever the mounts, the disk and
  the pairings do meanwhile.
\<close>

theorem online_view_follows_the_hub:
  "view_of (fold (\<lambda>(env, ev). handleEvent env ev) evs (processInitialDevices env infos d)) =
     fold (\<lambda>(env, ev). view_step ev) evs (snapshot_view infos)"
proof -
  have "view_of (fold (\<lambda>(env, ev). handleEvent env ev) evs d') = fold (\<lambda>(env, ev). view_step ev) evs (view_of d')" for d'
    by (induction evs arbitrary: d') (auto simp: view_handleEvent)
  then show ?thesis by (simp add: view_snapshot)
qed

subsection \<open>What the daemon reacts to\<close>

text \<open>The second component of a state is the daemon, the first its watcher's last configuration.\<close>

datatype agent_input =
    HubEvent event
  | Snapshot "device_info list"
  | Sweep
  | FileChanged "config option"

fun react :: "daemon_env \<Rightarrow> agent_input \<Rightarrow> config option \<times> daemon \<Rightarrow> config option \<times> daemon" where
  "react env (HubEvent ev) (w, d) = (w, handleEvent env ev d)"
| "react env (Snapshot infos) (w, d) = (w, processInitialDevices env infos d)"
| "react env Sweep (w, d) = (w, reconcileMounts env d)"
| "react env (FileChanged c) (w, d) = watcher_reload env c (w, d)"

subsection \<open>Pairings survive what is written beside them\<close>

lemma nicknames_not_pub [simp]: "x @ ''.pub'' \<noteq> nicknamesFile" "x @ ''.pub'' \<noteq> nick_temp rnd"
proof -
  have "rev (x @ ''.pub'') ! 0 \<noteq> rev nicknamesFile ! 0" by (simp add: nicknamesFile_def)
  then show "x @ ''.pub'' \<noteq> nicknamesFile" by metis
  have "rev (x @ ''.pub'') ! 0 \<noteq> rev (nick_temp rnd) ! 0" by (simp add: nick_temp_def)
  then show "x @ ''.pub'' \<noteq> nick_temp rnd" by metis
qed

lemma file_of_SaveNicknames:
  "file_of (x @ ''.pub'') (hd (snd (SaveNicknames enc fl part rnd ns d))) = file_of (x @ ''.pub'') d"
  by (simp add: SaveNicknames_def replace_file_def Let_def file_of_put file_of_del)

lemma isPaired_remember [simp]:
  "isPaired (dm_known (rememberNickname env did n d)) x = isPaired (dm_known d) x"
  by (simp add: isPaired_def rememberNickname_def Let_def file_of_SaveNicknames)

lemma saved_key_pairs:
  assumes "SavePeerPublicKey fl part rnd did key d = (None, dirs)"
  shows "isPaired (hd dirs) did"
  using assms
  by (auto simp: SavePeerPublicKey_def replace_file_def Let_def isPaired_def file_of_put split: if_splits)

subsection \<open>New mounts\<close>

definition adds_only :: "(mount_key \<Rightarrow> mount \<Rightarrow> bool) \<Rightarrow> daemon \<Rightarrow> daemon \<Rightarrow> bool" where
  "adds_only P d d' \<longleftrightarrow> (\<forall>k mnt. activeMounts (dm_mounter d') k = Some mnt \<longrightarrow>
     activeMounts (dm_mounter d) k = Some mnt \<or> P k mnt)"

lemma adds_only_same: "dm_mounter d' = dm_mounter d \<Longrightarrow> adds_only P d d'"
  by (simp add: adds_only_def)

lemma adds_only_trans: "adds_only P d d1 \<Longrightarrow> adds_only P d1 d2 \<Longrightarrow> adds_only P d d2"
  by (force simp: adds_only_def)

lemma adds_only_mono: "adds_only P d d' \<Longrightarrow> (\<And>k mnt. P k mnt \<Longrightarrow> Q k mnt) \<Longrightarrow> adds_only Q d d'"
  unfolding adds_only_def by blast

lemma adds_only_keeps: "(\<And>m. activeMounts (f m) = activeMounts m) \<Longrightarrow> adds_only P d (on_mounter f d)"
  by (simp add: adds_only_def)

text \<open>What entitles a mount: an entry of the configuration and a paired device that has the share.\<close>

definition wanted :: "bool \<Rightarrow> config \<Rightarrow> dir_files \<Rightarrow> online_device set \<Rightarrow> mount_key \<Rightarrow> mount \<Rightarrow> bool" where
  "wanted exported cfg kn seen k mnt \<longleftrightarrow> (\<exists>mc \<in> set (cf_mounts cfg). \<exists>dev \<in> seen.
     k = key_of mc \<and> made_for mc dev mnt \<and> od_nickname dev = mc_device mc \<and> isPaired kn (od_id dev) \<and>
     (exported \<longrightarrow> mc_share mc \<in> set (od_shares dev)))"

lemma mount_each_adds:
  assumes "dev \<in> seen" and "isPaired kn (od_id dev)"
  shows "adds_only (wanted True cfg kn seen) d (on_mounter (mount_each (quiet env) dev (mountsForOnlineDevice cfg dev)) d)"
proof -
  have "wanted True cfg kn seen k mnt"
    if "mc \<in> set (mountsForOnlineDevice cfg dev)" "k = key_of mc" "made_for mc dev mnt" for mc k mnt
    using that assms unfolding wanted_def mountsForOnlineDevice_def
    by (intro bexI [of _ mc] bexI [of _ dev]) simp_all
  then show ?thesis
    using table.ensure_all_adds [of env dev "mountsForOnlineDevice cfg dev" "dm_mounter d"]
    unfolding adds_only_def mount_each_def by (simp add: key_of_def) (metis key_of_def)
qed

lemma auto_mount_adds:
  assumes "dev \<in> seen"
  shows "adds_only (wanted True (dm_config d) (dm_known d) seen) d (auto_mount (quiet env) dev d)"
  using mount_each_adds [OF assms] unfolding auto_mount_def Let_def
  by (simp add: adds_only_same)

lemma mount_one_adds:
  assumes "mc \<in> set (cf_mounts cfg)" and "dev \<in> seen" and "isPaired kn (od_id dev)"
    and "od_nickname dev = mc_device mc" and "exported \<longrightarrow> mc_share mc \<in> set (od_shares dev)"
  shows "adds_only (wanted exported cfg kn seen) d (d\<lparr>dm_mounter := snd (mount_at (quiet env) mc dev (dm_mounter d))\<rparr>)"
  unfolding adds_only_def
proof (intro allI impI)
  fix k mnt
  assume "activeMounts (dm_mounter (d\<lparr>dm_mounter := snd (mount_at (quiet env) mc dev (dm_mounter d))\<rparr>)) k = Some mnt"
  then have "activeMounts (dm_mounter d) k = Some mnt \<or> k = key_of mc \<and> made_for mc dev mnt"
    using table.ensure_adds [of env mc dev "dm_mounter d" k mnt] by simp
  then show "activeMounts (dm_mounter d) k = Some mnt \<or> wanted exported cfg kn seen k mnt"
    using assms unfolding wanted_def by blast
qed

lemma release_adds:
  assumes "\<And>m k mnt. activeMounts (f m) k = Some mnt \<Longrightarrow> activeMounts m k = Some mnt"
  shows "adds_only P d (on_mounter f d)"
  using assms unfolding adds_only_def on_mounter_frame by blast

lemma unmountKey_drop:
  assumes "activeMounts (snd (unmountKey h cfg key force reguard m)) k = Some mnt"
  shows "activeMounts m k = Some mnt"
proof -
  consider "activeMounts (snd (unmountKey h cfg key force reguard m)) = activeMounts m"
    | "activeMounts (snd (unmountKey h cfg key force reguard m)) = (activeMounts m)(key := None)"
    using release_active [of h cfg key force reguard m] by blast
  then show ?thesis using assms by cases (simp_all split: if_splits)
qed

lemma unmount_keys_drop:
  "activeMounts (snd (unmount_keys h cfg force reguard ks m)) k = Some mnt \<Longrightarrow> activeMounts m k = Some mnt"
proof (induction ks arbitrary: m)
  case (Cons key ks)
  have "activeMounts (snd (unmountKey h cfg key force reguard m)) k = Some mnt"
    using Cons.prems Cons.IH [of "snd (unmountKey h cfg key force reguard m)"] by (simp add: case_prod_beta)
  then show ?case by (rule unmountKey_drop)
qed simp

lemma unmount_missing_drop:
  "activeMounts (unmount_missing env nick shs mnts m) k = Some mnt \<Longrightarrow> activeMounts m k = Some mnt"
proof (induction mnts arbitrary: m)
  case (Cons x mnts)
  let ?u = "snd (Unmount (de_host env) (de_mounter env) (mt_device x) (mt_share x) m)"
  have drop: "activeMounts ?u k = Some mnt \<Longrightarrow> activeMounts m k = Some mnt"
    unfolding Unmount_def by (rule unmountKey_drop)
  show ?case
  proof (cases "mt_device x \<noteq> nick \<or> mt_share x \<in> shs")
    case True
    then show ?thesis using Cons.prems Cons.IH [of m] by (auto split: if_splits)
  next
    case False
    then show ?thesis using Cons.prems Cons.IH [of ?u] drop by auto
  qed
qed simp

lemma guard_inactive_active: "activeMounts (guard_inactive env mcs m) = activeMounts m"
proof (induction mcs arbitrary: m)
  case (Cons mc mcs)
  then show ?case by (simp add: guard_inactive_def)
qed (simp add: guard_inactive_def)

definition ids_ok :: "daemon \<Rightarrow> bool" where
  "ids_ok d \<longleftrightarrow> list_all (\<lambda>(did, dev). od_id dev = did) (onlineDevices d)"

definition seen_in :: "daemon \<Rightarrow> online_device set" where
  "seen_in d = snd ` set (onlineDevices d)"

lemma online_seen: "map_of (onlineDevices d) did = Some dev \<Longrightarrow> dev \<in> seen_in d"
  by (force simp: seen_in_def dest: map_of_SomeD)

lemma put_online_seen: "dev \<in> seen_in (put_online dev d)"
proof -
  have "map_of (onlineDevices (put_online dev d)) (od_id dev) = Some dev" by (simp add: update_conv')
  then show ?thesis by (rule online_seen)
qed

lemma event_adds:
  assumes "ids_ok d" and d'_def: "d' = handleEvent (quiet env) ev d"
  shows "adds_only (wanted True (dm_config d') (dm_known d') (seen_in d')) d d'"
proof (cases ev)
  case (DeviceOnline did nick ip port shs)
  let ?dev = "\<lparr>od_id = did, od_nickname = nick, od_ip = ip, od_port = port, od_shares = map pb_alias shs\<rparr>"
  let ?d1 = "rememberNickname (quiet env) did nick (put_online ?dev d)"
  have d': "d' = auto_mount (quiet env) ?dev ?d1" by (simp add: d'_def DeviceOnline handleDeviceOnline_def Let_def)
  have "?dev \<in> seen_in d'" using put_online_seen [of ?dev d] unfolding d' seen_in_def by simp
  from auto_mount_adds [OF this, of ?d1 env] show ?thesis
    unfolding d' by (intro adds_only_trans [OF adds_only_same [of ?d1 d]]) simp_all
next
  case (DeviceOffline did nick)
  then show ?thesis unfolding d'_def
    by (auto simp: handleDeviceOffline_def drop_device_def adds_only_def UnmountDevice_def dest: unmount_keys_drop)
next
  case (DeviceRemoved did nick)
  then show ?thesis unfolding d'_def
    by (auto simp: handleDeviceRemoved_def drop_device_def adds_only_def UnmountDevice_def dest: unmount_keys_drop)
next
  case (SharesUpdated did shs)
  then show ?thesis unfolding d'_def
    by (auto simp: handleSharesUpdated_def adds_only_def dest: unmount_missing_drop split: option.split)
next
  case (PairingCompleted did key)
  obtain e dirs where sv: "SavePeerPublicKey (de_fail env did) (de_part env) (de_rnd env) did key (dm_known d) = (e, dirs)"
    by (cases "SavePeerPublicKey (de_fail env did) (de_part env) (de_rnd env) did key (dm_known d)")
  let ?d1 = "reloadSSHAllowedKeys (quiet env) (d\<lparr>dm_known := hd dirs\<rparr>)"
  have d': "d' = (case e of Some _ \<Rightarrow> d\<lparr>dm_known := hd dirs\<rparr>
     | None \<Rightarrow> (case map_of (onlineDevices d) did of
           None \<Rightarrow> on_mounter (guard_inactive (quiet env) (cf_mounts (dm_config ?d1))) ?d1
         | Some info \<Rightarrow> on_mounter (mount_each (quiet env) info (mountsForOnlineDevice (dm_config ?d1) info)) ?d1))"
    using sv by (simp add: d'_def PairingCompleted handlePairingCompleted_def Let_def split: option.split)
  show ?thesis
  proof (cases "e = None \<and> map_of (onlineDevices d) did \<noteq> None")
    case True
    then obtain dev where on: "e = None" "map_of (onlineDevices d) did = Some dev" by blast
    have "od_id dev = did" using map_of_SomeD [OF on(2)] assms(1) by (auto simp: ids_ok_def list_all_iff)
    moreover have "isPaired (hd dirs) did" using saved_key_pairs sv on(1) by blast
    ultimately have "adds_only (wanted True (dm_config d) (hd dirs) (seen_in d)) ?d1
      (on_mounter (mount_each (quiet env) dev (mountsForOnlineDevice (dm_config d) dev)) ?d1)"
      by (intro mount_each_adds online_seen [OF on(2)]) simp
    then show ?thesis unfolding d' using on
      by (intro adds_only_trans [OF adds_only_same [of ?d1 d]]) (simp_all add: seen_in_def)
  next
    case False
    then show ?thesis unfolding d' by (cases e) (auto simp: adds_only_def guard_inactive_active split: option.split)
  qed
qed (simp_all add: d'_def adds_only_same)

lemma isPaired_put [simp]: "dm_known (put_online dev d) = dm_known d"
  by simp

lemma wanted_mono:
  "wanted ex cfg kn seen k mnt \<Longrightarrow> (\<And>x. isPaired kn x \<Longrightarrow> isPaired kn' x) \<Longrightarrow> seen \<subseteq> seen' \<Longrightarrow> wanted ex cfg kn' seen' k mnt"
  unfolding wanted_def by blast

lemma wanted_cong: "(\<And>x. isPaired kn x = isPaired kn' x) \<Longrightarrow> wanted ex cfg kn seen = wanted ex cfg kn' seen"
  unfolding wanted_def by presburger

lemma add_devices_adds:
  "dm_config (add_devices (quiet env) infos d) = dm_config d \<and>
   (\<forall>x. isPaired (dm_known (add_devices (quiet env) infos d)) x = isPaired (dm_known d) x) \<and>
   (protoToOnlineDevice ` set infos \<subseteq> seen \<longrightarrow>
     adds_only (wanted True (dm_config d) (dm_known d) seen) d (add_devices (quiet env) infos d))"
proof (induction infos arbitrary: d)
  case (Cons i js)
  let ?dev = "protoToOnlineDevice i"
  let ?d1 = "rememberNickname (quiet env) (od_id ?dev) (od_nickname ?dev) (put_online ?dev d)"
  let ?d2 = "auto_mount (quiet env) ?dev ?d1"
  have run: "add_devices (quiet env) (i # js) d = add_devices (quiet env) js ?d2" by (simp add: Let_def)
  have "adds_only (wanted True (dm_config d) (dm_known d) seen) d (add_devices (quiet env) js ?d2)"
    if sub: "protoToOnlineDevice ` set (i # js) \<subseteq> seen"
  proof -
    have w: "wanted True (dm_config d) (dm_known ?d1) seen = wanted True (dm_config d) (dm_known d) seen"
      "wanted True (dm_config d) (dm_known ?d2) seen = wanted True (dm_config d) (dm_known d) seen"
      by (rule wanted_cong; simp)+
    have "adds_only (wanted True (dm_config d) (dm_known ?d1) seen) ?d1 ?d2"
      using auto_mount_adds [of ?dev seen ?d1 env] sub by simp
    moreover have "adds_only (wanted True (dm_config d) (dm_known ?d2) seen) ?d2 (add_devices (quiet env) js ?d2)"
      using Cons.IH [of ?d2] sub by simp
    ultimately have "adds_only (wanted True (dm_config d) (dm_known d) seen) ?d1 (add_devices (quiet env) js ?d2)"
      unfolding w by (rule adds_only_trans)
    then show ?thesis by (intro adds_only_trans [OF adds_only_same [of ?d1 d]]) simp_all
  qed
  then show ?case unfolding run using Cons.IH [of ?d2] by simp
qed (simp add: adds_only_same)

lemma snapshot_adds:
  "adds_only (wanted True (dm_config (processInitialDevices (quiet env) infos d))
     (dm_known (processInitialDevices (quiet env) infos d)) (protoToOnlineDevice ` set infos)) d (processInitialDevices (quiet env) infos d)"
proof -
  let ?d0 = "d\<lparr>onlineDevices := filter (\<lambda>(did, _). did \<in> info_device ` set infos) (onlineDevices d)\<rparr>"
  have "adds_only (wanted True (dm_config d) (dm_known d) (protoToOnlineDevice ` set infos)) ?d0 (add_devices (quiet env) infos ?d0)"
    using add_devices_adds [of env infos ?d0 "protoToOnlineDevice ` set infos"] by simp
  then have "adds_only (wanted True (dm_config d) (dm_known d) (protoToOnlineDevice ` set infos)) d (add_devices (quiet env) infos ?d0)"
    by (intro adds_only_trans [OF adds_only_same [of ?d0 d]]) simp_all
  then show ?thesis
    unfolding processInitialDevices_def using add_devices_adds [of env infos ?d0 "{}"]
    by (elim adds_only_mono) (simp, erule wanted_mono, simp_all)
qed

text \<open>The sweep.\<close>

lemma currentDesiredMount_wanted:
  assumes "currentDesiredMount env key d = Some (mc, peer)" and "\<And>xs. set (de_iter env xs) \<subseteq> set xs"
  shows "mc \<in> set (cf_mounts (dm_config d)) \<and> key = key_of mc \<and> peer \<in> seen_in d \<and> od_nickname peer = mc_device mc \<and>
    mc_share mc \<in> set (od_shares peer) \<and> isPaired (dm_known d) (od_id peer)"
proof -
  have "find (\<lambda>mc. (mc_device mc, mc_share mc) = key) (cf_mounts (dm_config d)) = Some mc"
    "find_online env (fst key) d = Some peer" "snd key \<in> set (od_shares peer)" "isPaired (dm_known d) (od_id peer)"
    using assms(1) by (auto simp: currentDesiredMount_def split: option.splits if_splits)
  then show ?thesis using assms(2) [of "onlineDevices d"]
    by (force simp: find_online_def key_of_def seen_in_def dest!: find_Some_in)
qed

lemma reconcile_bookkeeping:
  "snd (noteReconcileFailure iv now key e b d) = d\<lparr>reconcileFails := reconcileFails (snd (noteReconcileFailure iv now key e b d))\<rparr>"
  "clearReconcileErr key d = d\<lparr>reconcileFails := reconcileFails (clearReconcileErr key d)\<rparr>"
  by (simp_all add: noteReconcileFailure_def clearReconcileErr_def Let_def)

lemma reconcile_key_shape:
  "reconcile_key env key d = d \<or> (\<exists>mc peer rf. currentDesiredMount env key d = Some (mc, peer) \<and>
     reconcile_key env key d = d\<lparr>dm_mounter := snd (mount_at env mc peer (dm_mounter d)), reconcileFails := rf\<rparr>)"
proof (cases "currentDesiredMount env key d")
  case (Some p)
  obtain mc peer where p: "p = (mc, peer)" by (cases p)
  obtain e m1 where m: "mount_at env mc peer (dm_mounter d) = (e, m1)" by (cases "mount_at env mc peer (dm_mounter d)")
  show ?thesis
  proof (cases "\<not> IsActive (fst key) (snd key) (dm_mounter d) \<and> \<not> reconcileDue (de_now env (history (dm_mounter d))) key d")
    case True
    then show ?thesis using Some p by (simp add: reconcile_key_def Let_def)
  next
    case False
    then have "reconcile_key env key d =
        (case e of None \<Rightarrow> clearReconcileErr key (d\<lparr>dm_mounter := m1\<rparr>)
         | Some x \<Rightarrow> snd (noteReconcileFailure (de_interval env) (de_now env (history m1)) key x
             (\<not> IsActive (fst key) (snd key) (dm_mounter d)) (d\<lparr>dm_mounter := m1\<rparr>)))"
      using Some p m unfolding reconcile_key_def by (auto simp: Let_def split: option.split)
    then show ?thesis using Some p m
      by (cases e) (auto simp: clearReconcileErr_def noteReconcileFailure_def Let_def)
  qed
qed (simp add: reconcile_key_def)

lemma reconcile_key_frame [frame, simp]:
  "onlineDevices (reconcile_key env key d) = onlineDevices d" "dm_config (reconcile_key env key d) = dm_config d"
  "dm_known (reconcile_key env key d) = dm_known d" "dm_ssh (reconcile_key env key d) = dm_ssh d"
  "everRegistered (reconcile_key env key d) = everRegistered d"
  using reconcile_key_shape [of env key d] by auto

lemma sweep_adds:
  assumes "\<And>xs. set (de_iter env xs) \<subseteq> set xs"
  shows "onlineDevices (reconcile_keys (quiet env) keys d) = onlineDevices d \<and> dm_config (reconcile_keys (quiet env) keys d) = dm_config d \<and>
    dm_known (reconcile_keys (quiet env) keys d) = dm_known d \<and> dm_ssh (reconcile_keys (quiet env) keys d) = dm_ssh d \<and>
    adds_only (wanted True (dm_config d) (dm_known d) (seen_in d)) d (reconcile_keys (quiet env) keys d)"
proof (induction keys arbitrary: d)
  case (Cons key keys)
  let ?d1 = "reconcile_key (quiet env) key d"
  have one: "adds_only (wanted True (dm_config d) (dm_known d) (seen_in d)) d ?d1"
  proof (cases "?d1 = d")
    case False
    then obtain mc peer rf where w: "currentDesiredMount (quiet env) key d = Some (mc, peer)"
      "?d1 = d\<lparr>dm_mounter := snd (mount_at (quiet env) mc peer (dm_mounter d)), reconcileFails := rf\<rparr>"
      using reconcile_key_shape [of "quiet env" key d] by blast
    have c: "mc \<in> set (cf_mounts (dm_config d)) \<and> key = key_of mc \<and> peer \<in> seen_in d \<and> od_nickname peer = mc_device mc \<and>
      mc_share mc \<in> set (od_shares peer) \<and> isPaired (dm_known d) (od_id peer)"
      using currentDesiredMount_wanted [OF w(1)] assms by simp
    have "adds_only (wanted True (dm_config d) (dm_known d) (seen_in d)) d
        (d\<lparr>dm_mounter := snd (mount_at (quiet env) mc peer (dm_mounter d))\<rparr>)"
      using c by (intro mount_one_adds) simp_all
    then show ?thesis using w(2) by (simp add: adds_only_def)
  qed (simp add: adds_only_same)
  have seen: "seen_in ?d1 = seen_in d" by (simp add: seen_in_def)
  show ?case using Cons.IH [of ?d1] adds_only_trans [OF one] by (simp add: adds_only_same seen)
qed (simp add: adds_only_same)

text \<open>Configuration changes.\<close>

lemma tryMount_frame [frame, simp]:
  "onlineDevices (tryMount env mc d) = onlineDevices d" "dm_config (tryMount env mc d) = dm_config d"
  "dm_known (tryMount env mc d) = dm_known d" "dm_ssh (tryMount env mc d) = dm_ssh d"
  "everRegistered (tryMount env mc d) = everRegistered d" "published (tryMount env mc d) = published d"
  by (simp_all add: tryMount_def split: option.split)

lemma tryMount_adds:
  assumes "\<And>xs. set (de_iter env xs) \<subseteq> set xs" and "mc \<in> set (cf_mounts cfg)"
  shows "adds_only (wanted False cfg (dm_known d) (seen_in d)) d (tryMount (quiet env) mc d)"
proof (cases "find_online (quiet env) (mc_device mc) d")
  case None
  then show ?thesis by (simp add: tryMount_def adds_only_def)
next
  case (Some dev)
  have dev: "dev \<in> seen_in d" "od_nickname dev = mc_device mc"
    using Some assms(1) [of "onlineDevices d"] by (force simp: find_online_def seen_in_def dest!: find_Some_in)+
  show ?thesis
  proof (cases "isPaired (dm_known d) (od_id dev)")
    case True
    then have "tryMount (quiet env) mc d = d\<lparr>dm_mounter := snd (mount_at (quiet env) mc dev (dm_mounter d))\<rparr>"
      using Some by (simp add: tryMount_def on_mounter_def)
    then show ?thesis using mount_one_adds [OF assms(2) dev(1) True dev(2)] by simp
  qed (simp add: tryMount_def Some adds_only_def)
qed

lemma tryMounts_add:
  assumes "\<And>xs. set (de_iter env xs) \<subseteq> set xs" and "set mcs \<subseteq> set (cf_mounts cfg)"
  shows "adds_only (wanted False cfg (dm_known d) (seen_in d)) d (fold (tryMount (quiet env)) mcs d) \<and>
    onlineDevices (fold (tryMount (quiet env)) mcs d) = onlineDevices d \<and> dm_known (fold (tryMount (quiet env)) mcs d) = dm_known d \<and>
    dm_config (fold (tryMount (quiet env)) mcs d) = dm_config d \<and> dm_ssh (fold (tryMount (quiet env)) mcs d) = dm_ssh d"
  using assms(2)
proof (induction mcs arbitrary: d)
  case (Cons mc mcs)
  have "adds_only (wanted False cfg (dm_known d) (seen_in d)) d (tryMount (quiet env) mc d)"
    using Cons.prems by (intro tryMount_adds assms(1)) simp
  moreover have "seen_in (tryMount (quiet env) mc d) = seen_in d" by (simp add: seen_in_def)
  moreover have "adds_only (wanted False cfg (dm_known d) (seen_in (tryMount (quiet env) mc d))) (tryMount (quiet env) mc d)
      (fold (tryMount (quiet env)) mcs (tryMount (quiet env) mc d))"
    using Cons.IH [of "tryMount (quiet env) mc d"] Cons.prems by simp
  ultimately have "adds_only (wanted False cfg (dm_known d) (seen_in d)) d (fold (tryMount (quiet env)) (mc # mcs) d)"
    using adds_only_trans by simp
  then show ?case using Cons.IH [of "tryMount (quiet env) mc d"] Cons.prems by simp
qed (simp add: adds_only_same)

lemma unmount_removed_drop:
  "activeMounts (fold (unmount_removed env) mcs m) k = Some mnt \<Longrightarrow> activeMounts m k = Some mnt"
proof (induction mcs arbitrary: m)
  case (Cons mc mcs)
  then have "activeMounts (unmount_removed env mc m) k = Some mnt" by simp
  then show ?case unfolding unmount_removed_def unguard_active Unmount_def by (rule unmountKey_drop)
qed simp

lemma publish_frame [frame, simp]:
  "onlineDevices (publish_shares shs d) = onlineDevices d" "dm_config (publish_shares shs d) = dm_config d"
  "dm_known (publish_shares shs d) = dm_known d" "dm_mounter (publish_shares shs d) = dm_mounter d"
  "ss_acls (dm_ssh (publish_shares shs d)) = sharesToACL shs"
  by (simp_all add: publish_shares_def UpdateACLs_def)

lemma reload_adds:
  assumes "\<And>xs. set (de_iter env xs) \<subseteq> set xs" and d'_def: "d' = onConfigChange (quiet env) old new d"
  shows "adds_only (wanted False new (dm_known d) (seen_in d)) d d' \<and> onlineDevices d' = onlineDevices d \<and> dm_known d' = dm_known d \<and>
    dm_config d' = new \<and> ss_acls (dm_ssh d') = (if SharesChanged (ComputeDiff (de_sorter env) old (Some new))
      then sharesToACL (cf_shares new) else ss_acls (dm_ssh d))"
proof -
  let ?diff = "ComputeDiff (de_sorter env) old (Some new)"
  define d2 where "d2 = (if SharesChanged ?diff then publish_shares (cf_shares new) (d\<lparr>dm_config := new\<rparr>) else d\<lparr>dm_config := new\<rparr>)"
  define d3 where "d3 = fold (tryMount (quiet env)) (MountsAdded ?diff) d2"
  have d': "d' = on_mounter (fold (unmount_removed (quiet env)) (MountsRemoved ?diff)) d3"
    by (simp add: d'_def onConfigChange_def Let_def d2_def d3_def)
  have d2: "dm_mounter d2 = dm_mounter d" "onlineDevices d2 = onlineDevices d" "dm_known d2 = dm_known d" "dm_config d2 = new"
    "ss_acls (dm_ssh d2) = (if SharesChanged ?diff then sharesToACL (cf_shares new) else ss_acls (dm_ssh d))" "seen_in d2 = seen_in d"
    by (simp_all add: d2_def seen_in_def)
  have "set (MountsAdded ?diff) \<subseteq> set (cf_mounts new)" by (auto simp: ComputeDiff_def mountsNotIn_def mountsFrom_def)
  note d3 = tryMounts_add [OF assms(1) this, where d = d2, folded d3_def]
  have "adds_only (wanted False new (dm_known d) (seen_in d)) d d3"
    using adds_only_trans [OF adds_only_same [of d2 d] conjunct1 [OF d3]] d2 by simp
  then have "adds_only (wanted False new (dm_known d) (seen_in d)) d d'"
    unfolding d' by (rule adds_only_trans) (rule release_adds, rule unmount_removed_drop)
  then show ?thesis using d2 d3 by (simp add: d')
qed

text \<open>
  C9: a handler of the daemon puts a mount into the table only on behalf of an entry of the
  configuration in force, made for that entry and at the current endpoint of a device that is
  online under the entry's nickname and whose key is on file; and the device exports the share,
  except that a change of the configuration does not look at what the device exports.
\<close>

theorem new_mounts_are_wanted:
  assumes "react (quiet env) inp (w, d) = (w', d')" and "ids_ok d" and "\<And>xs. set (de_iter env xs) \<subseteq> set xs"
    and "activeMounts (dm_mounter d') k = Some mnt" and "activeMounts (dm_mounter d) k \<noteq> Some mnt"
  shows "\<exists>mc dev. mc \<in> set (cf_mounts (dm_config d')) \<and>
    (dev \<in> seen_in d' \<or> (\<exists>infos. inp = Snapshot infos \<and> dev \<in> protoToOnlineDevice ` set infos)) \<and>
    k = key_of mc \<and> made_for mc dev mnt \<and> od_nickname dev = mc_device mc \<and> isPaired (dm_known d') (od_id dev) \<and>
    (mc_share mc \<in> set (od_shares dev) \<or> (\<exists>c. inp = FileChanged c))"
proof -
  have new: "P k mnt" if "adds_only P d d'" for P using that assms(4,5) unfolding adds_only_def by blast
  show ?thesis
  proof (cases inp)
    case (HubEvent ev)
    then have "d' = handleEvent (quiet env) ev d" using assms(1) by simp
    then have "wanted True (dm_config d') (dm_known d') (seen_in d') k mnt" by (rule new [OF event_adds [OF assms(2)]])
    then show ?thesis unfolding wanted_def by blast
  next
    case (Snapshot infos)
    then have d': "d' = processInitialDevices (quiet env) infos d" using assms(1) by simp
    have "wanted True (dm_config d') (dm_known d') (protoToOnlineDevice ` set infos) k mnt"
      unfolding d' by (rule new [unfolded d', OF snapshot_adds])
    then show ?thesis unfolding wanted_def using Snapshot by blast
  next
    case Sweep
    then have d': "d' = reconcileMounts (quiet env) d" using assms(1) by simp
    have "wanted True (dm_config d') (dm_known d') (seen_in d') k mnt"
      by (rule new) (use sweep_adds [OF assms(3), where d = d] in \<open>simp add: d' reconcileMounts_def seen_in_def\<close>)
    then show ?thesis unfolding wanted_def by blast
  next
    case (FileChanged c)
    show ?thesis
    proof (cases c)
      case None
      then show ?thesis using FileChanged assms(1,4,5) by (simp add: watcher_reload_def)
    next
      case (Some cfg)
      then have d': "d' = onConfigChange (quiet env) w cfg d" using FileChanged assms(1) by (simp add: watcher_reload_def)
      have "wanted False (dm_config d') (dm_known d') (seen_in d') k mnt"
        by (rule new) (use reload_adds [OF assms(3) d'] in \<open>simp add: seen_in_def\<close>)
      then show ?thesis unfolding wanted_def using FileChanged by blast
    qed
  qed
qed

subsection \<open>A daemon\<close>

definition sample_env :: daemon_env where
  "sample_env = \<lparr>de_host = fine_host, de_others = (\<lambda>m. m), de_mounter = sample_mounter_config, de_iter = (\<lambda>xs. xs),
     de_keys = (\<lambda>m. filter (\<lambda>k. activeMounts m k \<noteq> None) [(''mac'', ''A'')]), de_fail = (\<lambda>_ _. False), de_part = [], de_rnd = ''1'', de_enc = (\<lambda>_. []),
     de_parse_key = Some, de_sorter = sort_key sc_alias, de_now = (\<lambda>h. 0), de_cancelled = (\<lambda>h. False),
     de_interval = 15 * second\<rparr>"

definition sample_daemon :: daemon where
  "sample_daemon = \<lparr>dm_config = sample_config, onlineDevices = [], dm_nicknames = [], dm_known = Some [(''d1.pub'', ''key'')],
     dm_mounter = empty_mounter, dm_ssh = UpdateACLs (sharesToACL (cf_shares sample_config)) (NewSSHServer 2222),
     everRegistered = True, reconcileFails = Map.empty, published = []\<rparr>"

definition sample_online :: event where
  "sample_online = DeviceOnline ''d1'' ''mac'' ''10.0.0.2'' 2222 [\<lparr>pb_alias = ''A'', pb_permissions = ''ro'', pb_allowed = []\<rparr>]"

lemma quiet_sample [simp]: "quiet sample_env = sample_env"
  by (simp add: quiet_def sample_env_def)

lemma sample_mounted:
  "map_option mt_ip (activeMounts (dm_mounter (handleEvent sample_env sample_online sample_daemon)) (''mac'', ''A'')) = Some ''10.0.0.2''"
  by code_simp

lemma new_mounts_are_wanted_witness:
  "\<exists>mc (dev :: online_device). mc \<in> set (cf_mounts sample_config) \<and> od_nickname dev = mc_device mc \<and> mc_share mc \<in> set (od_shares dev)"
proof -
  let ?d' = "handleEvent sample_env sample_online sample_daemon"
  obtain mnt where mnt: "activeMounts (dm_mounter ?d') (''mac'', ''A'') = Some mnt"
    using sample_mounted by (cases "activeMounts (dm_mounter ?d') (''mac'', ''A'')") simp_all
  have run: "react (quiet sample_env) (HubEvent sample_online) (None, sample_daemon) = (None, ?d')" by simp
  have ok: "ids_ok sample_daemon" "activeMounts (dm_mounter sample_daemon) (''mac'', ''A'') \<noteq> Some mnt"
    by (simp_all add: ids_ok_def sample_daemon_def empty_mounter_def)
  have conf: "dm_config ?d' = sample_config" by (simp add: sample_online_def handleDeviceOnline_def Let_def sample_daemon_def)
  have sub: "set (de_iter sample_env xs) \<subseteq> set xs" for xs by (simp add: sample_env_def)
  obtain mc and dev :: online_device where "mc \<in> set (cf_mounts (dm_config ?d'))" "od_nickname dev = mc_device mc"
    "mc_share mc \<in> set (od_shares dev) \<or> (\<exists>c. HubEvent sample_online = FileChanged c)"
    using new_mounts_are_wanted [OF run ok(1) sub mnt ok(2)] by blast
  then show ?thesis using conf by (intro exI [of _ mc] exI [of _ dev]) auto
qed

end
