(* ===== verification/SessionProps.thy ===== *)
theory SessionProps
  imports AgentRun DaemonProps
begin

text \<open>
  What the hub session guarantees: the connection Shutdown holds is never closed by a
  replacement, a session ends on three failed heartbeats in a row, the retries go on until the
  hub answers and replace the connection at most once, and what a stopped or refused daemon
  leaves behind.
\<close>

subsection \<open>Who closes a connection\<close>

text \<open>
  All goroutines that touch the connection, one critical section or call at a time: a replacement
  dials, offers what it dialled under the lock and closes what the offer left over; Shutdown takes
  the connection. \<open>in_hand\<close> are the connections dialled and not yet offered, \<open>doomed\<close> those some
  goroutine is about to close, \<open>shut\<close> those closed, \<open>taken\<close> the one Shutdown works with.
\<close>

record clients =
  cl_session :: session
  in_hand :: "nat set"
  doomed :: "nat set"
  shut :: "nat set"
  taken :: "nat option option"
  cl_next :: nat

inductive client_step :: "clients \<Rightarrow> clients \<Rightarrow> bool" where
  step_dial: "client_step s (s\<lparr>in_hand := insert (cl_next s) (in_hand s), cl_next := Suc (cl_next s)\<rparr>)"
| step_swap: "fresh \<in> in_hand s \<Longrightarrow> swapHubClient condemned fresh (cl_session s) = ((old, swapped), sess) \<Longrightarrow>
    client_step s (s\<lparr>cl_session := sess, in_hand := in_hand s - {fresh},
      doomed := (if swapped then insert condemned (doomed s) else insert fresh (doomed s))\<rparr>)"
| step_close: "c \<in> doomed s \<Longrightarrow> client_step s (s\<lparr>doomed := doomed s - {c}, shut := insert c (shut s)\<rparr>)"
| step_take: "takeHubClientForShutdown (cl_session s) = (c, sess) \<Longrightarrow>
    client_step s (s\<lparr>cl_session := sess, taken := Some c\<rparr>)"
| step_beat: "client_step s (s\<lparr>cl_session := snd (noteHeartbeatFailure (cl_session s))\<rparr>)"
| step_clear: "client_step s (s\<lparr>cl_session := clearHeartbeatFailures (cl_session s)\<rparr>)"
| step_new: "client_step s (s\<lparr>cl_session := snd (newSessionCtx sid (cl_session s))\<rparr>)"

inductive_cases client_stepE: "client_step s s'"

definition first_client :: clients where
  "first_client = \<lparr>cl_session = \<lparr>hubClient = Some 0, hubClientClosed = False, sessionCancel = None, heartbeatFails = 0\<rparr>,
     in_hand = {}, doomed = {}, shut = {}, taken = None, cl_next = 1\<rparr>"

text \<open>
  Every connection dialled so far is in one place; the one installed is the one Shutdown took.
\<close>

definition clients_ok :: "clients \<Rightarrow> bool" where
  "clients_ok s \<longleftrightarrow> (\<exists>c. hubClient (cl_session s) = Some c \<and>
     c \<notin> in_hand s \<union> doomed s \<union> shut s \<and> {..< cl_next s} = insert c (in_hand s \<union> doomed s \<union> shut s) \<and>
     (taken s \<noteq> None \<longrightarrow> taken s = Some (Some c) \<and> hubClientClosed (cl_session s))) \<and>
   in_hand s \<inter> (doomed s \<union> shut s) = {} \<and> doomed s \<inter> shut s = {}"

lemma heartbeats_keep_the_client [simp]:
  "hubClient (snd (noteHeartbeatFailure x)) = hubClient x" "hubClientClosed (snd (noteHeartbeatFailure x)) = hubClientClosed x"
  "hubClient (clearHeartbeatFailures x) = hubClient x" "hubClientClosed (clearHeartbeatFailures x) = hubClientClosed x"
  "hubClient (snd (newSessionCtx sid x)) = hubClient x" "hubClientClosed (snd (newSessionCtx sid x)) = hubClientClosed x"
  by (simp_all add: noteHeartbeatFailure_def clearHeartbeatFailures_def newSessionCtx_def Let_def)

lemma clients_ok_step: "client_step s s' \<Longrightarrow> clients_ok s \<Longrightarrow> clients_ok s'"
proof (induction rule: client_step.induct)
  case (step_dial s)
  then obtain c where c: "hubClient (cl_session s) = Some c" "{..< cl_next s} = insert c (in_hand s \<union> doomed s \<union> shut s)"
    by (auto simp: clients_ok_def)
  have "cl_next s \<notin> {..< cl_next s}" by simp
  then have "cl_next s \<noteq> c" "cl_next s \<notin> in_hand s \<union> doomed s \<union> shut s" unfolding c(2) by auto
  moreover have "{..< Suc (cl_next s)} = insert (cl_next s) {..< cl_next s}" by auto
  ultimately show ?case using step_dial c unfolding clients_ok_def by auto
next
  case (step_swap fresh s condemned old swapped sess)
  show ?case
  proof (cases swapped)
    case True
    then have "sess = (cl_session s)\<lparr>hubClient := Some fresh\<rparr>" "hubClient (cl_session s) = Some condemned"
      "\<not> hubClientClosed (cl_session s)"
      using step_swap(2) by (auto simp: swapHubClient_def split: if_splits)
    then show ?thesis using True step_swap(1,3) unfolding clients_ok_def by auto
  next
    case False
    then have "sess = cl_session s" using step_swap(2) by (auto simp: swapHubClient_def split: if_splits)
    then show ?thesis using False step_swap(1,3) unfolding clients_ok_def by auto
  qed
qed (auto simp: clients_ok_def takeHubClientForShutdown_def)



subsection \<open>Failed heartbeats\<close>

fun three_in_a_row :: "bool list \<Rightarrow> bool" where
  "three_in_a_row (x # y # z # xs) = (\<not> x \<and> \<not> y \<and> \<not> z \<or> three_in_a_row (y # z # xs))"
| "three_in_a_row _ = False"

lemma three_after:
  assumes "n < 4"
  shows "three_in_a_row (replicate n False @ True # xs) = (3 \<le> n \<or> three_in_a_row xs)"
proof -
  have one: "three_in_a_row (True # ys) = three_in_a_row ys" for ys by (cases ys rule: three_in_a_row.cases) auto
  have two: "three_in_a_row (False # True # ys) = three_in_a_row ys" for ys using one [of ys] by (cases ys) simp_all
  consider "n = 0" | "n = 1" | "n = 2" | "n = 3" using assms by linarith
  then show ?thesis by cases (auto simp: one two numeral_2_eq_2 numeral_3_eq_3 split: list.split)
qed

lemma three_in_a_row_iff: "three_in_a_row xs \<longleftrightarrow> (\<exists>pre post. xs = pre @ [False, False, False] @ post)"
proof (induction xs rule: three_in_a_row.induct)
  case (1 x y z xs)
  have "(\<exists>pre post. x # y # z # xs = pre @ [False, False, False] @ post) \<longleftrightarrow>
      \<not> x \<and> \<not> y \<and> \<not> z \<or> (\<exists>pre post. y # z # xs = pre @ [False, False, False] @ post)"
    by (auto simp: Cons_eq_append_conv) (metis append_Cons append_Nil)+
  then show ?case using 1 by simp
qed (auto simp: Cons_eq_append_conv append_eq_Cons_conv)

lemma beats_count:
  assumes "sessionCancel (ag_session a) = Some sid" and "sid \<notin> set (ag_ended a)" and "heartbeatFails (ag_session a) = n" and "n < 3"
  shows "sid \<in> set (ag_ended (runHeartbeat ticks a)) \<longleftrightarrow> three_in_a_row (replicate n False @ ticks)"
  using assms
proof (induction ticks arbitrary: a n)
  case Nil
  then have "\<not> three_in_a_row (replicate n False)" by (cases n) (auto simp: numeral_3_eq_3 less_Suc_eq)
  then show ?case using Nil by (simp add: runHeartbeat_def)
next
  case (Cons t ticks)
  have step: "runHeartbeat (t # ticks) a = runHeartbeat ticks (beat t a)" by (simp add: runHeartbeat_def)
  show ?case
  proof (cases t)
    case True
    then have "sid \<in> set (ag_ended (runHeartbeat ticks (beat t a))) \<longleftrightarrow> three_in_a_row ticks"
      using Cons.IH [of "beat t a" 0] Cons.prems by (simp add: beat_def clearHeartbeatFailures_def)
    then show ?thesis using True Cons.prems(4) step by (simp add: three_after)
  next
    case False
    have shift: "replicate n False @ False # ticks = replicate (Suc n) False @ ticks" by (simp add: replicate_app_Cons_same [symmetric])
    show ?thesis
    proof (cases "n = 2")
      case True
      have keeps: "sid \<in> set (ag_ended b) \<Longrightarrow> sid \<in> set (ag_ended (runHeartbeat ts b))" for ts b
        by (induction ts arbitrary: b) (auto simp: runHeartbeat_def beat_def end_session_def split: prod.split option.split)
      have "sid \<in> set (ag_ended (beat False a))"
        using Cons.prems True by (simp add: beat_def noteHeartbeatFailure_def maxHeartbeatFailures_def end_session_def Let_def)
      then show ?thesis using step False True keeps by (simp add: numeral_2_eq_2)
    next
      case n: False
      then have "sid \<in> set (ag_ended (runHeartbeat ticks (beat False a))) \<longleftrightarrow> three_in_a_row (replicate (Suc n) False @ ticks)"
        using Cons.IH [of "beat False a" "Suc n"] Cons.prems
        by (simp add: beat_def noteHeartbeatFailure_def maxHeartbeatFailures_def end_session_def Let_def)
      then show ?thesis unfolding step using False by (simp only: shift)
    qed
  qed
qed

text \<open>
  A session that has just begun is ended by the heartbeats exactly when three in a row fail
  while it lasts, whatever failed before it began; an answered heartbeat starts the count again.
\<close>

theorem session_ends_on_three_in_a_row:
  assumes "newSessionCtx sid (ag_session a0) = (prev, ag_session a)" and "sid \<notin> set (ag_ended a)"
  shows "sid \<in> set (ag_ended (runHeartbeat ticks a)) \<longleftrightarrow> (\<exists>pre post. ticks = pre @ [False, False, False] @ post)"
proof -
  have "ag_session a = ag_session a0\<lparr>sessionCancel := Some sid, heartbeatFails := 0\<rparr>"
    using assms(1) by (simp add: newSessionCtx_def)
  then show ?thesis using beats_count [of a sid 0 ticks] assms(2) by (simp add: three_in_a_row_iff)
qed

definition fresh_agent :: agent where
  "fresh_agent = \<lparr>ag_daemon = sample_daemon\<lparr>everRegistered := False\<rparr>,
     ag_session = \<lparr>hubClient = Some 0, hubClientClosed = False, sessionCancel = None, heartbeatFails = 2\<rparr>, ag_next = 1, ag_ended = [],
     ag_ready_fired = False, ag_ready = 0, ag_heart_fired = False, ag_hearts = 0, ag_port = 2222, ag_calls = []\<rparr>"

lemma session_ends_on_three_in_a_row_witness:
  "1 \<in> set (ag_ended (runHeartbeat [False, True, False, False, False]
     (fresh_agent\<lparr>ag_session := snd (newSessionCtx 1 (ag_session fresh_agent))\<rparr>)))"
proof -
  let ?a = "fresh_agent\<lparr>ag_session := snd (newSessionCtx 1 (ag_session fresh_agent))\<rparr>"
  have "newSessionCtx 1 (ag_session fresh_agent) = (None, ag_session ?a)" "1 \<notin> set (ag_ended ?a)"
    by (simp_all add: newSessionCtx_def fresh_agent_def)
  moreover have "[False, True, False, False, False] = [False, True] @ [False, False, False] @ []" by simp
  ultimately show ?thesis using session_ends_on_three_in_a_row [of 1 fresh_agent None ?a "[False, True, False, False, False]"] by blast
qed

subsection \<open>The retries\<close>

definition succeeds :: "answers \<Rightarrow> bool" where
  "succeeds an \<longleftrightarrow> (case an_register an of Inl _ \<Rightarrow> False | Inr _ \<Rightarrow> subscribeWithBudget an = None)"

definition times_out :: "answers \<Rightarrow> bool" where
  "times_out an = (case an_register an of
      Inl e \<Rightarrow> ourBudgetExpired (an_parent_done an) (an_reg_expired an) e
    | Inr _ \<Rightarrow> (case subscribeWithBudget an of None \<Rightarrow> False | Some e \<Rightarrow> timed_out e))"

lemma sessionOnce_result:
  "(case fst (sessionOnce an a) of Inr sid \<Rightarrow> succeeds an | Inl e \<Rightarrow> \<not> succeeds an \<and> timed_out e = times_out an)"
  by (cases "an_register an"; cases "subscribeWithBudget an")
    (simp_all add: sessionOnce_def succeeds_def times_out_def Let_def split: prod.split)

fun installs :: "hub_call list \<Rightarrow> nat" where
  "installs [] = 0"
| "installs (InstallCall c # cs) = Suc (installs cs)"
| "installs (_ # cs) = installs cs"

definition n_installs :: "agent \<Rightarrow> nat" where
  "n_installs a = installs (ag_calls a)"

text \<open>The other goroutines install no connection: only the retries replace it.\<close>

definition calm :: "answers \<Rightarrow> bool" where
  "calm an \<longleftrightarrow> (\<forall>a. n_installs (an_others an a) = n_installs a)"

lemma markReady_calls [simp]: "ag_calls (markReady a) = ag_calls a" "ag_calls (startHeartbeat a) = ag_calls a"
  "ag_calls (end_session sid a) = ag_calls a"
  by (simp_all add: markReady_def startHeartbeat_def end_session_def split: option.split)

lemma sessionOnce_installs: "calm an \<Longrightarrow> n_installs (snd (sessionOnce an a)) = n_installs a"
  by (auto simp: sessionOnce_def calm_def n_installs_def call_def Let_def split: sum.split option.split prod.split)

lemma replace_installs:
  "n_installs (snd (replaceHubClient dial_ok condemned a)) =
     n_installs a + (if fst (replaceHubClient dial_ok condemned a) then 1 else 0)"
  by (auto simp: replaceHubClient_def n_installs_def call_def close_client_def swapHubClient_def Let_def split: option.split)

lemma reconnect_success:
  "succeeds an \<Longrightarrow> \<exists>sid. reconnect_loop d spent ((an, dk, w) # as) a = (Established sid, [], snd (sessionOnce an a))"
  using sessionOnce_result [of an a] by (cases "sessionOnce an a"; cases "fst (sessionOnce an a)") simp_all

lemma reconnect_failure:
  assumes "\<not> succeeds an"
  shows "\<exists>spent' a2. reconnect_loop d spent ((an, dk, w) # as) a =
      (if w then (RetryStopped, [d], a2)
       else (case reconnect_loop (next_delay d) spent' as a2 of (r, ws, a3) \<Rightarrow> (r, d # ws, a3))) \<and>
    (spent \<longrightarrow> spent') \<and> (\<not> times_out an \<longrightarrow> spent' = spent) \<and>
    (calm an \<longrightarrow> n_installs a2 = n_installs a + (if spent' \<and> \<not> spent then 1 else 0))"
proof -
  obtain e a1 where o: "sessionOnce an a = (Inl e, a1)"
    using sessionOnce_result [of an a] assms by (cases "sessionOnce an a"; cases "fst (sessionOnce an a)") auto
  have e: "timed_out e = times_out an" using sessionOnce_result [of an a] o by simp
  obtain spent' a2 where p: "(if timed_out e \<and> \<not> spent then replaceHubClient dk (hubClient (ag_session a)) a1 else (spent, a1)) = (spent', a2)"
    by (cases "if timed_out e \<and> \<not> spent then replaceHubClient dk (hubClient (ag_session a)) a1 else (spent, a1)")
  have "reconnect_loop d spent ((an, dk, w) # as) a =
      (if w then (RetryStopped, [d], a2)
       else (case reconnect_loop (next_delay d) spent' as a2 of (r, ws, a3) \<Rightarrow> (r, d # ws, a3)))"
    by (simp add: o p Let_def)
  moreover have "(spent \<longrightarrow> spent') \<and> (\<not> times_out an \<longrightarrow> spent' = spent)" using p e by (auto split: if_splits)
  moreover have "n_installs a2 = n_installs a + (if spent' \<and> \<not> spent then 1 else 0)" if "calm an"
    using p sessionOnce_installs [OF that, of a] o
      replace_installs [of dk "hubClient (ag_session a)" a1] by (auto split: if_splits)
  ultimately show ?thesis by blast
qed

declare reconnect_loop.simps(2) [simp del]

definition failures :: "(answers \<times> bool \<times> bool) list \<Rightarrow> nat" where
  "failures as = length (takeWhile (\<lambda>x. \<not> succeeds (fst x)) as)"

lemma doubling_waits:
  "map (\<lambda>k. (next_delay ^^ k) d) [0..<Suc n] = d # map (\<lambda>k. (next_delay ^^ k) (next_delay d)) [0..<n]"
  by (simp only: upt_conv_Cons [OF zero_less_Suc] map_Suc_upt [symmetric] list.map list.map_comp)
    (simp add: funpow_swap1 o_def)

lemma reconnect_runs:
  "list_all (\<lambda>x. \<not> snd (snd x)) as \<Longrightarrow> reconnect_loop d spent as a = (r, ws, a') \<Longrightarrow>
   (if failures as < length as then \<exists>sid. r = Established sid else r = Retrying) \<and>
   ws = map (\<lambda>k. (next_delay ^^ k) d) [0..<failures as]"
proof (induction as arbitrary: d spent a r ws a')
  case (Cons x as)
  obtain an dk w where x: "x = (an, dk, w)" by (cases x)
  show ?case
  proof (cases "succeeds an")
    case True
    then show ?thesis using reconnect_success [OF True, of d spent dk w as a] Cons.prems x by (auto simp: failures_def)
  next
    case False
    obtain spent' a2 where s: "reconnect_loop d spent (x # as) a =
      (case reconnect_loop (next_delay d) spent' as a2 of (r, ws, a3) \<Rightarrow> (r, d # ws, a3))"
      using reconnect_failure [OF False, of d spent dk w as a] Cons.prems(1) x by auto
    obtain r' ws' a3 where t: "reconnect_loop (next_delay d) spent' as a2 = (r', ws', a3)"
      by (cases "reconnect_loop (next_delay d) spent' as a2")
    have "failures (x # as) = Suc (failures as)" using False x by (simp add: failures_def)
    then show ?thesis using Cons.IH [OF _ t] Cons.prems s t doubling_waits [of d "failures as"] by auto
  qed
qed (simp add: failures_def)

lemma reconnect_installs:
  "list_all (\<lambda>x. calm (fst x)) as \<Longrightarrow> reconnect_loop d spent as a = (r, ws, a') \<Longrightarrow>
   n_installs a' \<le> n_installs a + (if spent \<or> \<not> list_ex (\<lambda>x. times_out (fst x)) as then 0 else 1)"
proof (induction as arbitrary: d spent a r ws a')
  case (Cons x as)
  obtain an dk w where x: "x = (an, dk, w)" by (cases x)
  have calm: "calm an" using Cons.prems(1) x by simp
  show ?case
  proof (cases "succeeds an")
    case True
    then show ?thesis using reconnect_success [OF True, of d spent dk w as a] Cons.prems x sessionOnce_installs [OF calm, of a] by auto
  next
    case False
    obtain spent' a2 where s: "reconnect_loop d spent (x # as) a = (if w then (RetryStopped, [d], a2) else
        (case reconnect_loop (next_delay d) spent' as a2 of (r, ws, a3) \<Rightarrow> (r, d # ws, a3)))"
      "spent \<longrightarrow> spent'" "\<not> times_out an \<longrightarrow> spent' = spent" "n_installs a2 = n_installs a + (if spent' \<and> \<not> spent then 1 else 0)"
      using reconnect_failure [OF False, of d spent dk w as a] calm x by auto
    show ?thesis
    proof (cases w)
      case True
      then show ?thesis using s Cons.prems(2) x by auto
    next
      case w: False
      obtain r' ws' a3 where t: "reconnect_loop (next_delay d) spent' as a2 = (r', ws', a3)"
        by (cases "reconnect_loop (next_delay d) spent' as a2")
      then have "a3 = a'" using s(1) w Cons.prems(2) by simp
      then show ?thesis using Cons.IH [OF _ t] Cons.prems(1) s(2-4) x by (auto split: if_splits)
    qed
  qed
qed simp

lemma next_delay_bounds: "0 < d \<Longrightarrow> d \<le> backoffMax \<Longrightarrow> d \<le> next_delay d \<and> next_delay d \<le> backoffMax"
  by (auto simp: next_delay_def)

lemma delay_bounds: "0 < d \<Longrightarrow> d \<le> backoffMax \<Longrightarrow> d \<le> (next_delay ^^ k) d \<and> (next_delay ^^ k) d \<le> backoffMax"
proof (induction k)
  case (Suc k)
  then have "d \<le> (next_delay ^^ k) d" "(next_delay ^^ k) d \<le> backoffMax" by simp_all
  with Suc.prems next_delay_bounds [of "(next_delay ^^ k) d"] show ?case by simp
qed simp

text \<open>
  C19: the retries never give up by themselves: as long as the context lives they go on, and the
  first attempt in which the hub accepts the registration and the stream opens in time gives the
  session. The waits in between start at the configured minimum (one second without one), double
  and never exceed a minute, and an episode replaces the connection at most once, and only if an
  attempt ran into the daemon's own deadline.
\<close>

theorem retries_reach_the_hub:
  assumes "list_all (\<lambda>x. \<not> snd (snd x)) as" and "reconnectSession iv as a = (r, ws, a')" and "iv \<le> backoffMax"
    and "list_all (\<lambda>x. calm (fst x)) as"
  shows "(if failures as < length as then \<exists>sid. r = Established sid else r = Retrying) \<and>
    ws = map (\<lambda>k. (next_delay ^^ k) (if iv \<le> 0 then second else iv)) [0..<failures as] \<and>
    list_all (\<lambda>w. 0 < w \<and> w \<le> minute) ws \<and>
    n_installs a' \<le> n_installs a + (if list_ex (\<lambda>x. times_out (fst x)) as then 1 else 0)"
proof -
  let ?d = "if iv \<le> 0 then backoffInitial else iv"
  have d: "0 < ?d" "?d \<le> backoffMax" using assms(3) by (auto simp: backoffInitial_def backoffMax_def duration_defs)
  have run: "reconnect_loop ?d False as a = (r, ws, a')" using assms(2) by (simp add: reconnectSession_def)
  note shape = reconnect_runs [OF assms(1) run]
  have "list_all (\<lambda>w. 0 < w \<and> w \<le> minute) (map (\<lambda>k. (next_delay ^^ k) ?d) [0..<failures as])"
  proof -
    have "0 < (next_delay ^^ k) ?d \<and> (next_delay ^^ k) ?d \<le> minute" for k
      using delay_bounds [OF d, of k] d(1) by (simp add: backoffMax_def duration_defs)
    then show ?thesis by (simp only: list_all_iff set_map) blast
  qed
  moreover have "?d = (if iv \<le> 0 then second else iv)" by (simp add: backoffInitial_def)
  ultimately show ?thesis using shape reconnect_installs [OF assms(4) run] by (simp split: if_splits)
qed

definition lost_answers :: answers where
  "lost_answers = \<lparr>an_register = Inl Transport, an_reg_expired = True, an_parent_done = False, an_env = sample_env,
     an_subscribe = None, an_budget_fired = False, an_session_done = False, an_others = (\<lambda>a. a)\<rparr>"

definition good_answers :: answers where
  "good_answers = lost_answers\<lparr>an_register := Inr []\<rparr>"

lemma answers_simps [simp]:
  "calm lost_answers" "calm good_answers" "\<not> succeeds lost_answers" "succeeds good_answers" "times_out lost_answers"
  by (simp_all add: calm_def succeeds_def times_out_def lost_answers_def good_answers_def ourBudgetExpired_def subscribeWithBudget_def)

lemma retries_reach_the_hub_witness:
  "case reconnectSession 0 [(lost_answers, True, False), (lost_answers, True, False), (good_answers, True, False)] fresh_agent of
     (r, ws, a') \<Rightarrow> ws = [second, 2 * second] \<and> n_installs a' \<le> 1"
proof -
  let ?as = "[(lost_answers, True, False), (lost_answers, True, False), (good_answers, True, False)]"
  obtain r ws a' where r: "reconnectSession 0 ?as fresh_agent = (r, ws, a')" by (cases "reconnectSession 0 ?as fresh_agent")
  have "failures ?as = 2" by (simp add: failures_def)
  then show ?thesis using retries_reach_the_hub [OF _ r] r
    by (simp add: backoffMax_def duration_defs next_delay_def upt_rec numeral_2_eq_2 n_installs_def fresh_agent_def)
qed

subsection \<open>Readiness\<close>

definition polite :: "answers \<Rightarrow> bool" where
  "polite an \<longleftrightarrow> (\<forall>a. ag_ready (an_others an a) = ag_ready a \<and> ag_ready_fired (an_others an a) = ag_ready_fired a)"

definition ready_once :: "agent \<Rightarrow> bool" where
  "ready_once a \<longleftrightarrow> ag_ready a = (if ag_ready_fired a then 1 else 0)"

lemma ready_frame [simp]:
  "ag_ready (call c a) = ag_ready a" "ag_ready_fired (call c a) = ag_ready_fired a"
  "ag_ready (startHeartbeat a) = ag_ready a" "ag_ready_fired (startHeartbeat a) = ag_ready_fired a"
  "ag_ready (end_session sid a) = ag_ready a" "ag_ready_fired (end_session sid a) = ag_ready_fired a"
  "ag_ready_fired (markReady a)"
  by (simp_all add: call_def startHeartbeat_def end_session_def markReady_def split: option.split)

lemma markReady_once: "ready_once a \<Longrightarrow> ready_once (markReady a)"
  by (simp add: ready_once_def markReady_def)

lemma sessionOnce_ready:
  assumes "polite an"
  shows "(ready_once a \<longrightarrow> ready_once (snd (sessionOnce an a))) \<and>
    (ag_ready_fired (snd (sessionOnce an a)) \<longleftrightarrow> ag_ready_fired a \<or> (\<exists>infos. an_register an = Inr infos))"
proof (cases "an_register an")
  case (Inl e)
  then show ?thesis using assms by (simp add: sessionOnce_def polite_def ready_once_def Let_def)
next
  case (Inr infos)
  define a1 where "a1 = an_others an (call (RegisterCall (hubClient (ag_session a)) (configSharesToProto (cf_shares (dm_config (ag_daemon a)))) (ag_port a)) a)"
  have a1: "ag_ready a1 = ag_ready a" "ag_ready_fired a1 = ag_ready_fired a" using assms by (simp_all add: a1_def polite_def)
  have "ag_ready (snd (sessionOnce an a)) = ag_ready (markReady ((startHeartbeat a1)\<lparr>ag_daemon := (ag_daemon (startHeartbeat a1))\<lparr>everRegistered := True\<rparr>\<rparr>))
    \<and> ag_ready_fired (snd (sessionOnce an a))"
    using Inr by (simp add: sessionOnce_def a1_def [symmetric] Let_def split: prod.split option.split)
  then show ?thesis using a1 Inr by (simp add: ready_once_def markReady_def)
qed

lemma replace_ready [simp]:
  "ag_ready (snd (replaceHubClient dk c a)) = ag_ready a" "ag_ready_fired (snd (replaceHubClient dk c a)) = ag_ready_fired a"
  by (auto simp: replaceHubClient_def call_def close_client_def Let_def split: option.split prod.split)

lemma replace_readyD:
  "replaceHubClient dk c a = (b, a') \<Longrightarrow> ag_ready a' = ag_ready a \<and> ag_ready_fired a' = ag_ready_fired a"
  by (metis replace_ready snd_conv)

lemma reconnect_ready:
  "list_all (\<lambda>x. polite (fst x)) as \<Longrightarrow> ready_once a \<Longrightarrow> ag_ready_fired a \<Longrightarrow>
   ready_once (snd (snd (reconnect_loop d spent as a))) \<and> ag_ready_fired (snd (snd (reconnect_loop d spent as a)))"
proof (induction as arbitrary: d spent a)
  case (Cons x as)
  obtain an dk w where x: "x = (an, dk, w)" by (cases x)
  obtain r a1 where o: "sessionOnce an a = (r, a1)" by (cases "sessionOnce an a")
  have a1: "ready_once a1" "ag_ready_fired a1" using sessionOnce_ready [of an a] Cons.prems x o by simp_all
  show ?case
  proof (cases r)
    case (Inr sid)
    then show ?thesis using a1 x o by (simp add: reconnect_loop.simps(2))
  next
    case (Inl e)
    obtain spent' a2 where p: "(if timed_out e \<and> \<not> spent then replaceHubClient dk (hubClient (ag_session a)) a1 else (spent, a1)) = (spent', a2)"
      by (cases "if timed_out e \<and> \<not> spent then replaceHubClient dk (hubClient (ag_session a)) a1 else (spent, a1)")
    have a2: "ready_once a2" "ag_ready_fired a2"
      using p a1 replace_readyD [of dk "hubClient (ag_session a)" a1 spent' a2] by (auto simp: ready_once_def split: if_splits)
    have "snd (snd (reconnect_loop d spent (x # as) a)) = (if w then a2 else snd (snd (reconnect_loop (next_delay d) spent' as a2)))"
      by (simp add: reconnect_loop.simps(2) x o Inl p Let_def split: prod.split)
    then show ?thesis using Cons.IH [of a2 "next_delay d" spent'] Cons.prems(1) a2 by simp
  qed
qed simp



subsection \<open>Stopping\<close>

lemma Shutdown_calls:
  "hubClientClosed (ag_session (snd (Shutdown sd a))) \<and> hubClient (ag_session (snd (Shutdown sd a))) = hubClient (ag_session a) \<and>
   ag_calls (snd (Shutdown sd a)) =
     (case hubClient (ag_session a) of None \<Rightarrow> ag_calls a | Some c \<Rightarrow> CloseCall c # DeregisterCall c # ag_calls a) \<and>
   everRegistered (ag_daemon (snd (Shutdown sd a))) = everRegistered (ag_daemon a)"
  by (auto simp: Shutdown_def takeHubClientForShutdown_def call_def close_client_def Let_def split: prod.split option.split)

lemma Shutdown_errors:
  "fst (Shutdown sd a) = [] \<longleftrightarrow>
     fst (UnmountAllForce (de_host (sd_env sd)) (de_mounter (sd_env sd)) (de_keys (sd_env sd) (dm_mounter (ag_daemon a)))
       (dm_mounter (ag_daemon a))) = [] \<and>
     (hubClient (ag_session a) = None \<or> sd_deregister sd \<noteq> Some Transport \<and> sd_client_close sd) \<and>
     fst (StopSSH (sd_ssh_close sd) (dm_ssh (ag_daemon a))) = None \<and> (\<forall>e. sd_watcher_close sd \<noteq> Some (Some e))"
proof -
  have r: "x \<noteq> HubRejected \<longleftrightarrow> x = Transport" for x by (cases x) simp_all
  show ?thesis
    by (auto simp: Shutdown_def takeHubClientForShutdown_def call_def close_client_def Let_def r split: prod.split option.splits if_splits)
qed


text \<open>Between the start of one session and the next attempt at least the minimum passes.\<close>

lemma sessions_are_spaced:
  "supervise iv eps a = (r, pauses, a') \<Longrightarrow> list_all (\<lambda>(dwell, pause, _). iv \<le> dwell + pause) pauses"
proof (induction eps arbitrary: a r pauses a')
  case (Cons ep eps)
  show ?case
  proof (cases "ep_done ep \<or> (ep_dwell ep < iv \<and> ep_floor_done ep)")
    case True
    then show ?thesis using Cons.prems by (auto simp: Let_def split: if_splits)
  next
    case False
    obtain r1 ws a2 where l: "reconnectSession iv (ep_attempts ep) (readStream (ep_events ep) a) = (r1, ws, a2)"
      by (cases "reconnectSession iv (ep_attempts ep) (readStream (ep_events ep) a)")
    obtain r3 ps a3 where v: "supervise iv eps a2 = (r3, ps, a3)" by (cases "supervise iv eps a2")
    show ?thesis using False Cons.prems Cons.IH [OF v] l v
      by (cases r1) (auto simp: Let_def split: if_splits)
  qed
qed simp

definition calm_shutdown :: shutdown_answers where
  "calm_shutdown = \<lparr>sd_env = sample_env, sd_deregister = Some HubRejected, sd_ssh_close = None, sd_watcher_close = Some None,
     sd_client_close = True\<rparr>"

definition sample_run :: run_answers where
  "sample_run = \<lparr>rn_connected = Connected, rn_listed = None, rn_key_ok = True, rn_bound = None, rn_env = sample_env,
     rn_interval = second, rn_first = good_answers, rn_attempts = [], rn_ssh_died = False, rn_episodes = [], rn_end = CtxDone,
     rn_shutdown = calm_shutdown\<rparr>"

definition idle_agent :: agent where
  "idle_agent = fresh_agent\<lparr>ag_daemon := sample_daemon\<lparr>everRegistered := False, dm_config := DefaultConfig, dm_known := None\<rparr>\<rparr>"

lemma idle_fields: "ag_next idle_agent = 1" "cf_mounts (dm_config (ag_daemon idle_agent)) = []" "dm_known (ag_daemon idle_agent) = None"
  "activeMounts (dm_mounter (ag_daemon idle_agent)) = Map.empty" "ag_ready_fired idle_agent = False" "ag_calls idle_agent = []"
  "hubClientClosed (ag_session idle_agent) = False" "sessionCancel (ag_session idle_agent) = None"
  by (simp_all add: idle_agent_def fresh_agent_def DefaultConfig_def sample_daemon_def empty_mounter_def)

definition idle_ready :: agent where
  "idle_ready = snd (prepare_run sample_run idle_agent)"

lemma sample_run_prepares: "prepare_run sample_run idle_agent = (True, idle_ready)"
  "hubClient (ag_session idle_ready) = Some 1" "sessionCancel (ag_session idle_ready) = None"
  "ss_listener (dm_ssh (ag_daemon idle_ready)) = Some Open"  "activeMounts (dm_mounter (ag_daemon idle_ready)) = Map.empty"
  by (simp_all add: idle_ready_def prepare_run_def sample_run_def startSSH_def Listen_def seedNicknamesFromHub_def setHubClient_def
     idle_fields Let_def guardConfiguredTargets_def guard_all_def reloadSSHAllowedKeys_def ListPairedDevices_def UpdateAllowedKeys_def)

lemma sample_run_first_session: "\<exists>sid a2. registerAndSubscribe (rn_interval sample_run) (rn_first sample_run) (rn_attempts sample_run) (rn_ssh_died sample_run) idle_ready = (Running sid, a2) \<and> 
   hubClient (ag_session a2) = Some 1 \<and> ss_listener (dm_ssh (ag_daemon a2)) = Some Open \<and> activeMounts (dm_mounter (ag_daemon a2)) = Map.empty \<and> everRegistered (ag_daemon a2)"
  by (simp add: registerAndSubscribe_def sessionOnce_def sample_run_def good_answers_def lost_answers_def newSessionCtx_def sample_run_prepares Let_def
    subscribeWithBudget_def call_def startHeartbeat_def markReady_def processInitialDevices_def end_session_def)

lemma sample_run_ends:
  "\<exists>a'. Run sample_run idle_agent = (Some ExitOk, a') \<and> everRegistered (ag_daemon a') \<and> hubClient (ag_session a') = Some 1"
proof -
  obtain sid a2 where a2: "registerAndSubscribe (rn_interval sample_run) (rn_first sample_run) (rn_attempts sample_run) (rn_ssh_died sample_run) idle_ready = (Running sid, a2)"
    "hubClient (ag_session a2) = Some 1" "ss_listener (dm_ssh (ag_daemon a2)) = Some Open" "activeMounts (dm_mounter (ag_daemon a2)) = Map.empty"
    "everRegistered (ag_daemon a2)"
    using sample_run_first_session by blast
  let ?a3 = "startHeartbeat a2"
  have same: "ag_session ?a3 = ag_session a2" "ag_daemon ?a3 = ag_daemon a2" by (simp_all add: startHeartbeat_def)
  obtain errs a4 where sd: "Shutdown calm_shutdown ?a3 = (errs, a4)" by (cases "Shutdown calm_shutdown ?a3")
  have "errs = []" using Shutdown_errors [of calm_shutdown ?a3] sd a2 same
    by (simp add: calm_shutdown_def sample_env_def UnmountAllForce_def StopSSH_def Let_def)
  then have "Run sample_run idle_agent = (Some ExitOk, a4)"
    using a2(1) sample_run_prepares(1) sd by (simp add: Run_def runServices_def) (simp add: sample_run_def)
  then show ?thesis using Shutdown_calls [of calm_shutdown ?a3] sd a2 same by (intro exI [of _ a4]) simp
qed


subsection \<open>The death of the SSH server\<close>

definition dying_run :: run_answers where
  "dying_run = sample_run\<lparr>rn_first := good_answers\<lparr>an_subscribe := Some Transport\<rparr>, rn_ssh_died := True\<rparr>"

lemma dying_run_prepares: "prepare_run dying_run idle_agent = (True, idle_ready)"
proof -
  have same: "rn_key_ok dying_run = rn_key_ok sample_run" "rn_bound dying_run = rn_bound sample_run" "rn_env dying_run = rn_env sample_run"
    "rn_listed dying_run = rn_listed sample_run" "rn_connected dying_run = rn_connected sample_run" by (simp_all add: dying_run_def)
  show ?thesis unfolding prepare_run_def same using sample_run_prepares(1) unfolding prepare_run_def .
qed

lemma idle_ready_calls: "ag_calls idle_ready = [] \<and> \<not> hubClientClosed (ag_session idle_ready)"
  by (simp add: idle_ready_def prepare_run_def sample_run_def startSSH_def Listen_def seedNicknamesFromHub_def setHubClient_def
     idle_fields Let_def guardConfiguredTargets_def guard_all_def reloadSSHAllowedKeys_def ListPairedDevices_def UpdateAllowedKeys_def)

lemma dying_run_first_session: "\<exists>a2. registerAndSubscribe (rn_interval dying_run) (rn_first dying_run) (rn_attempts dying_run) (rn_ssh_died dying_run) idle_ready = (SshDied, a2) \<and> 
   hubClient (ag_session a2) = Some 1 \<and> everRegistered (ag_daemon a2) \<and> \<not> hubClientClosed (ag_session a2) \<and>
    list_all (\<lambda>c. case c of DeregisterCall _ \<Rightarrow> False | _ \<Rightarrow> True) (ag_calls a2) \<and>
     list_ex (\<lambda>c. case c of RegisterCall _ _ _ \<Rightarrow> True | _ \<Rightarrow> False) (ag_calls a2)"
  by (simp add: registerAndSubscribe_def reconnectSession_def sessionOnce_def dying_run_def sample_run_def good_answers_def lost_answers_def newSessionCtx_def sample_run_prepares Let_def
    subscribeWithBudget_def call_def startHeartbeat_def markReady_def processInitialDevices_def end_session_def idle_ready_calls)

text \<open>
  When the SSH server dies while the daemon retries its first session, \<open>Run\<close> returns without
  \<open>Shutdown\<close>, also if an earlier attempt has been registered (its stream failed to open): the
  device stays registered at the hub, no Deregister is sent and the connection is not closed.
\<close>

theorem ssh_death_skips_shutdown:
  "\<exists>a'. Run dying_run idle_agent = (Some ExitFailed, a') \<and> everRegistered (ag_daemon a') \<and> hubClient (ag_session a') = Some 1 \<and>
     \<not> hubClientClosed (ag_session a') \<and>
     list_all (\<lambda>c. case c of DeregisterCall _ \<Rightarrow> False | _ \<Rightarrow> True) (ag_calls a') \<and>
     list_ex (\<lambda>c. case c of RegisterCall _ _ _ \<Rightarrow> True | _ \<Rightarrow> False) (ag_calls a')"
proof -
  obtain a2 where a2: "registerAndSubscribe (rn_interval dying_run) (rn_first dying_run) (rn_attempts dying_run) (rn_ssh_died dying_run) idle_ready = (SshDied, a2)"
    "hubClient (ag_session a2) = Some 1" "everRegistered (ag_daemon a2)" "\<not> hubClientClosed (ag_session a2)"
    "list_all (\<lambda>c. case c of DeregisterCall _ \<Rightarrow> False | _ \<Rightarrow> True) (ag_calls a2)"
    "list_ex (\<lambda>c. case c of RegisterCall _ _ _ \<Rightarrow> True | _ \<Rightarrow> False) (ag_calls a2)"
    using dying_run_first_session by blast
  have "Run dying_run idle_agent = (Some ExitFailed, a2)"
    using a2(1) dying_run_prepares by (simp add: Run_def) (simp add: dying_run_def sample_run_def)
  then show ?thesis using a2 by blast
qed

end
