(* ===== verification/ReloadProps.thy ===== *)
theory ReloadProps
  imports DaemonProps
begin

text \<open>
  What follows from the configuration the daemon runs with: the access lists it enforces, the
  keys it accepts, the mounts a sweep asks for and how long it waits after a failure.
\<close>

subsection \<open>The access lists follow the configuration\<close>

definition run_agent :: "(daemon_env \<times> agent_input) list \<Rightarrow> config option \<times> daemon \<Rightarrow> config option \<times> daemon" where
  "run_agent ins s = fold (\<lambda>(env, inp). react env inp) ins s"

lemma handleEvent_conf:
  "dm_config (handleEvent env ev d) = dm_config d \<and> ss_acls (dm_ssh (handleEvent env ev d)) = ss_acls (dm_ssh d)"
  by (cases ev)
    (auto simp: handleDeviceOnline_def handleDeviceOffline_def handleDeviceRemoved_def drop_device_def
      handleSharesUpdated_def handlePairingCompleted_def Let_def split: option.split prod.split)

lemma add_devices_conf:
  "dm_config (add_devices env infos d) = dm_config d \<and> ss_acls (dm_ssh (add_devices env infos d)) = ss_acls (dm_ssh d)"
  by (induction infos arbitrary: d) (simp_all add: Let_def)

lemma reconcile_keys_conf:
  "dm_config (reconcile_keys env keys d) = dm_config d \<and> ss_acls (dm_ssh (reconcile_keys env keys d)) = ss_acls (dm_ssh d)"
  by (induction keys arbitrary: d) simp_all

lemma onConfigChange_conf:
  "dm_config (onConfigChange env old new d) = new \<and>
   ss_acls (dm_ssh (onConfigChange env old new d)) =
     (if SharesChanged (ComputeDiff (de_sorter env) old (Some new)) then sharesToACL (cf_shares new) else ss_acls (dm_ssh d))"
proof -
  have "dm_config (fold (tryMount env) mcs x) = dm_config x \<and> dm_ssh (fold (tryMount env) mcs x) = dm_ssh x" for mcs x
    by (induction mcs arbitrary: x) simp_all
  then show ?thesis by (simp add: onConfigChange_def Let_def)
qed

definition acl_agrees :: "share_acl list \<Rightarrow> config \<Rightarrow> bool" where
  "acl_agrees acls cfg \<longleftrightarrow> (\<forall>al. find (\<lambda>a. acl_alias a = al) acls = find (\<lambda>a. acl_alias a = al) (sharesToACL (cf_shares cfg)))"

lemma same_shares_same_acl:
  assumes "distinct (map sc_alias a)" and "distinct (map sc_alias b)" and "set a = set b"
  shows "find (\<lambda>x. acl_alias x = al) (sharesToACL a) = find (\<lambda>x. acl_alias x = al) (sharesToACL b)"
proof -
  have acls: "distinct (map acl_alias (sharesToACL x))" if "distinct (map sc_alias x)" for x
    using that by (simp add: sharesToACL_def ShareACLsFromConfig_def o_def)
  have "set (sharesToACL a) = set (sharesToACL b)"
    using assms(3) by (simp add: sharesToACL_def ShareACLsFromConfig_def)
  then show ?thesis
    using find_key_iff [OF acls [OF assms(1)], of al] find_key_iff [OF acls [OF assms(2)], of al]
    by (cases "find (\<lambda>x. acl_alias x = al) (sharesToACL a)"; cases "find (\<lambda>x. acl_alias x = al) (sharesToACL b)") auto
qed

text \<open>The files the daemon may meet: no alias twice; a sorter that sorts.\<close>

definition reasonable :: "daemon_env \<times> agent_input \<Rightarrow> bool" where
  "reasonable x \<longleftrightarrow> sorts_by_alias (de_sorter (fst x)) \<and>
     (case snd x of FileChanged (Some c) \<Rightarrow> distinct (map sc_alias (cf_shares c)) | _ \<Rightarrow> True)"

definition in_step :: "config option \<times> daemon \<Rightarrow> bool" where
  "in_step s \<longleftrightarrow> fst s = Some (dm_config (snd s)) \<and> distinct (map sc_alias (cf_shares (dm_config (snd s)))) \<and>
     acl_agrees (ss_acls (dm_ssh (snd s))) (dm_config (snd s))"

lemma in_step_react:
  assumes "in_step s" and "reasonable (env, inp)"
  shows "in_step (react env inp s)"
proof -
  obtain w d where s: "s = (w, d)" by (cases s)
  show ?thesis
  proof (cases "\<exists>c. inp = FileChanged (Some c)")
    case False
    then have "fst (react env inp s) = w \<and> dm_config (snd (react env inp s)) = dm_config d \<and>
        ss_acls (dm_ssh (snd (react env inp s))) = ss_acls (dm_ssh d)"
      using handleEvent_conf [of env _ d] reconcile_keys_conf [of env _ d]
        add_devices_conf [of env _ "d\<lparr>onlineDevices := _\<rparr>"]
      by (cases inp) (auto simp: s reconcileMounts_def processInitialDevices_def watcher_reload_def split: option.split)
    then show ?thesis using assms(1) by (simp add: in_step_def s)
  next
    case True
    then obtain c where c: "inp = FileChanged (Some c)" by blast
    have old: "w = Some (dm_config d)" "distinct (map sc_alias (cf_shares (dm_config d)))" "acl_agrees (ss_acls (dm_ssh d)) (dm_config d)"
      using assms(1) by (simp_all add: in_step_def s)
    have new: "distinct (map sc_alias (cf_shares c))" "sorts_by_alias (de_sorter env)"
      using assms(2) by (simp_all add: reasonable_def c)
    have changed: "SharesChanged (ComputeDiff (de_sorter env) w (Some c)) \<longleftrightarrow> set (cf_shares (dm_config d)) \<noteq> set (cf_shares c)"
      using sharesEqual_iff [OF new(2) old(2) new(1)] by (simp add: ComputeDiff_def sharesFrom_def old(1))
    have "acl_agrees (ss_acls (dm_ssh (onConfigChange env w c d))) c"
      using changed old(3) same_shares_same_acl [OF old(2) new(1)] onConfigChange_conf [of env w c d]
      by (auto simp: acl_agrees_def)
    then show ?thesis using new(1) onConfigChange_conf [of env w c d] by (simp add: s c watcher_reload_def in_step_def)
  qed
qed

lemma in_step_run: "in_step s \<Longrightarrow> list_all reasonable ins \<Longrightarrow> in_step (run_agent ins s)"
proof (induction ins arbitrary: s)
  case (Cons x ins)
  obtain env inp where "x = (env, inp)" by (cases x)
  then show ?case using Cons.IH [of "react env inp s"] Cons.prems in_step_react [of s env inp] by (simp add: run_agent_def)
qed (simp add: run_agent_def)


lemma sample_in_step: "in_step (Some sample_config, sample_daemon)"
  by (simp add: in_step_def sample_daemon_def sample_config_def acl_agrees_def UpdateACLs_def)

definition revoked_config :: config where
  "revoked_config = snd (DenyDevices ''A'' [''x''] sample_config)"

lemma revoked_shares: "cf_shares revoked_config =
   [\<lparr>sc_path = ''/a'', sc_alias = ''A'', sc_permissions = ''rw'', sc_allowed = []\<rparr>,
    \<lparr>sc_path = ''/b'', sc_alias = ''B'', sc_permissions = ''ro'', sc_allowed = []\<rparr>]"
  by (simp add: revoked_config_def sample_config_def DenyDevices_def)


text \<open>
  The agreement needs the common start, and \<open>Run\<close> does not give it: the configuration is
  read when the daemon is built and again by the watcher, after the connection, the nickname seed
  and the SSH server. An edit in between is the baseline of every later difference, so that as
  long as the shares are not edited again peers keep the access of the configuration read first,
  also a peer whose access was taken away.
\<close>

theorem edit_before_the_watch_is_lost:
  assumes "NewDaemon (Some c0) True goos True cached kn = Inr d" and "NewWatcher (Some c1) = w"
    and "sorts_by_alias (de_sorter env)" and "distinct (map sc_alias (cf_shares c1))"
    and "distinct (map sc_alias (cf_shares c))" and "set (cf_shares c) = set (cf_shares c1)"
    and "watcher_reload env (Some c) (w, d) = (w', d')"
  shows "dm_config d' = c \<and> peer_access d' al did = admits c0 al did (Some (NicknameForDeviceID d'))"
proof -
  have acls: "ss_acls (dm_ssh d) = sharesToACL (cf_shares c0)"
    using assms(1) by (auto simp: NewDaemon_def UpdateACLs_def split: if_splits)
  have "\<not> SharesChanged (ComputeDiff (de_sorter env) w (Some c))"
    using sharesEqual_iff [OF assms(3,4,5)] assms(6) by (simp add: ComputeDiff_def sharesFrom_def NewWatcher_def assms(2) [symmetric])
  then show ?thesis
    using assms(7) onConfigChange_conf [of env w c d] acls
    by (auto simp: watcher_reload_def peer_access_def admits_def)
qed

lemma edit_before_the_watch_is_lost_witness:
  "case NewDaemon (Some sample_config) True ''linux'' True (Inr []) None of Inl _ \<Rightarrow> False | Inr d \<Rightarrow>
     peer_access (snd (watcher_reload sample_env (Some revoked_config) (NewWatcher (Some revoked_config), d))) ''A'' ''x'' =
       Some \<lparr>dec_allow = True, dec_read_only = False\<rparr>"
proof -
  obtain d where d: "NewDaemon (Some sample_config) True ''linux'' True (Inr []) None = Inr d"
    by (simp add: NewDaemon_def validateMountTool_def sample_config_def DefaultConfig_def)
  obtain w' d' where r: "watcher_reload sample_env (Some revoked_config) (NewWatcher (Some revoked_config), d) = (w', d')"
    by (cases "watcher_reload sample_env (Some revoked_config) (NewWatcher (Some revoked_config), d)")
  have "sorts_by_alias (de_sorter sample_env)" "distinct (map sc_alias (cf_shares revoked_config))"
    by (simp_all add: sample_env_def sorts_by_alias_def revoked_shares)
  from edit_before_the_watch_is_lost [OF d HOL.refl this(1) this(2) this(2) HOL.refl r, of "''A''" "''x''"]
  show ?thesis unfolding d using r
    by (simp add: admits_def sample_config_def sharesToACL_def ShareACLsFromConfig_def Decide_def acl_of_def)
qed

subsection \<open>The accepted keys\<close>

lemma load_keys_members:
  "(did, k) \<in> set (load_keys env d ids) \<Longrightarrow> did \<in> set ids \<and> isPaired d did \<and>
     (\<exists>raw. LoadPeerPublicKey (de_fail env did) did d = Inr raw \<and> de_parse_key env raw = Some k)"
  by (induction ids)
    (auto simp: isPaired_def LoadPeerPublicKey_def split: sum.splits option.splits if_splits)

lemma load_keys_complete:
  "did \<in> set ids \<Longrightarrow> LoadPeerPublicKey (de_fail env did) did d = Inr raw \<Longrightarrow> de_parse_key env raw = Some k \<Longrightarrow>
     (did, k) \<in> set (load_keys env d ids)"
  by (induction ids) (auto split: sum.splits option.splits)

lemma listed_if_paired:
  "ListPairedDevices fl d = Inr ids \<Longrightarrow> isPaired d did \<Longrightarrow> did \<in> set ids"
proof -
  assume l: "ListPairedDevices fl d = Inr ids" and p: "isPaired d did"
  then obtain fs c where fs: "d = Some fs" "map_of fs (did @ ''.pub'') = Some c"
    by (auto simp: isPaired_def file_of_def split: if_splits option.splits)
  have "did = trim_suffix (fst (did @ ''.pub'', c)) ''.pub''" by simp
  moreover have "(did @ ''.pub'', c) \<in> set (filter (\<lambda>x. has_suffix (fst x) ''.pub'') fs)"
    using map_of_SomeD [OF fs(2)] by (simp add: has_suffix_append)
  ultimately show "did \<in> set ids" using l fs(1) by (force simp: ListPairedDevices_def split: if_splits)
qed

text \<open>
  C30: once a pairing has been completed and the directory of keys can be read, the SSH server
  accepts exactly the keys on file: a key it accepts is on file for the paired device it is taken
  for, every key on file that parses is accepted, and so the new peer's is.
\<close>

theorem only_paired_peers_admitted:
  assumes "SavePeerPublicKey (de_fail env peer) (de_part env) (de_rnd env) peer key (dm_known d) = (None, dirs)"
    and "\<not> de_fail env [] SRead" and "handlePairingCompleted env peer key d = d'"
  shows "isPaired (dm_known d') peer \<and>
    (publicKeyCallback (dm_ssh d') k = Some did \<longrightarrow> isPaired (dm_known d') did \<and>
      (\<exists>raw. LoadPeerPublicKey (de_fail env did) did (dm_known d') = Inr raw \<and> de_parse_key env raw = Some k)) \<and>
    (isPaired (dm_known d') did \<and> LoadPeerPublicKey (de_fail env did) did (dm_known d') = Inr raw \<and>
      de_parse_key env raw = Some k \<longrightarrow> publicKeyCallback (dm_ssh d') k \<noteq> None)"
proof -
  let ?d1 = "reloadSSHAllowedKeys env (d\<lparr>dm_known := hd dirs\<rparr>)"
  have "dm_ssh d' = dm_ssh ?d1 \<and> dm_known d' = hd dirs"
    using assms(1,3) by (auto simp: handlePairingCompleted_def Let_def split: option.splits)
  moreover obtain ids where ids: "ListPairedDevices (de_fail env []) (hd dirs) = Inr ids"
    using assms(2) by (cases "hd dirs") (simp_all add: ListPairedDevices_def)
  ultimately have ssh: "dm_ssh d' = UpdateAllowedKeys (load_keys env (hd dirs) ids) (dm_ssh d)" "dm_known d' = hd dirs"
    by (simp_all add: reloadSSHAllowedKeys_def)
  note keys = publicKeyCallback_iff [of "load_keys env (hd dirs) ids" "dm_ssh d" k]
  have "isPaired (hd dirs) peer" by (rule saved_key_pairs [OF assms(1)])
  moreover have "publicKeyCallback (dm_ssh d') k \<noteq> None"
    if "isPaired (hd dirs) did" "LoadPeerPublicKey (de_fail env did) did (hd dirs) = Inr raw" "de_parse_key env raw = Some k"
    using load_keys_complete [OF listed_if_paired [OF ids that(1)] that(2,3)] keys(1) unfolding ssh(1) by force
  moreover have "isPaired (hd dirs) did \<and> (\<exists>raw. LoadPeerPublicKey (de_fail env did) did (hd dirs) = Inr raw \<and> de_parse_key env raw = Some k)"
    if "publicKeyCallback (dm_ssh d') k = Some did"
    using load_keys_members [OF keys(2)] that unfolding ssh(1) by blast
  ultimately show ?thesis unfolding ssh(2) by blast
qed

lemma only_paired_peers_admitted_witness:
  "isPaired (dm_known (handlePairingCompleted sample_env ''d2'' ''key2'' sample_daemon)) ''d2''"
proof -
  obtain e dirs where sv: "SavePeerPublicKey (de_fail sample_env ''d2'') (de_part sample_env) (de_rnd sample_env) ''d2'' ''key2''
      (dm_known sample_daemon) = (e, dirs)"
    by (cases "SavePeerPublicKey (de_fail sample_env ''d2'') (de_part sample_env) (de_rnd sample_env) ''d2'' ''key2'' (dm_known sample_daemon)")
  have "validateDeviceID ''d2''" by code_simp
  then have "e = None" using sv by (simp add: SavePeerPublicKey_def replace_file_def sample_env_def Let_def)
  then show ?thesis using only_paired_peers_admitted [OF sv [unfolded \<open>e = None\<close>] _ HOL.refl] by (simp add: sample_env_def)
qed

subsection \<open>The sweep and the events want the same mounts\<close>

lemma find_filter_key:
  assumes "\<And>x. P x = (P' x)" and "\<And>x. P x \<Longrightarrow> Q x = b"
  shows "find P (filter Q xs) = (if b then find P' xs else None)"
  using assms by (induction xs) auto

lemma find_online_iff:
  assumes "distinct (map (\<lambda>x. od_nickname (snd x)) (onlineDevices d))" and "\<And>xs. set (de_iter env xs) = set xs"
  shows "find_online env nick d = Some peer \<longleftrightarrow> peer \<in> seen_in d \<and> od_nickname peer = nick"
proof
  assume "find_online env nick d = Some peer"
  then show "peer \<in> seen_in d \<and> od_nickname peer = nick"
    by (auto simp: find_online_def seen_in_def assms(2) dest!: find_Some_in)
next
  assume peer: "peer \<in> seen_in d \<and> od_nickname peer = nick"
  then obtain did where did: "(did, peer) \<in> set (onlineDevices d)" by (auto simp: seen_in_def)
  then have "peer \<in> set (map snd (de_iter env (onlineDevices d)))" using assms(2) [of "onlineDevices d"] by force
  then have "find_online env nick d \<noteq> None"
    using peer unfolding find_online_def find_None_iff by blast
  then obtain p where p: "find_online env nick d = Some p" by blast
  then obtain did' where "(did', p) \<in> set (onlineDevices d)" "od_nickname p = nick"
    by (auto simp: find_online_def assms(2) dest!: find_Some_in)
  then have "(did', p) = (did, peer)"
    using distinct_key_unique [OF assms(1), of "(did', p)" "(did, peer)"] did peer by simp
  then show "find_online env nick d = Some peer" using p by simp
qed

lemma currentDesiredMount_iff:
  "currentDesiredMount env key d = Some (mc, peer) \<longleftrightarrow>
     find (\<lambda>mc. (mc_device mc, mc_share mc) = key) (cf_mounts (dm_config d)) = Some mc \<and>
     find_online env (fst key) d = Some peer \<and> snd key \<in> set (od_shares peer) \<and> isPaired (dm_known d) (od_id peer)"
  by (auto simp: currentDesiredMount_def split: option.splits if_splits)

text \<open>
  When no two online devices share a nickname, the sweep asks for a mount exactly when an
  event of the device would: the device is online and paired and the entry is the first with its
  key among those the event path mounts; both go to the same endpoint.
\<close>

theorem sweep_agrees_with_events:
  assumes "distinct (map (\<lambda>x. od_nickname (snd x)) (onlineDevices d))" and "\<And>xs. set (de_iter env xs) = set xs"
  shows "currentDesiredMount env key d = Some (mc, peer) \<longleftrightarrow>
    peer \<in> seen_in d \<and> isPaired (dm_known d) (od_id peer) \<and>
    find (\<lambda>mc. key_of mc = key) (mountsForOnlineDevice (dm_config d) peer) = Some mc"
proof -
  have wants: "find (\<lambda>mc. key_of mc = key) (mountsForOnlineDevice (dm_config d) peer) =
      (if fst key = od_nickname peer \<and> snd key \<in> set (od_shares peer)
       then find (\<lambda>mc. (mc_device mc, mc_share mc) = key) (cf_mounts (dm_config d)) else None)"
    unfolding mountsForOnlineDevice_def by (rule find_filter_key) (auto simp: key_of_def)
  have online: "find_online env (fst key) d = Some peer \<longleftrightarrow> peer \<in> seen_in d \<and> od_nickname peer = fst key"
    by (rule find_online_iff [OF assms])
  show ?thesis
    unfolding currentDesiredMount_iff wants online by auto
qed

lemma sweep_agrees_with_events_witness:
  "map_option (\<lambda>x. mc_to (fst x)) (currentDesiredMount sample_env (''mac'', ''A'') (handleEvent sample_env sample_online sample_daemon)) = Some ''/m''"
proof -
  let ?d = "handleEvent sample_env sample_online sample_daemon"
  let ?dev = "\<lparr>od_id = ''d1'', od_nickname = ''mac'', od_ip = ''10.0.0.2'', od_port = 2222, od_shares = [''A'']\<rparr>"
  let ?mc = "\<lparr>mc_device = ''mac'', mc_share = ''A'', mc_to = ''/m''\<rparr>"
  have online: "onlineDevices ?d = [(''d1'', ?dev)]"
    by (simp add: sample_online_def handleDeviceOnline_def Let_def sample_daemon_def)
  have conf: "dm_config ?d = sample_config" using handleEvent_conf [of sample_env sample_online sample_daemon] by (simp add: sample_daemon_def)
  have "isPaired (dm_known ?d) ''d1''"
  proof -
    have "isPaired (dm_known sample_daemon) ''d1''" by code_simp
    then show ?thesis by (simp add: sample_online_def handleDeviceOnline_def Let_def)
  qed
  moreover have "find (\<lambda>mc. key_of mc = (''mac'', ''A'')) (mountsForOnlineDevice (dm_config ?d) ?dev) = Some ?mc"
    by (simp add: conf sample_config_def mountsForOnlineDevice_def key_of_def)
  moreover have "\<And>xs. set (de_iter sample_env xs) = set xs" by (simp add: sample_env_def)
  ultimately have "currentDesiredMount sample_env (''mac'', ''A'') ?d = Some (?mc, ?dev)"
    using sweep_agrees_with_events [of ?d sample_env "(''mac'', ''A'')" ?mc ?dev] online by (simp add: seen_in_def)
  then show ?thesis by simp
qed

subsection \<open>Backoff\<close>

lemma reconcile_delay_bounds: "0 < reconcile_delay iv n \<and> reconcile_delay iv n \<le> 10 * minute"
  by (auto simp: reconcile_delay_def maxReconcileBackoff_def Let_def duration_defs)

lemma reconcile_delay_value:
  assumes "0 < iv" and "iv < 2 ^ 46"
  shows "reconcile_delay iv n = min (iv * 2 ^ min n 16) (10 * minute)"
proof -
  have "(2 :: int) ^ min n 16 \<le> 2 ^ 16" by (rule power_increasing) simp_all
  then have "iv * 2 ^ min n 16 \<le> iv * 2 ^ 16" using assms(1) by simp
  also have "\<dots> < 2 ^ 63" using assms(2) by simp
  finally have "signed_take_bit 63 (iv * 2 ^ min n 16) = iv * 2 ^ min n 16"
    using assms(1) by (intro signed_take_bit_int_eq_self) (auto intro: order_trans [of _ 0])
  moreover have "0 < iv * 2 ^ min n 16" using assms(1) by simp
  moreover have "(if 16 < n then 16 else n) = min n 16" by simp
  ultimately show ?thesis using assms(1)
    by (simp add: reconcile_delay_def shift_duration_def maxReconcileBackoff_def Let_def min_def mult_le_0_iff)
qed

text \<open>An interval of more than 39 hours can make the shift wrap to a delay of microseconds.\<close>

lemma reconcile_delay_wraps: "reconcile_delay (2 ^ 48 + 1) 16 = 65536"
  by code_simp

text \<open>
  After the n-th failure in a row to establish a mount the sweep leaves it alone until the
  monitor's interval, doubled n-1 times, has passed, and never longer than ten minutes; a failure
  on a mount that is still in the table delays nothing, a success forgets the failures, and no
  failure delays another mount. The failure is reported the first time and when it changes.
\<close>

theorem backoff_is_bounded:
  assumes "0 < iv" and "iv < 2 ^ 46"
    and "(case reconcileFails d key of None \<Rightarrow> 0 | Some st \<Rightarrow> rs_attempts st) = n"
  shows "(let d' = snd (noteReconcileFailure iv now key e True d) in
      reconcileDue t key d' = (now + min (iv * 2 ^ min n 16) (10 * minute) \<le> t) \<and>
      (case reconcileFails d' key of None \<Rightarrow> False | Some st \<Rightarrow> rs_attempts st = Suc n) \<and>
      (key' \<noteq> key \<longrightarrow> reconcileDue t key' d' = reconcileDue t key' d)) \<and>
    reconcileDue t key (snd (noteReconcileFailure iv now key e False d)) =
      (case reconcileFails d key of None \<Rightarrow> 0 \<le> t | Some st \<Rightarrow> reconcileDue t key d) \<and>
    reconcileDue t key (clearReconcileErr key d) \<and>
    fst (noteReconcileFailure iv now key e b d) =
      (case reconcileFails d key of None \<Rightarrow> True | Some st \<Rightarrow> rs_last_err st \<noteq> Some e)"
  using assms(3) reconcile_delay_value [OF assms(1,2)]
  by (cases "reconcileFails d key")
    (auto simp: noteReconcileFailure_def reconcileDue_def clearReconcileErr_def Let_def)

lemma backoff_is_bounded_witness:
  "reconcileDue (second * 14) (''mac'', ''A'')
     (snd (noteReconcileFailure (15 * second) 0 (''mac'', ''A'') ENotAppeared True sample_daemon)) = False"
  using backoff_is_bounded [of "15 * second" sample_daemon "(''mac'', ''A'')" 0 0 ENotAppeared "14 * second" "(''mac'', ''B'')" True]
  by (simp add: sample_daemon_def duration_defs Let_def)

subsection \<open>A reload does not look at the exports\<close>

definition unexported_daemon :: daemon where
  "unexported_daemon = snd (react sample_env (HubEvent (SharesUpdated ''d1'' []))
     (react sample_env (HubEvent sample_online) (None, sample_daemon\<lparr>dm_config := sample_config\<lparr>cf_mounts := []\<rparr>\<rparr>)))"

text \<open>
  A mount that is added to the configuration is asked for even though the peer has said that
  it no longer exports the share, which the events, the snapshots and the sweep all respect.
\<close>

theorem reload_ignores_the_exports:
  "(case map_of (onlineDevices unexported_daemon) ''d1'' of None \<Rightarrow> False | Some dev \<Rightarrow> od_shares dev = []) \<and>
   activeMounts (dm_mounter (onConfigChange sample_env (Some (dm_config unexported_daemon)) sample_config unexported_daemon)) (''mac'', ''A'') \<noteq> None \<and>
   currentDesiredMount sample_env (''mac'', ''A'') (onConfigChange sample_env (Some (dm_config unexported_daemon)) sample_config unexported_daemon) = None"
proof (intro conjI)
  show "case map_of (onlineDevices unexported_daemon) ''d1'' of None \<Rightarrow> False | Some dev \<Rightarrow> od_shares dev = []" by code_simp
  have "map_option mt_ip (activeMounts (dm_mounter (onConfigChange sample_env (Some (dm_config unexported_daemon)) sample_config unexported_daemon))
      (''mac'', ''A'')) = Some ''10.0.0.2''" by code_simp
  then show "activeMounts (dm_mounter (onConfigChange sample_env (Some (dm_config unexported_daemon)) sample_config unexported_daemon)) (''mac'', ''A'') \<noteq> None"
    by auto
  have "(case currentDesiredMount sample_env (''mac'', ''A'') (onConfigChange sample_env (Some (dm_config unexported_daemon)) sample_config unexported_daemon)
     of None \<Rightarrow> True | Some _ \<Rightarrow> False)" by code_simp
  then show "currentDesiredMount sample_env (''mac'', ''A'') (onConfigChange sample_env (Some (dm_config unexported_daemon)) sample_config unexported_daemon) = None"
    by (simp split: option.splits)
qed

end
