(* ===== verification/AgentRaces.thy ===== *)
theory AgentRaces
  imports SessionProps ReloadProps
begin

text \<open>
  What the agent's concurrent parts can do to each other: the configuration watcher while the
  supervisor's Register call is in flight. \<open>an_others\<close> of \<open>answers\<close> is what the other goroutines
  do between the moment \<open>sessionOnce\<close> has read its shares and the moment the hub has answered.
\<close>

fun registered_lists :: "hub_call list \<Rightarrow> pb_share list list" where
  "registered_lists [] = []"
| "registered_lists (RegisterCall c shs p # cs) = shs # registered_lists cs"
| "registered_lists (_ # cs) = registered_lists cs"

lemma onConfigChange_published:
  "\<not> everRegistered d \<Longrightarrow> published (onConfigChange env old new d) = published d \<and> \<not> everRegistered (onConfigChange env old new d)"
proof -
  have "published (fold (tryMount env) mcs x) = published x \<and> everRegistered (fold (tryMount env) mcs x) = everRegistered x" for mcs x
    by (induction mcs arbitrary: x) simp_all
  then show "\<not> everRegistered d \<Longrightarrow> ?thesis" by (simp add: onConfigChange_def Let_def publish_shares_def)
qed

lemma add_devices_published: "published (add_devices env is x) = published x"
  by (induction "is" arbitrary: x) (simp_all add: Let_def)

text \<open>
  Shares edited while the first Register is in flight never reach the hub in that session: the
  call carries the shares read before the edit, the watcher publishes nothing because no Register
  has been accepted yet, and the session that follows sends nothing more, although the daemon
  serves the new configuration.
\<close>

theorem edit_during_register_is_lost:
  assumes "\<not> everRegistered (ag_daemon a)" and "an_register an = Inr infos"
    and "an_others an = (\<lambda>x. x\<lparr>ag_daemon := onConfigChange env (Some (dm_config (ag_daemon a))) new (ag_daemon x)\<rparr>)"
  shows "case sessionOnce an a of (r, a') \<Rightarrow>
    dm_config (ag_daemon a') = new \<and> published (ag_daemon a') = published (ag_daemon a) \<and>
    registered_lists (ag_calls a') = configSharesToProto (cf_shares (dm_config (ag_daemon a))) # registered_lists (ag_calls a)"
proof -
  let ?d = "onConfigChange env (Some (dm_config (ag_daemon a))) new (ag_daemon a)"
  define d1 where "d1 = ?d"
  have d1: "dm_config d1 = new" "published d1 = published (ag_daemon a)"
    using onConfigChange_conf [of env "Some (dm_config (ag_daemon a))" new "ag_daemon a"] onConfigChange_published [OF assms(1)]
    by (simp_all add: d1_def)
  define a1 where "a1 = an_others an (call (RegisterCall (hubClient (ag_session a))
    (configSharesToProto (cf_shares (dm_config (ag_daemon a)))) (ag_port a)) a)"
  have a1: "ag_daemon a1 = d1" "registered_lists (ag_calls a1) =
      configSharesToProto (cf_shares (dm_config (ag_daemon a))) # registered_lists (ag_calls a)"
    by (simp_all add: a1_def assms(3) call_def d1_def)
  have end_session: "ag_daemon (end_session p x) = ag_daemon x" "ag_calls (end_session p x) = ag_calls x" for p and x :: agent
    by (simp_all add: end_session_def split: option.split)
  have frames: "ag_daemon (startHeartbeat x) = ag_daemon x" "ag_daemon (markReady x) = ag_daemon x"
    "ag_daemon (call c x) = ag_daemon x" "ag_calls (call c x) = c # ag_calls x" for c and x :: agent
    by (simp_all add: startHeartbeat_def markReady_def call_def)
  have initial: "dm_config (processInitialDevices e infos x) = dm_config x"
    "published (processInitialDevices e infos x) = published x" for e x
    by (simp_all add: processInitialDevices_def add_devices_conf add_devices_published)
  show ?thesis
    unfolding sessionOnce_def Let_def a1_def [symmetric] assms(2)
    by (simp add: a1 d1 end_session frames initial newSessionCtx_def split: option.split)
qed

text \<open>The sample: a device is removed from the exported share's list while the first Register runs.\<close>

definition first_register :: answers where
  "first_register = good_answers\<lparr>an_others := (\<lambda>x. x\<lparr>ag_daemon :=
     onConfigChange sample_env (Some sample_config) revoked_config (ag_daemon x)\<rparr>)\<rparr>"

definition new_agent :: agent where
  "new_agent = fresh_agent\<lparr>ag_daemon := sample_daemon\<lparr>everRegistered := False\<rparr>\<rparr>"

lemma edit_during_register_is_lost_witness:
  "case sessionOnce first_register new_agent of (r, a') \<Rightarrow>
    dm_config (ag_daemon a') = revoked_config \<and> published (ag_daemon a') = [] \<and>
    map (map pb_allowed) (registered_lists (ag_calls a')) = [[[''x''], []]] \<and>
    map sc_allowed (cf_shares revoked_config) = [[], []]"
  using edit_during_register_is_lost [of new_agent first_register "[]" sample_env revoked_config]
  by (simp add: new_agent_def first_register_def good_answers_def fresh_agent_def sample_daemon_def sample_config_def
    configSharesToProto_def revoked_shares split: prod.splits)

end
