(* ===== verification/GoText.thy ===== *)
theory GoText
  imports Prelude "HOL-Library.Sublist"
begin

text \<open>
  What the program uses of Go's \<open>strings\<close>, \<open>strconv\<close> and \<open>fmt\<close>: searching, case folding, trimming
  and splitting, and the \<open>%q\<close> verb. A string is its bytes; case folding and white space are
  those of ASCII, and \<open>%q\<close> copies the bytes of other characters, which is what Go does for
  printable ones.
\<close>

subsection \<open>Searching\<close>

fun Contains :: "string \<Rightarrow> string \<Rightarrow> bool" where
  "Contains [] sub = (sub = [])"
| "Contains (c # s) sub = (prefix sub (c # s) \<or> Contains s sub)"

lemma Contains_iff: "Contains s sub \<longleftrightarrow> (\<exists>a b. s = a @ sub @ b)"
proof (induction s)
  case (Cons c s)
  have "(\<exists>a b. c # s = a @ sub @ b) \<longleftrightarrow> prefix sub (c # s) \<or> (\<exists>a b. s = a @ sub @ b)"
    by (auto simp: prefix_def Cons_eq_append_conv)
  then show ?case using Cons.IH by simp
qed simp

lemma Contains_self [simp]: "Contains (a @ sub @ b) sub"
  by (auto simp: Contains_iff)

lemma Contains_end [simp]: "Contains (a @ sub) sub"
  using Contains_self [of a sub "[]"] by simp

lemma Contains_appendI: "Contains s sub \<Longrightarrow> Contains (p @ s) sub"
  by (metis Contains_iff append_assoc)

text \<open>The rest after the first occurrence, and what is before it.\<close>

fun cut_at :: "string \<Rightarrow> string \<Rightarrow> (string \<times> string) option" where
  "cut_at sub [] = (if sub = [] then Some ([], []) else None)"
| "cut_at sub (c # s) =
     (if prefix sub (c # s) then Some ([], drop (length sub) (c # s))
      else map_option (\<lambda>(a, b). (c # a, b)) (cut_at sub s))"

lemma cut_at_Some: "cut_at sub s = Some (a, b) \<Longrightarrow> s = a @ sub @ b"
proof (induction s arbitrary: a b)
  case (Cons c s)
  show ?case
  proof (cases "prefix sub (c # s)")
    case True
    then show ?thesis using Cons.prems by (auto simp: prefix_def)
  next
    case False
    then obtain a' where "a = c # a'" "cut_at sub s = Some (a', b)" using Cons.prems by auto
    then show ?thesis using Cons.IH by simp
  qed
qed (auto split: if_splits)

lemma cut_at_None: "cut_at sub s = None \<longleftrightarrow> \<not> Contains s sub"
  by (induction s) auto

subsection \<open>Case, trimming, splitting\<close>

definition lower :: "char \<Rightarrow> char" where
  "lower ch = (let n = of_char ch :: nat in if 65 \<le> n \<and> n \<le> 90 then char_of (n + 32) else ch)"

definition ToLower :: "string \<Rightarrow> string" where "ToLower s = map lower s"

definition upper :: "char \<Rightarrow> char" where
  "upper ch = (let n = of_char ch :: nat in if 97 \<le> n \<and> n \<le> 122 then char_of (n - 32) else ch)"

definition ToUpper :: "string \<Rightarrow> string" where "ToUpper s = map upper s"

definition is_space :: "char \<Rightarrow> bool" where
  "is_space ch = (ch \<in> {CHR '' '', CHR 0x09, CHR 0x0A, CHR 0x0B, CHR 0x0C, CHR 0x0D})"

definition trim_by :: "(char \<Rightarrow> bool) \<Rightarrow> string \<Rightarrow> string" where
  "trim_by P s = rev (dropWhile P (rev (dropWhile P s)))"

definition TrimSpace :: "string \<Rightarrow> string" where "TrimSpace s = trim_by is_space s"

text \<open>\<open>strings.Trim(s, "\"'")\<close>.\<close>

definition trim_quotes :: "string \<Rightarrow> string" where
  "trim_quotes s = trim_by (\<lambda>ch. ch = CHR 0x22 \<or> ch = CHR 0x27) s"

function Fields :: "string \<Rightarrow> string list" where
  "Fields s =
     (case dropWhile is_space s of
        [] \<Rightarrow> []
      | c # cs \<Rightarrow> takeWhile (\<lambda>ch. \<not> is_space ch) (c # cs) # Fields (dropWhile (\<lambda>ch. \<not> is_space ch) (c # cs)))"
  by pat_completeness auto
termination
proof (relation "measure length", goal_cases)
  case (2 s c cs)
  have "\<not> is_space c" using hd_dropWhile [of is_space s] 2 by simp
  then have "length (dropWhile (\<lambda>ch. \<not> is_space ch) (c # cs)) \<le> length cs" by (simp add: length_dropWhile_le)
  also have "\<dots> < length (dropWhile is_space s)" using 2 by simp
  also have "\<dots> \<le> length s" by (rule length_dropWhile_le)
  finally show ?case by simp
qed simp

declare Fields.simps [simp del]

definition EqualFold :: "string \<Rightarrow> string \<Rightarrow> bool" where
  "EqualFold a b = (ToLower a = ToLower b)"

text \<open>\<open>strings.Split\<close> at a byte, and \<open>strings.SplitN(s, ":", 2)\<close>.\<close>

fun split_on :: "char \<Rightarrow> string \<Rightarrow> string list" where
  "split_on d [] = [[]]"
| "split_on d (c # s) =
     (if c = d then [] # split_on d s
      else (case split_on d s of [] \<Rightarrow> [[c]] | p # ps \<Rightarrow> (c # p) # ps))"

fun cut_char :: "char \<Rightarrow> string \<Rightarrow> (string \<times> string) option" where
  "cut_char d [] = None"
| "cut_char d (c # s) =
     (if c = d then Some ([], s) else map_option (\<lambda>(a, b). (c # a, b)) (cut_char d s))"

lemma cut_char_iff: "cut_char d s = Some (a, b) \<longleftrightarrow> s = a @ d # b \<and> d \<notin> set a"
proof (induction s arbitrary: a)
  case C: (Cons c s)
  show ?case
  proof (cases a)
    case Nil
    then show ?thesis by (cases "cut_char d s") auto
  next
    case (Cons x xs)
    then show ?thesis using C.IH [of xs] by (cases "cut_char d s") auto
  qed
qed simp

text \<open>\<open>strings.ReplaceAll\<close> of a byte by a string.\<close>

definition replace_char :: "char \<Rightarrow> string \<Rightarrow> string \<Rightarrow> string" where
  "replace_char d by' s = concat (map (\<lambda>ch. if ch = d then by' else [ch]) s)"

lemma replace_char_append [simp]: "replace_char d r (s @ t) = replace_char d r s @ replace_char d r t"
  by (simp add: replace_char_def)

lemma replace_char_Nil [simp]: "replace_char d r [] = []"
  by (simp add: replace_char_def)

lemma replace_char_Cons [simp]: "replace_char d r (c # s) = (if c = d then r else [c]) @ replace_char d r s"
  by (simp add: replace_char_def)

subsection \<open>Quoting\<close>

definition hex_digit :: "nat \<Rightarrow> char" where
  "hex_digit n = ''0123456789abcdef'' ! n"

definition quote_char :: "char \<Rightarrow> string" where
  "quote_char ch =
     (let n = of_char ch :: nat in
      if ch = CHR 0x22 then [CHR 0x5C, CHR 0x22]
      else if ch = CHR 0x5C then [CHR 0x5C, CHR 0x5C]
      else if n = 7 then [CHR 0x5C, CHR ''a'']
      else if n = 8 then [CHR 0x5C, CHR ''b'']
      else if n = 9 then [CHR 0x5C, CHR ''t'']
      else if n = 10 then [CHR 0x5C, CHR ''n'']
      else if n = 11 then [CHR 0x5C, CHR ''v'']
      else if n = 12 then [CHR 0x5C, CHR ''f'']
      else if n = 13 then [CHR 0x5C, CHR ''r'']
      else if n < 32 \<or> n = 127 then [CHR 0x5C, CHR ''x'', hex_digit (n div 16), hex_digit (n mod 16)]
      else [ch])"

definition go_quote :: "string \<Rightarrow> string" where
  "go_quote s = [CHR 0x22] @ concat (map quote_char s) @ [CHR 0x22]"

subsection \<open>Numbers\<close>

definition nl :: string where "nl = [CHR 0x0A]"

text \<open>Decimal digits of a number, and \<open>%d\<close>.\<close>

fun digits :: "nat \<Rightarrow> string" where
  "digits n = (if n < 10 then [char_of (48 + n)] else digits (n div 10) @ [char_of (48 + n mod 10)])"

declare digits.simps [simp del]

definition show_int :: "int \<Rightarrow> string" where
  "show_int i = (if i < 0 then CHR ''-'' # digits (nat (- i)) else digits (nat i))"

definition is_digit :: "char \<Rightarrow> bool" where
  "is_digit ch = (let n = of_char ch :: nat in 48 \<le> n \<and> n \<le> 57)"

definition number :: "string \<Rightarrow> nat" where
  "number ds = foldl (\<lambda>n ch. 10 * n + (of_char ch - 48)) 0 ds"

lemma is_digit_show: "d < 10 \<Longrightarrow> is_digit (char_of (48 + d :: nat)) \<and> of_char (char_of (48 + d :: nat)) = 48 + d"
  by (simp add: is_digit_def Let_def)

lemma digits_read:
  "list_all is_digit (digits n) \<and> digits n \<noteq> [] \<and> foldl (\<lambda>m ch. 10 * m + (of_char ch - 48)) 0 (digits n) = n"
proof (induction n rule: digits.induct)
  case (1 n)
  show ?case
  proof (cases "n < 10")
    case True
    then show ?thesis by (simp add: digits.simps [of n] is_digit_show)
  next
    case False
    have m: "n mod 10 < 10" by simp
    show ?thesis using False "1.IH" is_digit_show [OF m] by (simp add: digits.simps [of n])
  qed
qed

lemma not_digit_marks [simp]: "\<not> is_digit (CHR '' '')" "\<not> is_digit (CHR 0x0A)" "\<not> is_digit (CHR ''{'')" "\<not> is_digit (CHR ''}'')"
  "\<not> is_digit (CHR 0x22)" "\<not> is_digit (CHR ''-'')"
  by (simp_all add: is_digit_def)

end
