(* ===== verification/ConfigFile.thy ===== *)
theory ConfigFile
  imports GoText AgentConfig
begin

text \<open>
  The agent's configuration file as text: what \<open>Save\<close> (internal/agent/config/config.go) writes,
  a reader for the part of KDL it uses, and the round trip through \<open>Load\<close>. The library that
  reads the file in the program is a parameter elsewhere; the reader here states what the text
  means.
\<close>

subsection \<open>Save\<close>

definition save_share :: "share_config \<Rightarrow> string" where
  "save_share s =
     ''    share '' @ go_quote (sc_path s) @ '' alias='' @ go_quote (sc_alias s) @ '' permissions='' @ go_quote (sc_permissions s) @
     (if sc_allowed s \<noteq> []
      then '' {'' @ nl @ ''        allowed-devices'' @ concat (map (\<lambda>d. CHR '' '' # go_quote d) (sc_allowed s)) @ nl @ ''    }'' @ nl
      else nl)"

definition save_mount :: "mount_config \<Rightarrow> string" where
  "save_mount m =
     ''    mount device='' @ go_quote (mc_device m) @ '' share='' @ go_quote (mc_share m) @ '' to='' @ go_quote (mc_to m) @ nl"

definition SaveText :: "config \<Rightarrow> string" where
  "SaveText cfg =
     ''device {'' @ nl @ ''    nickname '' @ go_quote (cf_nickname cfg) @ nl @ ''}'' @ nl @ nl @
     ''hub {'' @ nl @ ''    address '' @ go_quote (cf_hub_address cfg) @ nl @ ''}'' @ nl @ nl @
     ''agent {'' @ nl @ ''    ssh-port '' @ show_int (ac_ssh_port (cf_agent cfg)) @ nl @
     ''    mount-tool '' @ go_quote (ac_mount_tool (cf_agent cfg)) @ nl @ ''}'' @ nl @ nl @
     (if cf_shares cfg \<noteq> [] then ''shares {'' @ nl @ concat (map save_share (cf_shares cfg)) @ ''}'' @ nl @ nl else []) @
     (if cf_mounts cfg \<noteq> [] then ''mounts {'' @ nl @ concat (map save_mount (cf_mounts cfg)) @ ''}'' @ nl else [])"

subsection \<open>A reader\<close>

datatype kdl_token = TStr string | TInt int | TWord string | TKey string | TOpen | TClose | TNl

definition unescape :: "char \<Rightarrow> char option" where
  "unescape e =
     (if e = CHR ''n'' then Some (CHR 0x0A) else if e = CHR ''r'' then Some (CHR 0x0D)
      else if e = CHR ''t'' then Some (CHR 0x09) else if e = CHR ''b'' then Some (CHR 0x08)
      else if e = CHR ''f'' then Some (CHR 0x0C)
      else if e = CHR 0x22 \<or> e = CHR 0x5C \<or> e = CHR ''/'' then Some e else None)"

text \<open>The rest of a quoted string: its value and what follows the closing mark.\<close>

fun unquote :: "string \<Rightarrow> (string \<times> string) option" where
  "unquote [] = None"
| "unquote (c # s) =
     (if c = CHR 0x22 then Some ([], s)
      else if c = CHR 0x5C
      then (case s of
              [] \<Rightarrow> None
            | e # s' \<Rightarrow> (case unescape e of None \<Rightarrow> None | Some x \<Rightarrow> map_option (\<lambda>(a, b). (x # a, b)) (unquote s')))
      else map_option (\<lambda>(a, b). (c # a, b)) (unquote s))"

definition word_char :: "char \<Rightarrow> bool" where
  "word_char ch = (let n = of_char ch :: nat in (97 \<le> n \<and> n \<le> 122) \<or> n = 45)"

lemma unquote_shorter: "unquote s = Some (a, rest) \<Longrightarrow> length rest < length s"
proof (induction s arbitrary: a rest rule: unquote.induct)
  case (2 c s)
  show ?case
  proof (cases "c = CHR 0x5C \<and> c \<noteq> CHR 0x22")
    case True
    then obtain e s' x where s: "s = e # s'" "unescape e = Some x" using "2.prems"
      by (cases s) (auto split: if_splits option.splits)
    then obtain a' where "unquote s' = Some (a', rest)" using True "2.prems" by auto
    then show ?thesis using "2.IH"(1) [of e s' x a' rest] True s by simp
  next
    case False
    then show ?thesis using "2.prems" "2.IH"(2) by (auto split: if_splits)
  qed
qed simp

lemma length_dropWhile_diff: "length (dropWhile P s) - k \<le> length s"
  using length_dropWhile_le [of P s] by linarith

function lex :: "string \<Rightarrow> kdl_token list option" where
  "lex [] = Some []"
| "lex (c # s) =
     (if c = CHR '' '' then lex s
      else if c = CHR 0x0A then map_option ((#) TNl) (lex s)
      else if c = CHR ''{'' then map_option ((#) TOpen) (lex s)
      else if c = CHR ''}'' then map_option ((#) TClose) (lex s)
      else if c = CHR 0x22
      then (case unquote s of None \<Rightarrow> None | Some (v, rest) \<Rightarrow> map_option ((#) (TStr v)) (lex rest))
      else if is_digit c
      then map_option ((#) (TInt (int (number (takeWhile is_digit (c # s)))))) (lex (dropWhile is_digit s))
      else if c = CHR ''-'' \<and> s \<noteq> [] \<and> is_digit (hd s)
      then map_option ((#) (TInt (- int (number (takeWhile is_digit s))))) (lex (dropWhile is_digit s))
      else if word_char c
      then (let w = takeWhile word_char (c # s); rest = dropWhile word_char s in
            if rest \<noteq> [] \<and> hd rest = CHR ''='' then map_option ((#) (TKey w)) (lex (tl rest))
            else map_option ((#) (TWord w)) (lex rest))
      else None)"
  by pat_completeness auto
termination
  by (relation "measure length")
    (auto simp: less_Suc_eq_le length_dropWhile_le length_dropWhile_diff dest: unquote_shorter intro: order_trans [OF less_imp_le])

type_synonym header = "string \<times> kdl_value list \<times> (string \<times> kdl_value option) list"

definition finish :: "header \<Rightarrow> kdl_node list \<Rightarrow> kdl_node" where
  "finish h children = (case h of (name, args, props) \<Rightarrow> Node (Some (KString name)) args props children)"

definition finish_open :: "header option \<Rightarrow> kdl_node list \<Rightarrow> kdl_node list" where
  "finish_open cur dn = (case cur of None \<Rightarrow> dn | Some h \<Rightarrow> dn @ [finish h []])"

text \<open>
  The nodes of a token list: the node whose line is being read, the finished nodes of this level,
  and the enclosing nodes with what is finished beside them.
\<close>

fun build :: "kdl_token list \<Rightarrow> header option \<Rightarrow> kdl_node list \<Rightarrow> (header \<times> kdl_node list) list \<Rightarrow> kdl_node list option" where
  "build [] cur dn st = (if st = [] then Some (finish_open cur dn) else None)"
| "build (TWord w # ts) None dn st = build ts (Some (w, [], [])) dn st"
| "build (TStr v # ts) (Some (n, args, props)) dn st = build ts (Some (n, args @ [KString v], props)) dn st"
| "build (TInt i # ts) (Some (n, args, props)) dn st = build ts (Some (n, args @ [KInt i], props)) dn st"
| "build (TKey k # TStr v # ts) (Some (n, args, props)) dn st = build ts (Some (n, args, props @ [(k, Some (KString v))])) dn st"
| "build (TOpen # ts) (Some h) dn st = build ts None [] ((h, dn) # st)"
| "build (TClose # ts) cur dn ((h, up) # st) = build ts None (up @ [finish h (finish_open cur dn)]) st"
| "build (TNl # ts) cur dn st = build ts None (finish_open cur dn) st"
| "build _ _ _ _ = None"

definition read_kdl :: "string \<Rightarrow> kdl_node list option" where
  "read_kdl text = (case lex text of None \<Rightarrow> None | Some ts \<Rightarrow> build ts None [] [])"

declare lex.simps(2) [simp del]

subsection \<open>Reading back what Save wrote\<close>

text \<open>The characters whose escapes KDL shares with Go.\<close>

definition plain_char :: "char \<Rightarrow> bool" where
  "plain_char ch = (let n = of_char ch :: nat in n \<in> {8, 9, 10, 12, 13} \<or> (32 \<le> n \<and> n \<noteq> 127))"

lemma unescape_marks: "unescape (CHR 0x22) = Some (CHR 0x22)" "unescape (CHR 0x5C) = Some (CHR 0x5C)"
  "unescape (CHR ''n'') = Some (CHR 0x0A)" "unescape (CHR ''r'') = Some (CHR 0x0D)" "unescape (CHR ''t'') = Some (CHR 0x09)"
  "unescape (CHR ''b'') = Some (CHR 0x08)" "unescape (CHR ''f'') = Some (CHR 0x0C)"
  by (simp_all add: unescape_def)

lemma char_eq_of_char: "of_char ch = (of_char d :: nat) \<Longrightarrow> ch = d"
  by (metis char_of_char)

lemma unquote_quoted_char:
  assumes "plain_char ch"
  shows "unquote (quote_char ch @ t) = map_option (\<lambda>(a, b). (ch # a, b)) (unquote t)"
proof -
  consider "ch = CHR 0x22" | "ch = CHR 0x5C" | "ch = CHR 0x08" | "ch = CHR 0x09" | "ch = CHR 0x0A" | "ch = CHR 0x0C"
    | "ch = CHR 0x0D" | "ch \<noteq> CHR 0x22" "ch \<noteq> CHR 0x5C" "32 \<le> (of_char ch :: nat)" "of_char ch \<noteq> (127 :: nat)"
  proof -
    have "of_char ch \<in> {8, 9, 10, 12, 13 :: nat} \<or> (32 \<le> (of_char ch :: nat) \<and> of_char ch \<noteq> (127 :: nat))"
      using assms by (simp add: plain_char_def Let_def)
    moreover have "of_char ch = (8 :: nat) \<Longrightarrow> ch = CHR 0x08" "of_char ch = (9 :: nat) \<Longrightarrow> ch = CHR 0x09"
      "of_char ch = (10 :: nat) \<Longrightarrow> ch = CHR 0x0A" "of_char ch = (12 :: nat) \<Longrightarrow> ch = CHR 0x0C"
      "of_char ch = (13 :: nat) \<Longrightarrow> ch = CHR 0x0D"
      by (rule char_eq_of_char; simp)+
    ultimately show ?thesis using that by blast
  qed
  then show ?thesis
  proof cases
    case 8
    then show ?thesis by (auto simp: quote_char_def Let_def)
  qed (simp_all add: quote_char_def Let_def unescape_marks)
qed

lemma unquote_quoted:
  "list_all plain_char s \<Longrightarrow> unquote (concat (map quote_char s) @ CHR 0x22 # rest) = Some (s, rest)"
  by (induction s) (simp_all add: unquote_quoted_char)

lemma lex_quoted:
  "list_all plain_char s \<Longrightarrow> lex (go_quote s @ rest) = map_option ((#) (TStr s)) (lex rest)"
  by (simp add: go_quote_def lex.simps(2) unquote_quoted)

lemma lex_single:
  "lex (CHR '' '' # s) = lex s" "lex (CHR 0x0A # s) = map_option ((#) TNl) (lex s)"
  "lex (CHR ''{'' # s) = map_option ((#) TOpen) (lex s)" "lex (CHR ''}'' # s) = map_option ((#) TClose) (lex s)"
  by (simp_all add: lex.simps(2))

lemma lex_nl: "lex (nl @ s) = map_option ((#) TNl) (lex s)"
  by (simp add: nl_def lex_single)

definition is_word :: "string \<Rightarrow> bool" where
  "is_word w \<longleftrightarrow> w \<noteq> [] \<and> list_all word_char w \<and> hd w \<noteq> CHR ''-''"

lemma word_char_not: "word_char c \<Longrightarrow> c \<noteq> CHR '' '' \<and> c \<noteq> CHR 0x0A \<and> c \<noteq> CHR ''{'' \<and> c \<noteq> CHR ''}'' \<and> c \<noteq> CHR 0x22 \<and> \<not> is_digit c"
  by (auto simp: word_char_def is_digit_def Let_def)

lemma takeWhile_word: "list_all P w \<Longrightarrow> rest = [] \<or> \<not> P (hd rest) \<Longrightarrow> takeWhile P (w @ rest) = w \<and> dropWhile P (w @ rest) = rest"
  by (induction w) (cases rest, auto)+

lemma lex_word:
  assumes "is_word w" and "rest = [] \<or> (\<not> word_char (hd rest) \<and> hd rest \<noteq> CHR ''='')"
  shows "lex (w @ rest) = map_option ((#) (TWord w)) (lex rest)"
proof (cases w)
  case (Cons c cs)
  then have "list_all word_char cs" "word_char c" "c \<noteq> CHR ''-''" using assms(1) by (auto simp: is_word_def)
  moreover from this takeWhile_word [of word_char cs rest] assms(2)
  have "takeWhile word_char (cs @ rest) = cs" "dropWhile word_char (cs @ rest) = rest" by auto
  ultimately show ?thesis using assms(2) Cons word_char_not [of c]
    by (cases "rest = []") (auto simp: lex.simps(2) Let_def simp del: dropWhile_eq_Nil_conv takeWhile_eq_all_conv dropWhile_append takeWhile_append)
qed (use assms in \<open>simp add: is_word_def\<close>)

lemma lex_key:
  assumes "is_word w"
  shows "lex (w @ CHR ''='' # rest) = map_option ((#) (TKey w)) (lex rest)"
proof (cases w)
  case (Cons c cs)
  then have "list_all word_char cs" "word_char c" "c \<noteq> CHR ''-''" using assms(1) by (auto simp: is_word_def)
  moreover have "\<not> word_char (CHR ''='')" by (simp add: word_char_def Let_def)
  ultimately show ?thesis using takeWhile_word [of word_char cs "CHR ''='' # rest"] Cons word_char_not [of c]
    by (auto simp: lex.simps(2) Let_def)
qed (use assms in \<open>simp add: is_word_def\<close>)

lemma lex_digits:
  assumes "rest = [] \<or> \<not> is_digit (hd rest)"
  shows "lex (digits n @ rest) = map_option ((#) (TInt (int n))) (lex rest)"
    and "lex (CHR ''-'' # digits n @ rest) = map_option ((#) (TInt (- int n))) (lex rest)"
proof -
  obtain c cs where d: "digits n = c # cs" using digits_read [of n] by (cases "digits n") auto
  have all: "is_digit c" "list_all is_digit cs" "number (c # cs) = n"
    using digits_read [of n] unfolding d number_def by auto
  have tw: "takeWhile is_digit (cs @ rest) = cs" "dropWhile is_digit (cs @ rest) = rest"
    using takeWhile_word [of is_digit cs rest] all assms by auto
  have "c \<noteq> CHR '' ''" "c \<noteq> CHR 0x0A" "c \<noteq> CHR ''{''" "c \<noteq> CHR ''}''" "c \<noteq> CHR 0x22" "c \<noteq> CHR ''-''"
    using all(1) not_digit_marks by metis+
  then show "lex (digits n @ rest) = map_option ((#) (TInt (int n))) (lex rest)"
    using all tw by (simp add: d lex.simps(2) del: dropWhile_append takeWhile_append)
  show "lex (CHR ''-'' # digits n @ rest) = map_option ((#) (TInt (- int n))) (lex rest)"
    using all tw by (simp add: d lex.simps(2) del: dropWhile_append takeWhile_append)
qed

lemma lex_int: "rest = [] \<or> \<not> is_digit (hd rest) \<Longrightarrow> lex (show_int i @ rest) = map_option ((#) (TInt i)) (lex rest)"
  by (simp add: show_int_def lex_digits)

definition emit :: "kdl_token list \<Rightarrow> kdl_token list option \<Rightarrow> kdl_token list option" where
  "emit ts r = map_option ((@) ts) r"

lemma emit_simps [simp]: "emit [] r = r" "emit a (emit b r) = emit (a @ b) r" "emit ts (Some us) = Some (ts @ us)"
  by (cases r; simp add: emit_def)+

lemma to_emit: "map_option ((#) t) r = emit [t] r"
  by (cases r) (simp_all add: emit_def)

lemma words_raw:
  "lex (''device '' @ r) = emit [TWord ''device''] (lex r)"
  "lex (''nickname '' @ r) = emit [TWord ''nickname''] (lex r)"
  "lex (''hub '' @ r) = emit [TWord ''hub''] (lex r)"
  "lex (''address '' @ r) = emit [TWord ''address''] (lex r)"
  "lex (''agent '' @ r) = emit [TWord ''agent''] (lex r)"
  "lex (''ssh-port '' @ r) = emit [TWord ''ssh-port''] (lex r)"
  "lex (''mount-tool '' @ r) = emit [TWord ''mount-tool''] (lex r)"
  "lex (''shares '' @ r) = emit [TWord ''shares''] (lex r)"
  "lex (''share '' @ r) = emit [TWord ''share''] (lex r)"
  "lex (''allowed-devices '' @ r) = emit [TWord ''allowed-devices''] (lex r)"
  "lex (''mounts '' @ r) = emit [TWord ''mounts''] (lex r)"
  "lex (''mount '' @ r) = emit [TWord ''mount''] (lex r)"
  "lex (''alias='' @ r) = emit [TKey ''alias''] (lex r)"
  "lex (''permissions='' @ r) = emit [TKey ''permissions''] (lex r)"
  "lex (''device='' @ r) = emit [TKey ''device''] (lex r)"
  "lex (''share='' @ r) = emit [TKey ''share''] (lex r)"
  "lex (''to='' @ r) = emit [TKey ''to''] (lex r)"
  by (simp_all add: lex.simps(2) word_char_def is_digit_def to_emit)

lemmas lex_words = words_raw [unfolded append.simps]

lemma lex_shown: "lex (show_int i @ nl @ rest) = emit [TInt i] (lex (nl @ rest))"
  by (simp add: lex_int nl_def to_emit)

lemmas lex_rules = lex_words lex_shown lex_quoted lex_nl lex_single

definition plain_share :: "share_config \<Rightarrow> bool" where
  "plain_share s \<longleftrightarrow> list_all plain_char (sc_path s) \<and> list_all plain_char (sc_alias s) \<and>
     list_all plain_char (sc_permissions s) \<and> list_all (list_all plain_char) (sc_allowed s)"

definition plain_mount :: "mount_config \<Rightarrow> bool" where
  "plain_mount m \<longleftrightarrow> list_all plain_char (mc_device m) \<and> list_all plain_char (mc_share m) \<and> list_all plain_char (mc_to m)"

definition share_tokens :: "share_config \<Rightarrow> kdl_token list" where
  "share_tokens s =
     [TWord ''share'', TStr (sc_path s), TKey ''alias'', TStr (sc_alias s), TKey ''permissions'', TStr (sc_permissions s)] @
     (if sc_allowed s \<noteq> [] then [TOpen, TNl, TWord ''allowed-devices''] @ map TStr (sc_allowed s) @ [TNl, TClose, TNl] else [TNl])"

definition mount_tokens :: "mount_config \<Rightarrow> kdl_token list" where
  "mount_tokens m =
     [TWord ''mount'', TKey ''device'', TStr (mc_device m), TKey ''share'', TStr (mc_share m), TKey ''to'', TStr (mc_to m), TNl]"

lemma lex_devices:
  "list_all (list_all plain_char) ds \<Longrightarrow>
   lex (concat (map (\<lambda>d. CHR '' '' # go_quote d) ds) @ rest) = emit (map TStr ds) (lex rest)"
  by (induction ds) (simp_all add: lex_single lex_quoted to_emit)

lemma lex_allowed:
  assumes "ds \<noteq> []" and "list_all (list_all plain_char) ds"
  shows "lex (''allowed-devices'' @ concat (map (\<lambda>d. CHR '' '' # go_quote d) ds) @ rest) =
    emit (TWord ''allowed-devices'' # map TStr ds) (lex rest)"
proof (cases ds)
  case (Cons d ds')
  then have "list_all plain_char d" "list_all (list_all plain_char) ds'" using assms(2) by simp_all
  then show ?thesis using Cons words_raw(10) [of "go_quote d @ concat (map (\<lambda>d. CHR '' '' # go_quote d) ds') @ rest"]
    by (simp add: lex_quoted lex_devices to_emit)
qed (use assms in simp)

lemma lex_share:
  assumes "plain_share s"
  shows "lex (save_share s @ rest) = emit (share_tokens s) (lex rest)"
proof (cases "sc_allowed s = []")
  case True
  then show ?thesis using assms
    by (simp add: save_share_def share_tokens_def plain_share_def lex_rules to_emit)
next
  case False
  have "list_all (list_all plain_char) (sc_allowed s)" using assms by (simp add: plain_share_def)
  from lex_allowed [OF False this, unfolded append.simps] False assms show ?thesis
    by (simp add: save_share_def share_tokens_def plain_share_def lex_rules to_emit)
qed

lemma lex_mount: "plain_mount m \<Longrightarrow> lex (save_mount m @ rest) = emit (mount_tokens m) (lex rest)"
  by (simp add: save_mount_def mount_tokens_def plain_mount_def lex_rules to_emit)

lemma lex_shares:
  "list_all plain_share ss \<Longrightarrow> lex (concat (map save_share ss) @ rest) = emit (concat (map share_tokens ss)) (lex rest)"
  by (induction ss) (simp_all add: lex_share)

lemma lex_mounts:
  "list_all plain_mount ms \<Longrightarrow> lex (concat (map save_mount ms) @ rest) = emit (concat (map mount_tokens ms)) (lex rest)"
  by (induction ms) (simp_all add: lex_mount)

definition plain_config :: "config \<Rightarrow> bool" where
  "plain_config c \<longleftrightarrow> list_all plain_char (cf_nickname c) \<and> list_all plain_char (cf_hub_address c) \<and>
     list_all plain_char (ac_mount_tool (cf_agent c)) \<and> list_all plain_share (cf_shares c) \<and> list_all plain_mount (cf_mounts c)"

definition section_tokens :: "share_config list \<Rightarrow> mount_config list \<Rightarrow> kdl_token list" where
  "section_tokens ss ms =
     (if ss \<noteq> [] then [TWord ''shares'', TOpen, TNl] @ concat (map share_tokens ss) @ [TClose, TNl, TNl] else []) @
     (if ms \<noteq> [] then [TWord ''mounts'', TOpen, TNl] @ concat (map mount_tokens ms) @ [TClose, TNl] else [])"

definition config_tokens :: "config \<Rightarrow> kdl_token list" where
  "config_tokens c =
     [TWord ''device'', TOpen, TNl, TWord ''nickname'', TStr (cf_nickname c), TNl, TClose, TNl, TNl,
      TWord ''hub'', TOpen, TNl, TWord ''address'', TStr (cf_hub_address c), TNl, TClose, TNl, TNl,
      TWord ''agent'', TOpen, TNl, TWord ''ssh-port'', TInt (ac_ssh_port (cf_agent c)), TNl,
      TWord ''mount-tool'', TStr (ac_mount_tool (cf_agent c)), TNl, TClose, TNl, TNl] @
     section_tokens (cf_shares c) (cf_mounts c)"

lemma lex_optional:
  assumes "list_all plain_share ss" and "list_all plain_mount ms"
  shows "lex ((if ss \<noteq> [] then ''shares {'' @ nl @ concat (map save_share ss) @ ''}'' @ nl @ nl else []) @
      (if ms \<noteq> [] then ''mounts {'' @ nl @ concat (map save_mount ms) @ ''}'' @ nl else [])) =
    Some (section_tokens ss ms)"
  using lex_nl [of "[]"] assms
  by (simp add: section_tokens_def lex_words lex_single lex_nl lex_shares lex_mounts to_emit)

lemma lex_config: "plain_config c \<Longrightarrow> lex (SaveText c) = Some (config_tokens c)"
  using lex_optional [of "cf_shares c" "cf_mounts c"]
  by (simp add: SaveText_def config_tokens_def plain_config_def lex_rules to_emit)

subsection \<open>The document\<close>

definition word_node :: "string \<Rightarrow> kdl_value list \<Rightarrow> kdl_node list \<Rightarrow> kdl_node" where
  "word_node w args children = Node (Some (KString w)) args [] children"

definition share_node :: "share_config \<Rightarrow> kdl_node" where
  "share_node s = Node (Some (KString ''share'')) [KString (sc_path s)]
     [(''alias'', Some (KString (sc_alias s))), (''permissions'', Some (KString (sc_permissions s)))]
     (if sc_allowed s \<noteq> [] then [word_node ''allowed-devices'' (map KString (sc_allowed s)) []] else [])"

definition mount_node :: "mount_config \<Rightarrow> kdl_node" where
  "mount_node m = Node (Some (KString ''mount'')) []
     [(''device'', Some (KString (mc_device m))), (''share'', Some (KString (mc_share m))), (''to'', Some (KString (mc_to m)))] []"

definition config_nodes :: "config \<Rightarrow> kdl_node list" where
  "config_nodes c =
     [word_node ''device'' [] [word_node ''nickname'' [KString (cf_nickname c)] []],
      word_node ''hub'' [] [word_node ''address'' [KString (cf_hub_address c)] []],
      word_node ''agent'' [] [word_node ''ssh-port'' [KInt (ac_ssh_port (cf_agent c))] [],
                              word_node ''mount-tool'' [KString (ac_mount_tool (cf_agent c))] []]] @
     (if cf_shares c \<noteq> [] then [word_node ''shares'' [] (map share_node (cf_shares c))] else []) @
     (if cf_mounts c \<noteq> [] then [word_node ''mounts'' [] (map mount_node (cf_mounts c))] else [])"

lemmas building = finish_def finish_open_def word_node_def

lemma build_strings:
  "build (map TStr ds @ ts) (Some (n, args, props)) dn st = build ts (Some (n, args @ map KString ds, props)) dn st"
  by (induction ds arbitrary: args) simp_all

lemma build_share: "build (share_tokens s @ ts) None dn st = build ts None (dn @ [share_node s]) st"
  by (simp add: share_tokens_def share_node_def building build_strings)

lemma build_mount: "build (mount_tokens m @ ts) None dn st = build ts None (dn @ [mount_node m]) st"
  by (simp add: mount_tokens_def mount_node_def building)

lemma build_shares: "build (concat (map share_tokens ss) @ ts) None dn st = build ts None (dn @ map share_node ss) st"
  by (induction ss arbitrary: dn) (simp_all add: build_share)

lemma build_mounts: "build (concat (map mount_tokens ms) @ ts) None dn st = build ts None (dn @ map mount_node ms) st"
  by (induction ms arbitrary: dn) (simp_all add: build_mount)

lemma build_config: "build (config_tokens c) None [] [] = Some (config_nodes c)"
  by (simp add: config_tokens_def section_tokens_def config_nodes_def building build_shares build_mounts)

lemma read_saved: "plain_config c \<Longrightarrow> read_kdl (SaveText c) = Some (config_nodes c)"
  by (simp add: read_kdl_def lex_config build_config)

subsection \<open>Loading it\<close>

lemma string_args_strings: "string_args (map KString ds) = ds"
  by (induction ds) simp_all

lemma parse_share_node [simp]: "parse_share (share_node s) = s" "nodeName (share_node s) = ''share''"
  by (simp_all add: parse_share_def share_node_def nodeName_def firstArgString_def propString_def word_node_def string_args_strings)

lemma parse_mount_node [simp]: "parse_mount (mount_node m) = m" "nodeName (mount_node m) = ''mount''"
  by (simp_all add: parse_mount_def mount_node_def nodeName_def propString_def)

lemma parse_blocks:
  "parseSharesBlock (word_node w args (map share_node ss)) = ss"
  "parseMountsBlock (word_node w args (map mount_node ms)) = ms"
  by (simp_all add: parseSharesBlock_def parseMountsBlock_def word_node_def filter_map o_def)

definition saved_port :: "int \<Rightarrow> int" where
  "saved_port p = (if p = 0 then ac_ssh_port (cf_agent DefaultConfig) else p)"

definition normalised :: "string option \<Rightarrow> config \<Rightarrow> config" where
  "normalised home c =
     c\<lparr>cf_agent := \<lparr>ac_ssh_port = saved_port (ac_ssh_port (cf_agent c)),
                    ac_mount_tool = (if ac_mount_tool (cf_agent c) = [] then ''sshfs'' else ac_mount_tool (cf_agent c))\<rparr>,
       cf_shares := map (\<lambda>s. s\<lparr>sc_permissions := NormalizePermissions (sc_permissions s),
                               sc_path := ExpandHome home (sc_path s)\<rparr>) (cf_shares c),
       cf_mounts := map (\<lambda>m. m\<lparr>mc_to := ExpandHome home (mc_to m)\<rparr>) (cf_mounts c)\<rparr>"

lemma load_nodes_append:
  "load_nodes (a @ b) c = (case load_nodes a c of None \<Rightarrow> None | Some c' \<Rightarrow> load_nodes b c')"
  by (induction a arbitrary: c) (auto split: option.splits)

lemma load_nodes_config:
  "load_nodes (config_nodes c) DefaultConfig = Some (c\<lparr>cf_agent := (cf_agent c)\<lparr>ac_ssh_port := saved_port (ac_ssh_port (cf_agent c))\<rparr>\<rparr>)"
proof -
  have [simp]: "nodeName (word_node w args ch) = w" "n_children (word_node w args ch) = ch"
    "n_args (word_node w args ch) = args" for w args ch
    by (simp_all add: word_node_def nodeName_def)
  let ?first = "take 3 (config_nodes c)"
  let ?c = "DefaultConfig\<lparr>cf_nickname := cf_nickname c, cf_hub_address := cf_hub_address c,
    cf_agent := (cf_agent c)\<lparr>ac_ssh_port := saved_port (ac_ssh_port (cf_agent c))\<rparr>\<rparr>"
  have "load_nodes ?first DefaultConfig = Some ?c"
    by (simp add: config_nodes_def parseDeviceConfig_def parseHubConfig_def firstArgString_def firstArgInt_def
        saved_port_def DefaultConfig_def)
  moreover have "load_nodes (drop 3 (config_nodes c)) ?c =
      Some (?c\<lparr>cf_shares := cf_shares c, cf_mounts := cf_mounts c\<rparr>)"
    by (simp add: config_nodes_def parse_blocks DefaultConfig_def)
  ultimately have "load_nodes (?first @ drop 3 (config_nodes c)) DefaultConfig =
      Some (?c\<lparr>cf_shares := cf_shares c, cf_mounts := cf_mounts c\<rparr>)"
    unfolding load_nodes_append by simp
  then show ?thesis by (simp add: DefaultConfig_def)
qed



end
