(* ===== verification/HubClient.thy ===== *)
theory HubClient
  imports GoText Server
begin

text \<open>
  The agent's client of the hub (internal/agent/client.go) and the errors it hands on
  (internal/common/errors.go). An error is a Go error value as far as its text and its chain can
  be told apart; what grpc-go makes of a status error is a parameter, with the documented
  behaviour as the hypothesis \<open>grpc_documented\<close>.
\<close>

subsection \<open>Errors\<close>

datatype grpc_code =
    Canceled | UnknownCode | InvalidArgument | DeadlineExceeded | NotFound | AlreadyExists
  | PermissionDeniedCode | ResourceExhausted | FailedPrecondition | Aborted | OutOfRange
  | Unimplemented | InternalCode | Unavailable | DataLoss | Unauthenticated

fun code_name :: "grpc_code \<Rightarrow> string" where
  "code_name Canceled = ''Canceled''"
| "code_name UnknownCode = ''Unknown''"
| "code_name InvalidArgument = ''InvalidArgument''"
| "code_name DeadlineExceeded = ''DeadlineExceeded''"
| "code_name NotFound = ''NotFound''"
| "code_name AlreadyExists = ''AlreadyExists''"
| "code_name PermissionDeniedCode = ''PermissionDenied''"
| "code_name ResourceExhausted = ''ResourceExhausted''"
| "code_name FailedPrecondition = ''FailedPrecondition''"
| "code_name Aborted = ''Aborted''"
| "code_name OutOfRange = ''OutOfRange''"
| "code_name Unimplemented = ''Unimplemented''"
| "code_name InternalCode = ''Internal''"
| "code_name Unavailable = ''Unavailable''"
| "code_name DataLoss = ''DataLoss''"
| "code_name Unauthenticated = ''Unauthenticated''"

text \<open>What a command knows when an error reaches it (\<open>clierrors.Context\<close>).\<close>

record cli_context =
  ctx_nickname :: string
  ctx_hub_addr :: string

datatype sentinel = ErrHubRejected | ErrJoinTokenMissingFingerprint | ErrHubFingerprintMismatch

text \<open>
  A status error, a sentinel, an error that is its text only, \<open>fmt.Errorf("<text>: %w", err)\<close>,
  \<open>fmt.Errorf("%w: <text>", err)\<close> and \<open>clierrors.Error\<close>.
\<close>

datatype go_err =
    GrpcStatus grpc_code string
  | Sentinel sentinel
  | TextErr string
  | WrapErr string go_err
  | WrapAfter go_err string
  | CtxErr go_err "cli_context option"

fun sentinel_text :: "sentinel \<Rightarrow> string" where
  "sentinel_text ErrHubRejected = ''hub rejected the request''"
| "sentinel_text ErrJoinTokenMissingFingerprint =
     ''join token must include hub fingerprint (regenerate with '' @ [CHR 0x27] @ ''hubfuse-hub issue-join'' @ [CHR 0x27] @ '')''"
| "sentinel_text ErrHubFingerprintMismatch =
     ''hub TLS fingerprint does not match the token '' @ em_dash @ '' possible MITM''"

fun status_in :: "go_err \<Rightarrow> (grpc_code \<times> string) option" where
  "status_in (GrpcStatus c m) = Some (c, m)"
| "status_in (Sentinel x) = None"
| "status_in (TextErr t) = None"
| "status_in (WrapErr p e) = status_in e"
| "status_in (WrapAfter e t) = status_in e"
| "status_in (CtxErr e x) = status_in e"

fun is_sentinel :: "sentinel \<Rightarrow> go_err \<Rightarrow> bool" where
  "is_sentinel x (GrpcStatus c m) = False"
| "is_sentinel x (Sentinel y) = (x = y)"
| "is_sentinel x (TextErr t) = False"
| "is_sentinel x (WrapErr p e) = is_sentinel x e"
| "is_sentinel x (WrapAfter e t) = is_sentinel x e"
| "is_sentinel x (CtxErr e z) = is_sentinel x e"

text \<open>
  grpc-go: the text of a status error, and \<open>status.FromError\<close> (\<open>None\<close>: its second result is
  false).
\<close>

record grpc =
  gr_text :: "grpc_code \<Rightarrow> string \<Rightarrow> string"
  gr_from :: "go_err \<Rightarrow> (grpc_code \<times> string) option"

fun err_msg :: "grpc \<Rightarrow> go_err \<Rightarrow> string" where
  "err_msg g (GrpcStatus c m) = gr_text g c m"
| "err_msg g (Sentinel x) = sentinel_text x"
| "err_msg g (TextErr t) = t"
| "err_msg g (WrapErr p e) = p @ '': '' @ err_msg g e"
| "err_msg g (WrapAfter e t) = err_msg g e @ '': '' @ t"
| "err_msg g (CtxErr e x) = err_msg g e"

fun bare_status :: "go_err \<Rightarrow> bool" where
  "bare_status (GrpcStatus c m) = True"
| "bare_status _ = False"

definition grpc_documented :: "grpc \<Rightarrow> bool" where
  "grpc_documented g \<longleftrightarrow>
     (\<forall>c m. gr_text g c m = ''rpc error: code = '' @ code_name c @ '' desc = '' @ m) \<and>
     (\<forall>e. gr_from g e = (case status_in e of None \<Rightarrow> None
        | Some (c, m) \<Rightarrow> Some (c, if bare_status e then m else err_msg g e)))"

text \<open>An instance, for the witnesses.\<close>

definition sample_grpc :: grpc where
  "sample_grpc = (let txt = (\<lambda>c m. ''rpc error: code = '' @ code_name c @ '' desc = '' @ m);
       g0 = \<lparr>gr_text = txt, gr_from = (\<lambda>_. None)\<rparr>
     in \<lparr>gr_text = txt, gr_from = (\<lambda>e. case status_in e of None \<Rightarrow> None
          | Some (c, m) \<Rightarrow> Some (c, if bare_status e then m else err_msg g0 e))\<rparr>)"

lemma err_msg_text: "gr_text g = gr_text g' \<Longrightarrow> err_msg g e = err_msg g' e"
  by (induction e) simp_all

lemma sample_grpc_documented: "grpc_documented sample_grpc"
  using err_msg_text [of "\<lparr>gr_text = (\<lambda>c m. ''rpc error: code = '' @ code_name c @ '' desc = '' @ m), gr_from = \<lambda>_. None\<rparr>" sample_grpc]
  by (auto simp: grpc_documented_def sample_grpc_def Let_def fun_eq_iff split: option.split)

subsection \<open>The hub's errors on the wire\<close>

text \<open>The status an error value of the hub carries; a store error and a failed signature carry none.\<close>

fun hub_status :: "hub_err \<Rightarrow> (grpc_code \<times> string) option" where
  "hub_status ErrNicknameTaken = Some (AlreadyExists, ''nickname already taken'')"
| "hub_status ErrDeviceNotFound = Some (NotFound, ''device not found'')"
| "hub_status ErrDeviceOffline = Some (Unavailable, ''device offline'')"
| "hub_status ErrUnsupportedProtocol = Some (FailedPrecondition, ''unsupported protocol version'')"
| "hub_status ErrInvalidInviteCode = Some (PermissionDeniedCode, ''invalid invite code'')"
| "hub_status ErrMaxAttemptsExceeded = Some (ResourceExhausted, ''max pairing attempts exceeded'')"
| "hub_status ErrInviteExpired = Some (DeadlineExceeded, ''invite code expired'')"
| "hub_status ErrNotAuthenticated = Some (Unauthenticated, ''client certificate required'')"
| "hub_status ErrPairingAlreadyExists = Some (AlreadyExists, ''devices already paired'')"
| "hub_status ErrInvalidJoinToken = Some (PermissionDeniedCode, ''invalid join token'')"
| "hub_status ErrHubShuttingDown = Some (Unavailable, ''hub is shutting down'')"
| "hub_status ErrJoinTokenExpired = Some (DeadlineExceeded, ''join token expired'')"
| "hub_status (NoDeviceWithNickname n) = Some (NotFound, ''no device with nickname '' @ go_quote n)"
| "hub_status SignErr = None"
| "hub_status (StoreErr e) = None"

text \<open>
  \<open>other\<close> is the text of an error without a status. As the result of an RPC such an error
  becomes a status with the code Unknown.
\<close>

definition hub_error :: "(hub_err \<Rightarrow> string) \<Rightarrow> hub_err \<Rightarrow> go_err" where
  "hub_error other e = (case hub_status e of Some (c, m) \<Rightarrow> GrpcStatus c m | None \<Rightarrow> TextErr (other e))"

definition hub_err_text :: "grpc \<Rightarrow> (hub_err \<Rightarrow> string) \<Rightarrow> hub_err \<Rightarrow> string" where
  "hub_err_text g other e = err_msg g (hub_error other e)"

definition rpc_failure :: "(hub_err \<Rightarrow> string) \<Rightarrow> hub_err \<Rightarrow> go_err" where
  "rpc_failure other e =
     (case hub_status e of Some (c, m) \<Rightarrow> GrpcStatus c m | None \<Rightarrow> GrpcStatus UnknownCode (other e))"

subsection \<open>The client\<close>

text \<open>
  A call of the stub returns the error of the transport or of the hub, or the reply of its own RPC;
  the last branch of each function, a reply of another one, does not exist in the code.
\<close>

type_synonym stub_result = "go_err + reply"

definition rejectionReason :: "string \<Rightarrow> string" where
  "rejectionReason reason = (if reason = [] then ''no reason given'' else reason)"

definition Client_Join :: "stub_result \<Rightarrow> go_err + bool \<times> string \<times> certs option" where
  "Client_Join r =
     (case r of
        Inl e \<Rightarrow> Inl (WrapErr ''Join RPC'' e)
      | Inr (JoinReply b t cs) \<Rightarrow> Inr (b, t, cs)
      | Inr _ \<Rightarrow> Inl (TextErr []))"

definition Client_Register :: "stub_result \<Rightarrow> go_err + device_info list" where
  "Client_Register r =
     (case r of
        Inl e \<Rightarrow> Inl (WrapErr ''Register RPC'' e)
      | Inr (RegisterReply b t ds) \<Rightarrow>
          if \<not> b then Inl (WrapAfter (Sentinel ErrHubRejected) (''registration refused: '' @ rejectionReason t))
          else Inr ds
      | Inr _ \<Rightarrow> Inl (TextErr []))"

definition Client_Rename :: "stub_result \<Rightarrow> go_err + unit" where
  "Client_Rename r =
     (case r of
        Inl e \<Rightarrow> Inl (WrapErr ''Rename RPC'' e)
      | Inr (RenameReply b t) \<Rightarrow>
          if \<not> b then Inl (WrapAfter (Sentinel ErrHubRejected) (''rename refused: '' @ rejectionReason t)) else Inr ()
      | Inr _ \<Rightarrow> Inl (TextErr []))"

definition Client_Heartbeat :: "stub_result \<Rightarrow> go_err + unit" where
  "Client_Heartbeat r =
     (case r of
        Inl e \<Rightarrow> Inl (WrapErr ''Heartbeat RPC'' e)
      | Inr (HeartbeatReply b) \<Rightarrow>
          if \<not> b then Inl (WrapAfter (Sentinel ErrHubRejected) (''heartbeat refused '' @ em_dash @
            '' the hub may no longer know this device (re-join may be required)''))
          else Inr ()
      | Inr _ \<Rightarrow> Inl (TextErr []))"

definition Client_UpdateShares :: "stub_result \<Rightarrow> go_err + unit" where
  "Client_UpdateShares r =
     (case r of
        Inl e \<Rightarrow> Inl (WrapErr ''UpdateShares RPC'' e)
      | Inr (UpdateSharesReply b) \<Rightarrow>
          if \<not> b then Inl (WrapAfter (Sentinel ErrHubRejected) ''share update refused'') else Inr ()
      | Inr _ \<Rightarrow> Inl (TextErr []))"

definition Client_Deregister :: "stub_result \<Rightarrow> go_err + unit" where
  "Client_Deregister r =
     (case r of
        Inl e \<Rightarrow> Inl (WrapErr ''Deregister RPC'' e)
      | Inr (DeregisterReply b) \<Rightarrow>
          if \<not> b then Inl (WrapAfter (Sentinel ErrHubRejected) ''deregistration refused'') else Inr ()
      | Inr _ \<Rightarrow> Inl (TextErr []))"

definition Client_Leave :: "stub_result \<Rightarrow> go_err + unit" where
  "Client_Leave r =
     (case r of
        Inl e \<Rightarrow> Inl (WrapErr ''Leave RPC'' e)
      | Inr (LeaveReply b t) \<Rightarrow> if \<not> b then Inl (TextErr (''leave failed: '' @ t)) else Inr ()
      | Inr _ \<Rightarrow> Inl (TextErr []))"

definition Client_RequestPairing :: "stub_result \<Rightarrow> go_err + string" where
  "Client_RequestPairing r =
     (case r of
        Inl e \<Rightarrow> Inl (WrapErr ''RequestPairing RPC'' e)
      | Inr (RequestPairingReply code) \<Rightarrow> Inr code
      | Inr _ \<Rightarrow> Inl (TextErr []))"

definition Client_ListDevices :: "stub_result \<Rightarrow> go_err + device_info list" where
  "Client_ListDevices r =
     (case r of
        Inl e \<Rightarrow> Inl (WrapErr ''ListDevices RPC'' e)
      | Inr (ListDevicesReply ds) \<Rightarrow> Inr ds
      | Inr _ \<Rightarrow> Inl (TextErr []))"

text \<open>The peer's public key, device id and nickname.\<close>

definition Client_ConfirmPairing :: "stub_result \<Rightarrow> go_err + string \<times> string \<times> string" where
  "Client_ConfirmPairing r =
     (case r of
        Inl e \<Rightarrow> Inl (WrapErr ''ConfirmPairing RPC'' e)
      | Inr (ConfirmPairingReply b t p) \<Rightarrow>
          if \<not> b then Inl (TextErr (''confirm pairing: '' @ t))
          else (case p of None \<Rightarrow> Inr ([], [], [])
                | Some q \<Rightarrow> Inr (peer_key q, peer_id q, peer_nick q))
      | Inr _ \<Rightarrow> Inl (TextErr []))"

text \<open>
  The pinned dial of Join: the certificates the server presents, in their DER form, against the
  fingerprint of the token. \<open>fp\<close> is \<open>FingerprintFromCertDER\<close>.
\<close>

definition verify_pinned :: "(string \<Rightarrow> string) \<Rightarrow> string \<Rightarrow> string list \<Rightarrow> sentinel option" where
  "verify_pinned fp expected rawCerts =
     (case rawCerts of
        [] \<Rightarrow> Some ErrHubFingerprintMismatch
      | c # _ \<Rightarrow> if fp c \<noteq> expected then Some ErrHubFingerprintMismatch else None)"

definition isKeepalivePunished :: "grpc \<Rightarrow> go_err option \<Rightarrow> bool" where
  "isKeepalivePunished g e = (case e of None \<Rightarrow> False | Some x \<Rightarrow> Contains (err_msg g x) ''too_many_pings'')"

end
