(* ===== verification/CliConfig.thy ===== *)
theory CliConfig
  imports ConfigFile HubClient AgentKeys
begin

text \<open>
  The command line's view of the agent's data directory (cmd/hubfuse/main.go): its files, the
  identity (internal/agent/identity.go), and the commands that edit the configuration. A command
  maps the machine to an error or success and the machine it leaves. The library that reads KDL,
  the JSON encoder and decoder, the operating system's failures and the home directory are
  parameters.
\<close>

subsection \<open>The data directory\<close>

datatype cli_file =
    IdentityFile | ConfigFile | CACertFile | ClientCertFile | ClientKeyFile | PrivateKeyFile | PublicKeyFile

record agent_dir =
  ad_file :: "cli_file \<Rightarrow> string option"
  ad_known :: dir_files

datatype cli_step =
    WriteStep cli_file | ReadStep cli_file | StatStep cli_file | MkdirStep cli_file
  | RemoveTLS | RemoveIdentity | RemoveKnown

text \<open>\<open>os.WriteFile\<close> truncates, then writes: it can fail at the first step or leave a prefix.\<close>

datatype io_fault = NoFault | CannotOpen | CutShort string

record 'h cli_env =
  ce_home :: "string option"
  ce_parse :: "string \<Rightarrow> kdl_node list option"
  ce_dec_id :: "string \<Rightarrow> (string \<times> string) option"
  ce_enc_id :: "string \<times> string \<Rightarrow> string"
  ce_io :: "cli_step \<Rightarrow> io_fault"
  ce_os_text :: "cli_step \<Rightarrow> string"
  ce_grpc :: grpc
  ce_dial_pinned :: "string \<Rightarrow> string \<Rightarrow> go_err option"
  ce_dial :: "string \<Rightarrow> string option \<Rightarrow> string option \<Rightarrow> string option \<Rightarrow> go_err option"
  ce_call :: "string \<Rightarrow> string option \<Rightarrow> rpc \<Rightarrow> 'h \<Rightarrow> stub_result \<times> 'h"
  ce_new_id :: string
  ce_keygen :: "go_err + string \<times> string"
  ce_kept :: "cli_file \<Rightarrow> bool"
  ce_kept_known :: "string \<Rightarrow> bool"
  ce_known_fail :: "file_step \<Rightarrow> bool"
  ce_known_part :: string
  ce_keys_text :: "keys_err \<Rightarrow> string"
  ce_enc_nicks :: "nicknames \<Rightarrow> string"
  ce_dec_nicks :: "string \<Rightarrow> nicknames option option"
  ce_rnd :: string

record 'h cli =
  cl_dir :: agent_dir
  cl_hub :: 'h
  cl_out :: "string list"

definition say :: "string \<Rightarrow> 'h cli \<Rightarrow> 'h cli" where
  "say line c = c\<lparr>cl_out := cl_out c @ [line]\<rparr>"

definition set_file :: "cli_file \<Rightarrow> string option \<Rightarrow> 'h cli \<Rightarrow> 'h cli" where
  "set_file f content c = c\<lparr>cl_dir := (cl_dir c)\<lparr>ad_file := (ad_file (cl_dir c))(f := content)\<rparr>\<rparr>"

definition os_err :: "'h cli_env \<Rightarrow> cli_step \<Rightarrow> go_err" where
  "os_err env step = TextErr (ce_os_text env step)"

definition WriteFile :: "'h cli_env \<Rightarrow> cli_file \<Rightarrow> string \<Rightarrow> 'h cli \<Rightarrow> go_err option \<times> 'h cli" where
  "WriteFile env f content c =
     (case ce_io env (WriteStep f) of
        NoFault \<Rightarrow> (None, set_file f (Some content) c)
      | CannotOpen \<Rightarrow> (Some (os_err env (WriteStep f)), c)
      | CutShort part \<Rightarrow> (Some (os_err env (WriteStep f)), set_file f (Some part) c))"

text \<open>\<open>x; if err != nil { return err }\<close> over commands.\<close>

definition and_then :: "go_err option \<times> 'h cli \<Rightarrow> ('h cli \<Rightarrow> go_err option \<times> 'h cli) \<Rightarrow> go_err option \<times> 'h cli" where
  "and_then r k = (case r of (Some e, c) \<Rightarrow> (Some e, c) | (None, c) \<Rightarrow> k c)"

definition wrapping :: "string \<Rightarrow> go_err option \<times> 'h cli \<Rightarrow> go_err option \<times> 'h cli" where
  "wrapping text r = (map_option (WrapErr text) (fst r), snd r)"

definition mkdir_for :: "'h cli_env \<Rightarrow> cli_file \<Rightarrow> 'h cli \<Rightarrow> go_err option \<times> 'h cli" where
  "mkdir_for env f c =
     (if ce_io env (MkdirStep f) = NoFault then None else Some (os_err env (MkdirStep f)), c)"

subsection \<open>Identity\<close>

definition LoadIdentity :: "'h cli_env \<Rightarrow> agent_dir \<Rightarrow> go_err + string \<times> string" where
  "LoadIdentity env d =
     (case ad_file d IdentityFile of
        None \<Rightarrow> Inl (WrapErr ''read identity file'' (os_err env (ReadStep IdentityFile)))
      | Some content \<Rightarrow>
          if ce_io env (ReadStep IdentityFile) \<noteq> NoFault
          then Inl (WrapErr ''read identity file'' (os_err env (ReadStep IdentityFile)))
          else (case ce_dec_id env content of
                  None \<Rightarrow> Inl (TextErr ''parse identity file'')
                | Some ident \<Rightarrow> Inr ident))"

definition SaveIdentity :: "'h cli_env \<Rightarrow> string \<times> string \<Rightarrow> 'h cli \<Rightarrow> go_err option \<times> 'h cli" where
  "SaveIdentity env ident c =
     and_then (wrapping ''create identity directory'' (mkdir_for env IdentityFile c))
       (\<lambda>c. wrapping ''write identity file'' (WriteFile env IdentityFile (ce_enc_id env ident) c))"

subsection \<open>The configuration\<close>

text \<open>\<open>config.Save\<close>, and \<open>loadConfig\<close>: the default while there is no file.\<close>

definition Save :: "'h cli_env \<Rightarrow> config \<Rightarrow> 'h cli \<Rightarrow> go_err option \<times> 'h cli" where
  "Save env cfg c =
     and_then (wrapping ''create config directory'' (mkdir_for env ConfigFile c))
       (\<lambda>c. wrapping ''write config'' (WriteFile env ConfigFile (SaveText cfg) c))"

definition LoadFile :: "'h cli_env \<Rightarrow> string \<Rightarrow> config option" where
  "LoadFile env content =
     (if ce_io env (ReadStep ConfigFile) \<noteq> NoFault then None else Load (ce_home env) (ce_parse env content))"

definition loadConfig :: "'h cli_env \<Rightarrow> agent_dir \<Rightarrow> go_err + config" where
  "loadConfig env d =
     (case ad_file d ConfigFile of
        None \<Rightarrow> Inr DefaultConfig
      | Some content \<Rightarrow>
          (case LoadFile env content of
             None \<Rightarrow> Inl (TextErr ''load config'') | Some cfg \<Rightarrow> Inr cfg))"

text \<open>
  Load, edit, save: \<open>f\<close> returns an error, or the lines to print, what to save after them and the
  lines to print when that is done.
\<close>

type_synonym edit_result = "go_err + string list \<times> config option \<times> string list"

definition edit_config ::
  "'h cli_env \<Rightarrow> (config \<Rightarrow> edit_result) \<Rightarrow> 'h cli \<Rightarrow> go_err option \<times> 'h cli" where
  "edit_config env f c =
     (case loadConfig env (cl_dir c) of
        Inl e \<Rightarrow> (Some (WrapErr ''load config'' e), c)
      | Inr cfg \<Rightarrow>
          (case f cfg of
             Inl e \<Rightarrow> (Some e, c)
           | Inr (before, None, after) \<Rightarrow> (None, fold say (before @ after) c)
           | Inr (before, Some cfg', after) \<Rightarrow>
               and_then (wrapping ''write config'' (Save env cfg' (fold say before c)))
                 (\<lambda>c. (None, fold say after c))))"

subsection \<open>share\<close>

definition add_share :: "string \<Rightarrow> string \<Rightarrow> string \<Rightarrow> string list \<Rightarrow> config \<Rightarrow> edit_result" where
  "add_share path al permissions allow cfg =
     (if list_ex (\<lambda>s. sc_alias s = al) (cf_shares cfg)
      then Inl (TextErr (''share with alias '' @ go_quote al @ '' already exists''))
      else (let perm = NormalizePermissions permissions;
                perm' = (if perm = [] then ''ro'' else perm)
            in Inr ([], Some (cfg\<lparr>cf_shares := cf_shares cfg @
                   [\<lparr>sc_path = path, sc_alias = al, sc_permissions = perm', sc_allowed = allow\<rparr>]\<rparr>),
                 [''added share '' @ go_quote al @ '' -> '' @ path])))"

definition remove_share :: "string \<Rightarrow> config \<Rightarrow> edit_result" where
  "remove_share al cfg =
     (if \<not> list_ex (\<lambda>s. sc_alias s = al) (cf_shares cfg) then Inl (TextErr (''share '' @ go_quote al @ '' not found''))
      else Inr ([], Some (cfg\<lparr>cf_shares := filter (\<lambda>s. sc_alias s \<noteq> al) (cf_shares cfg)\<rparr>),
             [''removed share '' @ go_quote al]))"

text \<open>\<open>splitDeviceArgs\<close>: at commas, trimmed, without the empty pieces.\<close>

definition splitDeviceArgs :: "string list \<Rightarrow> string list" where
  "splitDeviceArgs args =
     filter (\<lambda>p. p \<noteq> []) (map TrimSpace (concat (map (split_on (CHR '','')) args)))"

text \<open>\<open>%v\<close> of a slice of strings.\<close>

fun words_v :: "string list \<Rightarrow> string" where
  "words_v [] = []"
| "words_v [w] = w"
| "words_v (w # ws) = w @ CHR '' '' # words_v ws"

definition show_list :: "string list \<Rightarrow> string" where
  "show_list ws = ''['' @ words_v ws @ '']''"

definition no_share :: "string \<Rightarrow> go_err" where
  "no_share al = TextErr (''share '' @ go_quote al @ '' not found'')"

definition allow_share :: "string \<Rightarrow> string list \<Rightarrow> config \<Rightarrow> edit_result" where
  "allow_share al devs cfg =
     (case AllowDevices al devs cfg of
        (None, _) \<Rightarrow> Inl (no_share al)
      | (Some added, cfg') \<Rightarrow>
          if added = [] then Inr ([], None, [''share '' @ go_quote al @ '': no changes (already allowed)''])
          else Inr ([], Some cfg', [''allowed '' @ show_list added @ '' on share '' @ go_quote al]))"

definition all_note :: "string \<Rightarrow> string list \<Rightarrow> config \<Rightarrow> string list" where
  "all_note al devs cfg =
     (if ''all'' \<notin> set devs \<and> AllowsAll cfg al
      then [''note: share '' @ go_quote al @ '' still allows ALL devices; run '' @ [CHR 0x22] @
            ''hubfuse share deny '' @ al @ '' all'' @ [CHR 0x22] @ '' to change that'']
      else [])"

definition deny_share :: "string \<Rightarrow> string list \<Rightarrow> config \<Rightarrow> edit_result" where
  "deny_share al devs cfg =
     (case DenyDevices al devs cfg of
        (None, _) \<Rightarrow> Inl (no_share al)
      | (Some (removed, notFound), cfg') \<Rightarrow>
          (let warn = map (\<lambda>n. ''warning: '' @ go_quote n @ '' was not in the allow list for share '' @ go_quote al) notFound
           in if removed \<noteq> []
              then Inr (warn, Some cfg', [''denied '' @ show_list removed @ '' from share '' @ go_quote al] @ all_note al devs cfg')
              else Inr (warn, None, [''share '' @ go_quote al @ '': no changes''] @ all_note al devs cfg')))"

definition device_args :: "string list \<Rightarrow> (string list \<Rightarrow> 'h cli \<Rightarrow> go_err option \<times> 'h cli) \<Rightarrow> 'h cli \<Rightarrow> go_err option \<times> 'h cli" where
  "device_args args k c =
     (if splitDeviceArgs args = [] then (Some (TextErr ''no devices specified''), c) else k (splitDeviceArgs args) c)"

subsection \<open>mount\<close>

text \<open>\<open>strings.SplitN(arg, ":", 2)\<close> with both parts present.\<close>

definition mount_arg :: "string \<Rightarrow> go_err + string \<times> string" where
  "mount_arg arg =
     (case cut_char (CHR '':'') arg of
        None \<Rightarrow> Inl (TextErr ''argument must be in <device>:<share> format'')
      | Some (d, s) \<Rightarrow>
          if d = [] \<or> s = [] then Inl (TextErr ''argument must be in <device>:<share> format'') else Inr (d, s))"

definition is_mount :: "string \<Rightarrow> string \<Rightarrow> mount_config \<Rightarrow> bool" where
  "is_mount dev sh m = (mc_device m = dev \<and> mc_share m = sh)"

definition add_mount :: "string \<Rightarrow> string \<Rightarrow> string \<Rightarrow> config \<Rightarrow> edit_result" where
  "add_mount dev sh target cfg =
     (if list_ex (is_mount dev sh) (cf_mounts cfg)
      then Inl (TextErr (''mount '' @ dev @ '':'' @ sh @ '' already exists''))
      else Inr ([], Some (cfg\<lparr>cf_mounts := cf_mounts cfg @ [\<lparr>mc_device = dev, mc_share = sh, mc_to = target\<rparr>]\<rparr>),
             [''added mount '' @ dev @ '':'' @ sh @ '' -> '' @ target]))"

definition remove_mount :: "string \<Rightarrow> string \<Rightarrow> config \<Rightarrow> edit_result" where
  "remove_mount dev sh cfg =
     (if \<not> list_ex (is_mount dev sh) (cf_mounts cfg)
      then Inl (TextErr (''mount '' @ dev @ '':'' @ sh @ '' not found''))
      else Inr ([], Some (cfg\<lparr>cf_mounts := filter (\<lambda>m. \<not> is_mount dev sh m) (cf_mounts cfg)\<rparr>),
             [''removed mount '' @ dev @ '':'' @ sh]))"

text \<open>The commands that only edit or print the configuration.\<close>

datatype config_cmd =
    ShareAdd string string string "string list"
  | ShareRemove string
  | ShareAllow string "string list"
  | ShareDeny string "string list"
  | ShareList
  | MountAdd string string
  | MountRemove string
  | MountList

text \<open>\<open>%-<n>s\<close>.\<close>

definition pad_to :: "nat \<Rightarrow> string \<Rightarrow> string" where
  "pad_to n s = s @ replicate (n - length s) (CHR '' '')"

fun join_comma :: "string list \<Rightarrow> string" where
  "join_comma [] = []"
| "join_comma [w] = w"
| "join_comma (w # ws) = w @ CHR '','' # join_comma ws"

definition share_line :: "share_config \<Rightarrow> string" where
  "share_line s =
     (let allowed = join_comma (sc_allowed s) in
      pad_to 20 (sc_alias s) @ ''  '' @ pad_to 4 (sc_permissions s) @ ''  '' @ pad_to 30 (sc_path s) @ ''  '' @
      (if allowed = [] then ''none'' else allowed))"

definition mount_line :: "mount_config \<Rightarrow> string" where
  "mount_line m = pad_to 20 (mc_device m) @ ''  '' @ pad_to 20 (mc_share m) @ ''  '' @ mc_to m"

definition list_shares :: "config \<Rightarrow> edit_result" where
  "list_shares cfg =
     Inr (if cf_shares cfg = [] then [''no shares configured'']
          else [pad_to 20 ''ALIAS'' @ ''  PERM  '' @ pad_to 30 ''PATH'' @ ''  ALLOWED'',
                replicate 20 (CHR ''-'') @ ''  ----  '' @ replicate 30 (CHR ''-'') @ ''  '' @ replicate 20 (CHR ''-'')] @
               map share_line (cf_shares cfg), None, [])"

definition list_mounts :: "config \<Rightarrow> edit_result" where
  "list_mounts cfg =
     Inr (if cf_mounts cfg = [] then [''no mounts configured'']
          else [pad_to 20 ''DEVICE'' @ ''  '' @ pad_to 20 ''SHARE'' @ ''  LOCAL PATH'',
                replicate 20 (CHR ''-'') @ ''  '' @ replicate 20 (CHR ''-'') @ ''  '' @ replicate 30 (CHR ''-'')] @
               map mount_line (cf_mounts cfg), None, [])"

fun config_command :: "'h cli_env \<Rightarrow> config_cmd \<Rightarrow> 'h cli \<Rightarrow> go_err option \<times> 'h cli" where
  "config_command env (ShareAdd path al perms allow) c = edit_config env (add_share path al perms allow) c"
| "config_command env (ShareRemove al) c = edit_config env (remove_share al) c"
| "config_command env (ShareAllow al args) c = device_args args (\<lambda>devs. edit_config env (allow_share al devs)) c"
| "config_command env (ShareDeny al args) c = device_args args (\<lambda>devs. edit_config env (deny_share al devs)) c"
| "config_command env ShareList c = edit_config env list_shares c"
| "config_command env (MountAdd arg target) c =
     (case mount_arg arg of Inl e \<Rightarrow> (Some e, c) | Inr (dev, sh) \<Rightarrow> edit_config env (add_mount dev sh target) c)"
| "config_command env (MountRemove arg) c =
     (case mount_arg arg of Inl e \<Rightarrow> (Some e, c) | Inr (dev, sh) \<Rightarrow> edit_config env (remove_mount dev sh) c)"
| "config_command env MountList c = edit_config env list_mounts c"

end
