(* ===== verification/CliProps.thy ===== *)
theory CliProps
  imports CliConfig
begin

text \<open>
  The commands that edit the configuration: they keep the file loadable and its aliases and
  mounts distinct, whatever happens on the way.
\<close>

subsection \<open>Characters of an expanded path\<close>

lemma split_slash_chars: "e \<in> set (split_slash p) \<Longrightarrow> set e \<subseteq> set p"
proof (induction p arbitrary: e)
  case (Cons ch p)
  show ?case
  proof (cases "ch = CHR ''/''")
    case True
    then show ?thesis using Cons by auto
  next
    case False
    obtain x xs where x: "split_slash p = x # xs" using split_slash_nonempty [of p] by (cases "split_slash p") auto
    have "set x \<subseteq> set p" "\<And>y. y \<in> set xs \<Longrightarrow> set y \<subseteq> set p" using Cons.IH x by auto
    then show ?thesis using Cons.prems False x by auto
  qed
qed simp

lemma clean_elem_subset: "set (clean_elem r acc e) \<subseteq> set acc \<union> {e, dotdot}"
  by (cases acc) auto

lemma clean_elems_subset: "set (clean_elems r es) \<subseteq> set es \<union> {dotdot}"
proof -
  have "set (foldl (clean_elem r) acc es) \<subseteq> set acc \<union> set es \<union> {dotdot}" for acc
  proof (induction es arbitrary: acc)
    case (Cons e es)
    show ?case using Cons.IH [of "clean_elem r acc e"] clean_elem_subset [of r acc e] by (auto simp del: clean_elem.simps)
  qed auto
  from this [of "[]"] show ?thesis by (simp add: clean_elems_def)
qed

lemma join_slash_chars: "\<forall>x\<in>set es. set x \<subseteq> A \<Longrightarrow> CHR ''/'' \<in> A \<Longrightarrow> set (join_slash es) \<subseteq> A"
  by (induction es rule: join_slash.induct) auto

lemma Clean_chars: "set (Clean p) \<subseteq> set p \<union> {CHR ''/'', CHR ''.''}"
proof -
  let ?A = "set p \<union> {CHR ''/'', CHR ''.''}"
  have "\<forall>x\<in>set (elems p). set x \<subseteq> ?A"
    using clean_elems_subset [of "rooted p" "split_slash p"] split_slash_chars [of _ p]
    by (fastforce simp: elems_def dotdot_def)
  then have "set (join_slash (elems p)) \<subseteq> ?A" by (rule join_slash_chars) simp
  then show ?thesis by (auto simp: Clean_def render_def)
qed

lemma plain_iff: "list_all plain_char s \<longleftrightarrow> (\<forall>c\<in>set s. plain_char c)"
  by (simp add: list_all_iff)

lemma plain_ExpandHome:
  assumes "list_all plain_char p" and "case home of None \<Rightarrow> True | Some h \<Rightarrow> list_all plain_char h"
  shows "list_all plain_char (ExpandHome home p)"
proof -
  have "plain_char (CHR ''/'')" "plain_char (CHR ''.'')" by (simp_all add: plain_char_def Let_def)
  then have "list_all plain_char (Clean q)" if "list_all plain_char q" for q
    using Clean_chars [of q] that by (auto simp: plain_iff)
  moreover have "plain_char (CHR ''/'')" by (simp add: plain_char_def Let_def)
  ultimately have "list_all plain_char (Join2 a b)" if "list_all plain_char a" "list_all plain_char b" for a b
    using that by (simp add: Join2_def)
  then show ?thesis using assms by (cases p) (auto simp: ExpandHome_def split: option.split)
qed

subsection \<open>Configurations that survive the commands\<close>

definition mount_pair :: "mount_config \<Rightarrow> string \<times> string" where
  "mount_pair m = (mc_device m, mc_share m)"

lemma mount_pair_update [simp]: "mount_pair (m\<lparr>mc_to := x\<rparr>) = mount_pair m"
  by (simp add: mount_pair_def)

definition config_ok :: "config \<Rightarrow> bool" where
  "config_ok c \<longleftrightarrow> plain_config c \<and> distinct (map sc_alias (cf_shares c)) \<and> distinct (map mount_pair (cf_mounts c)) \<and>
     ac_mount_tool (cf_agent c) \<in> {''sshfs'', ''fuse-t''}"

definition reads_saved :: "'h cli_env \<Rightarrow> bool" where
  "reads_saved env \<longleftrightarrow> (\<forall>c. plain_config c \<longrightarrow> ce_parse env (SaveText c) = read_kdl (SaveText c)) \<and>
     (case ce_home env of None \<Rightarrow> True | Some h \<Rightarrow> list_all plain_char h)"

lemma plain_NormalizePermissions: "list_all plain_char p \<Longrightarrow> list_all plain_char (NormalizePermissions p)"
  by (simp add: NormalizePermissions_def plain_char_def)

lemma config_ok_normalised:
  assumes "config_ok c" and "case home of None \<Rightarrow> True | Some h \<Rightarrow> list_all plain_char h"
  shows "config_ok (normalised home c)"
proof -
  have "list_all plain_share (map (\<lambda>s. s\<lparr>sc_permissions := NormalizePermissions (sc_permissions s),
      sc_path := ExpandHome home (sc_path s)\<rparr>) (cf_shares c))"
    using assms by (auto simp: config_ok_def plain_config_def list_all_iff [of plain_share] plain_share_def
        plain_ExpandHome plain_NormalizePermissions)
  moreover have "list_all plain_mount (map (\<lambda>m. m\<lparr>mc_to := ExpandHome home (mc_to m)\<rparr>) (cf_mounts c))"
    using assms by (auto simp: config_ok_def plain_config_def list_all_iff [of plain_mount] plain_mount_def plain_ExpandHome)
  ultimately show ?thesis using assms(1)
    by (auto simp: config_ok_def plain_config_def normalised_def o_def plain_char_def)
qed

lemma load_saved:
  assumes "config_ok c" and "reads_saved env"
  shows "Load (ce_home env) (ce_parse env (SaveText c)) = Some (normalised (ce_home env) c)"
  using assms by (auto simp: Load_def read_saved load_nodes_config Let_def normalised_def reads_saved_def config_ok_def)

definition plain_command :: "config_cmd \<Rightarrow> bool" where
  "plain_command cmd =
     (case cmd of
        ShareAdd path al perms allow \<Rightarrow> list_all (list_all plain_char) (path # al # perms # allow)
      | ShareRemove al \<Rightarrow> True
      | ShareAllow al args \<Rightarrow> list_all (list_all plain_char) args
      | ShareDeny al args \<Rightarrow> True
      | MountAdd arg target \<Rightarrow> list_all plain_char arg \<and> list_all plain_char target
      | _ \<Rightarrow> True)"

lemma add_share_ok:
  assumes "config_ok c" and "list_all (list_all plain_char) (path # al # perms # allow)"
    and "add_share path al perms allow c = Inr (b, Some c', a)"
  shows "config_ok c'"
proof -
  have new: "\<not> list_ex (\<lambda>s. sc_alias s = al) (cf_shares c)"
    and c': "c' = c\<lparr>cf_shares := cf_shares c @ [\<lparr>sc_path = path, sc_alias = al,
      sc_permissions = (if NormalizePermissions perms = [] then ''ro'' else NormalizePermissions perms), sc_allowed = allow\<rparr>]\<rparr>"
    using assms(3) by (auto simp: add_share_def Let_def split: if_splits)
  have "list_all plain_char (if NormalizePermissions perms = [] then ''ro'' else NormalizePermissions perms)"
    using assms(2) by (simp add: plain_NormalizePermissions plain_char_def)
  then show ?thesis using assms(1,2) new
    by (auto simp: c' config_ok_def plain_config_def plain_share_def list_ex_iff)
qed

lemma remove_share_ok: "config_ok c \<Longrightarrow> remove_share al c = Inr (b, Some c', a) \<Longrightarrow> config_ok c'"
  by (auto simp: remove_share_def config_ok_def plain_config_def list_all_iff distinct_map_filter_key split: if_splits)

lemma add_mount_ok:
  assumes "config_ok c" and "list_all plain_char dev" "list_all plain_char sh" "list_all plain_char target"
    and "add_mount dev sh target c = Inr (b, Some c', a)"
  shows "config_ok c'"
  using assms by (auto simp: add_mount_def config_ok_def plain_config_def plain_mount_def list_ex_iff is_mount_def mount_pair_def split: if_splits)

lemma remove_mount_ok: "config_ok c \<Longrightarrow> remove_mount dev sh c = Inr (b, Some c', a) \<Longrightarrow> config_ok c'"
  by (auto simp: remove_mount_def config_ok_def plain_config_def list_all_iff distinct_map_filter_key split: if_splits)

lemma plain_splits:
  assumes "list_all plain_char s"
  shows "list_all (list_all plain_char) (split_on d s)" and "list_all plain_char (trim_by P s)"
    and "cut_char d s = Some (a, b) \<Longrightarrow> list_all plain_char a \<and> list_all plain_char b"
proof -
  show "list_all (list_all plain_char) (split_on d s)"
    using assms by (induction s) (auto split: list.split)
  show "list_all plain_char (trim_by P s)"
    using assms by (auto simp: trim_by_def list_all_iff dest!: set_dropWhileD)
  show "cut_char d s = Some (a, b) \<Longrightarrow> list_all plain_char a \<and> list_all plain_char b"
    using assms by (auto simp: cut_char_iff)
qed

lemma plain_splitDeviceArgs:
  "list_all (list_all plain_char) args \<Longrightarrow> list_all (list_all plain_char) (splitDeviceArgs args)"
proof (induction args)
  case (Cons x xs)
  have "list_all (list_all plain_char) (filter (\<lambda>p. p \<noteq> []) (map TrimSpace ps))"
    if "list_all (list_all plain_char) ps" for ps
    using that by (induction ps) (simp_all add: TrimSpace_def plain_splits(2))
  then show ?case using Cons plain_splits(1) [of x "CHR '',''"] by (simp add: splitDeviceArgs_def)
qed (simp add: splitDeviceArgs_def)

lemma allow_share_ok:
  assumes "config_ok c" and "list_all (list_all plain_char) devs" and "allow_share al devs c = Inr (b, Some c', a)"
  shows "config_ok c'"
proof -
  obtain i where i: "findShare (cf_shares c) al = Some i"
    using assms(3) by (cases "findShare (cf_shares c) al") (auto simp: allow_share_def AllowDevices_def)
  let ?s = "cf_shares c ! i" let ?n = "add_missing (set (sc_allowed ?s)) devs"
  have c': "c' = c\<lparr>cf_shares := (cf_shares c)[i := ?s\<lparr>sc_allowed := sc_allowed ?s @ ?n\<rparr>]\<rparr>"
    using assms(3) i by (auto simp: allow_share_def AllowDevices_def Let_def split: if_splits)
  have "plain_share ?s" using assms(1) findShare_index [OF i] by (auto simp: config_ok_def plain_config_def list_all_iff [of plain_share])
  then have "plain_share (?s\<lparr>sc_allowed := sc_allowed ?s @ ?n\<rparr>)"
    using assms(2) by (auto simp: plain_share_def list_all_iff [of "list_all plain_char"] add_missing_set)
  then have "list_all plain_share (cf_shares c')" using assms(1)
    by (auto simp: c' config_ok_def plain_config_def list_all_iff [of plain_share] dest!: set_update_subset_insert [THEN subsetD])
  moreover have "map sc_alias (cf_shares c') = map sc_alias (cf_shares c)"
    by (simp add: c' map_update list_update_same_conv findShare_index [OF i])
  ultimately show ?thesis using assms(1) by (simp add: c' config_ok_def plain_config_def)
qed

lemma deny_share_ok:
  assumes "config_ok c" and "deny_share al devs c = Inr (b, Some c', a)"
  shows "config_ok c'"
proof -
  obtain i where i: "findShare (cf_shares c) al = Some i"
    using assms(2) by (cases "findShare (cf_shares c) al") (auto simp: deny_share_def DenyDevices_def)
  let ?s = "cf_shares c ! i" let ?k = "filter (\<lambda>d. d \<notin> set devs) (sc_allowed ?s)"
  have c': "c' = c\<lparr>cf_shares := (cf_shares c)[i := ?s\<lparr>sc_allowed := ?k\<rparr>]\<rparr>"
    using assms(2) i by (auto simp: deny_share_def DenyDevices_def Let_def split: if_splits)
  have "plain_share ?s" using assms(1) findShare_index [OF i] by (auto simp: config_ok_def plain_config_def list_all_iff [of plain_share])
  then have "plain_share (?s\<lparr>sc_allowed := ?k\<rparr>)"
    by (auto simp: plain_share_def list_all_iff [of "list_all plain_char"])
  then have "list_all plain_share (cf_shares c')" using assms(1)
    by (auto simp: c' config_ok_def plain_config_def list_all_iff [of plain_share] dest!: set_update_subset_insert [THEN subsetD])
  moreover have "map sc_alias (cf_shares c') = map sc_alias (cf_shares c)"
    by (simp add: c' map_update list_update_same_conv findShare_index [OF i])
  ultimately show ?thesis using assms(1) by (simp add: c' config_ok_def plain_config_def)
qed

subsection \<open>Every command keeps the file in order\<close>

definition loads_ok :: "'h cli_env \<Rightarrow> agent_dir \<Rightarrow> bool" where
  "loads_ok env d = (case loadConfig env d of Inl e \<Rightarrow> False | Inr cfg \<Rightarrow> config_ok cfg)"

lemma says_dir [simp]: "cl_dir (fold say ls c) = cl_dir c" "cl_hub (fold say ls c) = cl_hub c"
  by (induction ls arbitrary: c) (simp_all add: say_def)

definition sound_io :: "'h cli_env \<Rightarrow> bool" where
  "sound_io env \<longleftrightarrow> reads_saved env \<and> ce_io env (ReadStep ConfigFile) = NoFault \<and>
     (\<forall>part. ce_io env (WriteStep ConfigFile) \<noteq> CutShort part)"

lemma Save_cases:
  assumes "Save env cfg c = (e, c')" and "\<And>part. ce_io env (WriteStep ConfigFile) \<noteq> CutShort part"
  shows "cl_hub c' = cl_hub c \<and> cl_out c' = cl_out c \<and> (if e = None then cl_dir c' = (cl_dir c)\<lparr>ad_file := (ad_file (cl_dir c))(ConfigFile \<mapsto> SaveText cfg)\<rparr>
     else c' = c)"
  using assms by (cases "ce_io env (WriteStep ConfigFile)")
    (auto simp: Save_def and_then_def wrapping_def mkdir_for_def WriteFile_def set_file_def split: prod.splits option.splits if_splits)

lemma loadConfig_saved:
  assumes "config_ok cfg" and "sound_io env" and "ad_file d ConfigFile = Some (SaveText cfg)"
  shows "loadConfig env d = Inr (normalised (ce_home env) cfg)"
  using assms load_saved [of cfg env] by (simp add: loadConfig_def LoadFile_def sound_io_def)

lemma edit_config_file:
  assumes "sound_io env" and "edit_config env f c = (e, c')" and "loadConfig env (cl_dir c) = Inr cfg" and "config_ok cfg"
    and "\<forall>b x a. f cfg = Inr (b, Some x, a) \<longrightarrow> config_ok x"
  shows "(\<exists>b x a. f cfg = Inr (b, Some x, a) \<and> e = None \<and> loadConfig env (cl_dir c') = Inr (normalised (ce_home env) x)) \<or>
    (loadConfig env (cl_dir c') = Inr cfg \<and> (e = None \<longrightarrow> (\<exists>b a. f cfg = Inr (b, None, a))))"
proof (cases "f cfg")
  case (Inr r)
  obtain b o' a where r: "r = (b, o', a)" by (cases r)
  show ?thesis
  proof (cases o')
    case (Some x)
    obtain e1 c1 where s: "Save env x (fold say b c) = (e1, c1)" by (cases "Save env x (fold say b c)")
    note sc = Save_cases [OF s] 
    show ?thesis
    proof (cases e1)
      case None
      then have "ad_file (cl_dir c') ConfigFile = Some (SaveText x)" "e = None"
        using assms(1-3) sc by (auto simp: edit_config_def Inr r Some s and_then_def wrapping_def sound_io_def)
      then show ?thesis using loadConfig_saved [OF _ assms(1)] assms(5) Inr r Some by auto
    next
      case (Some e')
      then show ?thesis using assms(1-3) sc \<open>o' = Some x\<close> by (auto simp: edit_config_def Inr r s and_then_def wrapping_def sound_io_def)
    qed
  qed (use assms in \<open>auto simp: edit_config_def Inr r\<close>)
qed (use assms in \<open>auto simp: edit_config_def\<close>)

lemma edit_config_loads_ok:
  assumes "sound_io env" and "loads_ok env (cl_dir c)"
    and "\<And>cfg b x a. config_ok cfg \<Longrightarrow> f cfg = Inr (b, Some x, a) \<Longrightarrow> config_ok x"
  shows "loads_ok env (cl_dir (snd (edit_config env f c)))"
proof -
  obtain cfg where cfg: "loadConfig env (cl_dir c) = Inr cfg" "config_ok cfg"
    using assms(2) by (auto simp: loads_ok_def split: sum.splits)
  obtain e c' where e: "edit_config env f c = (e, c')" by (cases "edit_config env f c")
  have "config_ok (normalised (ce_home env) x)" if "config_ok x" for x
    using config_ok_normalised [OF that, of "ce_home env"] assms(1) by (simp add: sound_io_def reads_saved_def)
  moreover have "(\<exists>b x a. f cfg = Inr (b, Some x, a) \<and> e = None \<and> loadConfig env (cl_dir c') = Inr (normalised (ce_home env) x)) \<or>
    (loadConfig env (cl_dir c') = Inr cfg \<and> (e = None \<longrightarrow> (\<exists>b a. f cfg = Inr (b, None, a))))"
    by (rule edit_config_file [OF assms(1) e cfg]) (use assms(3) [OF cfg(2)] in blast)
  ultimately show ?thesis using cfg assms(3) [OF cfg(2)] e by (auto simp: loads_ok_def)
qed

lemma config_command_loads_ok:
  assumes "sound_io env" and "loads_ok env (cl_dir c)" and "plain_command cmd"
  shows "loads_ok env (cl_dir (snd (config_command env cmd c)))"
proof (cases cmd)
  case (ShareAdd path al perms allow)
  have "loads_ok env (cl_dir (snd (edit_config env (add_share path al perms allow) c)))"
    by (rule edit_config_loads_ok [OF assms(1,2)], rule add_share_ok) (use assms(3) ShareAdd in \<open>simp_all add: plain_command_def\<close>)
  then show ?thesis using ShareAdd by simp
next
  case (ShareRemove al)
  have "loads_ok env (cl_dir (snd (edit_config env (remove_share al) c)))"
    by (rule edit_config_loads_ok [OF assms(1,2) remove_share_ok])
  then show ?thesis using ShareRemove by simp
next
  case (ShareAllow al args)
  have "loads_ok env (cl_dir (snd (edit_config env (allow_share al (splitDeviceArgs args)) c)))"
    by (rule edit_config_loads_ok [OF assms(1,2)], rule allow_share_ok [OF _ plain_splitDeviceArgs])
      (use assms(3) ShareAllow in \<open>simp_all add: plain_command_def\<close>)
  then show ?thesis using ShareAllow assms(2) by (simp add: device_args_def)
next
  case (ShareDeny al args)
  have "loads_ok env (cl_dir (snd (edit_config env (deny_share al (splitDeviceArgs args)) c)))"
    by (rule edit_config_loads_ok [OF assms(1,2) deny_share_ok])
  then show ?thesis using ShareDeny assms(2) by (simp add: device_args_def)
next
  case (MountAdd arg target)
  show ?thesis
  proof (cases "mount_arg arg")
    case (Inr p)
    obtain dev sh where p: "p = (dev, sh)" by (cases p)
    have "cut_char (CHR '':'') arg = Some (dev, sh)"
      using Inr p by (auto simp: mount_arg_def split: option.splits if_splits)
    then have "list_all plain_char dev \<and> list_all plain_char sh"
      using plain_splits(3) [of arg "CHR '':''" dev sh] assms(3) MountAdd by (simp add: plain_command_def)
    then have "loads_ok env (cl_dir (snd (edit_config env (add_mount dev sh target) c)))"
      by - (rule edit_config_loads_ok [OF assms(1,2)], rule add_mount_ok [where dev = dev and sh = sh and target = target],
        use assms(3) MountAdd in \<open>simp_all add: plain_command_def\<close>)
    then show ?thesis using MountAdd Inr p by simp
  qed (use assms(2) MountAdd in simp)
next
  case (MountRemove arg)
  have "loads_ok env (cl_dir (snd (edit_config env (remove_mount dev sh) c)))" for dev sh
    by (rule edit_config_loads_ok [OF assms(1,2) remove_mount_ok])
  then show ?thesis using MountRemove assms(2) by (auto split: sum.split)
next
  case ShareList
  have "loads_ok env (cl_dir (snd (edit_config env list_shares c)))"
    by (rule edit_config_loads_ok [OF assms(1,2)]) (simp add: list_shares_def)
  then show ?thesis using ShareList by simp
next
  case MountList
  have "loads_ok env (cl_dir (snd (edit_config env list_mounts c)))"
    by (rule edit_config_loads_ok [OF assms(1,2)]) (simp add: list_mounts_def)
  then show ?thesis using MountList by simp
qed

definition run_commands :: "('h cli_env \<times> config_cmd) list \<Rightarrow> 'h cli \<Rightarrow> 'h cli" where
  "run_commands cmds c = fold (\<lambda>(env, cmd) c. snd (config_command env cmd c)) cmds c"


text \<open>A code for a pair of strings, in the place of the JSON encoder.\<close>

definition sample_enc :: "string \<times> string \<Rightarrow> string" where
  "sample_enc x = replicate (length (fst x)) (CHR ''1'') @ CHR ''0'' # fst x @ snd x"

definition sample_dec :: "string \<Rightarrow> (string \<times> string) option" where
  "sample_dec s = (let n = length (takeWhile (\<lambda>ch. ch = CHR ''1'') s); r = drop (Suc n) s in Some (take n r, drop n r))"

lemma sample_dec_enc [simp]: "sample_dec (sample_enc x) = Some x"
proof -
  have "takeWhile (\<lambda>ch. ch = CHR ''1'') (replicate n (CHR ''1'') @ CHR ''0'' # t) = replicate n (CHR ''1'')" for n t
    by (induction n) simp_all
  then show ?thesis by (simp add: sample_dec_def sample_enc_def Let_def)
qed

definition sample_cli_env :: "'h cli_env" where
  "sample_cli_env = \<lparr>ce_home = Some ''/home/u'', ce_parse = read_kdl, ce_dec_id = sample_dec,
     ce_enc_id = sample_enc, ce_io = (\<lambda>_. NoFault), ce_os_text = (\<lambda>_. ''os error''), ce_grpc = sample_grpc,
     ce_dial_pinned = (\<lambda>_ _. None), ce_dial = (\<lambda>_ _ _ _. None), ce_call = (\<lambda>_ _ _ h. (Inl (TextErr ''down''), h)),
     ce_new_id = ''d9'', ce_keygen = Inr (''priv'', ''pub''), ce_kept = (\<lambda>_. True), ce_kept_known = (\<lambda>_. True),
     ce_known_fail = (\<lambda>_. False), ce_known_part = [], ce_keys_text = (\<lambda>_. ''keys error''),
     ce_enc_nicks = (\<lambda>_. []), ce_dec_nicks = (\<lambda>_. Some None), ce_rnd = ''1''\<rparr>"

definition empty_dir :: agent_dir where
  "empty_dir = \<lparr>ad_file = (\<lambda>_. None), ad_known = None\<rparr>"

lemma sample_sound: "sound_io sample_cli_env" "loads_ok sample_cli_env empty_dir"
  by (simp_all add: sound_io_def reads_saved_def sample_cli_env_def loads_ok_def loadConfig_def empty_dir_def
      config_ok_def plain_config_def DefaultConfig_def plain_char_def)


end
