(* ===== verification/CliReload.thy ===== *)
theory CliReload
  imports CliProps ReloadProps
begin

text \<open>
  The command line and a running daemon together: a command rewrites the file, the watcher loads
  it, and the SSH server decides by the new access lists. The file is rewritten in place, so the
  watcher may also load what is there in between.
\<close>

definition file_changed :: "'h cli_env \<Rightarrow> 'h cli \<Rightarrow> agent_input" where
  "file_changed env c = FileChanged (case loadConfig env (cl_dir c) of Inl e \<Rightarrow> None | Inr cfg \<Rightarrow> Some cfg)"

lemma findShare_same_keys:
  "map sc_alias ss = map sc_alias ts \<Longrightarrow> AgentConfig.findShare ss al = AgentConfig.findShare ts al"
proof (induction ss arbitrary: ts)
  case (Cons s ss)
  then show ?case by (cases ts) auto
qed simp

lemma admits_normalised:
  "map_option dec_allow (admits (normalised home c) al did r) = map_option dec_allow (admits c al did r)"
proof -
  have "AgentConfig.findShare (cf_shares (normalised home c)) al = AgentConfig.findShare (cf_shares c) al"
    by (rule findShare_same_keys) (simp add: normalised_def o_def)
  then show ?thesis unfolding admits_tokens
    by (cases "AgentConfig.findShare (cf_shares c) al") (auto simp: normalised_def dest: AgentConfig.findShare_index)
qed

text \<open>The configuration in force after the watcher has loaded the file, and what it admits.\<close>

lemma reload_in_force:
  assumes "in_step (w, d)" and "sorts_by_alias (de_sorter denv)" and "loadConfig env (cl_dir c) = Inr cfg"
    and "distinct (map sc_alias (cf_shares cfg))" and "react denv (file_changed env c) (w, d) = (w', d')"
  shows "peer_access d' al did = admits cfg al did (Some (NicknameForDeviceID d'))"
proof -
  have "in_step (w', d')"
    using in_step_react [OF assms(1), of denv "file_changed env c"] assms(2-5)
    by (simp add: reasonable_def file_changed_def)
  moreover have "dm_config d' = cfg"
    using assms(5) onConfigChange_conf [of denv w cfg d] assms(3) by (auto simp: file_changed_def watcher_reload_def)
  ultimately show ?thesis by (simp add: in_step_def peer_access_def admits_def acl_agrees_def)
qed

definition edited :: "config_cmd \<Rightarrow> config \<Rightarrow> config" where
  "edited cmd cfg =
     (case cmd of
        ShareAllow al args \<Rightarrow> snd (AllowDevices al (splitDeviceArgs args) cfg)
      | ShareDeny al args \<Rightarrow> snd (DenyDevices al (splitDeviceArgs args) cfg)
      | _ \<Rightarrow> cfg)"

lemma edit_unchanged:
  assumes "AgentConfig.findShare (cf_shares cfg) al = Some i"
  shows "add_missing (set (sc_allowed (cf_shares cfg ! i))) devs = [] \<Longrightarrow> snd (AllowDevices al devs cfg) = cfg"
    and "filter (\<lambda>d. d \<in> set devs) (sc_allowed (cf_shares cfg ! i)) = [] \<Longrightarrow> snd (DenyDevices al devs cfg) = cfg"
proof -
  have kept: "filter (\<lambda>d. d \<notin> set devs) xs = xs" if "filter (\<lambda>d. d \<in> set devs) xs = []" for xs
    using that by (auto simp: filter_empty_conv filter_id_conv)
  show "add_missing (set (sc_allowed (cf_shares cfg ! i))) devs = [] \<Longrightarrow> snd (AllowDevices al devs cfg) = cfg"
    using assms by (simp add: AllowDevices_def Let_def)
  show "filter (\<lambda>d. d \<in> set devs) (sc_allowed (cf_shares cfg ! i)) = [] \<Longrightarrow> snd (DenyDevices al devs cfg) = cfg"
    using assms kept by (simp add: DenyDevices_def Let_def)
qed

lemma command_edits:
  assumes "sound_io env" and "loadConfig env (cl_dir c) = Inr cfg" and "config_ok cfg" and "plain_command cmd"
    and "cmd = ShareAllow al args \<or> cmd = ShareDeny al args" and "config_command env cmd c = (None, c')"
  shows "\<exists>i. AgentConfig.findShare (cf_shares cfg) al = Some i \<and>
    loadConfig env (cl_dir c') \<in> {Inr (normalised (ce_home env) (edited cmd cfg)), Inr (edited cmd cfg)}"
  using assms(5)
proof
  let ?devs = "splitDeviceArgs args"
  assume cmd: "cmd = ShareAllow al args"
  then have e: "edit_config env (allow_share al ?devs) c = (None, c')"
    using assms(6) by (auto simp: device_args_def split: if_splits)
  have ok: "\<forall>b x a. allow_share al ?devs cfg = Inr (b, Some x, a) \<longrightarrow> config_ok x"
    using allow_share_ok [OF assms(3) plain_splitDeviceArgs] assms(4) cmd by (auto simp: plain_command_def)
  obtain i where i: "AgentConfig.findShare (cf_shares cfg) al = Some i"
    using e assms(2) by (cases "AgentConfig.findShare (cf_shares cfg) al") (auto simp: edit_config_def allow_share_def AllowDevices_def)
  show ?thesis using edit_config_file [OF assms(1) e assms(2,3) ok] i edit_unchanged(1) [OF i, of ?devs] cmd
    by (auto simp: edited_def allow_share_def AllowDevices_def Let_def split: if_splits)
next
  let ?devs = "splitDeviceArgs args"
  assume cmd: "cmd = ShareDeny al args"
  then have e: "edit_config env (deny_share al ?devs) c = (None, c')"
    using assms(6) by (auto simp: device_args_def split: if_splits)
  have ok: "\<forall>b x a. deny_share al ?devs cfg = Inr (b, Some x, a) \<longrightarrow> config_ok x"
    using deny_share_ok [OF assms(3)] by blast
  obtain i where i: "AgentConfig.findShare (cf_shares cfg) al = Some i"
    using e assms(2) by (cases "AgentConfig.findShare (cf_shares cfg) al") (auto simp: edit_config_def deny_share_def DenyDevices_def)
  show ?thesis using edit_config_file [OF assms(1) e assms(2,3) ok] i edit_unchanged(2) [OF i, of ?devs] cmd
    by (auto simp: edited_def deny_share_def DenyDevices_def Let_def split: if_splits)
qed


text \<open>A data directory with the configuration of the running daemon.\<close>

definition sample_cli :: "unit cli" where
  "sample_cli = \<lparr>cl_dir = \<lparr>ad_file = [ConfigFile \<mapsto> SaveText sample_config], ad_known = None\<rparr>, cl_hub = (), cl_out = []\<rparr>"

lemma sample_config_ok: "config_ok sample_config"
  by (simp add: config_ok_def plain_config_def plain_share_def plain_mount_def plain_char_def sample_config_def DefaultConfig_def mount_pair_def)

lemma sample_cli_loads: "loadConfig (sample_cli_env :: unit cli_env) (cl_dir sample_cli) = Inr sample_config"
proof -
  have "normalised (Some ''/home/u'') sample_config = sample_config"
    by (simp add: normalised_def sample_config_def DefaultConfig_def saved_port_def NormalizePermissions_def ExpandHome_def)
  then show ?thesis using loadConfig_saved [OF sample_config_ok sample_sound(1), of "cl_dir sample_cli"]
    by (simp add: sample_cli_def sample_cli_env_def)
qed

lemma sample_sorts: "sorts_by_alias (de_sorter sample_env)"
  by (simp add: sample_env_def sorts_by_alias_def)


text \<open>
  C39: the file is rewritten in place: \<open>os.WriteFile\<close> empties it before it writes. When the write
  then fails, or a watcher reads in between, what is there is an empty file, which loads as the
  default configuration: the daemon goes on with no share at all, so that every peer is refused,
  and unmounts every mount of the configuration it had.
\<close>

theorem truncated_save_drops_everything:
  assumes "Save env cfg c0 = (e, c)" and "ce_io env (WriteStep ConfigFile) = CutShort []"
    and "ce_io env (MkdirStep ConfigFile) = NoFault" and "ce_io env (ReadStep ConfigFile) = NoFault" and "ce_parse env [] = Some []"
    and "in_step (w, d)" and "sorts_by_alias (de_sorter denv)" and "react denv (file_changed env c) (w, d) = (w', d')"
  shows "e \<noteq> None \<and> peer_access d' al did = None \<and> dm_config d' = DefaultConfig \<and>
    dm_mounter d' = fold (unmount_removed denv) (cf_mounts (dm_config d)) (dm_mounter d)"
proof -
  have f: "ad_file (cl_dir c) ConfigFile = Some [] \<and> e \<noteq> None"
    using assms(1-3) by (auto simp: Save_def WriteFile_def mkdir_for_def and_then_def wrapping_def set_file_def)
  then have l: "loadConfig env (cl_dir c) = Inr DefaultConfig"
    using assms(4,5) by (simp add: loadConfig_def LoadFile_def Load_def DefaultConfig_def)
  have w: "w = Some (dm_config d)" using assms(6) by (simp add: in_step_def)
  have "distinct (map sc_alias (cf_shares DefaultConfig))" by (simp add: DefaultConfig_def)
  note acc = reload_in_force [OF assms(6,7) l this assms(8), of al did]
  have d': "d' = onConfigChange denv w DefaultConfig d"
    using assms(8) l by (simp add: file_changed_def watcher_reload_def)
  have "MountsRemoved (ComputeDiff (de_sorter denv) w (Some DefaultConfig)) = cf_mounts (dm_config d)"
    "MountsAdded (ComputeDiff (de_sorter denv) w (Some DefaultConfig)) = []"
    by (simp_all add: ComputeDiff_def mountsNotIn_def mountsFrom_def w DefaultConfig_def)
  then show ?thesis using acc f onConfigChange_conf [of denv w DefaultConfig d]
    by (simp add: d' admits_def sharesToACL_def ShareACLsFromConfig_def DefaultConfig_def onConfigChange_def Let_def)
qed

definition full_disk :: "'h cli_env" where
  "full_disk = sample_cli_env\<lparr>ce_io := (\<lambda>st. if st = WriteStep ConfigFile then CutShort [] else NoFault)\<rparr>"

lemma truncated_save_drops_everything_witness:
  "case Save (full_disk :: unit cli_env) sample_config sample_cli of
     (e, c) \<Rightarrow> (case react sample_env (file_changed (full_disk :: unit cli_env) c) (Some sample_config, sample_daemon) of
       (w', d') \<Rightarrow> peer_access sample_daemon ''A'' ''x'' \<noteq> None \<and> peer_access d' ''A'' ''x'' = None)"
proof -
  let ?env = "full_disk :: unit cli_env"
  obtain e c where c: "Save ?env sample_config sample_cli = (e, c)" by (cases "Save ?env sample_config sample_cli")
  obtain w' d' where r: "react sample_env (file_changed ?env c) (Some sample_config, sample_daemon) = (w', d')"
    by (cases "react sample_env (file_changed ?env c) (Some sample_config, sample_daemon)")
  have "ce_parse ?env [] = Some []" by (simp add: full_disk_def sample_cli_env_def read_kdl_def finish_open_def)
  then have "peer_access d' ''A'' ''x'' = None"
    using truncated_save_drops_everything [OF c _ _ _ _ sample_in_step sample_sorts r] by (simp add: full_disk_def)
  moreover have "peer_access sample_daemon ''A'' ''x'' \<noteq> None"
    by (simp add: peer_access_def sample_daemon_def UpdateACLs_def sample_config_def sharesToACL_def ShareACLsFromConfig_def)
  ultimately show ?thesis using c r by simp
qed

end
