(* ===== verification/CliErrors.thy ===== *)
theory CliErrors
  imports HubClient
begin

text \<open>
  How the command line turns an error into the line the user reads (cmd/internal/clierrors): the
  status an error carries, or the one its text reveals, and the message for its code.
\<close>

subsection \<open>The status behind an error\<close>

definition codeFromString :: "string \<Rightarrow> grpc_code option" where
  "codeFromString name =
     (let normalized = ToUpper (replace_char (CHR ''_'') [] name) in
      if normalized = ''CANCELED'' \<or> normalized = ''CANCELLED'' then Some Canceled
      else if normalized = ''UNKNOWN'' then Some UnknownCode
      else if normalized = ''INVALIDARGUMENT'' then Some InvalidArgument
      else if normalized = ''DEADLINEEXCEEDED'' then Some DeadlineExceeded
      else if normalized = ''NOTFOUND'' then Some NotFound
      else if normalized = ''ALREADYEXISTS'' then Some AlreadyExists
      else if normalized = ''PERMISSIONDENIED'' then Some PermissionDeniedCode
      else if normalized = ''RESOURCEEXHAUSTED'' then Some ResourceExhausted
      else if normalized = ''FAILEDPRECONDITION'' then Some FailedPrecondition
      else if normalized = ''ABORTED'' then Some Aborted
      else if normalized = ''OUTOFRANGE'' then Some OutOfRange
      else if normalized = ''UNIMPLEMENTED'' then Some Unimplemented
      else if normalized = ''INTERNAL'' then Some InternalCode
      else if normalized = ''UNAVAILABLE'' then Some Unavailable
      else if normalized = ''DATALOSS'' then Some DataLoss
      else if normalized = ''UNAUTHENTICATED'' then Some Unauthenticated
      else None)"

definition statusFromMessage :: "string \<Rightarrow> (grpc_code \<times> string) option" where
  "statusFromMessage msg =
     (let has = Contains (ToLower msg) in
      if has ''nickname already taken'' then Some (AlreadyExists, msg)
      else if has ''device not found'' \<or> has ''no device with nickname'' then Some (NotFound, msg)
      else if has ''device offline'' \<or> has ''not currently connected'' then Some (Unavailable, msg)
      else if has ''unsupported protocol version'' then Some (FailedPrecondition, msg)
      else if has ''invalid invite code'' then Some (PermissionDeniedCode, msg)
      else if has ''max pairing attempts exceeded'' then Some (ResourceExhausted, msg)
      else if has ''invite code expired'' then Some (DeadlineExceeded, msg)
      else if has ''client certificate required'' then Some (Unauthenticated, msg)
      else if has ''devices already paired'' then Some (AlreadyExists, msg)
      else None)"

text \<open>The expression \<open>code = ([A-Za-z_]+) desc = (.+)\<close>: at the front of the text, then anywhere.\<close>

definition code_letter :: "char \<Rightarrow> bool" where
  "code_letter ch = (let n = of_char ch :: nat in (65 \<le> n \<and> n \<le> 90) \<or> (97 \<le> n \<and> n \<le> 122) \<or> n = 95)"

definition status_here :: "string \<Rightarrow> (string \<times> string) option" where
  "status_here s =
     (if \<not> prefix ''code = '' s then None
      else (let rest = drop 7 s; name = takeWhile code_letter rest; after = dropWhile code_letter rest in
            if name = [] \<or> \<not> prefix '' desc = '' after then None
            else (let desc = takeWhile (\<lambda>ch. ch \<noteq> CHR 0x0A) (drop 8 after) in
                  if desc = [] then None else Some (name, desc))))"

fun statusRe :: "string \<Rightarrow> (string \<times> string) option" where
  "statusRe [] = None"
| "statusRe (c # s) = (case status_here (c # s) of None \<Rightarrow> statusRe s | Some m \<Rightarrow> Some m)"

definition statusFromError :: "grpc \<Rightarrow> go_err \<Rightarrow> (grpc_code \<times> string) option" where
  "statusFromError g e =
     (case gr_from g e of
        Some st \<Rightarrow> Some st
      | None \<Rightarrow>
          (let msg = err_msg g e in
           case statusFromMessage msg of
             Some mapped \<Rightarrow> Some mapped
           | None \<Rightarrow>
               (case statusRe msg of
                  None \<Rightarrow> None
                | Some (name, desc) \<Rightarrow>
                    (case codeFromString name of None \<Rightarrow> None | Some code \<Rightarrow> Some (code, TrimSpace desc)))))"

definition IsNicknameTaken :: "grpc \<Rightarrow> go_err \<Rightarrow> bool" where
  "IsNicknameTaken g e =
     (case statusFromError g e of
        None \<Rightarrow> False
      | Some (code, msg) \<Rightarrow> code = AlreadyExists \<and> Contains (ToLower msg) ''nickname'')"

subsection \<open>The name in a message\<close>

text \<open>The first run of other characters between two quotation marks \<open>q\<close>.\<close>

fun quotedRe :: "char \<Rightarrow> string \<Rightarrow> string option" where
  "quotedRe q [] = None"
| "quotedRe q (c # s) =
     (let w = takeWhile (\<lambda>ch. ch \<noteq> q) s in
      if c = q \<and> w \<noteq> [] \<and> length w < length s then Some w else quotedRe q s)"

fun next_token :: "string list \<Rightarrow> string \<Rightarrow> string" where
  "next_token (f # h # fs) keyword =
     (if EqualFold (trim_quotes f) keyword then trim_quotes h else next_token (h # fs) keyword)"
| "next_token _ keyword = []"

definition nextToken :: "string \<Rightarrow> string \<Rightarrow> string" where
  "nextToken msg keyword = next_token (Fields msg) keyword"

definition isLikelyNickname :: "string \<Rightarrow> bool" where
  "isLikelyNickname word =
     (ToLower word \<notin> {[], ''already'', ''taken'', ''is'', ''not'', ''device'', ''nickname'', ''offline''})"

definition extractNickname :: "string \<Rightarrow> string" where
  "extractNickname msg =
     (case quotedRe (CHR 0x22) msg of
        Some w \<Rightarrow> w
      | None \<Rightarrow>
          (case quotedRe (CHR 0x27) msg of
             Some w \<Rightarrow> w
           | None \<Rightarrow>
               (if isLikelyNickname (nextToken msg ''nickname'') then nextToken msg ''nickname''
                else if isLikelyNickname (nextToken msg ''device'') then nextToken msg ''device''
                else [])))"

subsection \<open>The message\<close>

definition transportFailureMarkers :: "string list" where
  "transportFailureMarkers = [''connection error:'', ''transport:'', ''keepalive ping failed'',
     ''error reading from server'', ''last connection error:'', ''name resolver error'']"

definition isTransportFailure :: "string \<Rightarrow> bool" where
  "isTransportFailure msg = list_ex (Contains (ToLower msg)) transportFailureMarkers"

definition in_use :: "string \<Rightarrow> string" where
  "in_use nick = ''nickname '' @ go_quote nick @ '' is already in use; choose a different one''"

definition unavailable_message :: "string \<Rightarrow> cli_context \<Rightarrow> string" where
  "unavailable_message msg ctx =
     (if isTransportFailure msg
      then if ctx_hub_addr ctx \<noteq> [] then ''cannot reach hub at '' @ ctx_hub_addr ctx @ '': '' @ msg
           else ''cannot reach the hub: '' @ msg
      else if extractNickname msg \<noteq> [] then ''device '' @ go_quote (extractNickname msg) @ '' is offline''
      else if Contains msg ''device offline'' then ''device is offline''
      else if ctx_hub_addr ctx \<noteq> []
      then if msg = [] then ''cannot reach hub at '' @ ctx_hub_addr ctx
           else ''cannot reach hub at '' @ ctx_hub_addr ctx @ '': '' @ msg
      else if msg \<noteq> [] then ''hub is unavailable: '' @ msg
      else ''hub is unavailable'')"

fun status_message :: "grpc_code \<Rightarrow> string \<Rightarrow> cli_context \<Rightarrow> string" where
  "status_message AlreadyExists msg ctx =
     (if ctx_nickname ctx \<noteq> [] then in_use (ctx_nickname ctx)
      else if extractNickname msg \<noteq> [] then in_use (extractNickname msg)
      else ''nickname is already in use; choose a different one'')"
| "status_message Unauthenticated msg ctx =
     ''not joined to this hub; run '' @ [CHR 0x22] @ ''hubfuse join <hub-address>'' @ [CHR 0x22] @ '' first''"
| "status_message NotFound msg ctx =
     (if extractNickname msg \<noteq> [] then ''device '' @ go_quote (extractNickname msg) @ '' not found''
      else if Contains msg ''device not found'' then ''device not found''
      else msg)"
| "status_message Unavailable msg ctx = unavailable_message msg ctx"
| "status_message FailedPrecondition msg ctx =
     (if Contains msg ''unsupported protocol version''
      then ''this client is incompatible with the hub (protocol mismatch)'' else msg)"
| "status_message PermissionDeniedCode msg ctx =
     (if Contains msg ''invalid invite code'' then ''invite code is invalid''
      else if ctx_nickname ctx \<noteq> [] then ''pairing rejected by '' @ go_quote (ctx_nickname ctx)
      else if extractNickname msg \<noteq> [] then ''pairing rejected by '' @ go_quote (extractNickname msg)
      else if Contains (ToLower msg) ''pairing rejected'' then ''pairing request was rejected''
      else msg)"
| "status_message ResourceExhausted msg ctx =
     (if Contains msg ''max pairing attempts exceeded''
      then ''pairing failed: too many attempts; request a new code'' else msg)"
| "status_message DeadlineExceeded msg ctx =
     (if Contains msg ''invite code expired'' then ''invite code has expired; request a new one''
      else if ctx_hub_addr ctx \<noteq> [] then ''hub at '' @ ctx_hub_addr ctx @ '' did not respond in time''
      else if msg \<noteq> [] then ''hub did not respond in time: '' @ msg
      else ''hub did not respond in time'')"
| "status_message code msg ctx = (if msg = [] then ToLower (code_name code) else msg)"

definition translateStatus :: "grpc \<Rightarrow> go_err \<Rightarrow> cli_context \<Rightarrow> string option" where
  "translateStatus g e ctx =
     (case statusFromError g e of None \<Rightarrow> None | Some (code, msg) \<Rightarrow> Some (status_message code msg ctx))"

text \<open>\<open>errors.As\<close> for a \<open>clierrors.Error\<close>, and \<open>Wrap\<close>, which leaves a nil error alone.\<close>

fun find_ctx :: "go_err \<Rightarrow> (go_err \<times> cli_context option) option" where
  "find_ctx (CtxErr e x) = Some (e, x)"
| "find_ctx (WrapErr p e) = find_ctx e"
| "find_ctx (WrapAfter e t) = find_ctx e"
| "find_ctx _ = None"

definition Wrap :: "go_err option \<Rightarrow> cli_context option \<Rightarrow> go_err option" where
  "Wrap e x = map_option (\<lambda>e. CtxErr e x) e"

definition no_context :: cli_context where
  "no_context = \<lparr>ctx_nickname = [], ctx_hub_addr = []\<rparr>"

definition Format :: "grpc \<Rightarrow> go_err option \<Rightarrow> cli_context option \<Rightarrow> string" where
  "Format g err defaultCtx =
     (case err of
        None \<Rightarrow> []
      | Some e0 \<Rightarrow>
          (let ctx0 = (case defaultCtx of None \<Rightarrow> no_context | Some x \<Rightarrow> x);
               (e, ctx) = (case find_ctx e0 of
                   None \<Rightarrow> (e0, ctx0)
                 | Some (inner, x) \<Rightarrow> (inner, case x of None \<Rightarrow> ctx0 | Some x \<Rightarrow> x))
           in if is_sentinel ErrJoinTokenMissingFingerprint e
              then ''error: join token must include hub fingerprint '' @ em_dash @ '' regenerate with '' @
                   [CHR 0x27] @ ''hubfuse-hub issue-join'' @ [CHR 0x27]
              else if is_sentinel ErrHubFingerprintMismatch e
              then ''error: hub TLS fingerprint does not match the token '' @ em_dash @
                   '' possible MITM attack; regenerate the token''
              else (case translateStatus g e ctx of
                      Some msg \<Rightarrow> ''error: '' @ msg
                    | None \<Rightarrow> ''error: '' @ err_msg g e)))"

end
