(* ===== verification/CliAgent.thy ===== *)
theory CliAgent
  imports CliConfig CliErrors
begin

text \<open>
  The commands of the agent that talk to the hub (cmd/hubfuse/main.go): join, leave, pair,
  pair-confirm, devices and rename. The hub behind the connection is a parameter; \<open>hub_call\<close> at
  the end of the theory puts the hub's model there. Error texts are without the paths the code puts
  into them, the time limits of single calls are part of what the connection answers, and the
  warnings and prompts on standard error are lines of the output.
\<close>

subsection \<open>Dialling\<close>

text \<open>The join token before and after its first dot (internal/common/fingerprint.go).\<close>

definition ParseJoinToken :: "string \<Rightarrow> sentinel + string \<times> string" where
  "ParseJoinToken tok =
     (case cut_char (CHR ''.'') tok of
        None \<Rightarrow> Inl ErrJoinTokenMissingFingerprint
      | Some (p, fp) \<Rightarrow> if p = [] \<or> fp = [] then Inl ErrJoinTokenMissingFingerprint else Inr (p, fp))"

text \<open>The hub's address and the identity, or the error and the address as far as it is known.\<close>

definition dialHub :: "'h cli_env \<Rightarrow> agent_dir \<Rightarrow> go_err \<times> string + (string \<times> string) \<times> string" where
  "dialHub env d =
     (case LoadIdentity env d of
        Inl e \<Rightarrow> Inl (WrapErr ''load identity'' e, [])
      | Inr ident \<Rightarrow>
          (case loadConfig env d of
             Inl e \<Rightarrow> Inl (WrapErr ''load config'' e, [])
           | Inr cfg \<Rightarrow>
               (let addr = cf_hub_address cfg in
                case ce_dial env addr (ad_file d CACertFile) (ad_file d ClientCertFile) (ad_file d ClientKeyFile) of
                  Some e \<Rightarrow> Inl (WrapErr ''dial hub'' e, addr)
                | None \<Rightarrow> Inr (ident, addr))))"

text \<open>A call over the dialled connection, with the certificate that was on disk then.\<close>

definition call_hub :: "'h cli_env \<Rightarrow> string \<Rightarrow> string option \<Rightarrow> rpc \<Rightarrow> 'h cli \<Rightarrow> stub_result \<times> 'h cli" where
  "call_hub env addr cert r c = (case ce_call env addr cert r (cl_hub c) of (x, h) \<Rightarrow> (x, c\<lparr>cl_hub := h\<rparr>))"

definition at_hub :: "string \<Rightarrow> string \<Rightarrow> cli_context option" where
  "at_hub nick addr = Some \<lparr>ctx_nickname = nick, ctx_hub_addr = addr\<rparr>"

definition connect_failed :: "go_err \<Rightarrow> string \<Rightarrow> go_err option" where
  "connect_failed e addr = Some (CtxErr (WrapErr ''connect to hub'' e) (at_hub [] addr))"

subsection \<open>join\<close>

definition bestEffortLeave :: "'h cli_env \<Rightarrow> 'h cli \<Rightarrow> go_err option \<times> 'h cli" where
  "bestEffortLeave env c =
     (let d = cl_dir c in
      case loadConfig env d of
        Inl e \<Rightarrow> (Some (WrapErr ''load old config'' e), c)
      | Inr cfg \<Rightarrow>
          (let oldHub = cf_hub_address cfg in
           if oldHub = [] then (Some (TextErr ''old config has no hub address''), c)
           else (case find (\<lambda>f. ad_file d f = None \<or> ce_io env (StatStep f) \<noteq> NoFault) [CACertFile, ClientCertFile, ClientKeyFile] of
                   Some f \<Rightarrow> (Some (WrapErr ''stat'' (os_err env (StatStep f))), c)
                 | None \<Rightarrow>
                     (case ce_dial env oldHub (ad_file d CACertFile) (ad_file d ClientCertFile) (ad_file d ClientKeyFile) of
                        Some e \<Rightarrow> (Some (WrapErr (''dial old hub '' @ go_quote oldHub) e), c)
                      | None \<Rightarrow>
                          (case call_hub env oldHub (ad_file d ClientCertFile) RLeave c of
                             (r, c1) \<Rightarrow>
                               (case Client_Leave r of
                                  Inl e \<Rightarrow> (Some (WrapErr (''leave old hub '' @ go_quote oldHub) e), c1)
                                | Inr _ \<Rightarrow> (None, c1)))))))"

text \<open>
  The prompt: the lines the user completes; at their end \<open>ReadString\<close> returns its error. The
  result is the nickname the hub accepted and its certificates.
\<close>

fun join_loop ::
  "'h cli_env \<Rightarrow> string \<Rightarrow> string \<Rightarrow> string \<Rightarrow> string list \<Rightarrow> 'h cli \<Rightarrow> (go_err + string \<times> certs option) \<times> 'h cli" where
  "join_loop env addr did tok [] c = (Inl (WrapErr ''read nickname'' (TextErr ''EOF'')), c)"
| "join_loop env addr did tok (line # rest) c =
     (let nick = TrimSpace line; ctx = at_hub nick addr in
      if nick = [] then join_loop env addr did tok rest (say ''error: nickname cannot be empty'' c)
      else (case call_hub env addr None (RJoin did nick tok) c of
              (r, c1) \<Rightarrow>
                (case Client_Join r of
                   Inl e \<Rightarrow>
                     if IsNicknameTaken (ce_grpc env) e
                     then join_loop env addr did tok rest (say (Format (ce_grpc env) (Some e) ctx) c1)
                     else (Inl (CtxErr (WrapErr ''join hub'' e) ctx), c1)
                 | Inr (okay, text, cs) \<Rightarrow>
                     if \<not> okay
                     then (if IsNicknameTaken (ce_grpc env) (TextErr text)
                           then join_loop env addr did tok rest (say (Format (ce_grpc env) (Some (TextErr text)) ctx) c1)
                           else (Inl (CtxErr (WrapErr ''join failed'' (TextErr text)) ctx), c1))
                     else (Inr (nick, cs), c1))))"

text \<open>The files of a joined device, in the order they are written.\<close>

definition cert_or_empty :: "(certs \<Rightarrow> string) \<Rightarrow> certs option \<Rightarrow> string" where
  "cert_or_empty sel cs = (case cs of None \<Rightarrow> [] | Some x \<Rightarrow> sel x)"

definition save_join :: "'h cli_env \<Rightarrow> string \<Rightarrow> string \<Rightarrow> string \<Rightarrow> certs option \<Rightarrow> 'h cli \<Rightarrow> go_err option \<times> 'h cli" where
  "save_join env addr did nick cs c =
     and_then (wrapping ''create tls dir'' (mkdir_for env CACertFile c)) (\<lambda>c.
     and_then (wrapping ''write ca.crt'' (WriteFile env CACertFile (cert_or_empty ca_cert cs) c)) (\<lambda>c.
     and_then (wrapping ''write client.crt'' (WriteFile env ClientCertFile (cert_or_empty client_cert cs) c)) (\<lambda>c.
     and_then (wrapping ''write client.key'' (WriteFile env ClientKeyFile (cert_or_empty client_key cs) c)) (\<lambda>c.
     and_then (wrapping ''save identity'' (SaveIdentity env (did, nick) c)) (\<lambda>c.
     and_then (wrapping ''write config'' (Save env (DefaultConfig\<lparr>cf_nickname := nick, cf_hub_address := addr\<rparr>) c)) (\<lambda>c.
       (None, say ''run `hubfuse start` to connect this device and appear online''
                (say (''joined hub '' @ addr @ '' as '' @ go_quote nick @ '' (device_id: '' @ did @ '')'') c))))))))"

definition already_joined :: "'h cli_env \<Rightarrow> string \<Rightarrow> string \<Rightarrow> agent_dir \<Rightarrow> go_err" where
  "already_joined env addr nick d =
     (let existing = (case loadConfig env d of Inl e \<Rightarrow> addr
                      | Inr cfg \<Rightarrow> if cf_hub_address cfg \<noteq> [] then cf_hub_address cfg else addr)
      in TextErr (''this agent is already joined to hub '' @ go_quote existing @ '' as '' @ go_quote nick @ newline @
           ''run `hubfuse leave` first, or pass --force to overwrite''))"

definition join_body :: "'h cli_env \<Rightarrow> string \<Rightarrow> string \<Rightarrow> string list \<Rightarrow> 'h cli \<Rightarrow> go_err option \<times> 'h cli" where
  "join_body env addr joinToken lines c =
     (case ParseJoinToken joinToken of
        Inl s \<Rightarrow> (Some (CtxErr (Sentinel s) (at_hub [] addr)), c)
      | Inr (tok, fp) \<Rightarrow>
          (let did = ce_new_id env in
           case ce_dial_pinned env addr fp of
             Some e \<Rightarrow> (Some (CtxErr (WrapErr ''dial hub'' e) (at_hub [] addr)), c)
           | None \<Rightarrow>
               (case join_loop env addr did tok lines c of
                  (Inl e, c1) \<Rightarrow> (Some e, c1)
                | (Inr (nick, cs), c1) \<Rightarrow> save_join env addr did nick cs c1)))"

definition cmd_join :: "'h cli_env \<Rightarrow> string \<Rightarrow> string \<Rightarrow> bool \<Rightarrow> string list \<Rightarrow> 'h cli \<Rightarrow> go_err option \<times> 'h cli" where
  "cmd_join env addr joinToken force lines c =
     (case LoadIdentity env (cl_dir c) of
        Inl e \<Rightarrow> join_body env addr joinToken lines c
      | Inr (did, nick) \<Rightarrow>
          if \<not> force then (Some (already_joined env addr nick (cl_dir c)), c)
          else (case bestEffortLeave env c of
                  (None, c1) \<Rightarrow> join_body env addr joinToken lines c1
                | (Some e, c1) \<Rightarrow>
                    join_body env addr joinToken lines
                      (say (''warning: cannot deregister from old hub (proceeding, the old device may linger until pruned): '' @
                            err_msg (ce_grpc env) e) c1)))"

subsection \<open>leave\<close>

text \<open>
  Removing the files in turn; what could not be removed when a removal fails is a parameter, and
  \<open>os.Remove\<close> of a missing file is no error here.
\<close>

definition remove_all :: "'h cli_env \<Rightarrow> cli_step \<Rightarrow> cli_file list \<Rightarrow> 'h cli \<Rightarrow> go_err option \<times> 'h cli" where
  "remove_all env step fs c =
     (let gone = (\<lambda>f. f \<in> set fs \<and> (ce_io env step = NoFault \<or> \<not> ce_kept env f));
          d = cl_dir c
      in (if ce_io env step = NoFault then None else Some (os_err env step),
          c\<lparr>cl_dir := d\<lparr>ad_file := (\<lambda>f. if gone f then None else ad_file d f)\<rparr>\<rparr>))"

definition remove_known :: "'h cli_env \<Rightarrow> 'h cli \<Rightarrow> go_err option \<times> 'h cli" where
  "remove_known env c =
     (let d = cl_dir c in
      if ce_io env RemoveKnown = NoFault then (None, c\<lparr>cl_dir := d\<lparr>ad_known := None\<rparr>\<rparr>)
      else (Some (os_err env RemoveKnown),
            c\<lparr>cl_dir := d\<lparr>ad_known := map_option (filter (\<lambda>x. ce_kept_known env (fst x))) (ad_known d)\<rparr>\<rparr>))"

definition wipe_local :: "'h cli_env \<Rightarrow> string \<Rightarrow> string \<Rightarrow> 'h cli \<Rightarrow> go_err option \<times> 'h cli" where
  "wipe_local env addr did c =
     and_then (wrapping ''remove tls dir'' (remove_all env RemoveTLS [CACertFile, ClientCertFile, ClientKeyFile] c)) (\<lambda>c.
     and_then (wrapping ''remove identity'' (remove_all env RemoveIdentity [IdentityFile] c)) (\<lambda>c.
     and_then (wrapping ''remove known_devices dir'' (remove_known env c)) (\<lambda>c.
       (None, say (''left hub '' @ addr @ '' (device_id: '' @ did @ '')'') c))))"

definition cmd_leave :: "'h cli_env \<Rightarrow> bool \<Rightarrow> 'h cli \<Rightarrow> go_err option \<times> 'h cli" where
  "cmd_leave env forceLocal c =
     (case LoadIdentity env (cl_dir c) of
        Inl e \<Rightarrow> (Some (WrapErr ''not joined to any hub (no identity found)'' e), c)
      | Inr (did, nick) \<Rightarrow>
          (case dialHub env (cl_dir c) of
             Inl (e, addr) \<Rightarrow>
               if \<not> forceLocal then (connect_failed e addr, c)
               else wipe_local env addr did
                      (say (''warning: cannot reach hub (proceeding with --force-local): '' @ err_msg (ce_grpc env) e) c)
           | Inr (ident, addr) \<Rightarrow>
               (case call_hub env addr (ad_file (cl_dir c) ClientCertFile) RLeave c of
                  (r, c1) \<Rightarrow>
                    (case Client_Leave r of
                       Inr _ \<Rightarrow> wipe_local env addr did c1
                     | Inl e \<Rightarrow>
                         if \<not> forceLocal then (Some (CtxErr (WrapErr ''leave hub'' e) (at_hub [] addr)), c1)
                         else wipe_local env addr did
                                (say (''warning: leave RPC failed (proceeding with --force-local): '' @ err_msg (ce_grpc env) e) c1)))))"

subsection \<open>Pairing\<close>

text \<open>
  Making the key pair (internal/agent/keys.go) and \<open>ensureAgentPublicKey\<close>. The generator returns
  the two files' contents.
\<close>

definition GenerateSSHKeyPair :: "'h cli_env \<Rightarrow> 'h cli \<Rightarrow> (go_err + string) \<times> 'h cli" where
  "GenerateSSHKeyPair env c =
     (if ce_io env (MkdirStep PrivateKeyFile) \<noteq> NoFault
      then (Inl (WrapErr ''create key directory'' (os_err env (MkdirStep PrivateKeyFile))), c)
      else (case ce_keygen env of
              Inl e \<Rightarrow> (Inl e, c)
            | Inr (priv, pub) \<Rightarrow>
                (case and_then (wrapping ''write private key'' (WriteFile env PrivateKeyFile priv c))
                        (\<lambda>c. wrapping ''write public key'' (WriteFile env PublicKeyFile pub c)) of
                   (Some e, c1) \<Rightarrow> (Inl e, c1)
                 | (None, c1) \<Rightarrow> (Inr (trim_suffix pub newline), c1))))"

definition LoadPublicKey :: "'h cli_env \<Rightarrow> agent_dir \<Rightarrow> go_err + string" where
  "LoadPublicKey env d =
     (case ad_file d PublicKeyFile of
        None \<Rightarrow> Inl (WrapErr ''read public key'' (os_err env (ReadStep PublicKeyFile)))
      | Some content \<Rightarrow>
          if ce_io env (ReadStep PublicKeyFile) \<noteq> NoFault
          then Inl (WrapErr ''read public key'' (os_err env (ReadStep PublicKeyFile)))
          else Inr (trim_suffix content newline))"

definition ensureAgentPublicKey :: "'h cli_env \<Rightarrow> 'h cli \<Rightarrow> (go_err + string) \<times> 'h cli" where
  "ensureAgentPublicKey env c =
     (if ce_io env (StatStep PublicKeyFile) \<noteq> NoFault
      then (Inl (WrapErr ''stat public key'' (os_err env (StatStep PublicKeyFile))), c)
      else if ad_file (cl_dir c) PublicKeyFile = None
      then (case GenerateSSHKeyPair env c of
              (Inl e, c1) \<Rightarrow> (Inl (WrapErr ''generate SSH key pair'' e), c1)
            | (Inr pk, c1) \<Rightarrow> (Inr pk, c1))
      else (case LoadPublicKey env (cl_dir c) of
              Inl e \<Rightarrow> (Inl (WrapErr ''load public key'' e), c)
            | Inr pk \<Rightarrow> (Inr pk, c)))"

definition cmd_pair :: "'h cli_env \<Rightarrow> string \<Rightarrow> 'h cli \<Rightarrow> go_err option \<times> 'h cli" where
  "cmd_pair env toDevice c =
     (case ensureAgentPublicKey env c of
        (Inl e, c1) \<Rightarrow> (Some e, c1)
      | (Inr publicKey, c1) \<Rightarrow>
          (case dialHub env (cl_dir c1) of
             Inl (e, addr) \<Rightarrow> (connect_failed e addr, c1)
           | Inr (ident, addr) \<Rightarrow>
               (case call_hub env addr (ad_file (cl_dir c1) ClientCertFile) (RRequestPairing toDevice publicKey) c1 of
                  (r, c2) \<Rightarrow>
                    (case Client_RequestPairing r of
                       Inl e \<Rightarrow> (Some (CtxErr (WrapErr ''request pairing'' e) (at_hub toDevice addr)), c2)
                     | Inr code \<Rightarrow>
                         (None, say (''share this code with '' @ go_quote toDevice @ '' to complete pairing'')
                                  (say (''pairing invite code: '' @ code) c2))))))"

definition set_known :: "dir_files \<Rightarrow> 'h cli \<Rightarrow> 'h cli" where
  "set_known ds c = c\<lparr>cl_dir := (cl_dir c)\<lparr>ad_known := ds\<rparr>\<rparr>"

definition save_peer :: "'h cli_env \<Rightarrow> string \<Rightarrow> string \<Rightarrow> string \<Rightarrow> 'h cli \<Rightarrow> go_err option \<times> 'h cli" where
  "save_peer env peerID key nick c =
     (case SavePeerPublicKey (ce_known_fail env) (ce_known_part env) (ce_rnd env) peerID key (ad_known (cl_dir c)) of
        (Some e, ds) \<Rightarrow> (Some (WrapErr ''save peer public key'' (TextErr (ce_keys_text env e))), set_known (hd ds) c)
      | (None, ds) \<Rightarrow>
          (if nick = [] then (None, set_known (hd ds) c)
           else (case SetNickname (ce_enc_nicks env) (ce_dec_nicks env) (ce_known_fail env) (ce_known_part env) (ce_rnd env)
                        peerID nick (hd ds) of
                   (None, ds') \<Rightarrow> (None, set_known (hd ds') c)
                 | (Some e, ds') \<Rightarrow> (None, say ''could not persist peer nickname'' (set_known (hd ds') c)))))"

definition cmd_pair_confirm :: "'h cli_env \<Rightarrow> string \<Rightarrow> 'h cli \<Rightarrow> go_err option \<times> 'h cli" where
  "cmd_pair_confirm env inviteCode c =
     (case ensureAgentPublicKey env c of
        (Inl e, c1) \<Rightarrow> (Some e, c1)
      | (Inr publicKey, c1) \<Rightarrow>
          (case dialHub env (cl_dir c1) of
             Inl (e, addr) \<Rightarrow> (connect_failed e addr, c1)
           | Inr (ident, addr) \<Rightarrow>
               (case call_hub env addr (ad_file (cl_dir c1) ClientCertFile) (RConfirmPairing inviteCode publicKey) c1 of
                  (r, c2) \<Rightarrow>
                    (case Client_ConfirmPairing r of
                       Inl e \<Rightarrow> (Some (CtxErr (WrapErr ''confirm pairing'' e) (at_hub [] addr)), c2)
                     | Inr (key, peerID, nick) \<Rightarrow>
                         and_then (if key \<noteq> [] \<and> peerID \<noteq> [] then save_peer env peerID key nick c2 else (None, c2))
                           (\<lambda>c. (None, say (''paired with '' @ go_quote nick @ '' (device_id: '' @ peerID @ '')'') c))))))"

subsection \<open>devices and rename\<close>

definition device_line :: "device_info \<Rightarrow> string" where
  "device_line d = pad_to 40 (info_device d) @ ''  '' @ pad_to 20 (info_nickname d) @ ''  '' @ pad_to 10 (info_status d) @ ''  '' @ info_ip d"

definition cmd_devices :: "'h cli_env \<Rightarrow> 'h cli \<Rightarrow> go_err option \<times> 'h cli" where
  "cmd_devices env c =
     (case dialHub env (cl_dir c) of
        Inl (e, addr) \<Rightarrow> (connect_failed e addr, c)
      | Inr (ident, addr) \<Rightarrow>
          (case call_hub env addr (ad_file (cl_dir c) ClientCertFile) RListDevices c of
             (r, c1) \<Rightarrow>
               (case Client_ListDevices r of
                  Inl e \<Rightarrow> (Some (CtxErr (WrapErr ''list devices'' e) (at_hub [] addr)), c1)
                | Inr ds \<Rightarrow>
                    (None, fold say (if ds = [] then [''no devices registered'']
                       else [pad_to 40 ''DEVICE ID'' @ ''  '' @ pad_to 20 ''NICKNAME'' @ ''  '' @ pad_to 10 ''STATUS'' @ ''  IP'',
                             replicate 40 (CHR ''-'') @ ''  '' @ replicate 20 (CHR ''-'') @ ''  '' @ replicate 10 (CHR ''-'') @
                             ''  '' @ replicate 15 (CHR ''-'')] @ map device_line ds) c1))))"

definition cmd_rename :: "'h cli_env \<Rightarrow> string \<Rightarrow> 'h cli \<Rightarrow> go_err option \<times> 'h cli" where
  "cmd_rename env newNickname c =
     (case dialHub env (cl_dir c) of
        Inl (e, addr) \<Rightarrow> (connect_failed e addr, c)
      | Inr ((did, nick), addr) \<Rightarrow>
          (case call_hub env addr (ad_file (cl_dir c) ClientCertFile) (RRename newNickname) c of
             (r, c1) \<Rightarrow>
               (case Client_Rename r of
                  Inl e \<Rightarrow> (Some (CtxErr (WrapErr ''rename'' e) (at_hub newNickname addr)), c1)
                | Inr _ \<Rightarrow>
                    and_then (wrapping ''save identity'' (SaveIdentity env (did, newNickname) c1)) (\<lambda>c2.
                    case loadConfig env (cl_dir c2) of
                      Inl e \<Rightarrow> (Some (WrapErr ''load config'' e), c2)
                    | Inr cfg \<Rightarrow>
                        and_then (wrapping ''write config'' (Save env (cfg\<lparr>cf_nickname := newNickname\<rparr>) c2))
                          (\<lambda>c3. (None, say (''renamed device to '' @ go_quote newNickname) c3))))))"

subsection \<open>The hub at the other end\<close>

text \<open>
  The hub's model behind the connection: each call is served alone, in the environment of its
  number (its clocks, its random code). \<open>cn\<close> reads the device of a client certificate the hub
  issued; a call without one has no verified chain.
\<close>

definition caller_ctx :: "(string \<Rightarrow> string option) \<Rightarrow> string \<Rightarrow> string option \<Rightarrow> rpc_ctx" where
  "caller_ctx cn from cert =
     Some \<lparr>peer_addr = from, verified_chains = Some (case cert of None \<Rightarrow> []
        | Some x \<Rightarrow> (case cn x of None \<Rightarrow> [] | Some did \<Rightarrow> [[did]]))\<rparr>"

definition hub_call ::
  "(nat \<Rightarrow> serve_env) \<Rightarrow> (hub_err \<Rightarrow> string) \<Rightarrow> (string \<Rightarrow> string option) \<Rightarrow> string \<Rightarrow>
   string \<Rightarrow> string option \<Rightarrow> rpc \<Rightarrow> hub \<times> nat \<Rightarrow> stub_result \<times> hub \<times> nat" where
  "hub_call senv other cn from addr cert r hn =
     (case hn of (h, n) \<Rightarrow>
      case run (serve (senv n) (caller_ctx cn from cert) r) h of
        (Inl e, h') \<Rightarrow> (Inl (rpc_failure other e), h', Suc n)
      | (Inr rep, h') \<Rightarrow> (Inr rep, h', Suc n))"

end
