(* ===== verification/CliAgentProps.thy ===== *)
theory CliAgentProps
  imports CliAgent CliProps RegistryProps
begin

text \<open>
  The agent's commands against the hub's model: what a successful join leaves on both sides, when
  leaving wipes the local state, and what the user is told when the hub refuses.
\<close>

subsection \<open>Texts\<close>

text \<open>The status an error that is only its text reveals.\<close>

definition text_status :: "string \<Rightarrow> (grpc_code \<times> string) option" where
  "text_status msg =
     (case statusFromMessage msg of
        Some mapped \<Rightarrow> Some mapped
      | None \<Rightarrow> (case statusRe msg of
                  None \<Rightarrow> None
                | Some (name, desc) \<Rightarrow>
                    (case codeFromString name of None \<Rightarrow> None | Some code \<Rightarrow> Some (code, TrimSpace desc))))"

lemma statusFromError_text:
  assumes "grpc_documented g" and "status_in e = None"
  shows "statusFromError g e = text_status (err_msg g e)"
  using assms by (simp add: statusFromError_def grpc_documented_def text_status_def Let_def split: option.split)

definition status_text_of :: "grpc_code \<Rightarrow> string \<Rightarrow> string" where
  "status_text_of c m = ''rpc error: code = '' @ code_name c @ '' desc = '' @ m"

lemma hub_err_text_status:
  "grpc_documented g \<Longrightarrow> hub_status e = Some (c, m) \<Longrightarrow> hub_err_text g other e = status_text_of c m"
  by (simp add: hub_err_text_def hub_error_def grpc_documented_def status_text_of_def)

lemma join_texts:
  "text_status (status_text_of AlreadyExists ''nickname already taken'') =
     Some (AlreadyExists, status_text_of AlreadyExists ''nickname already taken'')"
  "text_status (status_text_of PermissionDeniedCode ''invalid join token'') = Some (PermissionDeniedCode, ''invalid join token'')"
  "text_status (status_text_of DeadlineExceeded ''join token expired'') = Some (DeadlineExceeded, ''join token expired'')"
  by code_simp+

subsection \<open>Joining\<close>

text \<open>The environment of the commands with the hub's model at the other end.\<close>

definition against_hub ::
  "(hub \<times> nat) cli_env \<Rightarrow> (nat \<Rightarrow> serve_env) \<Rightarrow> (hub_err \<Rightarrow> string) \<Rightarrow> (string \<Rightarrow> string option) \<Rightarrow> string \<Rightarrow> bool" where
  "against_hub env senv other cn from \<longleftrightarrow> ce_call env = hub_call senv other cn from \<and> grpc_documented (ce_grpc env) \<and>
     (\<forall>n e. err_text (senv n) e = hub_err_text (ce_grpc env) other e)"

definition up :: "hub \<Rightarrow> bool" where
  "up h \<longleftrightarrow> store_inv (hdb h) \<and> faults h = [] \<and> \<not> draining h"

lemma served_join:
  assumes "\<not> draining s"
  shows "run (serve se ctx (RJoin did nick tok)) s =
    (case run (Join (sign_cert se) (ca_pem se) (jclock se) did nick (peerIP ctx) tok) s of
       (Inl e, s') \<Rightarrow> (Inr (JoinReply False (err_text se e) None), s')
     | (Inr cs, s') \<Rightarrow> (Inr (JoinReply True [] (Some cs)), s'))"
  using assms by (simp add: serve_def DrainInterceptor_def AuthInterceptor_def Draining_def Server_Join_def split: prod.split sum.split)

lemma join_call:
  assumes "against_hub env senv other cn from" and "up h" and "cl_hub c = (h, n)"
    and "Join_result = run (Join (sign_cert (senv n)) (ca_pem (senv n)) (jclock (senv n)) did nick (peerIP (caller_ctx cn from None)) tok) h"
  shows "call_hub env addr None (RJoin did nick tok) c =
    (case Join_result of
       (Inl e, h') \<Rightarrow> (Inr (JoinReply False (hub_err_text (ce_grpc env) other e) None), c\<lparr>cl_hub := (h', Suc n)\<rparr>)
     | (Inr cs, h') \<Rightarrow> (Inr (JoinReply True [] (Some cs)), c\<lparr>cl_hub := (h', Suc n)\<rparr>))"
  using assms by (simp add: call_hub_def against_hub_def hub_call_def up_def served_join split: prod.split sum.split)

definition dead_token :: "string \<Rightarrow> hub \<Rightarrow> bool" where
  "dead_token tok h \<longleftrightarrow> tok = [] \<or> (\<forall>t \<in> set (pending_join_tokens (hdb h)). token t \<noteq> tok)"

lemma dead_join:
  assumes "up h" and "dead_token tok h"
  shows "run (Join sign ca clk did nick ip tok) h = (Inl ErrInvalidJoinToken, h)"
  using assms Join_outcome [of h sign ca clk did nick ip tok]
  by (auto simp: up_def dead_token_def live_token_def Let_def)

lemma invalid_token_text:
  assumes "grpc_documented g"
  shows "hub_err_text g other ErrInvalidJoinToken = status_text_of PermissionDeniedCode ''invalid join token''"
    and "\<not> IsNicknameTaken g (TextErr (hub_err_text g other ErrInvalidJoinToken))"
    and "\<not> IsNicknameTaken g (TextErr (hub_err_text g other ErrJoinTokenExpired))"
  using assms hub_err_text_status [OF assms, of ErrInvalidJoinToken] hub_err_text_status [OF assms, of ErrJoinTokenExpired]
  by (simp_all add: IsNicknameTaken_def statusFromError_text join_texts)

lemma nickname_taken_text:
  assumes "grpc_documented g"
  shows "IsNicknameTaken g (TextErr (hub_err_text g other ErrNicknameTaken))"
  using hub_err_text_status [OF assms, of ErrNicknameTaken] statusFromError_text [OF assms] join_texts(1)
  by (simp add: IsNicknameTaken_def) code_simp

lemma join_loop_dead:
  assumes "against_hub env senv other cn from" and "up h" and "dead_token tok h" and "cl_hub c = (h, n)"
  shows "\<exists>e c' k. join_loop env addr did tok lines c = (Inl e, c') \<and> cl_hub c' = (h, k) \<and> cl_dir c' = cl_dir c"
  using assms(4)
proof (induction lines arbitrary: c)
  case (Cons line rest)
  show ?case
  proof (cases "TrimSpace line = []")
    case True
    then show ?thesis using Cons.IH [of "say ''error: nickname cannot be empty'' c"] Cons.prems by (auto simp: say_def Let_def)
  next
    case False
    note call = join_call [OF assms(1,2) Cons.prems HOL.refl, where did = did and nick = "TrimSpace line" and tok = tok and addr = addr, unfolded dead_join [OF assms(2,3)]]
    have g: "grpc_documented (ce_grpc env)" using assms(1) by (simp add: against_hub_def)
    have "\<not> IsNicknameTaken (ce_grpc env) (TextErr (status_text_of PermissionDeniedCode ''invalid join token''))"
      using invalid_token_text(1,2) [OF g, of other] by simp
    then show ?thesis using False call by (simp add: Let_def Client_Join_def invalid_token_text(1) [OF g])
  qed
qed simp

lemma join_loop_invalid:
  assumes "against_hub env senv other cn from" and "up h" and "dead_token tok h" and "cl_hub c = (h, n)"
    and "TrimSpace line \<noteq> []"
  shows "join_loop env addr did tok (line # rest) c =
    (Inl (CtxErr (WrapErr ''join failed'' (TextErr (status_text_of PermissionDeniedCode ''invalid join token'')))
           (at_hub (TrimSpace line) addr)), c\<lparr>cl_hub := (h, Suc n)\<rparr>)"
proof -
  have g: "grpc_documented (ce_grpc env)" using assms(1) by (simp add: against_hub_def)
  show ?thesis
    using assms(5) join_call [OF assms(1,2,4) HOL.refl, where did = did and nick = "TrimSpace line" and tok = tok and addr = addr, unfolded dead_join [OF assms(2,3)]]
      invalid_token_text [OF g, of other] by (simp add: Let_def Client_Join_def)
qed

text \<open>The line printed for a join that the hub refused with an invalid token.\<close>

lemma wrapped_join_text:
  "text_status (''join failed: '' @ status_text_of PermissionDeniedCode ''invalid join token'') = Some (PermissionDeniedCode, ''invalid join token'')"
  "text_status (''join failed: '' @ status_text_of DeadlineExceeded ''join token expired'') = Some (DeadlineExceeded, ''join token expired'')"
  by code_simp+

lemma invalid_token_line:
  assumes "grpc_documented g" and "nick \<noteq> []"
  shows "Format g (Some (CtxErr (WrapErr ''join failed'' (TextErr (status_text_of PermissionDeniedCode ''invalid join token'')))
      (at_hub nick addr))) x = ''error: pairing rejected by '' @ go_quote nick"
proof -
  have "\<not> Contains ''invalid join token'' ''invalid invite code''" by code_simp
  moreover have "statusFromError g (WrapErr ''join failed'' (TextErr (status_text_of PermissionDeniedCode ''invalid join token''))) =
      Some (PermissionDeniedCode, ''invalid join token'')"
    using statusFromError_text [OF assms(1)] wrapped_join_text(1) by simp
  ultimately show ?thesis using assms(2)
    by (simp add: Format_def at_hub_def translateStatus_def)
qed

text \<open>
  C40: the prompt for another nickname cannot help: the hub uses the token up before it looks at the
  nickname, so once a nickname is refused as taken the same command fails whatever is typed next,
  no device is added, and the user is told that the new nickname rejected a pairing.
\<close>

theorem nickname_retry_cannot_succeed:
  assumes "against_hub env senv other cn from" and "up h" and "cl_hub c = (h, n)"
    and "TrimSpace line \<noteq> []" and "TrimSpace line \<in> nickname ` set (devices (hdb h))"
    and "tok \<noteq> []" and "live_token tok (now_claim (jclock (senv n))) (hdb h)"
    and "join_loop env addr did tok (line # rest) c = (r, c')"
  shows "(\<exists>e. r = Inl e) \<and> devices (hdb (fst (cl_hub c'))) = devices (hdb h) \<and>
    (rest \<noteq> [] \<and> TrimSpace (hd rest) \<noteq> [] \<longrightarrow>
      (\<exists>e. r = Inl e \<and> Format (ce_grpc env) (Some e) None = ''error: pairing rejected by '' @ go_quote (TrimSpace (hd rest))))"
proof -
  let ?h = "h\<lparr>hdb := burn_token tok (hdb h)\<rparr>"
  have g: "grpc_documented (ce_grpc env)" using assms(1) by (simp add: against_hub_def)
  have out: "run (Join (sign_cert (senv n)) (ca_pem (senv n)) (jclock (senv n)) did (TrimSpace line)
      (peerIP (caller_ctx cn from None)) tok) h = (Inl ErrNicknameTaken, ?h)"
    using Join_outcome [of h] assms(2,5-7) by (simp add: up_def Let_def)
  note taken = nickname_taken_text [OF g, of other]
  have up': "up ?h" using assms(2) by (auto simp: up_def store_inv_def burn_token_def distinct_map_filter_key)
  have dead: "dead_token tok ?h" by (simp add: dead_token_def burn_token_def)
  define c1 where "c1 = say (Format (ce_grpc env) (Some (TextErr (hub_err_text (ce_grpc env) other ErrNicknameTaken)))
      (at_hub (TrimSpace line) addr)) (c\<lparr>cl_hub := (?h, Suc n)\<rparr>)"
  have c1: "cl_hub c1 = (?h, Suc n)" by (simp add: c1_def say_def)
  have loop: "join_loop env addr did tok (line # rest) c = join_loop env addr did tok rest c1"
    using assms(4) taken join_call [OF assms(1,2,3) HOL.refl, where did = did and nick = "TrimSpace line" and tok = tok and addr = addr, unfolded out]
    by (simp add: Let_def Client_Join_def c1_def)
  have "devices (hdb ?h) = devices (hdb h)" by (simp add: burn_token_def)
  then have "(\<exists>e. r = Inl e) \<and> devices (hdb (fst (cl_hub c'))) = devices (hdb h)"
    using join_loop_dead [OF assms(1) up' dead c1, of addr did rest] assms(8) loop by auto
  moreover have "\<exists>e. r = Inl e \<and> Format (ce_grpc env) (Some e) None = ''error: pairing rejected by '' @ go_quote (TrimSpace (hd rest))"
    if ne: "rest \<noteq> [] \<and> TrimSpace (hd rest) \<noteq> []"
  proof (cases rest)
    case (Cons l2 more)
    then have l2: "TrimSpace l2 \<noteq> []" using ne by simp
    have "r = Inl (CtxErr (WrapErr ''join failed'' (TextErr (status_text_of PermissionDeniedCode ''invalid join token'')))
        (at_hub (TrimSpace l2) addr))"
      using join_loop_invalid [OF assms(1) up' dead c1 l2, of addr did more] assms(8) loop Cons by simp
    then show ?thesis using invalid_token_line [OF g l2] Cons by simp
  qed (use ne in simp)
  ultimately show ?thesis by blast
qed

definition sample_senv :: "nat \<Rightarrow> serve_env" where
  "sample_senv n = sample_env\<lparr>err_text := hub_err_text sample_grpc (\<lambda>_. ''internal error'')\<rparr>"

definition sample_cn :: "string \<Rightarrow> string option" where
  "sample_cn x = Some (drop 5 x)"

definition joining_env :: "(hub \<times> nat) cli_env" where
  "joining_env = sample_cli_env\<lparr>ce_call := hub_call sample_senv (\<lambda>_. ''internal error'') sample_cn ''10.0.0.9:4000''\<rparr>"

lemma joining: "against_hub joining_env sample_senv (\<lambda>_. ''internal error'') sample_cn ''10.0.0.9:4000''" "up sample_hub"
  by (simp_all add: against_hub_def joining_env_def sample_cli_env_def sample_grpc_documented sample_senv_def up_def)

definition fresh_cli :: "(hub \<times> nat) cli" where
  "fresh_cli = \<lparr>cl_dir = empty_dir, cl_hub = (sample_hub, 0), cl_out = []\<rparr>"

lemma nickname_retry_cannot_succeed_witness:
  "case join_loop joining_env ''hub:9090'' ''d9'' ''HUB-TOK-001'' [''d1-nick '', ''other''] fresh_cli of
     (r, c') \<Rightarrow> \<exists>e. r = Inl e \<and> Format sample_grpc (Some e) None = ''error: pairing rejected by '' @ go_quote ''other''"
proof -
  obtain r c' where r: "join_loop joining_env ''hub:9090'' ''d9'' ''HUB-TOK-001'' [''d1-nick '', ''other''] fresh_cli = (r, c')"
    by (cases "join_loop joining_env ''hub:9090'' ''d9'' ''HUB-TOK-001'' [''d1-nick '', ''other''] fresh_cli")
  have t: "TrimSpace ''d1-nick '' = ''d1-nick''" "TrimSpace ''other'' = ''other''" by code_simp+
  have "live_token ''HUB-TOK-001'' 10 (hdb sample_hub)" "''d1-nick'' \<in> nickname ` set (devices (hdb sample_hub))"
    by (simp_all add: sample_defs live_token_def)
  then show ?thesis
    using nickname_retry_cannot_succeed [OF joining, of fresh_cli 0 "''d1-nick ''" "''HUB-TOK-001''" "''hub:9090''" "''d9''" "[''other'']" r c'] r
    by (simp add: t fresh_cli_def sample_senv_def sample_env_def joining_env_def sample_cli_env_def)
qed

subsection \<open>What a joined device has\<close>

lemma burnt_facts [simp]:
  "devices (burn_token tok d) = devices d" "store_inv d \<Longrightarrow> store_inv (burn_token tok d)"
  by (auto simp: burn_token_def store_inv_def distinct_map_filter_key)

lemma join_accepted:
  assumes "up h" and "run (Join sign ca clk did nick ip tok) h = (Inr cs, h')"
  shows "nick \<notin> nickname ` set (devices (hdb h)) \<and> did \<notin> device_id ` set (devices (hdb h)) \<and>
    devices (hdb h') = devices (hdb h) @ [\<lparr>device_id = did, nickname = nick, last_ip = ip, ssh_port = 0,
      dev_status = StatusRegistered, last_heartbeat = now_row clk\<rparr>] \<and>
    (\<exists>cert key. sign did = Some (cert, key) \<and> cs = \<lparr>client_cert = cert, client_key = key, ca_cert = ca\<rparr>)"
  using assms Join_outcome [of h sign ca clk did nick ip tok]
  by (auto simp: up_def Let_def split: if_splits option.splits)

lemma up_added:
  assumes "up h" and "nickname r \<notin> nickname ` set (devices (hdb h))" and "device_id r \<notin> device_id ` set (devices (hdb h))"
  shows "up (h\<lparr>hdb := burn_token tok (hdb h)\<lparr>devices := devices (hdb h) @ [r]\<rparr>\<rparr>)"
  using assms by (auto simp: up_def store_inv_def burn_token_def distinct_map_filter_key)

text \<open>After a join the token is gone, unless it was not good when it was claimed.\<close>

lemma join_any:
  assumes "up h" and "run (Join sign ca clk did nick ip tok) h = (x, h')"
  shows "up h' \<and> (x = Inl ErrInvalidJoinToken \<or> x = Inl ErrJoinTokenExpired \<or> dead_token tok h')"
proof -
  let ?r = "\<lparr>device_id = did, nickname = nick, last_ip = ip, ssh_port = 0, dev_status = StatusRegistered, last_heartbeat = now_row clk\<rparr>"
  have "dead_token tok (h\<lparr>hdb := burn_token tok (hdb h)\<rparr>)"
    "dead_token tok (h\<lparr>hdb := burn_token tok (hdb h)\<lparr>devices := devices (hdb h) @ [?r]\<rparr>\<rparr>)"
    by (simp_all add: dead_token_def burn_token_def)
  moreover have "up (h\<lparr>hdb := burn_token tok (hdb h)\<rparr>)" using assms(1) by (simp add: up_def)
  ultimately show ?thesis
    using assms Join_outcome [of h sign ca clk did nick ip tok] up_added [of h ?r tok]
    by (auto simp: up_def Let_def split: if_splits)
qed

definition joined_row :: "string \<Rightarrow> string \<Rightarrow> hub \<Rightarrow> bool" where
  "joined_row did nick h \<longleftrightarrow> (\<exists>r. device_row (hdb h) did = Some r \<and> nickname r = nick \<and> dev_status r = StatusRegistered)"

lemma find_snoc: "find P xs = None \<Longrightarrow> P x \<Longrightarrow> find P (xs @ [x]) = Some x"
  by (induction xs) (auto split: if_splits)

lemma join_loop_success:
  assumes "against_hub env senv other cn from" and "up h" and "cl_hub c = (h, n)"
    and "join_loop env addr did tok lines c = (Inr (nick, cs), c')"
  shows "cl_dir c' = cl_dir c \<and> joined_row did nick (fst (cl_hub c')) \<and> nick \<in> TrimSpace ` set lines \<and>
    (\<exists>k cert key. sign_cert (senv k) did = Some (cert, key) \<and> cs = Some \<lparr>client_cert = cert, client_key = key, ca_cert = ca_pem (senv k)\<rparr>) \<and>
    did \<notin> device_id ` set (devices (hdb h)) \<and> nick \<notin> nickname ` set (devices (hdb h))"
  using assms(3,4)
proof (induction lines arbitrary: c)
  case (Cons line rest)
  have g: "grpc_documented (ce_grpc env)" using assms(1) by (simp add: against_hub_def)
  show ?case
  proof (cases "TrimSpace line = []")
    case True
    then show ?thesis using Cons.IH [of "say ''error: nickname cannot be empty'' c"] Cons.prems by (simp add: say_def Let_def)
  next
    case False
    obtain x h' where j: "run (Join (sign_cert (senv n)) (ca_pem (senv n)) (jclock (senv n)) did (TrimSpace line)
        (peerIP (caller_ctx cn from None)) tok) h = (x, h')" by fastforce
    note call = join_call [OF assms(1,2) Cons.prems(1) HOL.refl, where did = did and nick = "TrimSpace line" and tok = tok and addr = addr, unfolded j]
    show ?thesis
    proof (cases x)
      case (Inl e)
      have "e \<noteq> ErrInvalidJoinToken" "e \<noteq> ErrJoinTokenExpired"
        using Cons.prems(2) False call Inl invalid_token_text(2,3) [OF g, of other]
        by (auto simp: Let_def Client_Join_def)
      then have dead: "up h'" "dead_token tok h'" using join_any [OF assms(2) j] Inl by auto
      have "fst (join_loop env addr did tok rest (say l (c\<lparr>cl_hub := (h', Suc n)\<rparr>))) \<noteq> Inr (nick, cs)" for l
        using join_loop_dead [OF assms(1) dead, of "say l (c\<lparr>cl_hub := (h', Suc n)\<rparr>)" "Suc n" addr did rest]
        by (auto simp: say_def)
      then show ?thesis using Cons.prems(2) False call Inl
        by (auto simp: Let_def Client_Join_def split: if_splits dest: arg_cong [of _ _ fst])
    next
      case (Inr cs')
      note acc = join_accepted [OF assms(2) j [unfolded Inr]]
      have "device_row (hdb h') did = Some \<lparr>device_id = did, nickname = TrimSpace line, last_ip = peerIP (caller_ctx cn from None), ssh_port = 0,
          dev_status = StatusRegistered, last_heartbeat = now_row (jclock (senv n))\<rparr>"
        using acc find_snoc [of "\<lambda>r. device_id r = did" "devices (hdb h)"] device_row_None [of "hdb h" did]
        by (simp add: device_row_def)
      then show ?thesis using Cons.prems(2) False call Inr acc
        by (auto simp: Let_def Client_Join_def joined_row_def)
    qed
  qed
qed simp

lemma WriteFile_done:
  "WriteFile env f content c = (None, c') \<Longrightarrow> c' = set_file f (Some content) c"
  by (auto simp: WriteFile_def split: io_fault.splits)

lemma and_then_done: "and_then r k = (None, c') \<longleftrightarrow> (\<exists>c1. r = (None, c1) \<and> k c1 = (None, c'))"
  by (auto simp: and_then_def split: prod.splits option.splits)

lemma wrapping_done: "wrapping t r = (None, c') \<longleftrightarrow> r = (None, c')"
  by (cases r) (auto simp: wrapping_def)

lemma mkdir_done: "mkdir_for env f c = (None, c') \<longleftrightarrow> c' = c \<and> ce_io env (MkdirStep f) = NoFault"
  by (auto simp: mkdir_for_def split: if_splits)

lemma save_join_done:
  assumes "save_join env addr did nick cs c = (None, c')"
  shows "cl_hub c' = cl_hub c \<and> ad_known (cl_dir c') = ad_known (cl_dir c) \<and>
    ad_file (cl_dir c') = (ad_file (cl_dir c))(CACertFile \<mapsto> cert_or_empty ca_cert cs, ClientCertFile \<mapsto> cert_or_empty client_cert cs,
      ClientKeyFile \<mapsto> cert_or_empty client_key cs, IdentityFile \<mapsto> ce_enc_id env (did, nick),
      ConfigFile \<mapsto> SaveText (DefaultConfig\<lparr>cf_nickname := nick, cf_hub_address := addr\<rparr>))"
  using assms unfolding save_join_def SaveIdentity_def Save_def
  by (auto simp: and_then_done wrapping_done mkdir_done set_file_def say_def dest!: WriteFile_done)

lemma joined_config_ok:
  "list_all plain_char nick \<Longrightarrow> list_all plain_char addr \<Longrightarrow>
   config_ok (DefaultConfig\<lparr>cf_nickname := nick, cf_hub_address := addr\<rparr>)"
  by (simp add: config_ok_def plain_config_def DefaultConfig_def plain_char_def)

lemma normalised_joined:
  "normalised home (DefaultConfig\<lparr>cf_nickname := nick, cf_hub_address := addr\<rparr>) = DefaultConfig\<lparr>cf_nickname := nick, cf_hub_address := addr\<rparr>"
  by (simp add: normalised_def DefaultConfig_def saved_port_def)

lemma Identity_saved:
  assumes "ce_dec_id env (ce_enc_id env x) = Some x" and "ce_io env (ReadStep IdentityFile) = NoFault"
    and "ad_file d IdentityFile = Some (ce_enc_id env x)"
  shows "LoadIdentity env d = Inr x"
  using assms by (simp add: LoadIdentity_def)

subsection \<open>Leaving\<close>

lemma faults_sections [simp]:
  "faults (broadcastLocked ev excl s) = faults s" "faults (remove_subscriber did s) = faults s"
proof -
  have "faults (send_each ev cs s) = faults s" for cs by (induction cs arbitrary: s) auto
  then show "faults (broadcastLocked ev excl s) = faults s" by (simp add: broadcastLocked_sends)
  show "faults (remove_subscriber did s) = faults s" by (simp add: remove_subscriber_def split: option.split)
qed

lemma run_Leave:
  assumes "up h" and "run (Leave did) h = (x, h')"
  shows "up h' \<and> device_row (hdb h') did = None \<and> (case x of Inr _ \<Rightarrow> True | Inl e \<Rightarrow> h' = h)"
proof (cases "device_row (hdb h) did")
  case None
  then show ?thesis using assms Leave_effect [of h did] by (auto simp: up_def)
next
  case (Some r)
  have f: "faults h = []" using assms(1) by (simp add: up_def)
  let ?d = "(hdb h)\<lparr>devices := filter (\<lambda>r. device_id r \<noteq> did) (devices (hdb h)),
              shares := filter (\<lambda>x. share_device x \<noteq> did) (shares (hdb h)),
              pairings := filter (\<lambda>p. device_a p \<noteq> did \<and> device_b p \<noteq> did) (pairings (hdb h)),
              pending_invites := filter (\<lambda>v. from_device v \<noteq> did \<and> to_device v \<noteq> did) (pending_invites (hdb h))\<rparr>"
  have r: "x = Inr ()" "h' = remove_subscriber did (broadcastLocked (DeviceRemoved did (nickname r)) did (h\<lparr>hdb := ?d\<rparr>))"
    using assms(2) Leave_effect [OF f, of did] Some by auto
  then have h': "hdb h' = ?d" "faults h' = faults h" "draining h' = draining h" by simp_all
  have "store_inv ?d" using assms(1) by (auto simp: up_def store_inv_def distinct_map_filter_key)
  then show ?thesis using assms(1) r(1) h' by (auto simp: up_def device_row_None)
qed

lemma served_leave:
  assumes "up h" and "run (serve se ctx RLeave) h = (x, h')"
  shows "up h' \<and> (case ExtractDeviceID ctx of
      Inl e \<Rightarrow> (\<exists>y. x = Inl y) \<and> h' = h
    | Inr did \<Rightarrow> device_row (hdb h') did = None \<and>
        (x = Inr (LeaveReply True []) \<or> (h' = h \<and> (\<exists>t. x = Inr (LeaveReply False t)))))"
proof (cases "ExtractDeviceID ctx")
  case (Inl e)
  then show ?thesis using assms by (auto simp: up_def serve_def DrainInterceptor_def AuthInterceptor_def Draining_def)
next
  case (Inr did)
  obtain y h1 where l: "run (Leave did) h = (y, h1)" by fastforce
  have "run (serve se ctx RLeave) h = run (Server_Leave se ctx) h"
    using assms(1) Inr by (simp add: up_def serve_def DrainInterceptor_def AuthInterceptor_def Draining_def)
  then show ?thesis using run_Leave [OF assms(1) l] l assms(2) Inr
    by (cases y) (auto simp: Server_Leave_def)
qed

lemma leave_call:
  assumes "against_hub env senv other cn from" and "up h" and "cl_hub c = (h, n)"
    and "call_hub env addr cert RLeave c = (r, c')"
  shows "\<exists>h'. c' = c\<lparr>cl_hub := (h', Suc n)\<rparr> \<and> up h' \<and>
    (case cert of Some x \<Rightarrow> (case cn x of Some did \<Rightarrow>
        device_row (hdb h') did = None \<and> (r = Inr (LeaveReply True []) \<or> (h' = h \<and> (\<exists>t. r = Inr (LeaveReply False t))))
      | None \<Rightarrow> (\<exists>e. r = Inl e)) | None \<Rightarrow> (\<exists>e. r = Inl e))"
proof -
  obtain x h' where s: "run (serve (senv n) (caller_ctx cn from cert) RLeave) h = (x, h')" by fastforce
  have "c' = c\<lparr>cl_hub := (h', Suc n)\<rparr> \<and> r = (case x of Inl e \<Rightarrow> Inl (rpc_failure other e) | Inr rep \<Rightarrow> Inr rep)"
    using assms(1,3,4) s by (auto simp: call_hub_def against_hub_def hub_call_def split: sum.splits)
  then show ?thesis using served_leave [OF assms(2) s]
    by (auto simp: ExtractDeviceID_def caller_ctx_def split: option.splits)
qed

lemma best_effort_leave_up:
  assumes "against_hub env senv other cn from" and "up (fst (cl_hub c))" and "bestEffortLeave env c = (e, c')"
  shows "up (fst (cl_hub c')) \<and> cl_dir c' = cl_dir c"
proof -
  obtain h n where h: "cl_hub c = (h, n)" by (cases "cl_hub c")
  have "up h" using assms(2) h by simp
  note call = leave_call [OF assms(1) this h]
  show ?thesis using assms(2,3) h
    by (auto simp: bestEffortLeave_def Let_def split: sum.splits option.splits if_splits prod.splits dest!: call)
qed

definition keeps_json :: "'h cli_env \<Rightarrow> bool" where
  "keeps_json env \<longleftrightarrow> (\<forall>x. ce_dec_id env (ce_enc_id env x) = Some x)"


definition without_membership :: "agent_dir \<Rightarrow> cli_file \<Rightarrow> string option" where
  "without_membership d f = (if f \<in> {CACertFile, ClientCertFile, ClientKeyFile, IdentityFile} then None else ad_file d f)"

text \<open>
  \<open>leave\<close> wipes the local state only of a device the hub no longer has: without --force-local,
  when it touches the data directory at all, the row of the device its certificate names is gone
  from the hub; and when it reports success nothing of the membership is left but the
  configuration.
\<close>

theorem leave_wipes_when_gone:
  assumes "against_hub env senv other cn from" and "up (fst (cl_hub c))"
    and "ad_file (cl_dir c) ClientCertFile = Some cert" and "cn cert = Some did"
    and "cmd_leave env False c = (e, c')" and "cl_dir c' \<noteq> cl_dir c"
  shows "device_row (hdb (fst (cl_hub c'))) did = None \<and>
    (e = None \<longrightarrow> ad_known (cl_dir c') = None \<and> ad_file (cl_dir c') = without_membership (cl_dir c))"
proof -
  obtain h n where h: "cl_hub c = (h, n)" by (cases "cl_hub c")
  have up: "up h" using assms(2) h by simp
  have wiped: "cl_hub c2 = cl_hub c1 \<and> (x = None \<longrightarrow> ad_known (cl_dir c2) = None \<and> ad_file (cl_dir c2) = without_membership (cl_dir c1))"
    if "wipe_local env addr i c1 = (x, c2)" for addr i c1 x c2
    using that by (auto simp: wipe_local_def and_then_def wrapping_def remove_all_def remove_known_def Let_def say_def fun_eq_iff without_membership_def split: if_splits)
  obtain i nick ident addr r c1 where d: "LoadIdentity env (cl_dir c) = Inr (i, nick)" "dialHub env (cl_dir c) = Inr (ident, addr)"
    "call_hub env addr (Some cert) RLeave c = (r, c1)"
  proof -
    show ?thesis using that assms(3,5,6)
      by (cases "LoadIdentity env (cl_dir c)"; cases "dialHub env (cl_dir c)"; cases "call_hub env (snd (projr (dialHub env (cl_dir c)))) (Some cert) RLeave c")
        (auto simp: cmd_leave_def)
  qed
  obtain h' where h': "c1 = c\<lparr>cl_hub := (h', Suc n)\<rparr>" "device_row (hdb h') did = None"
    using leave_call [OF assms(1) up h d(3)] assms(4) by auto
  obtain u where "Client_Leave r = Inr u"
    using assms(3,5,6) d h' by (cases "Client_Leave r") (auto simp: cmd_leave_def)
  then have "wipe_local env addr i c1 = (e, c')" using assms(3,5) d by (simp add: cmd_leave_def)
  from wiped [OF this] have w: "cl_hub c' = cl_hub c1" "e = None \<longrightarrow> ad_known (cl_dir c') = None \<and> ad_file (cl_dir c') = without_membership (cl_dir c1)" by simp_all
  have "cl_dir c1 = cl_dir c" "cl_hub c1 = (h', Suc n)" by (simp_all add: h'(1))
  then show ?thesis using w h'(2) by simp
qed

text \<open>
  \<open>join --force\<close> leaves the old hub before it looks at the token: with a token that has no
  fingerprint the command fails, the device is gone from the hub it had joined, and its identity,
  certificates and configuration are still there as before.
\<close>

theorem forced_join_leaves_first:
  assumes "against_hub env senv other cn from" and "up (fst (cl_hub c))"
    and "LoadIdentity env (cl_dir c) = Inr ident" and "loadConfig env (cl_dir c) = Inr cfg" and "cf_hub_address cfg \<noteq> []"
    and "ad_file (cl_dir c) CACertFile = Some ca" and "ad_file (cl_dir c) ClientCertFile = Some cert"
    and "ad_file (cl_dir c) ClientKeyFile = Some key"
    and "ce_dial env (cf_hub_address cfg) (Some ca) (Some cert) (Some key) = None" and "cn cert = Some did"
    and "CHR ''.'' \<notin> set joinToken" and "cmd_join env addr joinToken True lines c = (e, c')"
    and "\<And>f. ce_io env (StatStep f) = NoFault"
  shows "e \<noteq> None \<and> cl_dir c' = cl_dir c \<and> device_row (hdb (fst (cl_hub c'))) did = None"
proof -
  obtain h n where h: "cl_hub c = (h, n)" by (cases "cl_hub c")
  have up: "up h" using assms(2) h by simp
  have tok: "ParseJoinToken joinToken = Inl ErrJoinTokenMissingFingerprint"
  proof -
    have "cut_char (CHR ''.'') joinToken = None"
      using assms(11) cut_char_iff [of "CHR ''.''" joinToken] by (cases "cut_char (CHR ''.'') joinToken") fastforce+
    then show ?thesis by (simp add: ParseJoinToken_def)
  qed
  obtain r c1 where call: "call_hub env (cf_hub_address cfg) (Some cert) RLeave c = (r, c1)" by fastforce
  obtain h' where h': "c1 = c\<lparr>cl_hub := (h', Suc n)\<rparr>" "device_row (hdb h') did = None"
    using leave_call [OF assms(1) up h call] assms(10) by auto
  have "bestEffortLeave env c = (case Client_Leave r of
      Inl e \<Rightarrow> (Some (WrapErr (''leave old hub '' @ go_quote (cf_hub_address cfg)) e), c1) | Inr _ \<Rightarrow> (None, c1))"
    using assms(4-9,13) call by (simp add: bestEffortLeave_def Let_def)
  then show ?thesis using assms(3,12) tok h'
    by (auto simp: cmd_join_def join_body_def say_def split: prod.splits sum.splits)
qed

subsection \<open>Witnesses\<close>

lemma joining_sound: "sound_io joining_env" "keeps_json joining_env" "ce_io joining_env st = NoFault" "ce_grpc joining_env = sample_grpc"
  "ce_new_id joining_env = ''d9''" "ce_dial joining_env = (\<lambda>_ _ _ _. None)" "ce_dial_pinned joining_env = (\<lambda>_ _. None)"
  "ce_dec_id joining_env (ce_enc_id joining_env x) = Some x"
  using sample_sound(1) [where 'a = "hub \<times> nat"]
  by (simp_all add: sound_io_def reads_saved_def joining_env_def sample_cli_env_def keeps_json_def)


definition member_cli :: "(hub \<times> nat) cli" where
  "member_cli = \<lparr>cl_dir = \<lparr>ad_file = [CACertFile \<mapsto> ''ca'', ClientCertFile \<mapsto> ''cert-d1'', ClientKeyFile \<mapsto> ''key'',
       IdentityFile \<mapsto> sample_enc (''d1'', ''d1-nick''),
       ConfigFile \<mapsto> SaveText (DefaultConfig\<lparr>cf_nickname := ''d1-nick'', cf_hub_address := ''hub:9090''\<rparr>)], ad_known = None\<rparr>,
     cl_hub = (sample_hub, 0), cl_out = []\<rparr>"

lemma member_dir:
  "LoadIdentity joining_env (cl_dir member_cli) = Inr (''d1'', ''d1-nick'')"
  "loadConfig joining_env (cl_dir member_cli) = Inr (DefaultConfig\<lparr>cf_nickname := ''d1-nick'', cf_hub_address := ''hub:9090''\<rparr>)"
  "ad_file (cl_dir member_cli) CACertFile = Some ''ca''" "ad_file (cl_dir member_cli) ClientCertFile = Some ''cert-d1''"
  "ad_file (cl_dir member_cli) ClientKeyFile = Some ''key''" "cl_hub member_cli = (sample_hub, 0)"
proof -
  show "LoadIdentity joining_env (cl_dir member_cli) = Inr (''d1'', ''d1-nick'')"
    by (rule Identity_saved) (simp_all add: joining_sound member_cli_def joining_env_def sample_cli_env_def)
  show "loadConfig joining_env (cl_dir member_cli) = Inr (DefaultConfig\<lparr>cf_nickname := ''d1-nick'', cf_hub_address := ''hub:9090''\<rparr>)"
    using loadConfig_saved [OF joined_config_ok joining_sound(1), of "''d1-nick''" "''hub:9090''" "cl_dir member_cli"]
    by (simp add: normalised_joined member_cli_def plain_char_def)
qed (simp_all add: member_cli_def)

lemma leave_wipes_when_gone_witness:
  "case cmd_leave joining_env False member_cli of
     (e, c') \<Rightarrow> e = None \<and> device_row (hdb (fst (cl_hub c'))) ''d1'' = None \<and> ad_file (cl_dir c') IdentityFile = None"
proof -
  obtain e c' where l: "cmd_leave joining_env False member_cli = (e, c')" by (cases "cmd_leave joining_env False member_cli")
  obtain r c1 where call: "call_hub joining_env ''hub:9090'' (Some ''cert-d1'') RLeave member_cli = (r, c1)" by fastforce
  have "device_row (hdb sample_hub) ''d1'' \<noteq> None" by (simp add: sample_defs device_row_def)
  then have r: "r = Inr (LeaveReply True [])" and dir: "cl_dir c1 = cl_dir member_cli"
    using leave_call [OF joining member_dir(6) call] by (auto simp: sample_cn_def)
  have e: "e = None" "ad_file (cl_dir c') IdentityFile = None"
    using l call r dir by (auto simp: cmd_leave_def member_dir dialHub_def Let_def joining_sound Client_Leave_def wipe_local_def
        and_then_def wrapping_def remove_all_def remove_known_def say_def)
  then have "cl_dir c' \<noteq> cl_dir member_cli" by (auto simp: member_cli_def)
  then show ?thesis
    using leave_wipes_when_gone [OF joining(1) _ member_dir(4) _ l, of "''d1''"] joining(2) l e by (simp add: member_dir sample_cn_def)
qed

lemma forced_join_leaves_first_witness:
  "case cmd_join joining_env ''hub2:9090'' ''HUB-TOK-002'' True [] member_cli of
     (e, c') \<Rightarrow> e \<noteq> None \<and> cl_dir c' = cl_dir member_cli \<and> device_row (hdb (fst (cl_hub c'))) ''d1'' = None"
proof -
  obtain e c' where l: "cmd_join joining_env ''hub2:9090'' ''HUB-TOK-002'' True [] member_cli = (e, c')"
    by (cases "cmd_join joining_env ''hub2:9090'' ''HUB-TOK-002'' True [] member_cli")
  then show ?thesis
    using forced_join_leaves_first [OF joining(1) _ member_dir(1,2) _ member_dir(3-5) _ _ _ l, of "''d1''"] joining(2)
    by (simp add: member_dir joining_sound sample_cn_def)
qed

end
