(* ===== verification/CliErrorsProps.thy ===== *)
theory CliErrorsProps
  imports CliAgentProps
begin

text \<open>
  What the user reads: a broken connection is never blamed on a device, a taken nickname is told
  from every other refusal, and three refusals of the hub come out as something else.
\<close>

subsection \<open>Chains of errors\<close>

lemma Contains_trans: "Contains a b \<Longrightarrow> Contains b c \<Longrightarrow> Contains a c"
  unfolding Contains_iff by (metis append.assoc)

lemma Contains_lower: "Contains s t \<Longrightarrow> Contains (ToLower s) (ToLower t)"
  unfolding Contains_iff ToLower_def by (metis map_append)

lemma err_msg_contains_status:
  "grpc_documented g \<Longrightarrow> status_in e = Some (c, m) \<Longrightarrow> Contains (err_msg g e) m"
proof (induction e)
  case (GrpcStatus c' m')
  then have "err_msg g (GrpcStatus c' m') = (''rpc error: code = '' @ code_name c @ '' desc = '') @ m"
    by (simp add: grpc_documented_def)
  then show ?case by (metis Contains_end)
next
  case (WrapErr p e)
  then show ?case using Contains_appendI [of "err_msg g e" m "p @ '': ''"] by simp
next
  case (WrapAfter e t)
  then show ?case using Contains_trans [of "err_msg g e @ '': '' @ t" "err_msg g e" m] Contains_self [of "[]" "err_msg g e" "'': '' @ t"] by simp
qed simp_all

lemma status_no_sentinel: "status_in e = Some x \<Longrightarrow> \<not> is_sentinel s e"
  by (induction e) simp_all

lemma find_ctx_status: "find_ctx e = Some (inner, x) \<Longrightarrow> status_in inner = status_in e"
  by (induction e) auto

lemma statusFromError_chain:
  assumes "grpc_documented g" and "status_in e = Some (c, m)"
  shows "\<exists>msg. statusFromError g e = Some (c, msg) \<and> Contains msg m"
  using assms err_msg_contains_status [OF assms] Contains_self [of "[]" m "[]"]
  by (auto simp: statusFromError_def grpc_documented_def)

lemma transport_contains: "Contains msg m \<Longrightarrow> isTransportFailure m \<Longrightarrow> isTransportFailure msg"
  using Contains_trans [OF Contains_lower [of msg m]] by (auto simp: isTransportFailure_def list_ex_iff)

text \<open>
  A failure of the connection is reported as one: whatever a command wraps around an error
  whose status is Unavailable with a text of the transport, and whatever names the text contains,
  the line says that the hub cannot be reached, and never that a device is offline.
\<close>

theorem transport_failures_blame_the_hub:
  assumes "grpc_documented g" and "status_in e = Some (Unavailable, m)" and "isTransportFailure m"
  shows "\<exists>rest. Format g (Some e) x = ''error: cannot reach '' @ rest"
proof -
  define i where "i = (case find_ctx e of None \<Rightarrow> e | Some (inner, y) \<Rightarrow> inner)"
  define ctx where "ctx = (case find_ctx e of None \<Rightarrow> (case x of None \<Rightarrow> no_context | Some x \<Rightarrow> x)
      | Some (inner, y) \<Rightarrow> (case y of None \<Rightarrow> (case x of None \<Rightarrow> no_context | Some x \<Rightarrow> x) | Some y \<Rightarrow> y))"
  have st: "status_in i = Some (Unavailable, m)"
    using assms(2) find_ctx_status by (auto simp: i_def split: option.split)
  obtain msg where msg: "statusFromError g i = Some (Unavailable, msg)" "Contains msg m"
    using statusFromError_chain [OF assms(1) st] by blast
  have tf: "isTransportFailure msg" by (rule transport_contains [OF msg(2) assms(3)])
  have "Format g (Some e) x = ''error: '' @ unavailable_message msg ctx"
  proof (cases "find_ctx e")
    case None
    then show ?thesis using status_no_sentinel [OF st] msg(1) by (simp add: Format_def translateStatus_def i_def ctx_def)
  next
    case (Some p)
    obtain inner y where p: "p = (inner, y)" by (cases p)
    show ?thesis using status_no_sentinel [OF st] msg(1) Some p by (simp add: Format_def translateStatus_def i_def ctx_def)
  qed
  then show ?thesis using tf by (simp add: unavailable_message_def)
qed

lemma transport_failures_blame_the_hub_witness:
  "\<exists>rest. Format sample_grpc (Some (CtxErr (WrapErr ''request pairing'' (GrpcStatus Unavailable
      ''connection error: desc = device mac offline'')) (at_hub ''mac'' ''hub:9090''))) None = ''error: cannot reach '' @ rest"
  by (rule transport_failures_blame_the_hub [OF sample_grpc_documented]) (simp, code_simp)

subsection \<open>Refusals\<close>

lemma rename_texts:
  "text_status (''rename: hub rejected the request: rename refused: '' @ status_text_of AlreadyExists ''nickname already taken'') =
     Some (AlreadyExists, ''rename: hub rejected the request: rename refused: '' @ status_text_of AlreadyExists ''nickname already taken'')"
  by code_simp

text \<open>
  The join prompt asks again exactly when the hub refused the nickname as taken, and not when
  it refused the token, and a rename refused for that reason names the nickname that was asked
  for.
\<close>

theorem taken_nickname_is_recognised:
  assumes "grpc_documented g" and "e \<in> {ErrNicknameTaken, ErrInvalidJoinToken, ErrJoinTokenExpired}" and "new \<noteq> []"
  shows "IsNicknameTaken g (TextErr (hub_err_text g other e)) = (e = ErrNicknameTaken) \<and>
    (case Client_Rename (Inr (RenameReply False (hub_err_text g other ErrNicknameTaken))) of
       Inl x \<Rightarrow> Format g (Some (CtxErr (WrapErr ''rename'' x) (at_hub new addr))) None = ''error: '' @ in_use new
     | Inr _ \<Rightarrow> False)"
proof -
  have "IsNicknameTaken g (TextErr (hub_err_text g other e)) = (e = ErrNicknameTaken)"
    using assms(2) invalid_token_text(2,3) [OF assms(1)] nickname_taken_text [OF assms(1)] by auto
  moreover have "rejectionReason (status_text_of c m) = status_text_of c m" for c m
    by (simp add: rejectionReason_def status_text_of_def)
  ultimately show ?thesis
    using assms(3) hub_err_text_status [OF assms(1), of ErrNicknameTaken] rename_texts
      statusFromError_text [OF assms(1), of "WrapErr ''rename'' (WrapAfter (Sentinel ErrHubRejected) (''rename refused: '' @ status_text_of AlreadyExists ''nickname already taken''))"]
    by (simp add: Client_Rename_def Format_def at_hub_def translateStatus_def)
qed

lemma taken_nickname_is_recognised_witness:
  "\<not> IsNicknameTaken sample_grpc (TextErr (hub_err_text sample_grpc (\<lambda>_. []) ErrJoinTokenExpired))"
  using taken_nickname_is_recognised [OF sample_grpc_documented, of ErrJoinTokenExpired "''n''" "\<lambda>_. []" "[]"]
  by simp

text \<open>
  Three refusals come out as something else: a join with an invalid token as a pairing that
  the user's own nickname rejected, a join with an expired token as a hub that did not answer, and
  a pairing with a device that is paired already as a nickname in use.
\<close>

theorem misleading_refusals:
  assumes "grpc_documented g" and "nick \<noteq> []" and "addr \<noteq> []"
  shows "Format g (Some (CtxErr (WrapErr ''join failed'' (TextErr (hub_err_text g other ErrInvalidJoinToken))) (at_hub nick addr))) None =
      ''error: pairing rejected by '' @ go_quote nick \<and>
    Format g (Some (CtxErr (WrapErr ''join failed'' (TextErr (hub_err_text g other ErrJoinTokenExpired))) (at_hub nick addr))) None =
      ''error: hub at '' @ addr @ '' did not respond in time'' \<and>
    (case Client_RequestPairing (Inl (rpc_failure other ErrPairingAlreadyExists)) of
       Inl x \<Rightarrow> Format g (Some (CtxErr (WrapErr ''request pairing'' x) (at_hub nick addr))) None = ''error: '' @ in_use nick
     | Inr _ \<Rightarrow> False)"
proof -
  have "\<not> Contains ''join token expired'' ''invite code expired''" by code_simp
  moreover have "statusFromError g (WrapErr ''join failed'' (TextErr (status_text_of DeadlineExceeded ''join token expired''))) =
      Some (DeadlineExceeded, ''join token expired'')"
    using statusFromError_text [OF assms(1)] wrapped_join_text(2) by simp
  ultimately have "Format g (Some (CtxErr (WrapErr ''join failed'' (TextErr (hub_err_text g other ErrJoinTokenExpired))) (at_hub nick addr))) None =
      ''error: hub at '' @ addr @ '' did not respond in time''"
    using assms(3) hub_err_text_status [OF assms(1), of ErrJoinTokenExpired]
    by (simp add: Format_def at_hub_def translateStatus_def)
  moreover have "Format g (Some (CtxErr (WrapErr ''request pairing'' (WrapErr ''RequestPairing RPC'' (rpc_failure other ErrPairingAlreadyExists)))
      (at_hub nick addr))) None = ''error: '' @ in_use nick"
    using assms by (simp add: rpc_failure_def Format_def at_hub_def translateStatus_def statusFromError_def grpc_documented_def)
  ultimately show ?thesis
    using invalid_token_text(1) [OF assms(1), of other] invalid_token_line [OF assms(1,2), of addr None] by (simp add: Client_RequestPairing_def)
qed

lemma misleading_refusals_witness:
  "Format sample_grpc (Some (CtxErr (WrapErr ''join failed'' (TextErr (hub_err_text sample_grpc (\<lambda>_. []) ErrJoinTokenExpired)))
      (at_hub ''mac'' ''hub:9090''))) None = ''error: hub at hub:9090 did not respond in time''"
  using misleading_refusals [OF sample_grpc_documented, of "''mac''" "''hub:9090''" "\<lambda>_. []"] by simp

end
