(* ===== verification/Fleet.thy ===== *)
theory Fleet
  imports RegistryProps DaemonProps
begin

text \<open>
  The hub and the daemons of its devices together: what a daemon's view of the online devices is
  while the hub changes. Each operation of the hub is executed alone; between them the daemon
  takes events from its stream.
\<close>

subsection \<open>Changes at the hub\<close>

datatype change =
    Registers time string string int "pb_share list" int
  | Beats time string string
  | Updates string "pb_share list"
  | Deregisters string
  | Leaves string
  | GoesStale device time

fun changer :: "change \<Rightarrow> string" where
  "changer (Registers now did ip port shs v) = did"
| "changer (Beats now did ip) = did"
| "changer (Updates did shs) = did"
| "changer (Deregisters did) = did"
| "changer (Leaves did) = did"
| "changer (GoesStale d th) = device_id d"

fun apply_change :: "change \<Rightarrow> hub \<Rightarrow> hub" where
  "apply_change (Registers now did ip port shs v) h = snd (run (Register now did ip port shs v) h)"
| "apply_change (Beats now did ip) h = snd (run (Heartbeat now did ip) h)"
| "apply_change (Updates did shs) h = snd (run (UpdateShares did shs) h)"
| "apply_change (Deregisters did) h = snd (run (Deregister did) h)"
| "apply_change (Leaves did) h = snd (run (Leave did) h)"
| "apply_change (GoesStale d th) h = snd (run (MarkOffline d th) h)"

definition serving :: "hub \<Rightarrow> bool" where
  "serving h \<longleftrightarrow> store_inv (hdb h) \<and> channels_ok h \<and> healthy h \<and> \<not> draining h"

lemma serving_change: "serving h \<Longrightarrow> store_inv (hdb (apply_change ch h)) \<and> channels_ok (apply_change ch h) \<and> healthy (apply_change ch h)"
proof -
  assume s: "serving h"
  have t: "tables_ok h" using s by (simp add: serving_def tables_ok_def)
  have c: "channels_ok h" "healthy h" using s by (simp_all add: serving_def)
  note runs = safe_run [of tables_ok, OF _ t] safe_run [of channels_ok, OF _ c(1)] safe_run [of healthy, OF _ c(2)]
  have "tables_ok (apply_change ch h) \<and> channels_ok (apply_change ch h) \<and> healthy (apply_change ch h)"
    by (cases ch) (simp_all, (intro conjI runs tables.safe_Register channels.safe_Register health.safe_Register
        tables.safe_Heartbeat channels.safe_Heartbeat health.safe_Heartbeat tables.safe_UpdateShares channels.safe_UpdateShares
        health.safe_UpdateShares tables.safe_Deregister channels.safe_Deregister health.safe_Deregister tables.safe_Leave
        channels.safe_Leave health.safe_Leave tables.safe_MarkOffline channels.safe_MarkOffline health.safe_MarkOffline UNIV_I)+)
  then show ?thesis by (simp add: tables_ok_def)
qed

subsection \<open>The effect on one subscriber\<close>

text \<open>
  What another subscriber sees of a change: nothing or one event, in its channel; the events say
  of the device that changed whether it is online, and nothing of the others.
\<close>

definition tells :: "event list \<Rightarrow> string \<Rightarrow> bool \<Rightarrow> bool \<Rightarrow> bool" where
  "tells evs did before after \<longleftrightarrow> length evs \<le> 1 \<and>
     (\<forall>v. (v did \<noteq> None) = before \<longrightarrow> (fold view_step evs v did \<noteq> None) = after) \<and>
     (\<forall>v k. k \<noteq> did \<longrightarrow> fold view_step evs v k = v k)"

definition reaches :: "string \<Rightarrow> nat \<Rightarrow> hub \<Rightarrow> hub \<Rightarrow> event list \<Rightarrow> bool" where
  "reaches A c h h' evs \<longleftrightarrow> map_of (subscribers h') A = Some c \<and>
     buf (chans h' c) = fold deliver evs (buf (chans h c)) \<and> draining h' = draining h"

lemma tells_nothing: "tells [] did b b"
  by (simp add: tells_def)

lemma tells_event:
  "tells [DeviceOnline did n ip port shs] did b True" "tells [DeviceOffline did n] did b False"
  "tells [DeviceRemoved did n] did b False" "tells [SharesUpdated did shs] did b b"
  by (auto simp: tells_def split: option.split)

lemma reaches_nothing:
  "map_of (subscribers h) A = Some c \<Longrightarrow> reaches A c h (h\<lparr>hdb := d\<rparr>) []"
  by (simp add: reaches_def)

lemma reaches_broadcast:
  assumes "channels_ok h" and "map_of (subscribers h) A = Some c" and "A \<noteq> did"
  shows "reaches A c h (broadcastLocked ev did (h\<lparr>hdb := d\<rparr>)) [ev]"
proof -
  have "channels_ok (h\<lparr>hdb := d\<rparr>)" using assms(1) by (simp add: channels_ok_def)
  from broadcast_delivery [OF this, of ev did] assms(2,3) show ?thesis by (simp add: reaches_def)
qed

lemma remove_subscriber_other:
  "A \<noteq> did \<Longrightarrow> map_of (subscribers (remove_subscriber did s)) A = map_of (subscribers s) A"
  "buf (chans (remove_subscriber did s) c) = buf (chans s c)"
  by (simp_all add: remove_subscriber_def close_chan_def AList.delete_conv' split: option.split)

lemma reaches_remove:
  "A \<noteq> did \<Longrightarrow> reaches A c h h' evs \<Longrightarrow> reaches A c h (remove_subscriber did h') evs"
  by (simp add: reaches_def remove_subscriber_other)

lemma reaches_after_remove:
  "reaches A c (remove_subscriber did h) h' evs \<Longrightarrow> reaches A c h h' evs"
  by (simp add: reaches_def remove_subscriber_other)

text \<open>\<open>Deregister\<close> and \<open>UpdateShares\<close> by themselves.\<close>

lemma run_Deregister:
  assumes "healthy s" and "store_inv (hdb s)"
  shows "snd (run (Deregister did) s) =
    (case device_row (hdb s) did of
       None \<Rightarrow> s
     | Some r \<Rightarrow> broadcastLocked (DeviceOffline did (nickname r)) did
         ((remove_subscriber did s)\<lparr>hdb := (hdb s)\<lparr>devices := update_where (\<lambda>r. device_id r = did)
            (\<lambda>x. x\<lparr>dev_status := StatusOffline, last_ip := last_ip r, ssh_port := ssh_port r\<rparr>) (devices (hdb s))\<rparr>\<rparr>))"
proof (cases "device_row (hdb s) did")
  case None
  then show ?thesis using assms by (simp add: Deregister_def GetDevice_row)
next
  case (Some r)
  then show ?thesis using assms device_row_Some [OF Some] UpdateDeviceStatus_ok [OF assms(2) Some]
    by (simp add: Deregister_def GetDevice_row removeSubscriber_def Broadcast_def)
qed

lemma change_reaches:
  assumes "serving h" and "map_of (subscribers h) A = Some c" and "changer ch \<noteq> A"
  shows "\<exists>evs. reaches A c h (apply_change ch h) evs \<and>
    tells evs (changer ch) (is_online (hdb h) (changer ch)) (is_online (hdb (apply_change ch h)) (changer ch)) \<and>
    (\<forall>k. k \<noteq> changer ch \<longrightarrow> is_online (hdb (apply_change ch h)) k = is_online (hdb h) k)"
proof -
  have s: "store_inv (hdb h)" "channels_ok h" "healthy h" "\<not> draining h" using assms(1) by (simp_all add: serving_def)
  have f: "faults h = []" using s(3) by (simp add: healthy_def)
  have quiet: ?thesis if "apply_change ch h = h\<lparr>hdb := d\<rparr>" "\<And>k. is_online d k = is_online (hdb h) k" for d
    using reaches_nothing [OF assms(2), of d] tells_nothing that by (intro exI [of _ "[]"]) simp
  have loud: ?thesis if "apply_change ch h = broadcastLocked ev (changer ch) (h\<lparr>hdb := d\<rparr>)"
      "tells [ev] (changer ch) (is_online (hdb h) (changer ch)) (is_online d (changer ch))"
      "\<And>k. k \<noteq> changer ch \<Longrightarrow> is_online d k = is_online (hdb h) k" for ev d
    using reaches_broadcast [OF s(2) assms(2) assms(3) [symmetric], of ev d] that by (intro exI [of _ "[ev]"]) simp
  show ?thesis
  proof (cases ch)
    case (Registers now did ip port shs v)
    show ?thesis
    proof (cases "v \<noteq> ProtocolVersion \<or> device_row (hdb h) did = None")
      case True
      then have "apply_change ch h = h\<lparr>hdb := hdb h\<rparr>" using Registers run_Register [OF s(3,1)] s(4) by auto
      then show ?thesis by (rule quiet) simp
    next
      case False
      then obtain r where r: "device_row (hdb h) did = Some r" "v = ProtocolVersion" by auto
      have row: "device_row (registered_db now did ip port shs (hdb h)) k = map_option (\<lambda>x. if device_id x = did then
          x\<lparr>last_heartbeat := now, dev_status := StatusOnline, last_ip := ip, ssh_port := port\<rparr> else x) (device_row (hdb h) k)" for k
        by (simp add: registered_db_def device_row_def is_online_update)
      have id: "device_id r = did" using device_row_Some [OF r(1)] by simp
      show ?thesis
      proof (rule loud [of "online_event r ip port shs" "registered_db now did ip port shs (hdb h)"])
        show "apply_change ch h = broadcastLocked (online_event r ip port shs) (changer ch) (h\<lparr>hdb := registered_db now did ip port shs (hdb h)\<rparr>)"
          using Registers r run_Register [OF s(3,1)] s(4) by simp
        show "tells [online_event r ip port shs] (changer ch) (is_online (hdb h) (changer ch))
            (is_online (registered_db now did ip port shs (hdb h)) (changer ch))"
          using Registers r row [of did] id by (simp add: online_event_def tells_event is_online_def)
        show "is_online (registered_db now did ip port shs (hdb h)) k = is_online (hdb h) k" if "k \<noteq> changer ch" for k
          using that Registers row [of k] device_row_Some [of "hdb h" k] by (cases "device_row (hdb h) k") (auto simp: is_online_def)
      qed
    qed
  next
    case (Beats now did ip)
    show ?thesis
    proof (cases "device_row (hdb h) did")
      case None
      then have "apply_change ch h = h\<lparr>hdb := snd (UpdateHeartbeat now did (hdb h))\<rparr>" using Beats run_Heartbeat [OF s(3,1)] by simp
      moreover have "is_online (snd (UpdateHeartbeat now did (hdb h))) k = is_online (hdb h) k" for k
        by (cases "device_row (hdb h) k") (simp_all add: is_online_def UpdateHeartbeat_def Let_def device_row_update)
      ultimately show ?thesis by (rule quiet)
    next
      case (Some r)
      obtain x where x: "run (Heartbeat now did ip) h = (x, apply_change ch h)" using Beats by (cases "run (Heartbeat now did ip) h") simp
      note e = Heartbeat_effect [OF s(1) f Some x]
      have other: "is_online (hdb (apply_change ch h)) k = is_online (hdb h) k" if "k \<noteq> did" for k
        using e that by (simp add: is_online_def)
      show ?thesis
      proof (cases "recoverable h did r")
        case True
        then show ?thesis using e Beats other Some
          by (intro loud [of "DeviceOnline did (nickname r) (if ip \<noteq> [] then ip else last_ip r) (to_int32 (ssh_port r))
                (sharesToProto (filter (\<lambda>x. share_device x = did) (shares (hdb h))))" "hdb (apply_change ch h)"])
            (auto simp: tells_event is_online_def)
      next
        case False
        have "is_online (hdb (apply_change ch h)) k = is_online (hdb h) k" for k
          using e False Some other [of k] by (cases "k = did") (simp_all add: is_online_def)
        moreover have "apply_change ch h = h\<lparr>hdb := hdb (apply_change ch h)\<rparr>" using e False by simp
        ultimately show ?thesis by (intro quiet)
      qed
    qed
  next
    case (Updates did shs)
    let ?d = "snd (SetShares did (sharesFromProto did shs) (hdb h))"
    have on: "is_online ?d k = is_online (hdb h) k" for k by (simp add: is_online_def device_row_def)
    show ?thesis
    proof (cases "fst (SetShares did (sharesFromProto did shs) (hdb h))")
      case (Inl e)
      then have "apply_change ch h = h\<lparr>hdb := ?d\<rparr>" using Updates s(3) by (simp add: UpdateShares_def)
      then show ?thesis by (rule quiet) (rule on)
    next
      case (Inr u)
      show ?thesis
      proof (rule loud [of "SharesUpdated did shs" ?d])
        show "apply_change ch h = broadcastLocked (SharesUpdated did shs) (changer ch) (h\<lparr>hdb := ?d\<rparr>)"
          using Updates s(3) Inr by (simp add: UpdateShares_def Broadcast_def)
      qed (use Updates on in \<open>simp_all add: tells_event\<close>)
    qed
  next
    case (Deregisters did)
    show ?thesis
    proof (cases "device_row (hdb h) did")
      case None
      then have "apply_change ch h = h\<lparr>hdb := hdb h\<rparr>" using Deregisters run_Deregister [OF s(3,1)] by simp
      then show ?thesis by (rule quiet) simp
    next
      case (Some r)
      let ?d = "(hdb h)\<lparr>devices := update_where (\<lambda>r. device_id r = did)
            (\<lambda>x. x\<lparr>dev_status := StatusOffline, last_ip := last_ip r, ssh_port := ssh_port r\<rparr>) (devices (hdb h))\<rparr>"
      let ?h = "remove_subscriber did h"
      have h': "apply_change ch h = broadcastLocked (DeviceOffline did (nickname r)) did (?h\<lparr>hdb := ?d\<rparr>)"
        using Deregisters run_Deregister [OF s(3,1)] Some by simp
      have "reaches A c ?h (apply_change ch h) [DeviceOffline did (nickname r)]"
        unfolding h' by (rule reaches_broadcast [OF channels_ok_remove [OF s(2)]])
          (use assms(2,3) Deregisters in \<open>simp_all add: remove_subscriber_other\<close>)
      then have "reaches A c h (apply_change ch h) [DeviceOffline did (nickname r)]" by (rule reaches_after_remove)
      moreover have "is_online ?d k = (k \<noteq> did \<and> is_online (hdb h) k)" for k
        using device_row_Some [of "hdb h" k] by (cases "device_row (hdb h) k") (auto simp: is_online_def device_row_update)
      moreover have "hdb (apply_change ch h) = ?d" unfolding h' by simp
      ultimately show ?thesis using Deregisters
        by (intro exI [of _ "[DeviceOffline did (nickname r)]"]) (simp add: tells_event del: apply_change.simps)
    qed
  next
    case (Leaves did)
    show ?thesis
    proof (cases "device_row (hdb h) did")
      case None
      then have "apply_change ch h = h\<lparr>hdb := hdb h\<rparr>" using Leaves Leave_effect [OF f, of did] by simp
      then show ?thesis by (rule quiet) simp
    next
      case (Some r)
      let ?d = "hdb (apply_change ch h)"
      have h': "apply_change ch h = remove_subscriber did (broadcastLocked (DeviceRemoved did (nickname r)) did (h\<lparr>hdb := ?d\<rparr>))"
        and dev: "devices ?d = filter (\<lambda>r. device_id r \<noteq> did) (devices (hdb h))"
        using Leaves Leave_effect [OF f, of did] Some by simp_all
      have "reaches A c h (apply_change ch h) [DeviceRemoved did (nickname r)]"
        by (subst h', rule reaches_remove [OF _ reaches_broadcast [OF s(2) assms(2)]]) (use assms(3) Leaves in auto)
      moreover have "is_online ?d k = (k \<noteq> did \<and> is_online (hdb h) k)" for k
      proof -
        have "find (\<lambda>r. device_id r = k) (filter (\<lambda>r. device_id r \<noteq> did) xs) = (if k = did then None else find (\<lambda>r. device_id r = k) xs)" for xs :: "device list"
          by (induction xs) auto
        then have "device_row ?d k = (if k = did then None else device_row (hdb h) k)" by (simp add: device_row_def dev)
        then show ?thesis by (simp add: is_online_def)
      qed
      ultimately show ?thesis using Leaves by (intro exI [of _ "[DeviceRemoved did (nickname r)]"]) (simp add: tells_event)
    qed
  next
    case (GoesStale d th)
    let ?d = "snd (MarkOfflineIfStale (device_id d) th (hdb h))"
    have row: "is_online ?d k = (is_online (hdb h) k \<and> \<not> (k = device_id d \<and> fst (MarkOfflineIfStale (device_id d) th (hdb h)) = Inr True))" for k
      by (cases "device_row (hdb h) k")
        (auto simp: is_online_def MarkOfflineIfStale_row [OF s(1)])
    have out: "fst (MarkOfflineIfStale (device_id d) th (hdb h)) = Inr True \<or> fst (MarkOfflineIfStale (device_id d) th (hdb h)) = Inr False"
      by (simp add: MarkOfflineIfStale_row [OF s(1)])
    show ?thesis
    proof (cases "fst (MarkOfflineIfStale (device_id d) th (hdb h)) = Inr True")
      case False
      then have "apply_change ch h = h\<lparr>hdb := ?d\<rparr>" using GoesStale s(3) out by (auto simp: MarkOffline_def)
      then show ?thesis by (rule quiet) (use row False in simp)
    next
      case True
      show ?thesis
      proof (rule loud [of "DeviceOffline (device_id d) (nickname d)" ?d])
        show "apply_change ch h = broadcastLocked (DeviceOffline (device_id d) (nickname d)) (changer ch) (h\<lparr>hdb := ?d\<rparr>)"
          using GoesStale s(3) True by (simp add: MarkOffline_def Broadcast_def)
      qed (use GoesStale row True in \<open>simp_all add: tells_event\<close>)
    qed
  qed
qed

subsection \<open>A daemon at the hub\<close>

text \<open>
  The daemon \<open>d\<close> of the device \<open>A\<close>, subscribed through the channel \<open>c\<close>: it starts with the snapshot
  of its registration when nothing happens between that and the subscription; then other devices
  change, never with its channel full, and it takes its events in their order.
\<close>

inductive fleet :: "string \<Rightarrow> nat \<Rightarrow> hub \<Rightarrow> daemon \<Rightarrow> bool" for A where
  start: "serving h \<Longrightarrow> run (Register now A ip port shs ProtocolVersion) h = (Inr ds, h1) \<Longrightarrow>
    run (Subscribe A) h1 = (Inr c, h2) \<Longrightarrow> fleet A c h2 (processInitialDevices env (map (online_info m) ds) d)"
| change: "fleet A c h d \<Longrightarrow> changer ch \<noteq> A \<Longrightarrow> length (buf (chans h c)) < chan_cap \<Longrightarrow> fleet A c (apply_change ch h) d"
| event: "fleet A c h d \<Longrightarrow> recv_chan c h = (Some (Some ev), h') \<Longrightarrow> fleet A c h' (handleEvent env ev d)"

definition current :: "string \<Rightarrow> nat \<Rightarrow> hub \<Rightarrow> view \<Rightarrow> bool" where
  "current A c h v \<longleftrightarrow> serving h \<and> map_of (subscribers h) A = Some c \<and>
     (\<forall>k. k \<noteq> A \<longrightarrow> (fold view_step (buf (chans h c)) v k \<noteq> None) = is_online (hdb h) k)"

lemma serving_register:
  assumes "serving h" and "run (Register now A ip port shs v) h = (Inr ds, h1)"
  shows "serving h1 \<and> (\<forall>k. k \<noteq> A \<longrightarrow> is_online (hdb h1) k = is_online (hdb h) k) \<and>
    (\<forall>k. k \<noteq> A \<longrightarrow> (k \<in> device_id ` set ds) = is_online (hdb h) k)"
proof -
  have s: "store_inv (hdb h)" "healthy h" "\<not> draining h" "faults h = []" using assms(1) by (simp_all add: serving_def healthy_def)
  obtain r where r: "device_row (hdb h) A = Some r" "v = ProtocolVersion"
    using assms(2) run_Register [OF s(2,1)] s(3) by (auto split: if_splits option.splits)
  note e = Register_effect [OF s(1,4,3) r(1) assms(2) [unfolded r(2)]]
  have "draining h1 = draining (broadcastLocked (online_event r ip port shs) A (h\<lparr>hdb := hdb h1\<rparr>))" using e by metis
  then have "draining h1 = draining h" by simp
  moreover have "is_online (hdb h1) k = is_online (hdb h) k" if "k \<noteq> A" for k using e that by (simp add: is_online_def)
  moreover have "(k \<in> device_id ` set ds) = is_online (hdb h) k" if "k \<noteq> A" for k
  proof -
    have "(k \<in> device_id ` set ds) = (\<exists>x\<in>set (devices (hdb h)). dev_status x = StatusOnline \<and> device_id x = k)"
      using e that by (auto simp: image_iff)
    also have "\<dots> = (\<exists>x. device_row (hdb h) k = Some x \<and> dev_status x = StatusOnline)"
      using device_row_iff [OF s(1), of k] by auto
    also have "\<dots> = is_online (hdb h) k" by (cases "device_row (hdb h) k") (simp_all add: is_online_def)
    finally show ?thesis .
  qed
  ultimately show ?thesis using serving_change [OF assms(1), of "Registers now A ip port shs v"] assms(2) s(3) by (simp add: serving_def)
qed

lemma current_start:
  assumes "serving h" and "run (Register now A ip port shs v) h = (Inr ds, h1)" and "run (Subscribe A) h1 = (Inr c, h2)"
  shows "current A c h2 (view_of (processInitialDevices env (map (online_info m) ds) d))"
proof -
  note r = serving_register [OF assms(1,2)]
  have h1: "channels_ok h1" "\<not> draining h1" using r by (simp_all add: serving_def)
  have h2: "c = next_chan h1" "h2 = snd (add_subscriber A h1)" using assms(3) h1(2) by (auto simp: Subscribe_def add_subscriber_def Let_def)
  have new: "map_of (subscribers h2) A = Some c" "buf (chans h2 c) = []" "healthy h2 = healthy h1"
    using h1(2) by (auto simp: h2 add_subscriber_def Let_def map_put_def close_chan_def new_chan_def healthy_def split: option.split)
  have "serving h2" using r channels_ok_add [OF h1(1), of A] new(3) by (simp add: serving_def h2)
  moreover have "(k \<in> info_device ` set (map (online_info m) ds)) = is_online (hdb h2) k" if "k \<noteq> A" for k
    using r that by (simp add: h2(2) online_info_def image_image)
  ultimately show ?thesis using new(1,2) by (simp add: current_def view_snapshot snapshot_domain)
qed

lemma current_change:
  assumes "current A c h v" and "changer ch \<noteq> A" and "length (buf (chans h c)) < chan_cap"
  shows "current A c (apply_change ch h) v"
proof -
  have s: "serving h" "map_of (subscribers h) A = Some c" using assms(1) by (simp_all add: current_def)
  obtain evs where e: "reaches A c h (apply_change ch h) evs"
    "tells evs (changer ch) (is_online (hdb h) (changer ch)) (is_online (hdb (apply_change ch h)) (changer ch))"
    "\<forall>k. k \<noteq> changer ch \<longrightarrow> is_online (hdb (apply_change ch h)) k = is_online (hdb h) k"
    using change_reaches [OF s assms(2)] by blast
  have b: "buf (chans (apply_change ch h) c) = buf (chans h c) @ evs"
    using e(1,2) assms(3) by (cases evs) (auto simp: reaches_def tells_def deliver_def)
  have "serving (apply_change ch h)" using serving_change [OF s(1), of ch] e(1) s(1) by (simp add: serving_def reaches_def)
  moreover have "(fold view_step (buf (chans (apply_change ch h) c)) v k \<noteq> None) = is_online (hdb (apply_change ch h)) k" if "k \<noteq> A" for k
    using e(2,3) that assms(1) by (cases "k = changer ch") (simp_all add: b tells_def current_def)
  ultimately show ?thesis using e(1) by (simp add: current_def reaches_def)
qed

lemma current_event:
  assumes "current A c h (view_of d)" and "recv_chan c h = (Some (Some ev), h')"
  shows "current A c h' (view_of (handleEvent env ev d))"
proof -
  obtain rest where b: "buf (chans h c) = ev # rest" "buf (chans h' c) = rest" "hdb h' = hdb h" "subscribers h' = subscribers h"
      "draining h' = draining h" "faults h' = faults h"
    using assms(2) by (auto simp: recv_chan_def split: list.splits if_splits)
  moreover have "channels_ok h \<Longrightarrow> channels_ok h'" using channels_ok_recv [of h c] assms(2) by simp
  ultimately show ?thesis using assms(1) by (simp add: current_def serving_def healthy_def view_handleEvent)
qed


text \<open>
  Between a registration and the subscription that follows there is a gap: a device that comes
  online in it is in neither the snapshot nor the stream, so the daemon does not know it, with
  nothing left in its channel that could tell it, while the hub has it online.
\<close>

theorem gap_device_stays_unknown:
  assumes "serving h" and "run (Register now A ip port shs ProtocolVersion) h = (Inr ds, h1)"
    and "run (Register now' B ip' port' shs' ProtocolVersion) h1 = (Inr ds', h2)" and "run (Subscribe A) h2 = (Inr c, h3)"
    and "A \<noteq> B" and "\<not> is_online (hdb h) B"
  shows "view_of (processInitialDevices env (map (online_info m) ds) d) B = None \<and> buf (chans h3 c) = [] \<and> is_online (hdb h3) B"
proof -
  note r = serving_register [OF assms(1,2)]
  then have s1: "store_inv (hdb h1)" "faults h1 = []" "\<not> draining h1" "healthy h1" by (simp_all add: serving_def healthy_def)
  obtain row where row: "device_row (hdb h1) B = Some row"
    using assms(3) run_Register [OF s1(4,1)] s1(3) by (auto split: if_splits option.splits)
  have on: "is_online (hdb h2) B" using Register_effect [OF s1(1-3) row assms(3)] by (simp add: is_online_def)
  have s2: "\<not> draining h2" using serving_register [of h1, OF _ assms(3)] r by (simp add: serving_def)
  have "buf (chans h3 c) = []" "hdb h3 = hdb h2"
    using assms(4) s2 by (auto simp: Subscribe_def add_subscriber_def Let_def close_chan_def new_chan_def split: option.splits if_splits)
  moreover have "B \<notin> info_device ` set (map (online_info m) ds)"
    using r assms(5,6) by (auto simp: online_info_def)
  ultimately show ?thesis using on by (simp add: view_snapshot snapshot_domain)
qed

subsection \<open>Witnesses\<close>

lemma sample_serving: "serving sample_hub"
  by (simp add: serving_def healthy_def channels_ok_def new_chan_def)

lemma sample_rows:
  "device_row (hdb sample_hub) ''d1'' = Some (sample_device ''d1'')"
  "device_row (hdb sample_hub) ''d2'' = Some ((sample_device ''d2'')\<lparr>dev_status := StatusOffline\<rparr>)"
  by (simp_all add: sample_defs device_row_def)

lemma sample_gap:
  obtains ds h1 ds' h2 c h3 where
    "run (Register 20 ''d1'' ''10.0.0.5'' 2222 [] ProtocolVersion) sample_hub = (Inr ds, h1)"
    "run (Register 21 ''d2'' ''10.0.0.6'' 2222 [] ProtocolVersion) h1 = (Inr ds', h2)" "run (Subscribe ''d1'') h2 = (Inr c, h3)"
proof -
  have s: "healthy sample_hub" "store_inv (hdb sample_hub)" "\<not> draining sample_hub" using sample_serving by (simp_all add: serving_def)
  obtain ds h1 where r1: "run (Register 20 ''d1'' ''10.0.0.5'' 2222 [] ProtocolVersion) sample_hub = (Inr ds, h1)"
    using run_Register [OF s(1,2), of 20 "''d1''" "''10.0.0.5''" 2222 "[]" ProtocolVersion] s(3) sample_rows(1) by simp
  have h1: "serving h1" using serving_register [OF sample_serving r1] by simp
  have "device_row (hdb h1) ''d2'' = device_row (hdb sample_hub) ''d2''"
    using Register_effect [OF s(2) _ s(3) sample_rows(1) r1] s(1) by (simp add: healthy_def)
  then obtain ds' h2 where r2: "run (Register 21 ''d2'' ''10.0.0.6'' 2222 [] ProtocolVersion) h1 = (Inr ds', h2)"
    using run_Register [of h1 21 "''d2''" "''10.0.0.6''" 2222 "[]" ProtocolVersion] h1 sample_rows(2) by (simp add: serving_def)
  have "\<not> draining h2" using serving_register [OF h1 r2] by (simp add: serving_def)
  then obtain c h3 where "run (Subscribe ''d1'') h2 = (Inr c, h3)" by (simp add: Subscribe_def add_subscriber_def Let_def)
  with r1 r2 show ?thesis by (rule that)
qed

lemma gap_device_stays_unknown_witness:
  "\<exists>ds h1 ds' h2 c h3. run (Register 20 ''d1'' ''10.0.0.5'' 2222 [] ProtocolVersion) sample_hub = (Inr ds, h1) \<and>
     run (Register 21 ''d2'' ''10.0.0.6'' 2222 [] ProtocolVersion) h1 = (Inr ds', h2) \<and> run (Subscribe ''d1'') h2 = (Inr c, h3) \<and>
     view_of (processInitialDevices sample_env (map (online_info Map.empty) ds) sample_daemon) ''d2'' = None \<and> is_online (hdb h3) ''d2''"
proof -
  obtain ds h1 ds' h2 c h3 where r:
    "run (Register 20 ''d1'' ''10.0.0.5'' 2222 [] ProtocolVersion) sample_hub = (Inr ds, h1)"
    "run (Register 21 ''d2'' ''10.0.0.6'' 2222 [] ProtocolVersion) h1 = (Inr ds', h2)" "run (Subscribe ''d1'') h2 = (Inr c, h3)"
    by (rule sample_gap)
  have "\<not> is_online (hdb sample_hub) ''d2''" by (simp add: is_online_def sample_rows)
  from gap_device_stays_unknown [OF sample_serving r _ this] r show ?thesis by blast
qed


end
