(* ===== verification/GoDuration.thy ===== *)
theory GoDuration
  imports GoText
begin

text \<open>
  \<open>time.ParseDuration\<close> of Go's standard library, which reads the hub's settings. The one product in
  floating point, of a fraction by its unit, is a parameter \<open>fl\<close>: the digits, their scale, the unit.
  Sums are those of 64-bit words.
\<close>

definition digit_val :: "char \<Rightarrow> nat" where
  "digit_val ch = of_char ch - 48"

definition max_abs :: nat where "max_abs = 2 ^ 63"

text \<open>The leading digits as a number; \<open>None\<close> an overflow.\<close>

fun leadingInt :: "nat \<Rightarrow> string \<Rightarrow> (nat \<times> string) option" where
  "leadingInt x [] = Some (x, [])"
| "leadingInt x (c # s) =
     (if \<not> is_digit c then Some (x, c # s)
      else if x > max_abs div 10 then None
      else (let y = 10 * x + digit_val c in if y > max_abs then None else leadingInt y s))"

text \<open>The digits of a fraction, its scale, and the rest; digits past an overflow are skipped.\<close>

fun leadingFraction :: "nat \<Rightarrow> nat \<Rightarrow> bool \<Rightarrow> string \<Rightarrow> nat \<times> nat \<times> string" where
  "leadingFraction x scale over [] = (x, scale, [])"
| "leadingFraction x scale over (c # s) =
     (if \<not> is_digit c then (x, scale, c # s)
      else if over \<or> x > (max_abs - 1) div 10 \<or> 10 * x + digit_val c > max_abs then leadingFraction x scale True s
      else leadingFraction (10 * x + digit_val c) (10 * scale) False s)"

definition unit_of :: "string \<Rightarrow> nat option" where
  "unit_of u =
     (if u = ''ns'' then Some 1
      else if u \<in> {''us'', [CHR 0xC2, CHR 0xB5, CHR ''s''], [CHR 0xCE, CHR 0xBC, CHR ''s'']} then Some 1000
      else if u = ''ms'' then Some 1000000
      else if u = ''s'' then Some 1000000000
      else if u = ''m'' then Some 60000000000
      else if u = ''h'' then Some 3600000000000
      else None)"

definition unit_char :: "char \<Rightarrow> bool" where
  "unit_char ch = (ch \<noteq> CHR ''.'' \<and> \<not> is_digit ch)"

text \<open>One number with its unit: its value in nanoseconds and the rest.\<close>

definition duration_part :: "(nat \<Rightarrow> nat \<Rightarrow> nat \<Rightarrow> nat) \<Rightarrow> string \<Rightarrow> (nat \<times> string) option" where
  "duration_part fl s =
     (if s = [] \<or> \<not> (hd s = CHR ''.'' \<or> is_digit (hd s)) then None
      else (case leadingInt 0 s of
              None \<Rightarrow> None
            | Some (v, s1) \<Rightarrow>
                (let pre = (length s1 \<noteq> length s);
                     dot = (s1 \<noteq> [] \<and> hd s1 = CHR ''.'');
                     (f, scale, s2) = (if dot then leadingFraction 0 1 False (tl s1) else (0, 1, s1));
                     post = (dot \<and> length s2 \<noteq> length (tl s1))
                 in if \<not> pre \<and> \<not> post then None
                    else (let u = takeWhile unit_char s2; s3 = dropWhile unit_char s2 in
                          if u = [] then None
                          else (case unit_of u of
                                  None \<Rightarrow> None
                                | Some un \<Rightarrow>
                                    if v > max_abs div un then None
                                    else (let w = (v * un + (if f > 0 then fl f scale un else 0)) mod 2 ^ 64
                                          in if f > 0 \<and> w > max_abs then None else Some (w, s3)))))))"

lemma leadingInt_shorter: "leadingInt x s = Some (v, r) \<Longrightarrow> length r \<le> length s"
  by (induction x s rule: leadingInt.induct) (auto simp: Let_def split: if_splits)

lemma leadingFraction_shorter: "leadingFraction x sc ov s = (f, c, r) \<Longrightarrow> length r \<le> length s"
  by (induction x sc ov s rule: leadingFraction.induct) (auto simp: Let_def split: if_splits)

lemma duration_part_shorter:
  assumes "duration_part fl s = Some (w, s3)"
  shows "length s3 < length s"
proof -
  obtain v s1 where i: "leadingInt 0 s = Some (v, s1)" using assms by (auto simp: duration_part_def split: if_splits option.splits)
  let ?dot = "s1 \<noteq> [] \<and> hd s1 = CHR ''.''"
  obtain f sc s2 where f: "(if ?dot then leadingFraction 0 1 False (tl s1) else (0, 1, s1)) = (f, sc, s2)"
    by (cases "if ?dot then leadingFraction 0 1 False (tl s1) else (0, 1, s1)") auto
  have "length s2 \<le> length s1"
    using f leadingFraction_shorter [of 0 1 False "tl s1" f sc s2] by (auto split: if_splits)
  moreover have "takeWhile unit_char s2 \<noteq> []" "s3 = dropWhile unit_char s2"
    using assms i f by (auto simp: duration_part_def Let_def split: if_splits option.splits)
  moreover from this have "length s3 < length s2"
    by (metis append_eq_conv_conj length_append length_greater_0_conv less_add_same_cancel2 takeWhile_dropWhile_id)
  ultimately show ?thesis using leadingInt_shorter [OF i] by simp
qed

function duration_parts :: "(nat \<Rightarrow> nat \<Rightarrow> nat \<Rightarrow> nat) \<Rightarrow> nat \<Rightarrow> string \<Rightarrow> nat option" where
  "duration_parts fl d s =
     (if s = [] then Some d
      else (case duration_part fl s of
              None \<Rightarrow> None
            | Some (w, s') \<Rightarrow>
                (let e = (d + w) mod 2 ^ 64 in if e > max_abs then None else duration_parts fl e s')))"
  by pat_completeness auto
termination
  by (relation "measure (\<lambda>(fl, d, s). length s)") (auto dest: duration_part_shorter)

declare duration_parts.simps [simp del]

definition ParseDuration :: "(nat \<Rightarrow> nat \<Rightarrow> nat \<Rightarrow> nat) \<Rightarrow> string \<Rightarrow> duration option" where
  "ParseDuration fl s =
     (let neg = (s \<noteq> [] \<and> hd s = CHR ''-'');
          s' = (if s \<noteq> [] \<and> hd s \<in> {CHR ''-'', CHR ''+''} then tl s else s)
      in if s' = ''0'' then Some 0
         else if s' = [] then None
         else (case duration_parts fl 0 s' of
                 None \<Rightarrow> None
               | Some d \<Rightarrow> if neg then Some (- int d) else if d > max_abs - 1 then None else Some (int d)))"

text \<open>A duration that parses fits the 64 bits of a \<open>time.Duration\<close>.\<close>

lemma duration_parts_bound: "duration_parts fl d s = Some e \<Longrightarrow> d \<le> max_abs \<Longrightarrow> e \<le> max_abs"
proof (induction fl d s rule: duration_parts.induct)
  case (1 fl d s)
  show ?case
  proof (cases "s = []")
    case True
    then show ?thesis using "1.prems" by (simp add: duration_parts.simps)
  next
    case False
    then obtain w s' where w: "duration_part fl s = Some (w, s')" "\<not> (d + w) mod 2 ^ 64 > max_abs"
        "duration_parts fl ((d + w) mod 2 ^ 64) s' = Some e"
      using "1.prems"(1) by (auto simp: duration_parts.simps [of fl d s] Let_def split: option.splits if_splits)
    show ?thesis using "1.IH" [OF False w(1) HOL.refl HOL.refl w(2,3)] w(2) by simp
  qed
qed

lemma ParseDuration_bound: "ParseDuration fl s = Some d \<Longrightarrow> - (2 ^ 63) \<le> d \<and> d < 2 ^ 63"
  by (auto simp: ParseDuration_def Let_def max_abs_def split: if_splits option.splits
      dest!: duration_parts_bound)

lemma parsed_defaults:
  "ParseDuration fl ''168h0m0s'' = Some (7 * (24 * hour))" "ParseDuration fl ''30s'' = Some (30 * second)"
  "ParseDuration fl ''-5s'' = Some (- (5 * second))" "ParseDuration fl ''10'' = None" "ParseDuration fl ''1m30s'' = Some (90 * second)"
  by (simp_all add: ParseDuration_def duration_parts.simps duration_part_def is_digit_def digit_val_def max_abs_def
      unit_of_def unit_char_def Let_def duration_defs)

end
