(* ===== verification/Fingerprint.thy ===== *)
theory Fingerprint
  imports GoText
begin

text \<open>
  The fingerprint of a server certificate (internal/common/fingerprint.go): base32 in lower case of
  the first 16 bytes of its SHA-256 digest. The digest is a parameter; bytes are numbers below 256.
\<close>

subsection \<open>Base32\<close>

text \<open>
  \<open>encoding/base32\<close> with the standard alphabet and no padding: five bits make one character, and the
  last ones are filled up with zeros.
\<close>

definition base32_alphabet :: string where "base32_alphabet = ''ABCDEFGHIJKLMNOPQRSTUVWXYZ234567''"

definition byte_bits :: "nat \<Rightarrow> bool list" where
  "byte_bits b = map (bit b) [7, 6, 5, 4, 3, 2, 1, 0]"

definition bits_value :: "bool list \<Rightarrow> nat" where
  "bits_value bs = foldl (\<lambda>n b. 2 * n + of_bool b) 0 bs"

definition next_bits :: "bool list \<Rightarrow> bool list" where
  "next_bits bs = take 5 (bs @ replicate 4 False)"

function base32_bits :: "bool list \<Rightarrow> string" where
  "base32_bits bs =
     (if bs = [] then []
      else base32_alphabet ! bits_value (next_bits bs) # base32_bits (drop 5 bs))"
  by pat_completeness auto
termination by (relation "measure length") auto

declare base32_bits.simps [simp del]

definition base32 :: "nat list \<Rightarrow> string" where
  "base32 bytes = base32_bits (concat (map byte_bits bytes))"

definition FingerprintFromCertDER :: "(string \<Rightarrow> nat list) \<Rightarrow> string \<Rightarrow> string" where
  "FingerprintFromCertDER sha256 der = ToLower (base32 (take 16 (sha256 der)))"

subsection \<open>Its text\<close>

lemma byte_bits_inject:
  assumes "a < 256" "b < 256"
  shows "byte_bits a = byte_bits b \<longleftrightarrow> a = b"
proof
  assume "byte_bits a = byte_bits b"
  then have *: "\<forall>i \<in> set [7, 6, 5, 4, 3, 2, 1, 0]. bit a i = bit b i" by (simp only: byte_bits_def map_eq_conv)
  have eq: "bit a i = bit b i" if "i < 8" for i
  proof -
    have "i = 0 \<or> i = 1 \<or> i = 2 \<or> i = 3 \<or> i = 4 \<or> i = 5 \<or> i = 6 \<or> i = 7" using that by linarith
    then have "i \<in> set [7, 6, 5, 4, 3, 2, 1, 0]" by auto
    then show ?thesis using * by blast
  qed
  have "take_bit 8 a = take_bit 8 b"
  proof (rule bit_eqI)
    fix i show "bit (take_bit 8 a) i = bit (take_bit 8 b) i"
      using eq [of i] by (cases "i < 8") (simp_all add: bit_take_bit_iff)
  qed
  moreover have "take_bit 8 a = a" "take_bit 8 b = b" using assms by (simp_all add: take_bit_nat_eq_self_iff)
  ultimately show "a = b" by simp
qed simp

lemma next_bits_length: "bs \<noteq> [] \<Longrightarrow> length (next_bits bs) = 5"
  by (cases bs) (simp_all add: next_bits_def)

lemma bits_value_bound: "bits_value bs < 2 ^ length bs"
  by (induction bs rule: rev_induct) (auto simp: bits_value_def)

lemma bits_value_inject: "length xs = length ys \<Longrightarrow> bits_value xs = bits_value ys \<longleftrightarrow> xs = ys"
proof (induction xs arbitrary: ys rule: rev_induct)
  case (snoc x xs)
  then obtain y ys' where ys: "ys = ys' @ [y]" by (cases ys rule: rev_cases) auto
  have "2 * m + of_bool x = 2 * n + of_bool y \<longleftrightarrow> m = n \<and> x = y" for m n :: nat by (cases x; cases y; simp; presburger)
  then show ?case using snoc ys by (simp add: bits_value_def)
qed (simp add: bits_value_def)

lemma lower_alphabet: "distinct (map lower base32_alphabet) \<and> length base32_alphabet = 32"
  by code_simp

lemma alphabet_inject: "m < 32 \<Longrightarrow> n < 32 \<Longrightarrow> lower (base32_alphabet ! m) = lower (base32_alphabet ! n) \<longleftrightarrow> m = n"
  using lower_alphabet nth_eq_iff_index_eq [of "map lower base32_alphabet" m n] by simp

lemma chunk_inject:
  assumes "length xs = 5" "length ys = 5"
  shows "lower (base32_alphabet ! bits_value xs) = lower (base32_alphabet ! bits_value ys) \<longleftrightarrow> xs = ys"
  using alphabet_inject [of "bits_value xs" "bits_value ys"] bits_value_bound [of xs] bits_value_bound [of ys]
    bits_value_inject [of xs ys] assms by simp

lemma base32_bits_inject:
  "length xs = length ys \<Longrightarrow> map lower (base32_bits xs) = map lower (base32_bits ys) \<longleftrightarrow> xs = ys"
proof (induction xs arbitrary: ys rule: base32_bits.induct)
  case (1 xs)
  show ?case
  proof (cases "xs = []")
    case False
    then have y: "ys \<noteq> []" using "1.prems" by auto
    have "lower (base32_alphabet ! bits_value (next_bits xs)) = lower (base32_alphabet ! bits_value (next_bits ys)) \<longleftrightarrow>
        next_bits xs = next_bits ys"
      using next_bits_length False y by (intro chunk_inject) simp_all
    also have "\<dots> \<longleftrightarrow> take 5 xs = take 5 ys" using "1.prems" by (simp add: next_bits_def)
    finally have c: "lower (base32_alphabet ! bits_value (next_bits xs)) = lower (base32_alphabet ! bits_value (next_bits ys)) \<longleftrightarrow>
        take 5 xs = take 5 ys" .
    have "map lower (base32_bits xs) = map lower (base32_bits ys) \<longleftrightarrow> take 5 xs = take 5 ys \<and> drop 5 xs = drop 5 ys"
      using False y c "1.IH" [OF False, of "drop 5 ys"] "1.prems" by (simp add: base32_bits.simps [of xs] base32_bits.simps [of ys])
    then show ?thesis by (metis append_take_drop_id)
  qed (use "1.prems" in simp)
qed

lemma base32_bits_Nil [simp]: "base32_bits [] = []"
  by (subst base32_bits.simps) simp

lemma base32_bits_length: "length (base32_bits bs) = (length bs + 4) div 5"
proof (induction bs rule: base32_bits.induct)
  case (1 bs)
  show ?case
  proof (cases "bs = []")
    case False
    then have "length bs > 0" by simp
    have "Suc ((length bs - 5 + 4) div 5) = (length bs + 4) div 5"
    proof (cases "length bs < 5")
      case True
      then have "length bs = 1 \<or> length bs = 2 \<or> length bs = 3 \<or> length bs = 4" using \<open>length bs > 0\<close> by linarith
      then show ?thesis by auto
    next
      case False
      then obtain m where "length bs = m + 5" by (metis le_add_diff_inverse2 not_less)
      then show ?thesis by simp
    qed
    moreover have "length (base32_bits bs) = Suc (length (base32_bits (drop 5 bs)))" using False by (simp add: base32_bits.simps [of bs])
    ultimately show ?thesis using "1.IH" [OF False] by simp
  qed simp
qed

lemma base32_bits_alphabet: "set (base32_bits bs) \<subseteq> set base32_alphabet"
proof (induction bs rule: base32_bits.induct)
  case (1 bs)
  have "base32_alphabet ! bits_value (next_bits bs) \<in> set base32_alphabet" if "bs \<noteq> []"
    using bits_value_bound [of "next_bits bs"] lower_alphabet next_bits_length [OF that] by simp
  then show ?case using 1 by (simp add: base32_bits.simps [of bs])
qed

lemma byte_bits_length [simp]: "length (byte_bits b) = 8"
  by (simp add: byte_bits_def)

lemma bytes_bits_length: "length (concat (map byte_bits bs)) = 8 * length bs"
  by (induction bs) auto

lemma bytes_bits_inject:
  "length xs = length ys \<Longrightarrow> set xs \<union> set ys \<subseteq> {..<256} \<Longrightarrow>
     concat (map byte_bits xs) = concat (map byte_bits ys) \<longleftrightarrow> xs = ys"
proof (induction xs arbitrary: ys)
  case (Cons x xs)
  then obtain y ys' where "ys = y # ys'" by (cases ys) auto
  then show ?case using Cons byte_bits_inject [of x y] by simp
qed simp

text \<open>What is known of SHA-256 here: 32 bytes.\<close>

definition digests :: "(string \<Rightarrow> nat list) \<Rightarrow> bool" where
  "digests sha256 \<longleftrightarrow> (\<forall>x. length (sha256 x) = 32 \<and> set (sha256 x) \<subseteq> {..<256})"

lemma fingerprint_equal:
  assumes "digests sha256"
  shows "FingerprintFromCertDER sha256 a = FingerprintFromCertDER sha256 b \<longleftrightarrow> take 16 (sha256 a) = take 16 (sha256 b)"
proof -
  have l: "length (take 16 (sha256 x)) = 16" "set (take 16 (sha256 x)) \<subseteq> {..<256}" for x
    using assms set_take_subset [of 16 "sha256 x"] by (auto simp: digests_def)
  show ?thesis
    using bytes_bits_inject [of "take 16 (sha256 a)" "take 16 (sha256 b)"] l
      base32_bits_inject [of "concat (map byte_bits (take 16 (sha256 a)))" "concat (map byte_bits (take 16 (sha256 b)))"]
    by (simp add: FingerprintFromCertDER_def base32_def ToLower_def bytes_bits_length)
qed

lemma fingerprint_text:
  assumes "digests sha256"
  shows "length (FingerprintFromCertDER sha256 der) = 26"
    and "set (FingerprintFromCertDER sha256 der) \<subseteq> set ''abcdefghijklmnopqrstuvwxyz234567''"
proof -
  show "length (FingerprintFromCertDER sha256 der) = 26"
    using assms by (simp add: FingerprintFromCertDER_def base32_def ToLower_def base32_bits_length bytes_bits_length digests_def)
  have "map lower base32_alphabet = ''abcdefghijklmnopqrstuvwxyz234567''" by code_simp
  then show "set (FingerprintFromCertDER sha256 der) \<subseteq> set ''abcdefghijklmnopqrstuvwxyz234567''"
    using image_mono [OF base32_bits_alphabet, of lower] unfolding FingerprintFromCertDER_def base32_def ToLower_def
    by (metis list.set_map)
qed

text \<open>
  A fingerprint is 26 of the characters \<open>a-z2-7\<close>, so it contains no dot and survives in a join
  token, and two certificates have the same one exactly when the first 16 bytes of their digests agree.
\<close>

theorem fingerprint_identifies:
  assumes "digests sha256"
  shows "length (FingerprintFromCertDER sha256 a) = 26 \<and>
    set (FingerprintFromCertDER sha256 a) \<subseteq> set ''abcdefghijklmnopqrstuvwxyz234567'' \<and>
    (FingerprintFromCertDER sha256 a = FingerprintFromCertDER sha256 b) = (take 16 (sha256 a) = take 16 (sha256 b))"
  using fingerprint_text [OF assms] fingerprint_equal [OF assms] by simp

definition sample_sha :: "string \<Rightarrow> nat list" where
  "sample_sha x = take 32 (map of_char x @ replicate 32 0)"

lemma sample_sha_digests: "digests sample_sha"
  by (auto simp: digests_def sample_sha_def dest!: in_set_takeD)

lemma fingerprint_identifies_witness:
  "FingerprintFromCertDER sample_sha ''der'' = ''mrsxeaaaaaaaaaaaaaaaaaaaaa'' \<and>
   FingerprintFromCertDER sample_sha ''der'' \<noteq> FingerprintFromCertDER sample_sha ''den''"
proof -
  have "FingerprintFromCertDER sample_sha ''der'' = ''mrsxeaaaaaaaaaaaaaaaaaaaaa''" by code_simp
  then show ?thesis using fingerprint_identifies [OF sample_sha_digests, of "''der''" "''den''"] by (simp add: sample_sha_def)
qed

end
