(* ===== verification/HubSettings.thy ===== *)
theory HubSettings
  imports GoDuration CliAgentProps PairingProps Fingerprint
begin

text \<open>
  The hub's command line (cmd/hubfuse-hub): its optional configuration file
  (internal/hub/configfile.go), how a flag and the file give a setting, and \<open>issue-join\<close>. The
  KDL library, the floating point of \<open>ParseDuration\<close>, opening the database, PEM and SHA-256 are
  parameters.
\<close>

subsection \<open>The configuration file\<close>

record hub_file =
  hf_retention :: "duration option"
  hf_token_ttl :: "duration option"
  hf_heartbeat :: "duration option"

definition empty_file :: hub_file where
  "empty_file = \<lparr>hf_retention = None, hf_token_ttl = None, hf_heartbeat = None\<rparr>"

datatype file_read = NoSuchFile | CannotRead | Contents string

datatype setting_err = ReadFailed | ParseHubConfig | NeedsDuration string | BadDuration string | BadFlag string | NegativeValue string | NotPositive string

text \<open>The value of a setting's node.\<close>

definition duration_arg :: "(nat \<Rightarrow> nat \<Rightarrow> nat \<Rightarrow> nat) \<Rightarrow> kdl_node \<Rightarrow> setting_err + duration" where
  "duration_arg fl n =
     (if firstArgString n = [] then Inl (NeedsDuration (nodeName n))
      else (case ParseDuration fl (firstArgString n) of
              None \<Rightarrow> Inl (BadDuration (nodeName n)) | Some d \<Rightarrow> Inr d))"

fun read_settings :: "(nat \<Rightarrow> nat \<Rightarrow> nat \<Rightarrow> nat) \<Rightarrow> kdl_node list \<Rightarrow> hub_file \<Rightarrow> setting_err + hub_file" where
  "read_settings fl [] cfg = Inr cfg"
| "read_settings fl (n # ns) cfg =
     (if nodeName n = ''device-retention''
      then (case duration_arg fl n of Inl e \<Rightarrow> Inl e | Inr d \<Rightarrow> read_settings fl ns (cfg\<lparr>hf_retention := Some d\<rparr>))
      else if nodeName n = ''heartbeat-timeout''
      then (case duration_arg fl n of Inl e \<Rightarrow> Inl e | Inr d \<Rightarrow> read_settings fl ns (cfg\<lparr>hf_heartbeat := Some d\<rparr>))
      else if nodeName n = ''join-token-ttl''
      then (case duration_arg fl n of Inl e \<Rightarrow> Inl e | Inr d \<Rightarrow> read_settings fl ns (cfg\<lparr>hf_token_ttl := Some d\<rparr>))
      else read_settings fl ns cfg)"

record hub_cli =
  hc_parse :: "string \<Rightarrow> kdl_node list option"
  hc_float :: "nat \<Rightarrow> nat \<Rightarrow> nat \<Rightarrow> nat"
  hc_file :: file_read

definition LoadHubConfigFile :: "hub_cli \<Rightarrow> setting_err + hub_file" where
  "LoadHubConfigFile env =
     (case hc_file env of
        NoSuchFile \<Rightarrow> Inr empty_file
      | CannotRead \<Rightarrow> Inl ReadFailed
      | Contents text \<Rightarrow>
          (case hc_parse env text of
             None \<Rightarrow> Inl ParseHubConfig
           | Some nodes \<Rightarrow> read_settings (hc_float env) nodes empty_file))"

subsection \<open>Flag, file, default\<close>

definition resolve_with :: "string \<Rightarrow> (hub_file \<Rightarrow> duration option) \<Rightarrow> hub_cli \<Rightarrow> string \<Rightarrow> bool \<Rightarrow> setting_err + duration" where
  "resolve_with name sel env flagValue flagChanged =
     (case ParseDuration (hc_float env) flagValue of
        None \<Rightarrow> Inl (BadFlag name)
      | Some flagDuration \<Rightarrow>
          if flagDuration < 0 then Inl (NegativeValue name)
          else if flagChanged then Inr flagDuration
          else (case LoadHubConfigFile env of
                  Inl e \<Rightarrow> Inl e
                | Inr cfg \<Rightarrow>
                    (case sel cfg of
                       Some d \<Rightarrow> if d < 0 then Inl (NegativeValue name) else Inr d
                     | None \<Rightarrow> Inr flagDuration)))"

definition resolveDeviceRetention :: "hub_cli \<Rightarrow> string \<Rightarrow> bool \<Rightarrow> setting_err + duration" where
  "resolveDeviceRetention = resolve_with ''device-retention'' hf_retention"

definition resolveHeartbeatTimeout :: "hub_cli \<Rightarrow> string \<Rightarrow> bool \<Rightarrow> setting_err + duration" where
  "resolveHeartbeatTimeout = resolve_with ''heartbeat-timeout'' hf_heartbeat"

definition resolveJoinTokenTTL :: "hub_cli \<Rightarrow> setting_err + duration" where
  "resolveJoinTokenTTL env =
     (case LoadHubConfigFile env of
        Inl e \<Rightarrow> Inl e
      | Inr cfg \<Rightarrow>
          (case hf_token_ttl cfg of
             Some d \<Rightarrow> if d \<le> 0 then Inl (NotPositive ''join-token-ttl'') else Inr d
           | None \<Rightarrow> Inr (10 * minute)))"

text \<open>The flags' defaults are the texts of the hub's own constants.\<close>

definition retention_default :: string where "retention_default = ''168h0m0s''"
definition heartbeat_default :: string where "heartbeat_default = ''30s''"

definition fits :: "duration option \<Rightarrow> bool" where
  "fits x = (case x of None \<Rightarrow> True | Some d \<Rightarrow> d < 2 ^ 63)"

definition file_fits :: "hub_file \<Rightarrow> bool" where
  "file_fits c \<longleftrightarrow> fits (hf_retention c) \<and> fits (hf_token_ttl c) \<and> fits (hf_heartbeat c)"

lemma duration_arg_fits: "duration_arg fl n = Inr d \<Longrightarrow> fits (Some d)"
  using ParseDuration_bound [of fl "firstArgString n" d] by (simp add: duration_arg_def fits_def split: if_splits option.splits)

lemma read_settings_fits: "read_settings fl ns c = Inr c' \<Longrightarrow> file_fits c \<Longrightarrow> file_fits c'"
proof (induction ns arbitrary: c)
  case (Cons n ns)
  show ?case
  proof (cases "duration_arg fl n")
    case (Inl e)
    then show ?thesis using Cons by (simp split: if_splits)
  next
    case (Inr d)
    note fd = duration_arg_fits [OF Inr]
    have "file_fits (c\<lparr>hf_retention := Some d\<rparr>)" "file_fits (c\<lparr>hf_heartbeat := Some d\<rparr>)" "file_fits (c\<lparr>hf_token_ttl := Some d\<rparr>)"
      using fd Cons.prems(2) by (simp_all add: file_fits_def)
    then show ?thesis using Cons.IH Cons.prems Inr by (simp split: if_splits)
  qed
qed simp

lemma LoadHubConfigFile_fits: "LoadHubConfigFile env = Inr c \<Longrightarrow> file_fits c"
  using read_settings_fits [of "hc_float env" _ empty_file c]
  by (auto simp: LoadHubConfigFile_def empty_file_def file_fits_def fits_def split: file_read.splits option.splits)

lemma resolve_with_bounds:
  assumes "resolve_with name sel env f given = Inr d" and "sel \<in> {hf_retention, hf_heartbeat}"
  shows "0 \<le> d \<and> d < 2 ^ 63"
proof -
  obtain fd where fd: "ParseDuration (hc_float env) f = Some fd" "\<not> fd < 0"
    using assms(1) by (auto simp: resolve_with_def split: option.splits if_splits)
  have b: "fd < 2 ^ 63" using ParseDuration_bound [OF fd(1)] by simp
  show ?thesis
  proof (cases "given")
    case False
    then obtain c where c: "LoadHubConfigFile env = Inr c" using assms(1) fd by (auto simp: resolve_with_def split: sum.splits)
    have "fits (sel c)" using LoadHubConfigFile_fits [OF c] assms(2) by (auto simp: file_fits_def)
    then show ?thesis using assms(1) fd b False c
      by (auto simp: resolve_with_def fits_def split: option.splits if_splits)
  qed (use assms(1) fd b in \<open>auto simp: resolve_with_def\<close>)
qed

lemma token_ttl_bounds: "resolveJoinTokenTTL env = Inr d \<Longrightarrow> 0 < d \<and> d < 2 ^ 63"
proof -
  assume r: "resolveJoinTokenTTL env = Inr d"
  then obtain c where c: "LoadHubConfigFile env = Inr c" by (auto simp: resolveJoinTokenTTL_def split: sum.splits)
  then show ?thesis using r LoadHubConfigFile_fits [OF c]
    by (cases "hf_token_ttl c") (auto simp: resolveJoinTokenTTL_def file_fits_def fits_def duration_defs split: if_splits)
qed

text \<open>
  A setting that is accepted is one the hub can run with: the retention and the heartbeat
  timeout are not negative, a token lives for a positive time, and all fit in 64 bits; a flag that
  was given decides by itself whatever the file says, and with neither flag nor file the values
  are the hub's own defaults.
\<close>

theorem settings_are_sane:
  "(\<forall>d. resolveDeviceRetention env f given = Inr d \<longrightarrow> 0 \<le> d \<and> d < 2 ^ 63) \<and>
   (\<forall>d. resolveHeartbeatTimeout env f given = Inr d \<longrightarrow> 0 \<le> d \<and> d < 2 ^ 63) \<and>
   (\<forall>d. resolveJoinTokenTTL env = Inr d \<longrightarrow> 0 < d \<and> d < 2 ^ 63) \<and>
   resolveDeviceRetention (env\<lparr>hc_file := x\<rparr>) f True = resolveDeviceRetention env f True \<and>
   resolveHeartbeatTimeout (env\<lparr>hc_file := x\<rparr>) f True = resolveHeartbeatTimeout env f True \<and>
   resolveDeviceRetention (env\<lparr>hc_file := NoSuchFile\<rparr>) retention_default False = Inr DefaultDeviceRetention \<and>
   resolveHeartbeatTimeout (env\<lparr>hc_file := NoSuchFile\<rparr>) heartbeat_default False = Inr DefaultHeartbeatTimeout \<and>
   resolveJoinTokenTTL (env\<lparr>hc_file := NoSuchFile\<rparr>) = Inr defaultJoinTokenTTL"
proof -
  have none: "LoadHubConfigFile (env\<lparr>hc_file := NoSuchFile\<rparr>) = Inr empty_file" by (simp add: LoadHubConfigFile_def)
  have "resolve_with name sel (env\<lparr>hc_file := x\<rparr>) f True = resolve_with name sel env f True" for name sel
    by (cases "ParseDuration (hc_float env) f") (simp_all add: resolve_with_def)
  then show ?thesis
    using resolve_with_bounds [of _ hf_retention env f given] resolve_with_bounds [of _ hf_heartbeat env f given] token_ttl_bounds [of env]
    by (simp add: resolveDeviceRetention_def resolveHeartbeatTimeout_def)
      (simp add: resolve_with_def resolveJoinTokenTTL_def none empty_file_def retention_default_def heartbeat_default_def
        parsed_defaults DefaultDeviceRetention_def DefaultHeartbeatTimeout_def defaultJoinTokenTTL_def duration_defs)
qed

lemma settings_are_sane_witness:
  "resolveHeartbeatTimeout \<lparr>hc_parse = (\<lambda>_. None), hc_float = (\<lambda>_ _ _. 0), hc_file = CannotRead\<rparr> ''1m30s'' True = Inr (90 * second) \<and>
   resolveHeartbeatTimeout \<lparr>hc_parse = (\<lambda>_. None), hc_float = (\<lambda>_ _ _. 0), hc_file = NoSuchFile\<rparr> ''1m30s'' True = Inr (90 * second)"
  using settings_are_sane [of "\<lparr>hc_parse = (\<lambda>_. None), hc_float = (\<lambda>_ _ _. 0), hc_file = CannotRead\<rparr>" "''1m30s''" True NoSuchFile]
  by (simp add: resolveHeartbeatTimeout_def resolve_with_def parsed_defaults duration_defs)

subsection \<open>issue-join\<close>

text \<open>
  What the command reads: the data directory's flag and the home directory, the flag of the lifetime,
  the random code and the clock, and the file of the server's certificate (\<open>None\<close>: it cannot be read).
  Decoding PEM and parsing X.509 are the library's, as is SHA-256.
\<close>

record issue_env =
  ij_home :: "string option"
  ij_data_dir :: string
  ij_ttl_flag :: "duration option"
  ij_settings :: hub_cli
  ij_open :: "string \<Rightarrow> bool"
  ij_code :: string
  ij_now :: time
  ij_files :: "string \<Rightarrow> string option"
  ij_pem :: "string \<Rightarrow> string option"
  ij_x509 :: "string \<Rightarrow> bool"
  ij_sha256 :: "string \<Rightarrow> nat list"

datatype fingerprint_err = ReadServerCert | NoPEMBlock | ParseServerCert

datatype issue_err = TTLNotPositive | SettingErr setting_err | OpenStore | CreateToken store_err | LoadFingerprint fingerprint_err

definition HubDataDir :: string where "HubDataDir = ''~/.hubfuse-hub''"

definition resolveDataDir :: "issue_env \<Rightarrow> string" where
  "resolveDataDir env = ExpandHome (ij_home env) (if ij_data_dir env = [] then HubDataDir else ij_data_dir env)"

definition openStore :: "issue_env \<Rightarrow> string \<Rightarrow> issue_err option" where
  "openStore env dataDir = (if ij_open env (Join2 dataDir ''hubfuse.db'') then None else Some OpenStore)"

definition loadServerCertFingerprint :: "issue_env \<Rightarrow> string \<Rightarrow> fingerprint_err + string" where
  "loadServerCertFingerprint env dataDir =
     (case ij_files env (Join2 (Join2 dataDir ''tls'') ''server.crt'') of
        None \<Rightarrow> Inl ReadServerCert
      | Some raw \<Rightarrow>
          (case ij_pem env raw of
             None \<Rightarrow> Inl NoPEMBlock
           | Some der \<Rightarrow> if \<not> ij_x509 env der then Inl ParseServerCert
                         else Inr (FingerprintFromCertDER (ij_sha256 env) der)))"

definition issue_ttl :: "issue_env \<Rightarrow> issue_err + duration" where
  "issue_ttl env =
     (case ij_ttl_flag env of
        Some d \<Rightarrow> if d \<le> 0 then Inl TTLNotPositive else Inr d
      | None \<Rightarrow> (case resolveJoinTokenTTL (ij_settings env) of Inl e \<Rightarrow> Inl (SettingErr e) | Inr d \<Rightarrow> Inr d))"

text \<open>The printed token, on the database the hub shares with the command.\<close>

definition issueJoin :: "issue_env \<Rightarrow> hub \<Rightarrow> (issue_err + string) \<times> hub" where
  "issueJoin env h =
     (let dir = resolveDataDir env in
      case issue_ttl env of
        Inl e \<Rightarrow> (Inl e, h)
      | Inr ttl \<Rightarrow>
          (case openStore env dir of
             Some e \<Rightarrow> (Inl e, h)
           | None \<Rightarrow>
               (case exec_sql (CreateJoinToken \<lparr>token = ij_code env, token_expires_at = ij_now env + ttl,
                       token_attempts = 0, token_created_at = ij_now env\<rparr>) h of
                  (Inl e, h1) \<Rightarrow> (Inl (CreateToken e), h1)
                | (Inr _, h1) \<Rightarrow>
                    (case loadServerCertFingerprint env dir of
                       Inl e \<Rightarrow> (Inl (LoadFingerprint e), h1)
                     | Inr fp \<Rightarrow> (Inr (ij_code env @ CHR ''.'' # fp), h1)))))"

lemma invite_code_plain:
  assumes "GenerateInviteCode bs = Some (code, rest)"
  shows "code \<noteq> [] \<and> CHR ''.'' \<notin> set code"
proof -
  have "set inviteAlphabet \<inter> {CHR ''.''} = {}" by code_simp
  then show ?thesis using conjunct2 [OF GenerateInviteCode_format] assms by fastforce
qed


definition sample_random :: "8 word list" where "sample_random = [13, 4, 22, 26, 26, 27]"

definition sample_issue :: issue_env where
  "sample_issue = \<lparr>ij_home = Some ''/home/u'', ij_data_dir = [], ij_ttl_flag = Some 60,
     ij_settings = \<lparr>hc_parse = (\<lambda>_. None), hc_float = (\<lambda>_ _ _. 0), hc_file = NoSuchFile\<rparr>,
     ij_open = (\<lambda>p. p = ''/home/u/.hubfuse-hub/hubfuse.db''), ij_code = ''HUB-NEW-001'', ij_now = 10,
     ij_files = [''/home/u/.hubfuse-hub/tls/server.crt'' \<mapsto> ''der''], ij_pem = Some, ij_x509 = (\<lambda>d. d \<noteq> []), ij_sha256 = sample_sha\<rparr>"

lemma sample_code: "GenerateInviteCode sample_random = Some (''HUB-NEW-001'', [])"
  by code_simp


end
