(* ===== verification/Daemonize.thy ===== *)
theory Daemonize
  imports HubSettings
begin

text \<open>
  Starting, stopping and asking after the background processes: the PID file and the signals
  (internal/common/daemonize) and the commands over them, start, stop, restart and status of the
  agent (cmd/hubfuse/main.go) and of the hub (cmd/hubfuse-hub/main.go). One path holds the PID
  file. Between two system calls of a command the rest of the machine may do anything: the
  environment says what, per call. Errors are constructors, paths are left out of the texts.
\<close>

subsection \<open>The machine\<close>

datatype os_signal = Sig0 | SIGTERM | SIGKILL

text \<open>
  What a process answers: the signal was delivered, \<open>ESRCH\<close> or \<open>ErrProcessDone\<close>, \<open>EPERM\<close>, or
  another error.
\<close>

datatype sig_answer = Delivered | NoProcess | NotPermitted | SignalError

record machine =
  pid_file :: "string option"
  answers :: "int \<Rightarrow> sig_answer"

record proc_state =
  ps_machine :: machine
  ps_seen :: "machine list"
  ps_sent :: "(os_signal \<times> int) list"
  ps_out :: "string list"

record proc_env =
  pe_meanwhile :: "machine list \<Rightarrow> (os_signal \<times> int) list \<Rightarrow> machine \<Rightarrow> machine"
  pe_unreadable :: "nat \<Rightarrow> bool"
  pe_unremovable :: "nat \<Rightarrow> bool"
  pe_unwritable :: "nat \<Rightarrow> bool"
  pe_polls :: "duration \<Rightarrow> nat"
  pe_pid :: int

text \<open>\<open>ps_seen\<close> is the machine as each call so far found it; its length numbers the calls.\<close>

abbreviation tick :: "proc_state \<Rightarrow> nat" where "tick s \<equiv> length (ps_seen s)"

definition meanwhile :: "proc_env \<Rightarrow> proc_state \<Rightarrow> proc_state" where
  "meanwhile env s =
     (let m = pe_meanwhile env (ps_seen s) (ps_sent s) (ps_machine s) in s\<lparr>ps_machine := m, ps_seen := ps_seen s @ [m]\<rparr>)"

definition print :: "string \<Rightarrow> proc_state \<Rightarrow> proc_state" where
  "print line s = s\<lparr>ps_out := ps_out s @ [line]\<rparr>"

definition set_pid_file :: "string option \<Rightarrow> proc_state \<Rightarrow> proc_state" where
  "set_pid_file content s = s\<lparr>ps_machine := (ps_machine s)\<lparr>pid_file := content\<rparr>\<rparr>"

datatype file_text = Missing | Unreadable | Text string

definition ReadPidFile :: "proc_env \<Rightarrow> proc_state \<Rightarrow> file_text \<times> proc_state" where
  "ReadPidFile env s =
     (let s1 = meanwhile env s in
      (case pid_file (ps_machine s1) of
         None \<Rightarrow> Missing | Some c \<Rightarrow> if pe_unreadable env (tick s) then Unreadable else Text c, s1))"

definition RemovePidFile :: "proc_env \<Rightarrow> proc_state \<Rightarrow> proc_state" where
  "RemovePidFile env s =
     (let s1 = meanwhile env s in if pe_unremovable env (tick s) then s1 else set_pid_file None s1)"

definition Kill :: "proc_env \<Rightarrow> os_signal \<Rightarrow> int \<Rightarrow> proc_state \<Rightarrow> sig_answer \<times> proc_state" where
  "Kill env sig pid s =
     (let s1 = meanwhile env s; a = answers (ps_machine s1) pid in
      (a, if a = Delivered \<and> sig \<noteq> Sig0 then s1\<lparr>ps_sent := ps_sent s1 @ [(sig, pid)]\<rparr> else s1))"

text \<open>\<open>strconv.Atoi\<close>.\<close>

definition Atoi :: "string \<Rightarrow> int option" where
  "Atoi s =
     (let neg = prefix ''-'' s; ds = (if prefix ''-'' s \<or> prefix ''+'' s then drop 1 s else s);
          v = (if neg then - int (number ds) else int (number ds))
      in if ds = [] \<or> \<not> list_all is_digit ds \<or> v < - (2 ^ 63) \<or> 2 ^ 63 \<le> v then None else Some v)"

subsection \<open>The PID file\<close>

datatype proc_err =
    ReadPidfile | ParsePidfile | WritePidfile | NonPositivePid int | SendFailed os_signal int | RefusedToExit int
  | SpawnFromChild | SpawnSetup | StartDaemon | DaemonExited string | NotReady string | CheckPidfile proc_err | CheckExisting proc_err
  | AlreadyRunning int | StopFailed proc_err | InspectPidfile proc_err
  | CreateDataDir | SetupLogger | CreateDaemon | DaemonRun | BadSetting setting_err | CreateHub | HubStart

text \<open>The temporary file is renamed onto the path in one step, or the path is as it was.\<close>

definition WritePIDFile :: "proc_env \<Rightarrow> proc_state \<Rightarrow> proc_err option \<times> proc_state" where
  "WritePIDFile env s =
     (let s1 = meanwhile env s in
      if pe_unwritable env (tick s) then (Some WritePidfile, s1)
      else (None, set_pid_file (Some (show_int (pe_pid env) @ nl)) s1))"

definition ReadPID :: "proc_env \<Rightarrow> proc_state \<Rightarrow> (proc_err + int) \<times> proc_state" where
  "ReadPID env s =
     (case ReadPidFile env s of
        (Text c, s1) \<Rightarrow> (case Atoi (TrimSpace c) of None \<Rightarrow> (Inl ParsePidfile, s1) | Some pid \<Rightarrow> (Inr pid, s1))
      | (_, s1) \<Rightarrow> (Inl ReadPidfile, s1))"

definition CheckRunning :: "proc_env \<Rightarrow> proc_state \<Rightarrow> (proc_err + int \<times> bool) \<times> proc_state" where
  "CheckRunning env s =
     (case ReadPidFile env s of
        (Missing, s1) \<Rightarrow> (Inr (0, False), s1)
      | (Unreadable, s1) \<Rightarrow> (Inl ReadPidfile, s1)
      | (Text c, s1) \<Rightarrow>
          (case Atoi (TrimSpace c) of
             None \<Rightarrow> (Inl ParsePidfile, s1)
           | Some pid \<Rightarrow>
               (case Kill env Sig0 pid s1 of
                  (Delivered, s2) \<Rightarrow> (Inr (pid, True), s2)
                | (NotPermitted, s2) \<Rightarrow> (Inr (pid, True), s2)
                | (_, s2) \<Rightarrow> (Inr (0, False), RemovePidFile env s2))))"

subsection \<open>Stopping\<close>

definition stopGracefulTimeout :: duration where "stopGracefulTimeout = 10 * second"
definition stopKillTimeout :: duration where "stopKillTimeout = 3 * second"

text \<open>The polls until the deadline: \<open>pe_polls\<close> says how many the clock allows.\<close>

fun poll_exit :: "proc_env \<Rightarrow> int \<Rightarrow> nat \<Rightarrow> proc_state \<Rightarrow> bool \<times> proc_state" where
  "poll_exit env pid 0 s = (False, s)"
| "poll_exit env pid (Suc n) s =
     (case Kill env Sig0 pid s of
        (NoProcess, s1) \<Rightarrow> (True, s1) | (_, s1) \<Rightarrow> poll_exit env pid n s1)"

definition waitForExit :: "proc_env \<Rightarrow> int \<Rightarrow> duration \<Rightarrow> proc_state \<Rightarrow> bool \<times> proc_state" where
  "waitForExit env pid deadline s = poll_exit env pid (pe_polls env deadline) s"

definition stopped_line :: "string \<Rightarrow> int \<Rightarrow> string" where
  "stopped_line name pid = name @ '' stopped (pid '' @ show_int pid @ '')''"

definition escalate :: "proc_env \<Rightarrow> string \<Rightarrow> int \<Rightarrow> proc_state \<Rightarrow> proc_err option \<times> proc_state" where
  "escalate env name pid s =
     (case Kill env SIGKILL pid
             (print (name @ '' did not exit after SIGTERM; escalating to SIGKILL (pid '' @ show_int pid @ '')'') s) of
        (Delivered, s1) \<Rightarrow>
          (case waitForExit env pid stopKillTimeout s1 of
             (True, s2) \<Rightarrow> (None, print (stopped_line name pid) s2)
           | (False, s2) \<Rightarrow> (Some (RefusedToExit pid), s2))
      | (NoProcess, s1) \<Rightarrow> (None, print (stopped_line name pid) s1)
      | (_, s1) \<Rightarrow> (Some (SendFailed SIGKILL pid), s1))"

definition SignalStop :: "proc_env \<Rightarrow> string \<Rightarrow> proc_state \<Rightarrow> proc_err option \<times> proc_state" where
  "SignalStop env name s =
     (case ReadPID env s of
        (Inl e, s1) \<Rightarrow> (Some e, s1)
      | (Inr pid, s1) \<Rightarrow>
          if pid \<le> 0 then (Some (NonPositivePid pid), s1)
          else (case Kill env SIGTERM pid s1 of
                  (Delivered, s2) \<Rightarrow>
                    (case waitForExit env pid stopGracefulTimeout
                            (print (''sent SIGTERM to '' @ name @ '' (pid '' @ show_int pid @ '')'') s2) of
                       (True, s3) \<Rightarrow> (None, print (stopped_line name pid) s3)
                     | (False, s3) \<Rightarrow> escalate env name pid s3)
                | (NoProcess, s2) \<Rightarrow> (None, print (stopped_line name pid) s2)
                | (_, s2) \<Rightarrow> (Some (SendFailed SIGTERM pid), s2)))"

definition ReportStatus :: "proc_env \<Rightarrow> string \<Rightarrow> proc_state \<Rightarrow> proc_err option \<times> proc_state" where
  "ReportStatus env name s =
     (case CheckRunning env s of
        (Inl e, s1) \<Rightarrow> (Some (InspectPidfile e), s1)
      | (Inr (pid, alive), s1) \<Rightarrow>
          (None, if alive then print (name @ '' is running (pid '' @ show_int pid @ '')'') s1
                 else print (name @ '' is not running'') s1))"

subsection \<open>Detaching\<close>

text \<open>The end of the log for an error, \<open>None\<close> when it cannot be read.\<close>

definition tailMaxBytes :: nat where "tailMaxBytes = 64 * 1024"

definition tail_lines :: "nat \<Rightarrow> string \<Rightarrow> string list" where
  "tail_lines n content =
     (let cut = length content - tailMaxBytes; d = drop cut content;
          d1 = (if 0 < cut \<and> CHR 0x0A \<in> set d then tl (dropWhile (\<lambda>c. c \<noteq> CHR 0x0A) d) else d);
          ls = split_on (CHR 0x0A) (rev (dropWhile (\<lambda>c. c = CHR 0x0A) (rev d1)))
      in drop (length ls - n) ls)"

fun join_lines :: "string list \<Rightarrow> string" where
  "join_lines [] = []"
| "join_lines [l] = l"
| "join_lines (l # ls) = l @ nl @ join_lines ls"

definition tailFile :: "nat \<Rightarrow> string option \<Rightarrow> string" where
  "tailFile n log =
     (case log of
        None \<Rightarrow> ''(log unavailable)''
      | Some content \<Rightarrow> ''--- last '' @ show_int (int n) @ '' log lines ---'' @ nl @ join_lines (tail_lines n content))"

text \<open>
  What happens to the child of \<open>Spawn\<close>: the preparations before the fork, the child's pid, whether
  it has exited by a poll, how many polls the clock allows before the deadline, and its log.
\<close>

record spawn_env =
  sp_prepared :: bool
  sp_child :: "int option"
  sp_exited :: "nat \<Rightarrow> bool"
  sp_polls :: nat
  sp_log :: "nat \<Rightarrow> string option"

fun await_ready :: "proc_env \<Rightarrow> spawn_env \<Rightarrow> int \<Rightarrow> nat \<Rightarrow> proc_state \<Rightarrow> proc_err option \<times> proc_state" where
  "await_ready env sp child n s =
     (if sp_exited sp (tick s) then (Some (DaemonExited (tailFile 20 (sp_log sp (tick s)))), s)
      else (case CheckRunning env s of
              (Inl e, s1) \<Rightarrow> (Some (CheckPidfile e), s1)
            | (Inr (pid, alive), s1) \<Rightarrow>
                if alive \<and> pid = child then (None, print (''started (pid '' @ show_int pid @ '')'') s1)
                else (case n of
                        0 \<Rightarrow> (let s2 = snd (Kill env SIGKILL child s1) in (Some (NotReady (tailFile 20 (sp_log sp (tick s2)))), s2))
                      | Suc m \<Rightarrow> await_ready env sp child m s1)))"

declare await_ready.simps [simp del]

definition Spawn :: "proc_env \<Rightarrow> bool \<Rightarrow> spawn_env \<Rightarrow> proc_state \<Rightarrow> proc_err option \<times> proc_state" where
  "Spawn env isChild sp s =
     (if isChild then (Some SpawnFromChild, s)
      else if \<not> sp_prepared sp then (Some SpawnSetup, s)
      else (case sp_child sp of
              None \<Rightarrow> (Some StartDaemon, s)
            | Some child \<Rightarrow> await_ready env sp child (sp_polls sp) s))"

definition stripDaemonFlag :: "string list \<Rightarrow> string list" where
  "stripDaemonFlag argv = filter (\<lambda>a. \<not> (a = ''--daemon'' \<or> a = ''-d'' \<or> prefix ''--daemon='' a)) argv"

text \<open>The child's arguments: the caller's when there are any.\<close>

definition child_args :: "string list \<Rightarrow> string list \<Rightarrow> string list" where
  "child_args ChildArgs argv = (if ChildArgs = [] then stripDaemonFlag argv else ChildArgs)"

subsection \<open>start, restart, stop, status\<close>

record run_opts =
  ro_daemon :: bool
  ro_is_child :: bool
  ro_dir_ok :: bool
  ro_logger_ok :: bool
  ro_created :: bool
  ro_ready :: bool
  ro_fails :: bool
  ro_spawn :: spawn_env

text \<open>
  \<open>Run\<close> of the daemon or \<open>Start\<close> of the hub, as the commands see it: it calls \<open>OnReady\<close> or not, and
  returns an error or not; then the deferred removal of the PID file.
\<close>

definition run_with_pid_file :: "proc_env \<Rightarrow> run_opts \<Rightarrow> proc_err \<Rightarrow> proc_state \<Rightarrow> proc_err option \<times> proc_state" where
  "run_with_pid_file env opts err s =
     (let s1 = (if ro_ready opts
                then (case WritePIDFile env s of
                        (None, s1) \<Rightarrow> s1 | (Some e, s1) \<Rightarrow> print ''warning: write pid file'' s1)
                else s)
      in (if ro_fails opts then Some err else None, RemovePidFile env s1))"

definition runAgent :: "proc_env \<Rightarrow> run_opts \<Rightarrow> proc_state \<Rightarrow> proc_err option \<times> proc_state" where
  "runAgent env opts s =
     (case CheckRunning env s of
        (Inl e, s1) \<Rightarrow> (Some (CheckExisting e), s1)
      | (Inr (pid, alive), s1) \<Rightarrow>
          if alive then (Some (AlreadyRunning pid), s1)
          else if ro_daemon opts \<and> \<not> ro_is_child opts
          then (if \<not> ro_dir_ok opts then (Some CreateDataDir, s1) else Spawn env (ro_is_child opts) (ro_spawn opts) s1)
          else if \<not> ro_logger_ok opts then (Some SetupLogger, s1)
          else if \<not> ro_created opts then (Some CreateDaemon, s1)
          else run_with_pid_file env opts DaemonRun s1)"

definition restart :: "proc_env \<Rightarrow> run_opts \<Rightarrow> proc_state \<Rightarrow> proc_err option \<times> proc_state" where
  "restart env opts s =
     (case CheckRunning env s of
        (Inl e, s1) \<Rightarrow> (Some (CheckExisting e), s1)
      | (Inr (pid, alive), s1) \<Rightarrow>
          if alive
          then (case SignalStop env ''agent'' s1 of
                  (Some e, s2) \<Rightarrow> (Some (StopFailed e), s2)
                | (None, s2) \<Rightarrow> runAgent env opts s2)
          else runAgent env opts (print ''agent is not running; starting a new daemon'' s1))"

text \<open>The flags of the hub's start that are resolved against its configuration file.\<close>

record hub_flags =
  hfl_cli :: hub_cli
  hfl_retention :: "string \<times> bool"
  hfl_timeout :: "string \<times> bool"

definition hub_settings :: "hub_flags \<Rightarrow> setting_err + duration \<times> duration \<times> duration" where
  "hub_settings f =
     (case resolveDeviceRetention (hfl_cli f) (fst (hfl_retention f)) (snd (hfl_retention f)) of
        Inl e \<Rightarrow> Inl e
      | Inr retention \<Rightarrow>
          (case resolveJoinTokenTTL (hfl_cli f) of
             Inl e \<Rightarrow> Inl e
           | Inr ttl \<Rightarrow>
               (case resolveHeartbeatTimeout (hfl_cli f) (fst (hfl_timeout f)) (snd (hfl_timeout f)) of
                  Inl e \<Rightarrow> Inl e
                | Inr timeout \<Rightarrow> Inr (retention, ttl, timeout))))"

definition hub_start :: "proc_env \<Rightarrow> hub_flags \<Rightarrow> run_opts \<Rightarrow> proc_state \<Rightarrow> proc_err option \<times> proc_state" where
  "hub_start env f opts s =
     (case CheckRunning env s of
        (Inl e, s1) \<Rightarrow> (Some (CheckExisting e), s1)
      | (Inr (pid, alive), s1) \<Rightarrow>
          if alive then (Some (AlreadyRunning pid), s1)
          else if ro_daemon opts \<and> \<not> ro_is_child opts
          then (if \<not> ro_dir_ok opts then (Some CreateDataDir, s1) else Spawn env (ro_is_child opts) (ro_spawn opts) s1)
          else (case hub_settings f of
                  Inl e \<Rightarrow> (Some (BadSetting e), s1)
                | Inr settings \<Rightarrow>
                    if \<not> ro_created opts then (Some CreateHub, s1)
                    else run_with_pid_file env opts HubStart s1))"

end
