(* ===== verification/DaemonizeProps.thy ===== *)
theory DaemonizeProps
  imports Daemonize
begin

text \<open>
  What the commands over the PID file do to the processes of the machine: whom they signal and
  when they report a process gone, what a second start does, what a restart waits for, and what
  the deferred removal of the PID file removes.
\<close>

definition recorded_pid :: "machine \<Rightarrow> int option" where
  "recorded_pid m = (case pid_file m of None \<Rightarrow> None | Some c \<Rightarrow> Atoi (TrimSpace c))"

text \<open>The machine as the next call finds it.\<close>

definition upcoming :: "proc_env \<Rightarrow> proc_state \<Rightarrow> machine" where
  "upcoming env s = pe_meanwhile env (ps_seen s) (ps_sent s) (ps_machine s)"

lemma meanwhile_fields [simp]:
  "ps_machine (meanwhile env s) = upcoming env s" "ps_seen (meanwhile env s) = ps_seen s @ [upcoming env s]"
  "ps_sent (meanwhile env s) = ps_sent s" "ps_out (meanwhile env s) = ps_out s"
  by (simp_all add: meanwhile_def upcoming_def Let_def)

lemma print_fields [simp]:
  "ps_machine (print l s) = ps_machine s" "ps_seen (print l s) = ps_seen s" "ps_sent (print l s) = ps_sent s"
  by (simp_all add: print_def)

lemma Kill_effect:
  assumes "Kill env sig pid s = (a, s')"
  shows "ps_machine s' = upcoming env s \<and> ps_seen s' = ps_seen s @ [upcoming env s] \<and> a = answers (upcoming env s) pid \<and>
    ps_sent s' = (if a = Delivered \<and> sig \<noteq> Sig0 then ps_sent s @ [(sig, pid)] else ps_sent s)"
  using assms by (auto simp: Kill_def Let_def)

lemma ReadPID_effect:
  assumes "ReadPID env s = (r, s1)"
  shows "s1 = meanwhile env s \<and> (\<forall>pid. r = Inr pid \<longrightarrow> recorded_pid (upcoming env s) = Some pid)"
  using assms by (auto simp: ReadPID_def ReadPidFile_def Let_def recorded_pid_def split: file_text.splits option.splits if_splits)

lemma CheckRunning_effect:
  assumes "CheckRunning env s = (r, s')"
  shows "ps_sent s' = ps_sent s \<and> (\<exists>ms. ps_seen s' = ps_seen s @ upcoming env s # ms) \<and>
    (\<forall>pid. r = Inr (pid, True) \<longrightarrow> recorded_pid (upcoming env s) = Some pid \<and>
       answers (ps_machine s') pid \<in> {Delivered, NotPermitted} \<and> ps_seen s' = ps_seen s @ [upcoming env s, ps_machine s'])"
proof -
  obtain t s1 where t: "ReadPidFile env s = (t, s1)" by fastforce
  then have s1: "s1 = meanwhile env s" by (simp add: ReadPidFile_def Let_def)
  show ?thesis
  proof (cases "\<exists>c pid. t = Text c \<and> Atoi (TrimSpace c) = Some pid")
    case False
    then show ?thesis using assms t s1 by (cases t) (auto simp: CheckRunning_def split: option.splits)
  next
    case True
    then obtain c pid where c: "t = Text c" "Atoi (TrimSpace c) = Some pid" by blast
    have rec: "recorded_pid (upcoming env s) = Some pid"
      using t c by (auto simp: ReadPidFile_def Let_def recorded_pid_def split: option.splits if_splits)
    obtain a s2 where k: "Kill env Sig0 pid s1 = (a, s2)" by fastforce
    note e = Kill_effect [OF k]
    have "ps_sent (RemovePidFile env s2) = ps_sent s2" "ps_seen (RemovePidFile env s2) = ps_seen s2 @ [upcoming env s2]"
      by (simp_all add: RemovePidFile_def set_pid_file_def Let_def)
    then show ?thesis using assms t c k e s1 rec by (cases a) (simp_all add: CheckRunning_def, auto)
  qed
qed

subsection \<open>Stopping\<close>

lemma poll_exit_effect:
  "poll_exit env pid n s = (ended, s') \<Longrightarrow>
   ps_sent s' = ps_sent s \<and> (ended \<longrightarrow> answers (ps_machine s') pid = NoProcess) \<and>
   (\<not> ended \<longrightarrow> length (ps_seen s') = length (ps_seen s) + n \<and> (\<forall>m \<in> set (drop (length (ps_seen s)) (ps_seen s')). answers m pid \<noteq> NoProcess)) \<and>
   (\<exists>ms. ps_seen s' = ps_seen s @ ms)"
proof (induction n arbitrary: s)
  case (Suc n)
  obtain a s1 where k: "Kill env Sig0 pid s = (a, s1)" by fastforce
  note e = Kill_effect [OF k]
  show ?case
  proof (cases "a = NoProcess")
    case True
    then show ?thesis using Suc.prems k e by auto
  next
    case False
    then have "poll_exit env pid n s1 = (ended, s')" using Suc.prems k by (cases a) simp_all
    from Suc.IH [OF this] show ?thesis using e False by auto
  qed
qed simp

lemma waitForExit_effect:
  "waitForExit env pid t s = (ended, s') \<Longrightarrow>
   ps_sent s' = ps_sent s \<and> (ended \<longrightarrow> answers (ps_machine s') pid = NoProcess) \<and>
   (\<exists>ms. ps_seen s' = ps_seen s @ ms \<and>
     (\<not> ended \<longrightarrow> length ms = pe_polls env t \<and> (\<forall>m \<in> set ms. answers m pid \<noteq> NoProcess)))"
  using poll_exit_effect [of env pid "pe_polls env t" s ended s'] by (auto simp: waitForExit_def)

lemma escalate_effect:
  assumes "escalate env name pid s = (r, s')"
  shows "(r = None \<longrightarrow> answers (ps_machine s') pid = NoProcess) \<and> (\<exists>ms. ps_seen s' = ps_seen s @ ms) \<and>
    ps_sent s' \<in> {ps_sent s, ps_sent s @ [(SIGKILL, pid)]}"
  using assms
  by (auto simp: escalate_def split: prod.splits sig_answer.splits bool.splits dest!: Kill_effect waitForExit_effect)

lemma SignalStop_effect:
  assumes "SignalStop env name s = (r, s')"
  shows "(r = None \<longrightarrow> (\<exists>pid > 0. recorded_pid (upcoming env s) = Some pid \<and> answers (ps_machine s') pid = NoProcess)) \<and>
    (ps_sent s' = ps_sent s \<or>
     (\<exists>pid > 0. recorded_pid (upcoming env s) = Some pid \<and>
        (ps_sent s' = ps_sent s @ [(SIGTERM, pid)] \<or>
         ps_sent s' = ps_sent s @ [(SIGTERM, pid), (SIGKILL, pid)] \<and>
         (\<exists>before polls after. ps_seen s' = ps_seen s @ before @ polls @ after \<and> length polls = pe_polls env stopGracefulTimeout \<and>
            (\<forall>m \<in> set polls. answers m pid \<noteq> NoProcess)))))"
proof -
  obtain q s1 where q: "ReadPID env s = (q, s1)" by fastforce
  note read = ReadPID_effect [OF q]
  show ?thesis
  proof (cases "\<exists>pid > 0. q = Inr pid")
    case False
    then show ?thesis using assms q read by (auto simp: SignalStop_def not_less split: sum.splits if_splits)
  next
    case True
    then obtain pid where pid: "q = Inr pid" "0 < pid" by blast
    obtain a s2 where k: "Kill env SIGTERM pid s1 = (a, s2)" by fastforce
    note kills = Kill_effect [OF k]
    let ?said = "print (''sent SIGTERM to '' @ name @ '' (pid '' @ show_int pid @ '')'') s2"
    obtain ended s3 where w: "waitForExit env pid stopGracefulTimeout ?said = (ended, s3)" by fastforce
    note polls = waitForExit_effect [OF w]
    show ?thesis
    proof (cases "a = Delivered \<and> \<not> ended")
      case False
      then show ?thesis using assms q k w read kills polls pid
        by (cases a) (auto simp: SignalStop_def)
    next
      case True
      then have esc: "escalate env name pid s3 = (r, s')" using assms q k w pid by (simp add: SignalStop_def)
      obtain ms where ms: "ps_seen s3 = ps_seen s2 @ ms" "length ms = pe_polls env stopGracefulTimeout"
        "\<forall>m \<in> set ms. answers m pid \<noteq> NoProcess" using polls True by auto
      obtain after where "ps_seen s' = ps_seen s @ [upcoming env s, upcoming env s1] @ ms @ after"
        using escalate_effect [OF esc] ms(1) kills read by auto
      then have "\<exists>before polls after. ps_seen s' = ps_seen s @ before @ polls @ after \<and>
          length polls = pe_polls env stopGracefulTimeout \<and> (\<forall>m \<in> set polls. answers m pid \<noteq> NoProcess)"
        using ms(2,3) by blast
      moreover have "ps_sent s' = ps_sent s @ [(SIGTERM, pid)] \<or> ps_sent s' = ps_sent s @ [(SIGTERM, pid), (SIGKILL, pid)]"
        using escalate_effect [OF esc] kills polls read True by auto
      moreover have "recorded_pid (upcoming env s) = Some pid" "r = None \<longrightarrow> answers (ps_machine s') pid = NoProcess"
        using escalate_effect [OF esc] read pid by auto
      ultimately show ?thesis using pid(2) by blast
    qed
  qed
qed

text \<open>
  C28: stopping signals nobody but the process the PID file names, never a process group: at most one
  SIGTERM and after it at most one SIGKILL, the latter only after every poll of the graceful
  timeout found the process there; and success means that a call found no such process.
\<close>

theorem stop_is_careful:
  assumes "SignalStop env name s = (r, s')"
  shows "(r = None \<longrightarrow> (\<exists>pid > 0. recorded_pid (upcoming env s) = Some pid \<and> answers (ps_machine s') pid = NoProcess)) \<and>
    (ps_sent s' = ps_sent s \<or>
     (\<exists>pid > 0. recorded_pid (upcoming env s) = Some pid \<and>
        (ps_sent s' = ps_sent s @ [(SIGTERM, pid)] \<or>
         ps_sent s' = ps_sent s @ [(SIGTERM, pid), (SIGKILL, pid)] \<and>
         (\<exists>before polls after. ps_seen s' = ps_seen s @ before @ polls @ after \<and> length polls = pe_polls env stopGracefulTimeout \<and>
            (\<forall>m \<in> set polls. answers m pid \<noteq> NoProcess)))))"
  using SignalStop_effect [OF assms] .

definition polite_env :: proc_env where
  "polite_env = \<lparr>pe_meanwhile = (\<lambda>_ done m. if (SIGTERM, 77) \<in> set done then m\<lparr>answers := \<lambda>_. NoProcess\<rparr> else m),
     pe_unreadable = (\<lambda>_. False), pe_unremovable = (\<lambda>_. False), pe_unwritable = (\<lambda>_. False), pe_polls = (\<lambda>_. 2), pe_pid = 42\<rparr>"

definition running_state :: proc_state where
  "running_state = \<lparr>ps_machine = \<lparr>pid_file = Some (''77'' @ nl), answers = (\<lambda>p. if p = 77 then Delivered else NoProcess)\<rparr>,
     ps_seen = [], ps_sent = [], ps_out = []\<rparr>"

definition plain_opts :: run_opts where
  "plain_opts = \<lparr>ro_daemon = False, ro_is_child = False, ro_dir_ok = True, ro_logger_ok = True, ro_created = True,
     ro_ready = False, ro_fails = True,
     ro_spawn = \<lparr>sp_prepared = True, sp_child = Some 43, sp_exited = (\<lambda>_. False), sp_polls = 1, sp_log = (\<lambda>_. None)\<rparr>\<rparr>"

definition default_flags :: hub_flags where
  "default_flags = \<lparr>hfl_cli = \<lparr>hc_parse = (\<lambda>_. None), hc_float = (\<lambda>_ _ _. 0), hc_file = NoSuchFile\<rparr>,
     hfl_retention = (retention_default, False), hfl_timeout = (heartbeat_default, False)\<rparr>"

lemma sample_pid: "Atoi (TrimSpace (CHR ''7'' # CHR ''7'' # nl)) = Some 77"
  by code_simp

lemmas process_defs = ReadPID_def ReadPidFile_def Kill_def meanwhile_def Let_def polite_env_def running_state_def sample_pid
  print_def RemovePidFile_def set_pid_file_def

lemma stop_is_careful_witness:
  "case SignalStop polite_env ''hub'' running_state of
     (r, s') \<Rightarrow> r = None \<and> ps_sent s' = [(SIGTERM, 77)] \<and> answers (ps_machine s') 77 = NoProcess"
proof -
  obtain r s' where stop: "SignalStop polite_env ''hub'' running_state = (r, s')" by fastforce
  moreover have "r = None" "ps_sent s' = [(SIGTERM, 77)]" using stop
    by (auto simp: SignalStop_def process_defs waitForExit_def numeral_2_eq_2)
  moreover have "recorded_pid (upcoming polite_env running_state) = Some 77"
    by (simp add: recorded_pid_def upcoming_def process_defs)
  ultimately show ?thesis using stop_is_careful [OF stop] by simp
qed

subsection \<open>Starting and restarting\<close>

text \<open>What \<open>WritePIDFile\<close> writes is read back.\<close>

lemma digit_no_space: "is_digit ch \<Longrightarrow> \<not> is_space ch"
  by (auto simp: is_digit_def is_space_def Let_def)

lemma TrimSpace_digits: "list_all is_digit ds \<Longrightarrow> ds \<noteq> [] \<Longrightarrow> TrimSpace (ds @ nl) = ds"
proof -
  assume ds: "list_all is_digit ds" "ds \<noteq> []"
  then obtain c cs where c: "ds = c # cs" "\<not> is_space c" using digit_no_space by (cases ds) auto
  obtain d es where d: "rev ds = d # es" using ds(2) by (cases "rev ds") auto
  then have "d \<in> set ds" by (metis list.set_intros(1) set_rev)
  then have "\<not> is_space d" using ds(1) digit_no_space by (auto simp: list_all_iff)
  moreover have "is_space (CHR 0x0A)" by (simp add: is_space_def)
  ultimately show ?thesis using c d by (simp add: TrimSpace_def trim_by_def nl_def) (metis rev.simps(2) rev_rev_ident)
qed

lemma Atoi_written:
  assumes "0 \<le> pid" and "pid < 2 ^ 63"
  shows "Atoi (TrimSpace (show_int pid @ nl)) = Some pid"
proof -
  let ?ds = "digits (nat pid)"
  have ds: "list_all is_digit ?ds" "?ds \<noteq> []" "number ?ds = nat pid" using digits_read [of "nat pid"] by (auto simp: number_def)
  then obtain c cs where c: "?ds = c # cs" "is_digit c" by (cases ?ds) auto
  then have "c \<noteq> CHR ''-''" "c \<noteq> CHR ''+''" by (auto simp: is_digit_def Let_def)
  then have "Atoi ?ds = Some pid" using ds c assms by (simp add: Atoi_def Let_def)
  then show ?thesis using assms TrimSpace_digits [OF ds(1,2)] by (simp add: show_int_def)
qed

text \<open>
  A daemon that wrote its PID file keeps others out while it runs: as long as the file is as it
  wrote it and its process answers, another start of the agent or of the hub is refused, detached
  or not, and the status reports it; nobody is signalled and the file stays.
\<close>

theorem running_instance_is_kept:
  assumes "WritePIDFile own s0 = (None, s)" and "pe_pid own = pid" and "0 < pid" and "pid < 2 ^ 63"
    and "pid_file (upcoming env s) = pid_file (ps_machine s)" and "\<not> pe_unreadable env (tick s)"
    and "answers (upcoming env (meanwhile env s)) pid \<in> {Delivered, NotPermitted}"
  shows "\<exists>s'. runAgent env opts s = (Some (AlreadyRunning pid), s') \<and> hub_start env f opts s = (Some (AlreadyRunning pid), s') \<and>
    ReportStatus env name s = (None, print (name @ '' is running (pid '' @ show_int pid @ '')'') s') \<and>
    ps_sent s' = ps_sent s \<and> ps_machine s' = upcoming env (meanwhile env s)"
proof -
  have c: "pid_file (upcoming env s) = Some (show_int pid @ nl)"
    using assms(1,2,5) by (auto simp: WritePIDFile_def set_pid_file_def Let_def split: if_splits)
  have "CheckRunning env s = (Inr (pid, True), meanwhile env (meanwhile env s))"
    using c assms(6,7) Atoi_written [of pid] assms(3,4) by (auto simp: CheckRunning_def ReadPidFile_def Kill_def Let_def)
  then show ?thesis by (simp add: runAgent_def hub_start_def ReportStatus_def)
qed

lemma running_instance_is_kept_witness:
  "case WritePIDFile (polite_env\<lparr>pe_pid := 77\<rparr>) running_state of
     (e, s) \<Rightarrow> e = None \<and> (\<exists>s'. hub_start polite_env default_flags plain_opts s = (Some (AlreadyRunning 77), s') \<and> ps_sent s' = [])"
proof -
  obtain s where w: "WritePIDFile (polite_env\<lparr>pe_pid := 77\<rparr>) running_state = (None, s)"
    by (simp add: WritePIDFile_def polite_env_def Let_def)
  then have s: "s = set_pid_file (Some (show_int 77 @ nl)) (meanwhile (polite_env\<lparr>pe_pid := 77\<rparr>) running_state)"
    by (simp add: WritePIDFile_def polite_env_def Let_def)
  have "pid_file (upcoming polite_env s) = pid_file (ps_machine s)" "\<not> pe_unreadable polite_env (tick s)" "ps_sent s = []"
    "answers (upcoming polite_env (meanwhile polite_env s)) 77 \<in> {Delivered, NotPermitted}"
    by (simp_all add: s set_pid_file_def upcoming_def polite_env_def running_state_def)
  then show ?thesis using running_instance_is_kept [OF w, of 77 polite_env plain_opts default_flags] w by fastforce
qed

text \<open>
  A restart starts a new daemon only after a call has found the process of the PID file gone;
  when stopping it fails, nothing is started.
\<close>

theorem restart_replaces_only_the_dead:
  assumes "restart env opts s = (r, s')" and "CheckRunning env s = (Inr (pid, True), s1)"
  shows "(\<exists>e. SignalStop env ''agent'' s1 = (Some e, s') \<and> r = Some (StopFailed e)) \<or>
    (\<exists>p > 0. \<exists>s2. recorded_pid (upcoming env s1) = Some p \<and> answers (ps_machine s2) p = NoProcess \<and>
       SignalStop env ''agent'' s1 = (None, s2) \<and> runAgent env opts s2 = (r, s'))"
proof -
  obtain q s2 where q: "SignalStop env ''agent'' s1 = (q, s2)" by fastforce
  show ?thesis using assms q SignalStop_effect [OF q] by (cases q) (auto simp: restart_def)
qed

lemma restart_replaces_only_the_dead_witness:
  "case restart polite_env plain_opts running_state of
     (r, s') \<Rightarrow> r = Some DaemonRun \<and> (\<exists>s2. answers (ps_machine s2) 77 = NoProcess \<and> runAgent polite_env plain_opts s2 = (r, s'))"
proof -
  obtain r s' where restart: "restart polite_env plain_opts running_state = (r, s')" by fastforce
  obtain s1 where check: "CheckRunning polite_env running_state = (Inr (77, True), s1)" "recorded_pid (upcoming polite_env s1) = Some 77"
    by (simp add: CheckRunning_def recorded_pid_def upcoming_def process_defs)
  have "r = Some DaemonRun" using restart
    by (auto simp: restart_def SignalStop_def CheckRunning_def runAgent_def run_with_pid_file_def plain_opts_def process_defs
        waitForExit_def numeral_2_eq_2)
  then show ?thesis using restart_replaces_only_the_dead [OF restart check(1)] check(2) restart by auto
qed

subsection \<open>Detaching\<close>

lemma await_ready_effect:
  "await_ready env sp child n s = (r, s') \<Longrightarrow>
   (r = None \<longrightarrow> (\<exists>before m m'. ps_seen s' = ps_seen s @ before @ [m, m'] \<and> recorded_pid m = Some child \<and>
      answers m' child \<in> {Delivered, NotPermitted})) \<and>
   (ps_sent s' = ps_sent s \<or> ps_sent s' = ps_sent s @ [(SIGKILL, child)] \<and> (\<exists>log. r = Some (NotReady log))) \<and>
   (\<exists>ms. ps_seen s' = ps_seen s @ ms)"
proof (induction n arbitrary: s)
  case 0
  then show ?case
    by (auto simp: await_ready.simps [of env sp child 0] Let_def split: if_splits sum.splits prod.splits
        dest!: CheckRunning_effect) (auto simp: Kill_def Let_def split: if_splits)
next
  case (Suc n)
  obtain q s1 where q: "CheckRunning env s = (q, s1)" by fastforce
  note e = CheckRunning_effect [OF q]
  show ?case
  proof (cases "await_ready env sp child n s1 = (r, s') \<and> \<not> sp_exited sp (tick s)")
    case True
    then show ?thesis using Suc.IH [of s1] e by (auto; blast)
  next
    case False
    then show ?thesis using Suc.prems q e
      by (auto simp: await_ready.simps [of env sp child "Suc n"] split: if_splits sum.splits prod.splits)
  qed
qed

text \<open>
  A detached start reports success only when the PID file named its own child and that process
  answered; it signals nobody but that child, and that only when the time is up.
\<close>

theorem spawn_reports_its_child:
  assumes "Spawn env isChild sp s = (r, s')"
  shows "(r = None \<longrightarrow> (\<exists>child before m m'. sp_child sp = Some child \<and> ps_seen s' = ps_seen s @ before @ [m, m'] \<and>
      recorded_pid m = Some child \<and> answers m' child \<in> {Delivered, NotPermitted})) \<and>
    (ps_sent s' = ps_sent s \<or>
     (\<exists>child log. sp_child sp = Some child \<and> r = Some (NotReady log) \<and> ps_sent s' = ps_sent s @ [(SIGKILL, child)]))"
  using assms by (auto simp: Spawn_def split: if_splits option.splits dest!: await_ready_effect)

subsection \<open>Two starts at once\<close>

lemma spawn_other:
  "Spawn env b sp s \<noteq> (Some HubStart, s') \<and> Spawn env b sp s \<noteq> (Some DaemonRun, s')"
proof -
  have "fst (await_ready env sp child n s) \<noteq> Some HubStart \<and> fst (await_ready env sp child n s) \<noteq> Some DaemonRun" for child n
    by (induction n arbitrary: s) (simp_all add: await_ready.simps [of env sp child] Let_def split: sum.split prod.split)
  then show ?thesis by (auto simp: Spawn_def prod_eq_iff split: option.splits)
qed

text \<open>
  A start that fails removes the PID file whoever wrote it. When two starts pass the check and
  the second one fails, the first keeps running without a PID file: the status says it is not
  running, stop cannot find it, and the next start is not refused.
\<close>

theorem failed_start_forgets_the_other:
  assumes "hub_start env f opts s = (Some HubStart, s') \<or> runAgent env opts s = (Some DaemonRun, s')"
    and "pe_unremovable env = (\<lambda>_. False)" and "pe_meanwhile later = (\<lambda>_ _ m. m)"
    and "recorded_pid (last (ps_seen s')) = Some other" and "answers (last (ps_seen s')) other = Delivered"
  shows "answers (ps_machine s') other = Delivered \<and> fst (CheckRunning later s') = Inr (0, False) \<and>
    fst (SignalStop later name s') = Some ReadPidfile \<and>
    ReportStatus later name s' = (None, print (name @ '' is not running'') (meanwhile later s'))"
proof -
  obtain s1 err where "run_with_pid_file env opts err s1 = (Some err, s')"
    using assms(1)
    by (auto simp: hub_start_def runAgent_def spawn_other split: prod.splits sum.splits if_splits)
  then obtain s2 where s': "s' = RemovePidFile env s2" by (auto simp: run_with_pid_file_def Let_def)
  then have "ps_machine s' = (last (ps_seen s'))\<lparr>pid_file := None\<rparr>"
    using assms(2) by (simp add: RemovePidFile_def set_pid_file_def Let_def)
  then show ?thesis using assms(3,5)
    by (simp add: CheckRunning_def SignalStop_def ReportStatus_def ReadPID_def ReadPidFile_def Let_def upcoming_def)
qed

definition other_hub_env :: proc_env where
  "other_hub_env = polite_env\<lparr>pe_meanwhile := (\<lambda>seen done m. if seen = [] then m
     else m\<lparr>pid_file := Some (''77'' @ nl), answers := (\<lambda>p. if p = 77 then Delivered else NoProcess)\<rparr>)\<rparr>"

definition first_state :: proc_state where
  "first_state = \<lparr>ps_machine = \<lparr>pid_file = None, answers = (\<lambda>p. NoProcess)\<rparr>, ps_seen = [], ps_sent = [], ps_out = []\<rparr>"

lemma default_settings: "hub_settings default_flags = Inr (604800 * second, 10 * minute, 30 * second)"
  by (simp add: hub_settings_def default_flags_def resolveDeviceRetention_def resolveHeartbeatTimeout_def resolveJoinTokenTTL_def
      resolve_with_def LoadHubConfigFile_def empty_file_def retention_default_def heartbeat_default_def parsed_defaults duration_defs)

lemma failed_start_forgets_the_other_witness:
  "case hub_start other_hub_env default_flags plain_opts first_state of
     (r, s') \<Rightarrow> r = Some HubStart \<and> answers (ps_machine s') 77 = Delivered \<and>
       fst (SignalStop (polite_env\<lparr>pe_meanwhile := (\<lambda>_ _ m. m)\<rparr>) ''hub'' s') = Some ReadPidfile"
proof -
  obtain s' where start: "hub_start other_hub_env default_flags plain_opts first_state = (Some HubStart, s')"
    and seen: "recorded_pid (last (ps_seen s')) = Some 77" "answers (last (ps_seen s')) 77 = Delivered"
    by (simp add: hub_start_def CheckRunning_def default_settings plain_opts_def run_with_pid_file_def first_state_def
        other_hub_env_def recorded_pid_def process_defs)
  then show ?thesis
    using failed_start_forgets_the_other [OF disjI1, OF start _ _ seen, of "polite_env\<lparr>pe_meanwhile := (\<lambda>_ _ m. m)\<rparr>" "''hub''"]
    by (simp add: other_hub_env_def polite_env_def)
qed

lemma spawn_reports_its_child_witness:
  "case Spawn (other_hub_env\<lparr>pe_pid := 1\<rparr>) False ((ro_spawn plain_opts)\<lparr>sp_child := Some 77\<rparr>) first_state of
     (r, s') \<Rightarrow> r = None \<and> ps_sent s' = [] \<and> answers (last (ps_seen s')) 77 \<in> {Delivered, NotPermitted}"
proof -
  let ?env = "other_hub_env\<lparr>pe_pid := 1\<rparr>" and ?sp = "(ro_spawn plain_opts)\<lparr>sp_child := Some 77\<rparr>"
  obtain r s' where spawn: "Spawn ?env False ?sp first_state = (r, s')" by fastforce
  have "r = None" "ps_sent s' = []" using spawn
    by (auto simp: Spawn_def await_ready.simps CheckRunning_def plain_opts_def first_state_def other_hub_env_def process_defs)
  then show ?thesis using spawn_reports_its_child [OF spawn] spawn by auto
qed

end
