(* ===== verification/HubSignals.thy ===== *)
theory HubSignals
  imports Prelude
begin

text \<open>
  The end of the hub's process (cmd/hubfuse-hub/main.go): the goroutine \<open>awaitTermination\<close>, the
  goroutine it starts to run \<open>Stop\<close>, and the rest of the command after \<open>Start\<close> returns, as a step
  relation over their shared flags and channels. Signals may arrive at any time; \<open>Stop\<close> may
  settle or not, and \<open>Start\<close> may fail on its own.
\<close>

subsection \<open>The three goroutines\<close>

datatype waiter = AwaitSignal | Cancelling | Selecting | SecondSignal | AwaitShutdown | Aborting | WaiterDone

datatype stopper = NotStopping | Stopping | StopReturned bool | Recorded | DoneClosed | StopperDone | Unsettled

datatype main_state = Starting | StartReturned bool | AwaitDone bool | Leaving bool

text \<open>
  \<open>sig_pending\<close> is the buffer of \<open>sigCh\<close>; \<open>te_pid_file\<close> whether this hub's PID file is there and
  \<open>te_ready\<close> whether \<open>OnReady\<close> was called; \<open>te_exit\<close> is the process's exit code. The boolean of
  \<open>main_state\<close> is whether \<open>Start\<close> returned an error, that of \<open>StopReturned\<close> is \<open>settled\<close>.
\<close>

record hub_process =
  sig_pending :: bool
  te_signaled :: bool
  te_cancelled :: bool
  te_succeeded :: bool
  shutting_down_closed :: bool
  done_closed :: bool
  te_waiter :: waiter
  te_stopper :: stopper
  te_main :: main_state
  te_ready :: bool
  te_pid_file :: bool
  te_exit :: "nat option"

definition initial :: hub_process where
  "initial = \<lparr>sig_pending = False, te_signaled = False, te_cancelled = False, te_succeeded = False,
     shutting_down_closed = False, done_closed = False, te_waiter = AwaitSignal, te_stopper = NotStopping,
     te_main = Starting, te_ready = False, te_pid_file = False, te_exit = None\<rparr>"

datatype who = Os | Waiter | Stopper | Main

text \<open>
  Nothing moves after the exit. \<open>OnReady\<close> is called under the hub's lock and not once \<open>Stop\<close> has
  returned; \<open>Start\<close> returns without an error only when \<open>Stop\<close> has been called.
\<close>

inductive term_step :: "who \<Rightarrow> hub_process \<Rightarrow> hub_process \<Rightarrow> bool" where
  signal: "te_exit s = None \<Longrightarrow> term_step Os s (s\<lparr>sig_pending := True\<rparr>)"
| first: "te_exit s = None \<Longrightarrow> te_waiter s = AwaitSignal \<Longrightarrow> sig_pending s \<Longrightarrow>
    term_step Waiter s (s\<lparr>sig_pending := False, te_signaled := True, te_waiter := Cancelling\<rparr>)"
| cancel: "te_exit s = None \<Longrightarrow> te_waiter s = Cancelling \<Longrightarrow>
    term_step Waiter s (s\<lparr>te_cancelled := True, te_stopper := Stopping, te_waiter := Selecting\<rparr>)"
| shut: "te_exit s = None \<Longrightarrow> te_waiter s = Selecting \<Longrightarrow> shutting_down_closed s \<Longrightarrow>
    term_step Waiter s (s\<lparr>te_waiter := WaiterDone\<rparr>)"
| second: "te_exit s = None \<Longrightarrow> te_waiter s = Selecting \<Longrightarrow> sig_pending s \<Longrightarrow>
    term_step Waiter s (s\<lparr>sig_pending := False, te_waiter := SecondSignal\<rparr>)"
| late: "te_exit s = None \<Longrightarrow> te_waiter s = SecondSignal \<Longrightarrow> te_succeeded s \<Longrightarrow>
    term_step Waiter s (s\<lparr>te_waiter := AwaitShutdown\<rparr>)"
| closed: "te_exit s = None \<Longrightarrow> te_waiter s = AwaitShutdown \<Longrightarrow> shutting_down_closed s \<Longrightarrow>
    term_step Waiter s (s\<lparr>te_waiter := WaiterDone\<rparr>)"
| abort: "te_exit s = None \<Longrightarrow> te_waiter s = SecondSignal \<Longrightarrow> \<not> te_succeeded s \<Longrightarrow>
    term_step Waiter s (s\<lparr>te_pid_file := False, te_waiter := Aborting\<rparr>)"
| abort_exit: "te_exit s = None \<Longrightarrow> te_waiter s = Aborting \<Longrightarrow> term_step Waiter s (s\<lparr>te_exit := Some 1\<rparr>)"
| stop: "te_exit s = None \<Longrightarrow> te_stopper s = Stopping \<Longrightarrow> term_step Stopper s (s\<lparr>te_stopper := StopReturned settled\<rparr>)"
| recorded: "te_exit s = None \<Longrightarrow> te_stopper s = StopReturned True \<Longrightarrow>
    term_step Stopper s (s\<lparr>te_succeeded := True, te_stopper := Recorded\<rparr>)"
| close_done: "te_exit s = None \<Longrightarrow> te_stopper s = Recorded \<Longrightarrow>
    term_step Stopper s (s\<lparr>done_closed := True, te_stopper := DoneClosed\<rparr>)"
| close_shut: "te_exit s = None \<Longrightarrow> te_stopper s = DoneClosed \<Longrightarrow>
    term_step Stopper s (s\<lparr>shutting_down_closed := True, te_stopper := StopperDone\<rparr>)"
| give_up: "te_exit s = None \<Longrightarrow> te_stopper s = StopReturned False \<Longrightarrow>
    term_step Stopper s (s\<lparr>te_pid_file := False, te_stopper := Unsettled\<rparr>)"
| give_up_exit: "te_exit s = None \<Longrightarrow> te_stopper s = Unsettled \<Longrightarrow> term_step Stopper s (s\<lparr>te_exit := Some 1\<rparr>)"
| ready: "te_exit s = None \<Longrightarrow> te_main s = Starting \<Longrightarrow> \<not> te_ready s \<Longrightarrow> te_stopper s \<in> {NotStopping, Stopping} \<Longrightarrow>
    term_step Main s (s\<lparr>te_ready := True, te_pid_file := True\<rparr>)"
| start: "te_exit s = None \<Longrightarrow> te_main s = Starting \<Longrightarrow> failed \<or> te_stopper s \<noteq> NotStopping \<Longrightarrow>
    term_step Main s (s\<lparr>te_main := StartReturned failed\<rparr>)"
| no_wait: "te_exit s = None \<Longrightarrow> te_main s = StartReturned failed \<Longrightarrow> \<not> te_signaled s \<Longrightarrow>
    term_step Main s (s\<lparr>te_pid_file := False, te_main := Leaving failed\<rparr>)"
| wait: "te_exit s = None \<Longrightarrow> te_main s = StartReturned failed \<Longrightarrow> te_signaled s \<Longrightarrow>
    term_step Main s (s\<lparr>te_main := AwaitDone failed\<rparr>)"
| waited: "te_exit s = None \<Longrightarrow> te_main s = AwaitDone failed \<Longrightarrow> done_closed s \<Longrightarrow>
    term_step Main s (s\<lparr>te_pid_file := False, te_main := Leaving failed\<rparr>)"
| leave: "te_exit s = None \<Longrightarrow> te_main s = Leaving failed \<Longrightarrow>
    term_step Main s (s\<lparr>te_exit := Some (if failed then 1 else 0)\<rparr>)"

inductive reached :: "hub_process \<Rightarrow> bool" where
  init: "reached initial"
| step: "reached s \<Longrightarrow> term_step p s t \<Longrightarrow> reached t"

subsection \<open>The exit code\<close>

definition stopping_inv :: "hub_process \<Rightarrow> bool" where
  "stopping_inv s \<longleftrightarrow>
     (te_stopper s = NotStopping \<longleftrightarrow> te_waiter s = AwaitSignal \<or> te_waiter s = Cancelling) \<and>
     (te_signaled s \<longleftrightarrow> te_waiter s \<noteq> AwaitSignal) \<and> (te_waiter s = AwaitShutdown \<longrightarrow> te_succeeded s)"

definition channels_inv :: "hub_process \<Rightarrow> bool" where
  "channels_inv s \<longleftrightarrow>
     (te_succeeded s \<longleftrightarrow> te_stopper s = Recorded \<or> te_stopper s = DoneClosed \<or> te_stopper s = StopperDone) \<and>
     (done_closed s \<longleftrightarrow> te_stopper s = DoneClosed \<or> te_stopper s = StopperDone) \<and>
     (shutting_down_closed s \<longleftrightarrow> te_stopper s = StopperDone)"

definition main_inv :: "hub_process \<Rightarrow> bool" where
  "main_inv s \<longleftrightarrow>
     (te_main s = StartReturned False \<or> te_main s = AwaitDone False \<longrightarrow> te_stopper s \<noteq> NotStopping) \<and>
     (\<forall>b. te_main s = AwaitDone b \<longrightarrow> te_signaled s) \<and> (te_main s = Leaving False \<longrightarrow> done_closed s)"

definition exit_inv :: "hub_process \<Rightarrow> bool" where
  "exit_inv s \<longleftrightarrow>
     (te_pid_file s \<longrightarrow> te_ready s \<and> te_stopper s \<noteq> Unsettled \<and> (\<forall>b. te_main s \<noteq> Leaving b)) \<and>
     (te_exit s \<noteq> None \<longrightarrow>
        te_exit s = Some 0 \<and> te_main s = Leaving False \<or>
        te_exit s = Some 1 \<and> (te_main s = Leaving True \<or> te_stopper s = Unsettled \<or> te_waiter s = Aborting))"

definition process_inv :: "hub_process \<Rightarrow> bool" where
  "process_inv s \<longleftrightarrow> stopping_inv s \<and> channels_inv s \<and> main_inv s \<and> exit_inv s"

lemma stopping_inv_step: "term_step p s t \<Longrightarrow> stopping_inv s \<Longrightarrow> channels_inv s \<Longrightarrow> stopping_inv t"
  by (induction rule: term_step.induct) (simp_all add: stopping_inv_def channels_inv_def)

lemma channels_inv_step: "term_step p s t \<Longrightarrow> stopping_inv s \<Longrightarrow> channels_inv s \<Longrightarrow> channels_inv t"
  by (induction rule: term_step.induct) (simp_all add: stopping_inv_def channels_inv_def)

lemma main_inv_step: "term_step p s t \<Longrightarrow> stopping_inv s \<Longrightarrow> channels_inv s \<Longrightarrow> main_inv s \<Longrightarrow> main_inv t"
  by (induction rule: term_step.induct) (simp_all add: main_inv_def stopping_inv_def channels_inv_def, auto)

lemma exit_inv_step: "term_step p s t \<Longrightarrow> exit_inv s \<Longrightarrow> exit_inv t"
  by (induction rule: term_step.induct) (simp_all add: exit_inv_def, auto)

lemma process_inv_step: "term_step p s t \<Longrightarrow> process_inv s \<Longrightarrow> process_inv t"
  by (simp add: process_inv_def stopping_inv_step channels_inv_step main_inv_step exit_inv_step)

lemma reached_inv: "reached s \<Longrightarrow> process_inv s"
proof (induction rule: reached.induct)
  case init
  show ?case by (simp add: process_inv_def stopping_inv_def channels_inv_def main_inv_def exit_inv_def initial_def)
qed (rule process_inv_step)

lemma success_is_kept:
  "term_step p s t \<Longrightarrow> te_succeeded s \<Longrightarrow> te_waiter s \<noteq> Aborting \<Longrightarrow> te_succeeded t \<and> te_waiter t \<noteq> Aborting"
  by (induction rule: term_step.induct) simp_all


subsection \<open>The end\<close>

fun waiter_work :: "waiter \<Rightarrow> nat" where
  "waiter_work AwaitSignal = 5" | "waiter_work Cancelling = 4" | "waiter_work Selecting = 3" | "waiter_work SecondSignal = 2"
| "waiter_work AwaitShutdown = 1" | "waiter_work Aborting = 1" | "waiter_work WaiterDone = 0"

fun stopper_work :: "stopper \<Rightarrow> nat" where
  "stopper_work NotStopping = 5" | "stopper_work Stopping = 4" | "stopper_work (StopReturned b) = 3" | "stopper_work Recorded = 2"
| "stopper_work Unsettled = 2" | "stopper_work DoneClosed = 1" | "stopper_work StopperDone = 0"

fun main_work :: "main_state \<Rightarrow> nat" where
  "main_work Starting = 3" | "main_work (StartReturned b) = 2" | "main_work (AwaitDone b) = 1" | "main_work (Leaving b) = 0"

definition work :: "hub_process \<Rightarrow> nat" where
  "work s = waiter_work (te_waiter s) + stopper_work (te_stopper s) + main_work (te_main s) +
     (if te_ready s then 0 else 1) + (if te_exit s = None then 1 else 0)"

lemma own_step_works: "term_step p s t \<Longrightarrow> p \<noteq> Os \<Longrightarrow> stopping_inv s \<Longrightarrow> work t < work s"
  by (induction rule: term_step.induct) (simp_all add: work_def stopping_inv_def)

lemma signals_are_no_work: "term_step Os s t \<Longrightarrow> work t = work s"
  by (cases rule: term_step.cases) (auto simp: work_def)

lemma own_step_exists:
  assumes "process_inv s" and "te_exit s = None" and "te_main s \<noteq> Starting \<or> te_signaled s \<or> sig_pending s"
  shows "\<exists>p t. p \<noteq> Os \<and> term_step p s t"
proof (cases "te_stopper s")
  case NotStopping
  then have w: "te_waiter s = AwaitSignal \<or> te_waiter s = Cancelling" "te_signaled s \<longleftrightarrow> te_waiter s \<noteq> AwaitSignal"
    using assms(1) by (simp_all add: process_inv_def stopping_inv_def)
  show ?thesis
  proof (cases "te_waiter s = Cancelling \<or> sig_pending s")
    case True
    then show ?thesis using w(1) term_step.cancel [OF assms(2)] term_step.first [OF assms(2)] by (metis who.distinct(1))
  next
    case False
    then have "te_main s \<noteq> Starting" "\<not> te_signaled s" using assms(3) w by auto
    moreover then have "te_main s \<noteq> AwaitDone b" for b using assms(1) by (auto simp: process_inv_def main_inv_def)
    ultimately show ?thesis
      using term_step.no_wait [OF assms(2)] term_step.leave [OF assms(2)] by (cases "te_main s") (metis who.distinct(5))+
  qed
next
  case Stopping
  then show ?thesis using term_step.stop [OF assms(2)] by (metis who.distinct(3))
next
  case (StopReturned b)
  then show ?thesis using term_step.recorded [OF assms(2)] term_step.give_up [OF assms(2)] by (cases b) (metis who.distinct(3))+
next
  case Recorded
  then show ?thesis using term_step.close_done [OF assms(2)] by (metis who.distinct(3))
next
  case DoneClosed
  then show ?thesis using term_step.close_shut [OF assms(2)] by (metis who.distinct(3))
next
  case Unsettled
  then show ?thesis using term_step.give_up_exit [OF assms(2)] by (metis who.distinct(3))
next
  case StopperDone
  then have "done_closed s" "te_signaled s"
    using assms(1) by (auto simp: process_inv_def channels_inv_def stopping_inv_def)
  then show ?thesis
    using term_step.start [OF assms(2)] term_step.wait [OF assms(2)] term_step.waited [OF assms(2)]
      term_step.leave [OF assms(2)] StopperDone by (cases "te_main s") (metis stopper.distinct who.distinct(5))+
qed

text \<open>
  C34: a hub that has received a signal, or whose \<open>Start\<close> has returned, ends: as long as it has not
  exited one of its goroutines can go on, each of their steps uses up work of which there are
  never more than 15 units, and further signals add none.
\<close>

theorem the_process_ends:
  assumes "reached s" and "te_main s \<noteq> Starting \<or> te_signaled s \<or> sig_pending s"
  shows "(te_exit s = None \<longrightarrow> (\<exists>p t. p \<noteq> Os \<and> term_step p s t)) \<and>
    (\<forall>p t. term_step p s t \<longrightarrow> (if p = Os then work t = work s else work t < work s)) \<and> work s \<le> 15"
proof -
  have "waiter_work w \<le> 5" for w by (cases w) simp_all
  moreover have "stopper_work d \<le> 5" for d by (cases d) simp_all
  moreover have "main_work m \<le> 3" for m by (cases m) simp_all
  ultimately have "work s \<le> 5 + 5 + 3 + 1 + 1" unfolding work_def by (intro add_mono) auto
  then show ?thesis
    using reached_inv [OF assms(1)] own_step_exists [of s] own_step_works [of _ s] signals_are_no_work [of s] assms(2)
    by (auto simp: process_inv_def)
qed

text \<open>A hub that received its signal.\<close>

definition interrupted :: hub_process where
  "interrupted = initial\<lparr>te_ready := True, te_pid_file := True, sig_pending := False, te_signaled := True, te_waiter := Cancelling\<rparr>"

lemma interrupted_reached: "reached interrupted"
proof -
  let ?up = "initial\<lparr>te_ready := True, te_pid_file := True\<rparr>"
  have "reached ?up" by (rule reached.step [OF reached.init term_step.ready]) (simp_all add: initial_def)
  then have "reached (?up\<lparr>sig_pending := True\<rparr>)" by (rule reached.step [OF _ term_step.signal]) (simp add: initial_def)
  then have "reached (?up\<lparr>sig_pending := True, sig_pending := False, te_signaled := True, te_waiter := Cancelling\<rparr>)"
    by (rule reached.step [OF _ term_step.first]) (simp_all add: initial_def)
  then show ?thesis by (simp add: interrupted_def)
qed

lemma the_process_ends_witness: "\<exists>p t. p \<noteq> Os \<and> term_step p interrupted t \<and> work t < 15"
proof -
  have i: "te_signaled interrupted" "te_exit interrupted = None" by (simp_all add: interrupted_def initial_def)
  show ?thesis using the_process_ends [OF interrupted_reached] i by (metis less_le_trans)
qed


end
