(* ===== verification/HubCerts.thy ===== *)
theory HubCerts
  imports CliConfig "HOL-Library.List_Lexorder" "HOL-Library.Char_ord"
begin

text \<open>
  The hub's certificates (internal/hub/hub.go, internal/common/tls.go, net.go): what a start loads
  and what it generates. X.509, PEM, key generation and TLS are parameters; so are the failures of
  the file system.
\<close>

subsection \<open>The names in the server's certificate\<close>

record ip_addr =
  ip_text :: string
  ip_loopback :: bool
  ip_link_local :: bool

datatype if_addr = OtherAddr | NetAddr "ip_addr option"

record iface =
  if_up :: bool
  if_loopback :: bool
  if_addrs :: "if_addr list option"

definition addr_hosts :: "if_addr \<Rightarrow> string list" where
  "addr_hosts a =
     (case a of
        NetAddr (Some ip) \<Rightarrow> if ip_loopback ip \<or> ip_link_local ip then [] else [ip_text ip]
      | _ \<Rightarrow> [])"

definition iface_hosts :: "iface \<Rightarrow> string list" where
  "iface_hosts i =
     (if \<not> if_up i \<or> if_loopback i then []
      else (case if_addrs i of None \<Rightarrow> [] | Some addrs \<Rightarrow> concat (map addr_hosts addrs)))"

definition LocalHosts :: "string option \<Rightarrow> iface list option \<Rightarrow> string list" where
  "LocalHosts hostname ifaces =
     sort (remdups ([''localhost'', ''127.0.0.1''] @
       (case hostname of Some h \<Rightarrow> if h \<noteq> [] then [h] else [] | None \<Rightarrow> []) @
       (case ifaces of Some is \<Rightarrow> concat (map iface_hosts is) | None \<Rightarrow> [])))"

definition dedup :: "string list \<Rightarrow> string list" where
  "dedup ss = sort (remdups ss)"

subsection \<open>The files\<close>

datatype tls_file = CACert | CAKey | ServerCert | ServerKey

datatype dir_entry = Plain string | Folder

type_synonym tls_dir = "tls_file \<Rightarrow> dir_entry option"

datatype cert_err =
    LoadCACert | ParseCACert | LoadCAKey | ParseCAKey | LoadServerPair | ReadCACert | ParseCAPool
  | CreateTLSDir | GenerateCAFailed | WriteCACert | WriteCAKey | GenerateServerFailed | SaveServerPair

record ('c, 'k) cert_lib =
  cl_pem :: "string \<Rightarrow> string option"
  cl_x509 :: "string \<Rightarrow> 'c option"
  cl_pkcs1 :: "string \<Rightarrow> 'k option"
  cl_pair :: "string \<Rightarrow> string \<Rightarrow> bool"
  cl_pool :: "string \<Rightarrow> bool"
  cl_cert_pem :: "'c \<Rightarrow> string"
  cl_key_pem :: "'k \<Rightarrow> string"

record ('c, 'k) cert_env =
  ct_lib :: "('c, 'k) cert_lib"
  ct_gen_ca :: "('c \<times> 'k) option"
  ct_gen_server :: "'c \<Rightarrow> 'k \<Rightarrow> string list \<Rightarrow> (string \<times> string) option"
  ct_hosts :: "string list"
  ct_stat_fails :: "tls_file \<Rightarrow> bool"
  ct_read_fails :: "tls_file \<Rightarrow> bool"
  ct_mkdir_fails :: bool
  ct_write :: "tls_file \<Rightarrow> io_fault"

definition fileExists :: "('c, 'k) cert_env \<Rightarrow> tls_dir \<Rightarrow> tls_file \<Rightarrow> bool" where
  "fileExists env d f = (\<not> ct_stat_fails env f \<and> (case d f of Some (Plain _) \<Rightarrow> True | _ \<Rightarrow> False))"

definition read_tls :: "('c, 'k) cert_env \<Rightarrow> tls_dir \<Rightarrow> tls_file \<Rightarrow> string option" where
  "read_tls env d f = (case d f of Some (Plain t) \<Rightarrow> if ct_read_fails env f then None else Some t | _ \<Rightarrow> None)"

definition write_tls :: "('c, 'k) cert_env \<Rightarrow> tls_file \<Rightarrow> string \<Rightarrow> tls_dir \<Rightarrow> bool \<times> tls_dir" where
  "write_tls env f t d =
     (if d f = Some Folder then (False, d)
      else (case ct_write env f of
              NoFault \<Rightarrow> (True, d(f \<mapsto> Plain t))
            | CannotOpen \<Rightarrow> (False, d)
            | CutShort part \<Rightarrow> (False, d(f \<mapsto> Plain part))))"

definition LoadPEM :: "('c, 'k) cert_env \<Rightarrow> tls_dir \<Rightarrow> tls_file \<Rightarrow> string option" where
  "LoadPEM env d f = (case read_tls env d f of None \<Rightarrow> None | Some raw \<Rightarrow> cl_pem (ct_lib env) raw)"

definition loadCACertAndKey :: "('c, 'k) cert_env \<Rightarrow> tls_dir \<Rightarrow> cert_err + 'c \<times> 'k" where
  "loadCACertAndKey env d =
     (case LoadPEM env d CACert of
        None \<Rightarrow> Inl LoadCACert
      | Some der \<Rightarrow>
          (case cl_x509 (ct_lib env) der of
             None \<Rightarrow> Inl ParseCACert
           | Some cert \<Rightarrow>
               (case LoadPEM env d CAKey of
                  None \<Rightarrow> Inl LoadCAKey
                | Some kder \<Rightarrow>
                    (case cl_pkcs1 (ct_lib env) kder of None \<Rightarrow> Inl ParseCAKey | Some key \<Rightarrow> Inr (cert, key)))))"

text \<open>The server's certificate, its key and the pool of the CA, as they are on disk.\<close>

record tls_config =
  tc_cert :: string
  tc_key :: string
  tc_pool :: string

definition LoadTLSServerConfig :: "('c, 'k) cert_env \<Rightarrow> tls_dir \<Rightarrow> cert_err + tls_config" where
  "LoadTLSServerConfig env d =
     (case (read_tls env d ServerCert, read_tls env d ServerKey) of
        (Some cert, Some key) \<Rightarrow>
          if \<not> cl_pair (ct_lib env) cert key then Inl LoadServerPair
          else (case read_tls env d CACert of
                  None \<Rightarrow> Inl ReadCACert
                | Some ca \<Rightarrow>
                    if \<not> cl_pool (ct_lib env) ca then Inl ParseCAPool
                    else Inr \<lparr>tc_cert = cert, tc_key = key, tc_pool = ca\<rparr>)
      | _ \<Rightarrow> Inl LoadServerPair)"

definition SaveCertAndKey :: "('c, 'k) cert_env \<Rightarrow> string \<Rightarrow> string \<Rightarrow> tls_dir \<Rightarrow> bool \<times> tls_dir" where
  "SaveCertAndKey env cert key d =
     (case write_tls env ServerCert cert d of
        (False, d1) \<Rightarrow> (False, d1) | (True, d1) \<Rightarrow> write_tls env ServerKey key d1)"

definition with_config :: "('c, 'k) cert_env \<Rightarrow> 'c \<times> 'k \<Rightarrow> tls_dir \<Rightarrow> cert_err + ('c \<times> 'k) \<times> tls_config" where
  "with_config env ca d = (case LoadTLSServerConfig env d of Inl e \<Rightarrow> Inl e | Inr cfg \<Rightarrow> Inr (ca, cfg))"

definition loadOrGenerateCerts ::
  "('c, 'k) cert_env \<Rightarrow> string list \<Rightarrow> tls_dir \<Rightarrow> (cert_err + ('c \<times> 'k) \<times> tls_config) \<times> tls_dir" where
  "loadOrGenerateCerts env extraSANs d =
     (if fileExists env d CACert \<and> fileExists env d CAKey \<and> fileExists env d ServerCert \<and> fileExists env d ServerKey
      then (case loadCACertAndKey env d of Inl e \<Rightarrow> (Inl e, d) | Inr ca \<Rightarrow> (with_config env ca d, d))
      else if ct_mkdir_fails env then (Inl CreateTLSDir, d)
      else (case ct_gen_ca env of
              None \<Rightarrow> (Inl GenerateCAFailed, d)
            | Some (cert, key) \<Rightarrow>
                (case write_tls env CACert (cl_cert_pem (ct_lib env) cert) d of
                   (False, d1) \<Rightarrow> (Inl WriteCACert, d1)
                 | (True, d1) \<Rightarrow>
                     (case write_tls env CAKey (cl_key_pem (ct_lib env) key) d1 of
                        (False, d2) \<Rightarrow> (Inl WriteCAKey, d2)
                      | (True, d2) \<Rightarrow>
                          (case ct_gen_server env cert key (dedup (ct_hosts env @ extraSANs)) of
                             None \<Rightarrow> (Inl GenerateServerFailed, d2)
                           | Some (scert, skey) \<Rightarrow>
                               (case SaveCertAndKey env scert skey d2 of
                                  (False, d3) \<Rightarrow> (Inl SaveServerPair, d3)
                                | (True, d3) \<Rightarrow> (with_config env (cert, key) d3, d3)))))))"

subsection \<open>Identity\<close>

definition encodes :: "('c, 'k) cert_lib \<Rightarrow> bool" where
  "encodes lib \<longleftrightarrow> (\<forall>c. \<exists>der. cl_pem lib (cl_cert_pem lib c) = Some der \<and> cl_x509 lib der = Some c) \<and>
     (\<forall>k. \<exists>der. cl_pem lib (cl_key_pem lib k) = Some der \<and> cl_pkcs1 lib der = Some k)"

definition reads_files :: "('c, 'k) cert_env \<Rightarrow> bool" where
  "reads_files env \<longleftrightarrow> (\<forall>f. \<not> ct_stat_fails env f \<and> \<not> ct_read_fails env f)"

lemma read_tls_plain: "reads_files env \<Longrightarrow> read_tls env d f = (case d f of Some (Plain t) \<Rightarrow> Some t | _ \<Rightarrow> None)"
  by (auto simp: read_tls_def reads_files_def split: option.split dir_entry.split)

lemma read_tls_Some: "read_tls env d f = Some t \<Longrightarrow> d f = Some (Plain t)"
  by (auto simp: read_tls_def split: option.splits dir_entry.splits if_splits)

lemma write_tls_done: "write_tls env f t d = (True, d1) \<Longrightarrow> d1 = d(f \<mapsto> Plain t)"
  by (auto simp: write_tls_def split: if_splits io_fault.splits)

lemma config_reads:
  assumes "LoadTLSServerConfig env d = Inr cfg" and "reads_files env2" and "ct_lib env2 = ct_lib env"
  shows "LoadTLSServerConfig env2 d = Inr cfg \<and> d ServerCert = Some (Plain (tc_cert cfg)) \<and> d ServerKey \<noteq> None \<and> d ServerKey \<noteq> Some Folder"
proof -
  obtain c k ca where r: "read_tls env d ServerCert = Some c" "read_tls env d ServerKey = Some k" "read_tls env d CACert = Some ca"
    using assms(1) by (auto simp: LoadTLSServerConfig_def split: option.splits if_splits)
  note t = r [THEN read_tls_Some]
  show ?thesis using assms r t by (simp add: LoadTLSServerConfig_def read_tls_plain split: if_splits) auto
qed

lemma ca_reads:
  assumes "loadCACertAndKey env d = Inr ca" and "reads_files env2" and "ct_lib env2 = ct_lib env"
  shows "loadCACertAndKey env2 d = Inr ca"
proof -
  obtain c k where r: "read_tls env d CACert = Some c" "read_tls env d CAKey = Some k"
    using assms(1) by (auto simp: loadCACertAndKey_def LoadPEM_def split: option.splits)
  note t = r [THEN read_tls_Some]
  have same: "LoadPEM env2 d CACert = LoadPEM env d CACert" "LoadPEM env2 d CAKey = LoadPEM env d CAKey"
    using assms(2,3) r t by (simp_all add: LoadPEM_def read_tls_plain)
  show ?thesis using assms(1) unfolding loadCACertAndKey_def same assms(3) .
qed

text \<open>The files of a successful start: they load, or they are the ones that were generated.\<close>

lemma start_files:
  assumes "loadOrGenerateCerts env sans d = (Inr (ca, cfg), d')"
  shows "LoadTLSServerConfig env d' = Inr cfg \<and>
    (loadCACertAndKey env d' = Inr ca \<and> d' = d \<or>
     d' CACert = Some (Plain (cl_cert_pem (ct_lib env) (fst ca))) \<and> d' CAKey = Some (Plain (cl_key_pem (ct_lib env) (snd ca))))"
  using assms
  by (auto simp: loadOrGenerateCerts_def with_config_def SaveCertAndKey_def split: if_splits sum.splits option.splits prod.splits bool.splits
      dest!: write_tls_done)

text \<open>
  C33: once a start of the hub has succeeded, its identity stays: every later start that can read
  the files returns the same CA and the same server certificate and changes nothing, whatever it
  would have generated and whatever names it is given, so the fingerprint in the tokens and the
  certificates of the devices stay good.
\<close>

theorem identity_survives_restarts:
  assumes "loadOrGenerateCerts env sans d = (Inr (ca, cfg), d')" and "encodes (ct_lib env)"
    and "reads_files env2" and "ct_lib env2 = ct_lib env"
  shows "loadOrGenerateCerts env2 sans2 d' = (Inr (ca, cfg), d') \<and> d' ServerCert = Some (Plain (tc_cert cfg))"
proof -
  note f = start_files [OF assms(1)]
  note cfg = config_reads [OF conjunct1 [OF f] assms(3,4)]
  have "loadCACertAndKey env2 d' = Inr ca \<and> fileExists env2 d' CACert \<and> fileExists env2 d' CAKey"
  proof (cases "loadCACertAndKey env d' = Inr ca")
    case True
    then obtain c k where "read_tls env d' CACert = Some c" "read_tls env d' CAKey = Some k"
      by (auto simp: loadCACertAndKey_def LoadPEM_def split: option.splits)
    then show ?thesis using ca_reads [OF True assms(3,4)] assms(3) read_tls_Some by (fastforce simp: fileExists_def reads_files_def)
  next
    case False
    obtain der kder where "cl_pem (ct_lib env) (cl_cert_pem (ct_lib env) (fst ca)) = Some der" "cl_x509 (ct_lib env) der = Some (fst ca)"
      "cl_pem (ct_lib env) (cl_key_pem (ct_lib env) (snd ca)) = Some kder" "cl_pkcs1 (ct_lib env) kder = Some (snd ca)"
      using assms(2) unfolding encodes_def by metis
    then show ?thesis using f False assms(3,4)
      by (simp add: loadCACertAndKey_def LoadPEM_def read_tls_plain fileExists_def reads_files_def)
  qed
  moreover have "fileExists env2 d' ServerCert \<and> fileExists env2 d' ServerKey"
    using cfg assms(3) by (auto simp: fileExists_def reads_files_def split: option.splits dir_entry.splits)
  ultimately show ?thesis using cfg by (simp add: loadOrGenerateCerts_def with_config_def)
qed

text \<open>
  When one of the four files is missing, the start replaces the others too, the CA included:
  a hub whose server certificate was deleted, to renew it or to change its names, gets a new CA,
  although the old certificate and key of the CA are there and load.
\<close>

theorem lost_file_replaces_the_ca:
  assumes "d f = None" and "loadOrGenerateCerts env sans d = (Inr (ca, cfg), d')"
  shows "Some ca = ct_gen_ca env \<and> d' CACert = Some (Plain (cl_cert_pem (ct_lib env) (fst ca))) \<and>
    tc_pool cfg = cl_cert_pem (ct_lib env) (fst ca)"
proof -
  have "\<not> (fileExists env d CACert \<and> fileExists env d CAKey \<and> fileExists env d ServerCert \<and> fileExists env d ServerKey)"
    using assms(1) by (cases f) (simp_all add: fileExists_def)
  then have g: "Some ca = ct_gen_ca env \<and> d' CACert = Some (Plain (cl_cert_pem (ct_lib env) (fst ca)))"
    using assms(2)
    by (auto simp: loadOrGenerateCerts_def with_config_def SaveCertAndKey_def split: if_splits sum.splits option.splits prod.splits bool.splits
        dest!: write_tls_done)
  have "read_tls env d' CACert = Some (tc_pool cfg)"
    using start_files [OF assms(2)] by (auto simp: LoadTLSServerConfig_def split: option.splits if_splits)
  then show ?thesis using g read_tls_Some [of env d' CACert] by auto
qed

text \<open>A library whose certificates and keys are their names.\<close>

definition sample_lib :: "(string, string) cert_lib" where
  "sample_lib = \<lparr>cl_pem = Some, cl_x509 = Some, cl_pkcs1 = Some, cl_pair = (=), cl_pool = (\<lambda>t. t \<noteq> []),
     cl_cert_pem = (\<lambda>c. c), cl_key_pem = (\<lambda>k. k)\<rparr>"

definition sample_certs :: "string \<Rightarrow> (string, string) cert_env" where
  "sample_certs name = \<lparr>ct_lib = sample_lib, ct_gen_ca = Some (''ca-'' @ name, ''key''),
     ct_gen_server = (\<lambda>c k hosts. Some (''server-'' @ name, ''server-'' @ name)), ct_hosts = [''localhost''],
     ct_stat_fails = (\<lambda>_. False), ct_read_fails = (\<lambda>_. False), ct_mkdir_fails = False, ct_write = (\<lambda>_. NoFault)\<rparr>"

lemmas sample_cert_defs = sample_certs_def sample_lib_def loadOrGenerateCerts_def fileExists_def write_tls_def SaveCertAndKey_def
  with_config_def LoadTLSServerConfig_def read_tls_def

lemma first_start:
  "loadOrGenerateCerts (sample_certs n) sans (\<lambda>_. None) =
     (Inr ((''ca-'' @ n, ''key''), \<lparr>tc_cert = ''server-'' @ n, tc_key = ''server-'' @ n, tc_pool = ''ca-'' @ n\<rparr>),
      (\<lambda>_. None)(CACert \<mapsto> Plain (''ca-'' @ n), CAKey \<mapsto> Plain ''key'', ServerCert \<mapsto> Plain (''server-'' @ n), ServerKey \<mapsto> Plain (''server-'' @ n)))"
  by (simp add: sample_cert_defs)

lemma identity_survives_restarts_witness:
  "case loadOrGenerateCerts (sample_certs ''one'') [] (\<lambda>_. None) of
     (r, d) \<Rightarrow> fst (loadOrGenerateCerts (sample_certs ''two'') [''hub.example''] d) = r \<and> d ServerCert = Some (Plain ''server-one'')"
proof -
  have "encodes (ct_lib (sample_certs ''one''))" "reads_files (sample_certs ''two'')"
    "ct_lib (sample_certs ''two'') = ct_lib (sample_certs ''one'')"
    by (simp_all add: encodes_def reads_files_def sample_certs_def sample_lib_def)
  from identity_survives_restarts [OF first_start [of "''one''" "[]"] this, of "[''hub.example'']"]
  show ?thesis by (simp add: first_start)
qed

lemma lost_file_replaces_the_ca_witness:
  "case loadOrGenerateCerts (sample_certs ''two'') []
          [CACert \<mapsto> Plain ''ca-one'', CAKey \<mapsto> Plain ''key'', ServerKey \<mapsto> Plain ''server-one''] of
     (r, d) \<Rightarrow> \<exists>cfg. r = Inr ((''ca-two'', ''key''), cfg) \<and> tc_pool cfg = ''ca-two''"
proof -
  let ?d = "[CACert \<mapsto> Plain ''ca-one'', CAKey \<mapsto> Plain ''key'', ServerKey \<mapsto> Plain ''server-one'']"
  obtain ca cfg d' where r: "loadOrGenerateCerts (sample_certs ''two'') [] ?d = (Inr (ca, cfg), d')"
    by (simp add: sample_cert_defs)
  show ?thesis using lost_file_replaces_the_ca [OF _ r, of ServerCert] r by (auto simp: sample_certs_def sample_lib_def)
qed

end
