(* ===== verification/GoNet.thy ===== *)
theory GoNet
  imports Server GoText
begin

text \<open>
  What the program uses of Go's \<open>net/netip\<close> and \<open>net\<close>: reading an address, and the ranges it belongs
  to. An address is its bytes; an IPv6 address also has a zone, which may be empty.
\<close>

subsection \<open>Reading an address\<close>

datatype netip_addr = Addr4 "nat list" | Addr6 "nat list" string

definition parse_octet :: "string \<Rightarrow> nat option" where
  "parse_octet p =
     (if p \<noteq> [] \<and> list_all is_digit p \<and> (length p = 1 \<or> hd p \<noteq> CHR ''0'') \<and> number p \<le> 255
      then Some (number p) else None)"

definition parseIPv4 :: "string \<Rightarrow> nat list option" where
  "parseIPv4 s =
     (let os = map parse_octet (split_on CHR ''.'' s) in
      if length os = 4 \<and> None \<notin> set os then Some (map the os) else None)"

definition is_hex :: "char \<Rightarrow> bool" where
  "is_hex ch = (let n = of_char ch :: nat in 48 \<le> n \<and> n \<le> 57 \<or> 65 \<le> n \<and> n \<le> 70 \<or> 97 \<le> n \<and> n \<le> 102)"

definition hex_value :: "char \<Rightarrow> nat" where
  "hex_value ch = (let n = of_char ch :: nat in if n \<le> 57 then n - 48 else if n \<le> 70 then n - 55 else n - 87)"

definition group_bytes :: "string \<Rightarrow> nat list" where
  "group_bytes h = (let v = foldl (\<lambda>n ch. 16 * n + hex_value ch) 0 h in [v div 256 mod 256, v mod 256])"

text \<open>
  The loop over the groups: how many of the eight are still free, the bytes so far, where the
  \<open>::\<close> was, and the text that is left.
\<close>

fun ipv6_groups :: "nat \<Rightarrow> nat list \<Rightarrow> nat option \<Rightarrow> string \<Rightarrow> (nat list \<times> nat option \<times> string) option" where
  "ipv6_groups 0 bs ell s = Some (bs, ell, s)"
| "ipv6_groups (Suc n) bs ell s =
     (let h = takeWhile is_hex s; rest = dropWhile is_hex s; bs' = bs @ group_bytes h in
      if h = [] \<or> length h > 4 then None
      else (case rest of
              [] \<Rightarrow> Some (bs', ell, [])
            | c # s' \<Rightarrow>
                if c = CHR ''.'' then
                  if ell = None \<and> length bs \<noteq> 12 \<or> length bs + 4 > 16 then None
                  else (case parseIPv4 s of None \<Rightarrow> None | Some q \<Rightarrow> Some (bs @ q, ell, []))
                else if c \<noteq> CHR '':'' then None
                else (case s' of
                        [] \<Rightarrow> None
                      | d # rest2 \<Rightarrow>
                          if d \<noteq> CHR '':'' then ipv6_groups n bs' ell s'
                          else if ell \<noteq> None then None
                          else if rest2 = [] then Some (bs', Some (length bs'), [])
                          else ipv6_groups n bs' (Some (length bs')) rest2)))"

declare ipv6_groups.simps(2) [simp del]

definition ipv6_bytes :: "(nat list \<times> nat option \<times> string) option \<Rightarrow> nat list option" where
  "ipv6_bytes r =
     (case r of
        Some (bs, ell, []) \<Rightarrow>
          if length bs < 16
          then (case ell of None \<Rightarrow> None | Some e \<Rightarrow> Some (take e bs @ replicate (16 - length bs) 0 @ drop e bs))
          else if ell \<noteq> None then None else Some bs
      | _ \<Rightarrow> None)"

definition parseIPv6 :: "string \<Rightarrow> netip_addr option" where
  "parseIPv6 txt =
     (let (s, zone) = (case cut_char CHR ''%'' txt of None \<Rightarrow> (txt, None) | Some (a, z) \<Rightarrow> (a, Some z)) in
      if zone = Some [] then None
      else map_option (\<lambda>bs. Addr6 bs (case zone of None \<Rightarrow> [] | Some z \<Rightarrow> z))
        (if take 2 s = ''::''
         then if length s = 2 then Some (replicate 16 0) else ipv6_bytes (ipv6_groups 8 [] (Some 0) (drop 2 s))
         else ipv6_bytes (ipv6_groups 8 [] None s)))"

definition ParseAddr :: "string \<Rightarrow> netip_addr option" where
  "ParseAddr s =
     (case dropWhile (\<lambda>ch. ch \<notin> {CHR ''.'', CHR '':'', CHR ''%''}) s of
        [] \<Rightarrow> None
      | c # _ \<Rightarrow> if c = CHR ''.'' then map_option Addr4 (parseIPv4 s)
                else if c = CHR '':'' then parseIPv6 s else None)"

definition as16 :: "netip_addr \<Rightarrow> nat list" where
  "as16 a = (case a of Addr4 q \<Rightarrow> replicate 10 0 @ [255, 255] @ q | Addr6 bs _ \<Rightarrow> bs)"

text \<open>\<open>net.ParseIP\<close>.\<close>

definition ParseIP :: "string \<Rightarrow> nat list option" where
  "ParseIP s = (case ParseAddr s of None \<Rightarrow> None | Some (Addr4 q) \<Rightarrow> Some (as16 (Addr4 q))
     | Some (Addr6 bs zone) \<Rightarrow> if zone = [] then Some bs else None)"

subsection \<open>Ranges\<close>

definition unmap :: "netip_addr \<Rightarrow> netip_addr" where
  "unmap a = (case a of Addr6 bs _ \<Rightarrow> if take 12 bs = replicate 10 0 @ [255, 255] then Addr4 (drop 12 bs) else a | _ \<Rightarrow> a)"

definition IsPrivate :: "netip_addr \<Rightarrow> bool" where
  "IsPrivate a = (case unmap a of
      Addr4 q \<Rightarrow> q ! 0 = 10 \<or> q ! 0 = 172 \<and> q ! 1 div 16 = 1 \<or> q ! 0 = 192 \<and> q ! 1 = 168
    | Addr6 bs _ \<Rightarrow> bs ! 0 div 2 = 126)"

definition IsLinkLocalUnicast :: "netip_addr \<Rightarrow> bool" where
  "IsLinkLocalUnicast a = (case unmap a of
      Addr4 q \<Rightarrow> q ! 0 = 169 \<and> q ! 1 = 254
    | Addr6 bs _ \<Rightarrow> bs ! 0 = 254 \<and> bs ! 1 div 64 = 2)"

definition IsLoopback :: "netip_addr \<Rightarrow> bool" where
  "IsLoopback a = (case unmap a of
      Addr4 q \<Rightarrow> q ! 0 = 127
    | Addr6 bs _ \<Rightarrow> bs = replicate 15 0 @ [1])"

lemma ParseAddr_samples:
  "ParseAddr ''192.168.31.158'' = Some (Addr4 [192, 168, 31, 158])"
  "ParseAddr ''fe::1%en0'' = Some (Addr6 ([0, 254] @ replicate 13 0 @ [1]) ''en0'')"
  "ParseAddr ''::10.0.0.1'' = Some (Addr6 (replicate 12 0 @ [10, 0, 0, 1]) [])"
  "ParseAddr ''1:2:3:4:5:6:7:8'' = Some (Addr6 [0, 1, 0, 2, 0, 3, 0, 4, 0, 5, 0, 6, 0, 7, 0, 8] [])"
  "map ParseAddr [''010.0.0.1'', ''1.2.3'', ''256.1.1.1'', ''1::2::3'', '':1'', ''1:2:3:4:5:6:7::8'', ''hub.local''] = replicate 7 None"
  by code_simp+

subsection \<open>Dotted addresses\<close>

definition dotted :: "nat list \<Rightarrow> string" where
  "dotted q = concat (map (\<lambda>n. digits n @ ''.'') (butlast q)) @ digits (last q)"

lemma digits_hd: "0 < n \<Longrightarrow> hd (digits n) \<noteq> CHR ''0''"
proof (induction n rule: digits.induct)
  case (1 n)
  show ?case
  proof (cases "n < 10")
    case True
    have "char_of (48 + n) \<noteq> (CHR ''0'' :: char)"
    proof
      assume "char_of (48 + n) = (CHR ''0'' :: char)"
      then have "of_char (char_of (48 + n) :: char) = (48 :: nat)" by simp
      then show False using is_digit_show [OF True] 1(2) by simp
    qed
    then show ?thesis using True by (simp add: digits.simps [of n])
  next
    case False
    then show ?thesis using 1 digits_read [of "n div 10"] by (simp add: digits.simps [of n])
  qed
qed

lemma parse_octet_digits: "n \<le> 255 \<Longrightarrow> parse_octet (digits n) = Some n"
  using digits_read [of n] digits_hd [of n]
  by (cases "n = 0") (auto simp: parse_octet_def number_def digits.simps [of 0])

lemma split_on_prefix: "d \<notin> set a \<Longrightarrow> split_on d (a @ d # b) = a # split_on d b"
  by (induction a) auto

lemma split_on_single: "d \<notin> set a \<Longrightarrow> split_on d a = [a]"
  by (induction a) auto

lemma no_dot_in_digits: "\<not> is_digit ch \<Longrightarrow> ch \<notin> set (digits n)"
  using digits_read [of n] by (auto simp: list_all_iff)

lemma dot_marks [simp]: "\<not> is_digit CHR ''.''" "\<not> is_digit CHR '':''" "\<not> is_digit CHR ''%''" "\<not> is_digit CHR ''[''" "\<not> is_digit CHR '']''"
  by (simp_all add: is_digit_def)

lemmas digits_marks [simp] = no_dot_in_digits [OF dot_marks(1)] no_dot_in_digits [OF dot_marks(2)] no_dot_in_digits [OF dot_marks(3)]
  no_dot_in_digits [OF dot_marks(4)] no_dot_in_digits [OF dot_marks(5)]

lemma dotted4: "dotted [a, b, c, d] = digits a @ CHR ''.'' # digits b @ CHR ''.'' # digits c @ CHR ''.'' # digits d"
  by (simp add: dotted_def)

lemma first_mark:
  "\<forall>ch \<in> set a. P ch \<Longrightarrow> \<not> P c \<Longrightarrow> dropWhile P (a @ c # b) = c # b"
  by (induction a) auto

lemma ParseAddr_dotted:
  assumes "a \<le> 255" "b \<le> 255" "c \<le> 255" "d \<le> 255"
  shows "ParseAddr (dotted [a, b, c, d]) = Some (Addr4 [a, b, c, d])"
proof -
  have "parseIPv4 (dotted [a, b, c, d]) = Some [a, b, c, d]"
    using assms by (simp add: parseIPv4_def dotted4 split_on_prefix split_on_single parse_octet_digits)
  moreover have "dropWhile (\<lambda>ch. ch \<notin> {CHR ''.'', CHR '':'', CHR ''%''}) (dotted [a, b, c, d])
      = CHR ''.'' # digits b @ CHR ''.'' # digits c @ CHR ''.'' # digits d"
    unfolding dotted4 by (rule first_mark) (auto dest: no_dot_in_digits)
  ultimately show ?thesis by (simp add: ParseAddr_def)
qed

end
