(* ===== verification/LocalNetwork.thy ===== *)
theory LocalNetwork
  imports GoNet
begin

text \<open>
  The hint about macOS cutting the agent off from the local network (internal/agent/localnetwork.go,
  localnetwork_errno.go and its use in reconnectSession of daemon.go): which failures look like it,
  and when the daemon says so. An error is whether its chain wraps EHOSTUNREACH, and its text.
\<close>

subsection \<open>Classifying a failure\<close>

record conn_err =
  wraps_unreachable :: bool
  dial_text :: string

definition errnoIsHostUnreachable :: "conn_err \<Rightarrow> bool" where
  "errnoIsHostUnreachable e = wraps_unreachable e"

definition isHostUnreachable :: "conn_err \<Rightarrow> bool" where
  "isHostUnreachable e = (errnoIsHostUnreachable e \<or> Contains (ToLower (dial_text e)) ''no route to host'')"

definition isLocalNetworkAddress :: "string \<Rightarrow> bool" where
  "isLocalNetworkAddress addr =
     (let host = trim_by (\<lambda>ch. ch = CHR ''['' \<or> ch = CHR '']'') (case SplitHostPort addr of Some h \<Rightarrow> h | None \<Rightarrow> addr) in
      if host = [] then False
      else (case ParseAddr host of
              Some ip \<Rightarrow> IsPrivate ip \<or> IsLinkLocalUnicast ip \<or> IsLoopback ip
            | None \<Rightarrow> suffix ''.local'' (ToLower (if suffix ''.'' host then butlast host else host))))"

definition isLocalNetworkDenial :: "string \<Rightarrow> string \<Rightarrow> conn_err option \<Rightarrow> bool" where
  "isLocalNetworkDenial goos hubAddr err =
     (case err of
        None \<Rightarrow> False
      | Some e \<Rightarrow> if goos \<noteq> ''darwin'' then False
                  else if \<not> isHostUnreachable e then False
                  else isLocalNetworkAddress hubAddr)"

subsection \<open>When it is said\<close>

definition localNetworkFailureStreak :: nat where "localNetworkFailureStreak = 3"

text \<open>The daemon's \<open>goos\<close> field and the platform; the address of the current configuration.\<close>

record net_watch =
  nw_goos :: string
  nw_denied_once :: bool

definition osName :: "string \<Rightarrow> net_watch \<Rightarrow> string" where
  "osName runtime_os d = (if nw_goos d = [] then runtime_os else nw_goos d)"

definition hubAddress :: "string option \<Rightarrow> string" where
  "hubAddress cfg = (case cfg of None \<Rightarrow> [] | Some addr \<Rightarrow> addr)"

text \<open>\<open>noteLocalNetworkDenial\<close>: whether the message is logged, and the once-gate after it.\<close>

definition noteLocalNetworkDenial :: "string \<Rightarrow> string option \<Rightarrow> conn_err \<Rightarrow> net_watch \<Rightarrow> bool \<times> net_watch" where
  "noteLocalNetworkDenial os cfg e d =
     (if \<not> isLocalNetworkDenial (osName os d) (hubAddress cfg) (Some e) then (False, d)
      else (\<not> nw_denied_once d, d\<lparr>nw_denied_once := True\<rparr>))"

text \<open>One failed attempt in the loop of \<open>reconnectSession\<close>: the streak, and whether the message is logged.\<close>

definition watch_failure :: "string \<Rightarrow> string option \<Rightarrow> conn_err \<Rightarrow> nat \<Rightarrow> net_watch \<Rightarrow> nat \<times> bool \<times> net_watch" where
  "watch_failure os cfg e streak d =
     (if isLocalNetworkDenial (osName os d) (hubAddress cfg) (Some e)
      then (if streak + 1 \<ge> localNetworkFailureStreak
            then (case noteLocalNetworkDenial os cfg e d of (said, d') \<Rightarrow> (streak + 1, said, d'))
            else (streak + 1, False, d))
      else (0, False, d))"

text \<open>The failures of one episode, each with the configuration it happened under; the streak is local to it.\<close>

fun watch_episode :: "string \<Rightarrow> nat \<Rightarrow> net_watch \<Rightarrow> (string option \<times> conn_err) list \<Rightarrow> bool list \<times> net_watch" where
  "watch_episode os streak d [] = ([], d)"
| "watch_episode os streak d ((cfg, e) # fs) =
     (case watch_failure os cfg e streak d of
        (streak', said, d') \<Rightarrow> (case watch_episode os streak' d' fs of (saids, d'') \<Rightarrow> (said # saids, d'')))"

fun watch_episodes :: "string \<Rightarrow> net_watch \<Rightarrow> (string option \<times> conn_err) list list \<Rightarrow> bool list list \<times> net_watch" where
  "watch_episodes os d [] = ([], d)"
| "watch_episodes os d (fs # eps) =
     (case watch_episode os 0 d fs of
        (saids, d') \<Rightarrow> (case watch_episodes os d' eps of (rest, d'') \<Rightarrow> (saids # rest, d'')))"

subsection \<open>Addresses\<close>

lemma trim_by_id: "s = [] \<or> \<not> P (hd s) \<and> \<not> P (last s) \<Longrightarrow> trim_by P s = s"
proof (cases "s = []")
  case False
  assume *: "s = [] \<or> \<not> P (hd s) \<and> \<not> P (last s)"
  have "dropWhile P s = s" "dropWhile P (rev s) = rev s"
    using * False by (cases s; cases "rev s"; auto simp: hd_rev [symmetric])+
  then show ?thesis by (simp add: trim_by_def)
qed (simp add: trim_by_def)

lemma SplitHostPort_plain:
  assumes "set host \<inter> {CHR '':'', CHR ''['', CHR '']''} = {}" "set port \<inter> {CHR '':'', CHR ''['', CHR '']''} = {}"
  shows "SplitHostPort (host @ CHR '':'' # port) = Some host"
proof -
  have "takeWhile (\<lambda>ch. ch \<noteq> CHR '':'') (rev port @ [CHR '':''] @ rev host) = rev port"
    "dropWhile (\<lambda>ch. ch \<noteq> CHR '':'') (rev port @ [CHR '':''] @ rev host) = [CHR '':''] @ rev host"
    using assms(2) by (subst takeWhile_append2 dropWhile_append2; auto)+
  then have "split_last_colon (host @ CHR '':'' # port) = Some (host, port)" by (simp add: split_last_colon_def)
  then show ?thesis using assms
    by (cases host) (auto simp: SplitHostPort_def split: list.splits char.splits bool.splits)
qed

lemma digits_plain: "set (digits n) \<inter> {CHR '':'', CHR ''['', CHR '']''} = {}"
  using digits_marks by auto

lemma dotted_ends: "\<exists>x y. is_digit x \<and> is_digit y \<and> hd (dotted [a, b, c, d]) = x \<and> last (dotted [a, b, c, d]) = y"
proof -
  have "is_digit (hd (digits n))" "is_digit (last (digits n))" "digits n \<noteq> []" for n
    using digits_read [of n] by (auto simp: list_all_iff)
  then show ?thesis by (simp add: dotted4)
qed

text \<open>
  Of the hubs given by an IPv4 address and a port, those the hint is given for are exactly the
  ones on the private ranges 10/8, 172.16/12 and 192.168/16, on the link-local range 169.254/16 and
  on the loopback range 127/8.
\<close>

theorem local_address_ranges:
  assumes "a \<le> 255" "b \<le> 255" "c \<le> 255" "d \<le> 255"
  shows "isLocalNetworkAddress (dotted [a, b, c, d] @ CHR '':'' # digits port) \<longleftrightarrow>
    a = 10 \<or> a = 172 \<and> b \<in> {16..31} \<or> a = 192 \<and> b = 168 \<or> a = 169 \<and> b = 254 \<or> a = 127"
proof -
  have h: "SplitHostPort (dotted [a, b, c, d] @ CHR '':'' # digits port) = Some (dotted [a, b, c, d])"
    by (rule SplitHostPort_plain) (auto simp: dotted4)
  obtain x y where e: "is_digit x" "is_digit y" "hd (dotted [a, b, c, d]) = x" "last (dotted [a, b, c, d]) = y"
    using dotted_ends by blast
  then have t: "trim_by (\<lambda>ch. ch = CHR ''['' \<or> ch = CHR '']'') (dotted [a, b, c, d]) = dotted [a, b, c, d]"
    by (intro trim_by_id) auto
  have "dotted [a, b, c, d] \<noteq> []" by (simp add: dotted4)
  moreover have "(b div 16 = 1) = (b \<in> {16..31})" by auto
  ultimately show ?thesis using assms
    by (simp add: isLocalNetworkAddress_def h t Let_def ParseAddr_dotted IsPrivate_def IsLinkLocalUnicast_def IsLoopback_def unmap_def)
qed

lemma local_address_ranges_witness:
  "isLocalNetworkAddress (dotted [192, 168, 31, 158] @ CHR '':'' # digits 9090) \<and>
   \<not> isLocalNetworkAddress (dotted [172, 32, 0, 1] @ CHR '':'' # digits 9090)"
  using local_address_ranges [of 192 168 31 158 9090] local_address_ranges [of 172 32 0 1 9090] by simp

subsection \<open>Once, and after three in a row\<close>

definition denial :: "string \<Rightarrow> string option \<times> conn_err \<Rightarrow> bool" where
  "denial os f = isLocalNetworkDenial os (hubAddress (fst f)) (Some (snd f))"

lemma watch_failure_denial:
  "watch_failure os cfg e k d =
     (if denial (osName os d) (cfg, e)
      then (k + 1, k \<ge> 2 \<and> \<not> nw_denied_once d, d\<lparr>nw_denied_once := nw_denied_once d \<or> k \<ge> 2\<rparr>)
      else (0, False, d))"
  by (simp add: watch_failure_def denial_def noteLocalNetworkDenial_def localNetworkFailureStreak_def)

lemma osName_once [simp]: "osName os (d\<lparr>nw_denied_once := b\<rparr>) = osName os d"
  by (simp add: osName_def)

lemma watch_episode_said:
  "watch_episode os k d fs = (saids, d') \<Longrightarrow>
     length saids = length fs \<and> osName os d' = osName os d \<and> (nw_denied_once d \<longrightarrow> nw_denied_once d') \<and>
     length (filter (\<lambda>b. b) saids) = (if nw_denied_once d' \<and> \<not> nw_denied_once d then 1 else 0) \<and>
     (\<forall>i < length fs. saids ! i \<longrightarrow> i + k \<ge> 2 \<and> (\<forall>j \<le> i. i < j + 3 \<longrightarrow> denial (osName os d) (fs ! j)))"
proof (induction fs arbitrary: k d saids)
  case (Cons f fs)
  obtain cfg e where f: "f = (cfg, e)" by (cases f)
  obtain k' said d1 where w: "watch_failure os cfg e k d = (k', said, d1)" by (cases "watch_failure os cfg e k d")
  obtain rest where r: "watch_episode os k' d1 fs = (rest, d')" "saids = said # rest"
    using Cons.prems f w by (cases "watch_episode os k' d1 fs") simp
  note IH = Cons.IH [OF r(1)]
  have o1: "osName os d1 = osName os d" using w by (auto simp: watch_failure_denial split: if_splits)
  have k': "k' = (if denial (osName os d) f then k + 1 else 0)" and s: "said = (denial (osName os d) f \<and> k \<ge> 2 \<and> \<not> nw_denied_once d)"
    and d1: "nw_denied_once d1 = (nw_denied_once d \<or> denial (osName os d) f \<and> k \<ge> 2)"
    using w f by (auto simp: watch_failure_denial split: if_splits)
  have "saids ! i \<longrightarrow> i + k \<ge> 2 \<and> (\<forall>j \<le> i. i < j + 3 \<longrightarrow> denial (osName os d) ((f # fs) ! j))" if i: "i < Suc (length fs)" for i
  proof (cases i)
    case 0
    then show ?thesis using r(2) s by simp
  next
    case (Suc m)
    have "denial (osName os d) f" if "rest ! m" "m \<le> 1"
      using IH that i Suc k' by (cases "denial (osName os d) f") auto
    then show ?thesis using IH i Suc r(2) k' o1
      by (auto simp: nth_Cons split: nat.splits if_splits)
  qed
  then have all: "\<forall>i < length (f # fs). saids ! i \<longrightarrow> i + k \<ge> 2 \<and> (\<forall>j \<le> i. i < j + 3 \<longrightarrow> denial (osName os d) ((f # fs) ! j))"
    by simp
  have "length (filter (\<lambda>b. b) saids) = (if nw_denied_once d' \<and> \<not> nw_denied_once d then 1 else 0)"
    using IH r(2) s d1 by (cases "nw_denied_once d"; cases "nw_denied_once d1"; cases "nw_denied_once d'"; simp)
  moreover have "length saids = length (f # fs)" "osName os d' = osName os d" "nw_denied_once d \<longrightarrow> nw_denied_once d'"
    using IH r(2) o1 d1 by simp_all
  ultimately show ?case using all by iprover
qed simp

lemma watch_episode_streak:
  assumes "denial (osName os d) x" "denial (osName os d) y" "denial (osName os d) z"
  shows "nw_denied_once (snd (watch_episode os k d (pre @ x # y # z # post)))"
  using assms
proof (induction pre arbitrary: k d)
  case Nil
  obtain saids d' where w: "watch_episode os (k + 3) (d\<lparr>nw_denied_once := True\<rparr>) post = (saids, d')"
    by (cases "watch_episode os (k + 3) (d\<lparr>nw_denied_once := True\<rparr>) post")
  have "nw_denied_once d'" using watch_episode_said [OF w] by simp
  moreover have "watch_episode os k d ([] @ x # y # z # post) = (let r = watch_episode os (k + 3) (d\<lparr>nw_denied_once := True\<rparr>) post in
      ((k \<ge> 2 \<and> \<not> nw_denied_once d) # (k = 1 \<and> \<not> nw_denied_once d) # (k = 0 \<and> \<not> nw_denied_once d) # fst r, snd r))"
    using Nil by (cases x; cases y; cases z)
      (auto simp: watch_failure_denial Let_def eval_nat_numeral split: prod.splits)
  ultimately show ?case using w by (simp add: Let_def)
next
  case (Cons f pre)
  obtain cfg e where f: "f = (cfg, e)" by (cases f)
  obtain k' said d1 where w: "watch_failure os cfg e k d = (k', said, d1)" by (cases "watch_failure os cfg e k d")
  have "osName os d1 = osName os d" using w by (auto simp: watch_failure_denial split: if_splits)
  moreover have "snd (watch_episode os k d ((f # pre) @ x # y # z # post)) = snd (watch_episode os k' d1 (pre @ x # y # z # post))"
    using f w by (cases "watch_episode os k' d1 (pre @ x # y # z # post)") simp
  ultimately show ?case using Cons.IH [of d1 k'] Cons.prems by simp
qed

lemma watch_episodes_said:
  "watch_episodes os d eps = (saids, d') \<Longrightarrow>
     length saids = length eps \<and> osName os d' = osName os d \<and> (nw_denied_once d \<longrightarrow> nw_denied_once d') \<and>
     length (filter (\<lambda>b. b) (concat saids)) = (if nw_denied_once d' \<and> \<not> nw_denied_once d then 1 else 0) \<and>
     (\<forall>e < length eps. \<forall>i < length (eps ! e). saids ! e ! i \<longrightarrow>
        i \<ge> 2 \<and> (\<forall>j \<le> i. i < j + 3 \<longrightarrow> denial (osName os d) (eps ! e ! j)))"
proof (induction eps arbitrary: d saids)
  case (Cons fs eps)
  obtain first d1 where w: "watch_episode os 0 d fs = (first, d1)" by (cases "watch_episode os 0 d fs")
  obtain rest where r: "watch_episodes os d1 eps = (rest, d')" "saids = first # rest"
    using Cons.prems w by (cases "watch_episodes os d1 eps") simp
  note one = watch_episode_said [OF w] and IH = Cons.IH [OF r(1)]
  have "length (filter (\<lambda>b. b) (concat saids)) = (if nw_denied_once d' \<and> \<not> nw_denied_once d then 1 else 0)"
    using one IH r(2) by (cases "nw_denied_once d"; cases "nw_denied_once d1"; cases "nw_denied_once d'"; simp)
  moreover have "saids ! e ! i \<longrightarrow> i \<ge> 2 \<and> (\<forall>j \<le> i. i < j + 3 \<longrightarrow> denial (osName os d) ((fs # eps) ! e ! j))"
    if "e < Suc (length eps)" "i < length ((fs # eps) ! e)" for e i
    using that one IH r(2) by (cases e) simp_all
  then have "\<forall>e < length (fs # eps). \<forall>i < length ((fs # eps) ! e). saids ! e ! i \<longrightarrow>
        i \<ge> 2 \<and> (\<forall>j \<le> i. i < j + 3 \<longrightarrow> denial (osName os d) ((fs # eps) ! e ! j))" by simp
  moreover have "length saids = length (fs # eps)" "osName os d' = osName os d" "nw_denied_once d \<longrightarrow> nw_denied_once d'"
    using one IH r(2) by simp_all
  ultimately show ?case by iprover
qed simp

lemma watch_episodes_streak:
  assumes "denial (osName os d) x" "denial (osName os d) y" "denial (osName os d) z"
    and "pre @ x # y # z # post \<in> set eps"
  shows "nw_denied_once (snd (watch_episodes os d eps))"
  using assms
proof (induction eps arbitrary: d)
  case (Cons fs eps)
  obtain first d1 where w: "watch_episode os 0 d fs = (first, d1)" by (cases "watch_episode os 0 d fs")
  obtain rest d' where r: "watch_episodes os d1 eps = (rest, d')" by (cases "watch_episodes os d1 eps")
  have d: "nw_denied_once d1 \<Longrightarrow> nw_denied_once d'" and o1: "osName os d1 = osName os d"
    using watch_episodes_said [OF r] watch_episode_said [OF w] by simp_all
  have "nw_denied_once d'"
  proof (cases "fs = pre @ x # y # z # post")
    case True
    then show ?thesis using watch_episode_streak [OF Cons.prems(1-3), of 0 pre post] w d by simp
  next
    case False
    then show ?thesis using Cons.IH [of d1] Cons.prems o1 r by simp
  qed
  then show ?case using w r by simp
qed simp

text \<open>
  In the life of a daemon, through all its outages, the hint about macOS is logged at most once;
  it is logged only after a failure that, with the two before it in the same outage, looks like a
  denial; and an outage with three such failures in a row has been or had been followed by it.
\<close>

theorem denial_named_once_after_three:
  assumes "watch_episodes os d eps = (saids, d')" and "\<not> nw_denied_once d"
  shows "length (filter (\<lambda>b. b) (concat saids)) \<le> 1 \<and>
    (\<forall>e < length eps. \<forall>i < length (eps ! e). saids ! e ! i \<longrightarrow> i \<ge> 2 \<and>
       denial (osName os d) (eps ! e ! (i - 2)) \<and> denial (osName os d) (eps ! e ! (i - 1)) \<and> denial (osName os d) (eps ! e ! i)) \<and>
    (\<forall>pre x y z post. pre @ x # y # z # post \<in> set eps \<and> list_all (denial (osName os d)) [x, y, z] \<longrightarrow>
       length (filter (\<lambda>b. b) (concat saids)) = 1)"
proof (intro conjI allI impI)
  note all = watch_episodes_said [OF assms(1)]
  show "length (filter (\<lambda>b. b) (concat saids)) \<le> 1" using all by simp
  fix e i assume "e < length eps" "i < length (eps ! e)" "saids ! e ! i"
  then have s: "i \<ge> 2" "\<forall>j \<le> i. i < j + 3 \<longrightarrow> denial (osName os d) (eps ! e ! j)" using all by blast+
  have "i < (i - 2) + 3" "i < (i - 1) + 3" "i < i + 3" using s(1) by linarith+
  then show "i \<ge> 2" "denial (osName os d) (eps ! e ! (i - 2))" "denial (osName os d) (eps ! e ! (i - 1))" "denial (osName os d) (eps ! e ! i)"
    using s by simp_all
next
  fix pre x y z post assume "pre @ x # y # z # post \<in> set eps \<and> list_all (denial (osName os d)) [x, y, z]"
  then show "length (filter (\<lambda>b. b) (concat saids)) = 1"
    using watch_episodes_streak [of os d x y z pre post eps] watch_episodes_said [OF assms(1)] assms by simp
qed

definition no_route :: "string option \<times> conn_err" where
  "no_route = (Some ''192.168.31.158:9090'', \<lparr>wraps_unreachable = False, dial_text = ''connect: no route to host''\<rparr>)"

definition timeout_err :: "string option \<times> conn_err" where
  "timeout_err = (Some ''192.168.31.158:9090'', \<lparr>wraps_unreachable = False, dial_text = ''i/o timeout''\<rparr>)"

lemma no_route_denial: "denial ''darwin'' no_route" "\<not> denial ''darwin'' timeout_err" "\<not> denial ''linux'' no_route"
  by code_simp+

lemma denial_named_once_after_three_witness:
  "length (filter (\<lambda>b. b) (concat (fst (watch_episodes ''darwin'' \<lparr>nw_goos = [], nw_denied_once = False\<rparr>
     [[no_route, no_route], [timeout_err, no_route, no_route, no_route, no_route]])))) = 1"
proof -
  let ?eps = "[[no_route, no_route], [timeout_err, no_route, no_route, no_route, no_route]]"
  have o1: "osName ''darwin'' \<lparr>nw_goos = [], nw_denied_once = False\<rparr> = ''darwin''" by (simp add: osName_def)
  have p: "[timeout_err] @ no_route # no_route # no_route # [no_route] \<in> set ?eps \<and> list_all (denial ''darwin'') [no_route, no_route, no_route]"
    using no_route_denial(1) by simp
  have "\<not> nw_denied_once \<lparr>nw_goos = [], nw_denied_once = False\<rparr>" by simp
  from denial_named_once_after_three [OF prod.collapse [symmetric] this, of "''darwin''" ?eps, unfolded o1]
  show ?thesis using p by blast
qed

end
