(* ===== verification/Pki.thy ===== *)
theory Pki
  imports Server GoNet
begin

text \<open>
  The certificates of the hub (internal/common/tls.go): what it signs, and what \<open>crypto/tls\<close> and
  \<open>crypto/x509\<close>, configured as the program does, accept from a peer. A key pair is a number; that a
  certificate verifies under a key is its field \<open>x_signer\<close>. Random draws, the clock and the failures
  of the library are arguments.
\<close>

subsection \<open>Certificates\<close>

datatype ext_usage = ClientAuth | ServerAuth | AnyUsage | OtherUsage

record pkix_name =
  organization :: string
  common_name :: string

text \<open>
  \<open>x_is_ca\<close>: the basic constraints are present and say CA. \<open>x_cert_sign\<close>: the key usage allows
  signing certificates. Times are those of the encoding, in whole seconds.
\<close>

record certificate =
  x_serial :: nat
  x_subject :: pkix_name
  x_issuer :: pkix_name
  x_not_before :: time
  x_not_after :: time
  x_is_ca :: bool
  x_cert_sign :: bool
  x_ext_usage :: "ext_usage list"
  x_ips :: "nat list list"
  x_dns :: "string list"
  x_key :: nat
  x_signer :: nat

definition caValidity :: duration where "caValidity = 10 * 365 * 24 * hour"
definition certValidity :: duration where "certValidity = 2 * 365 * 24 * hour"

subsection \<open>Signing\<close>

text \<open>What one call draws: the key pair, the serial number, the clock; and whether the library refuses.\<close>

record key_draw =
  kd_key :: "nat option"
  kd_serial :: "nat option"
  kd_now :: time
  kd_create_fails :: bool
  kd_parse_fails :: bool

datatype pki_err = KeyFailed | SerialFailed | CreateFailed | ParseFailed

definition der_time :: "time \<Rightarrow> time" where "der_time t = t div second * second"

text \<open>
  \<open>x509.CreateCertificate\<close>: the certificate of the template for \<open>pub\<close>, issued by the subject of the
  parent and signed by \<open>priv\<close>, which has to be the key of the parent when the parent has one.
\<close>

definition CreateCertificate :: "key_draw \<Rightarrow> certificate \<Rightarrow> pkix_name \<Rightarrow> nat option \<Rightarrow> nat \<Rightarrow> nat \<Rightarrow> certificate option" where
  "CreateCertificate d template parent parent_key pub priv =
     (if kd_create_fails d \<or> (parent_key \<noteq> None \<and> parent_key \<noteq> Some priv) then None
      else Some (template\<lparr>x_issuer := parent, x_not_before := der_time (x_not_before template),
                   x_not_after := der_time (x_not_after template), x_key := pub, x_signer := priv\<rparr>))"

definition template :: "nat \<Rightarrow> string \<Rightarrow> time \<Rightarrow> duration \<Rightarrow> bool \<Rightarrow> ext_usage list \<Rightarrow> nat list list \<Rightarrow> string list \<Rightarrow> certificate" where
  "template sn cn now valid ca eku ips dns =
     (let name = \<lparr>organization = ''HubFuse'', common_name = cn\<rparr> in
      \<lparr>x_serial = sn, x_subject = name, x_issuer = name, x_not_before = now, x_not_after = now + valid,
       x_is_ca = ca, x_cert_sign = ca, x_ext_usage = eku, x_ips = ips, x_dns = dns, x_key = 0, x_signer = 0\<rparr>)"

definition GenerateCA :: "key_draw \<Rightarrow> pki_err + certificate \<times> nat" where
  "GenerateCA d =
     (case kd_key d of
        None \<Rightarrow> Inl KeyFailed
      | Some key \<Rightarrow>
          (case kd_serial d of
             None \<Rightarrow> Inl SerialFailed
           | Some serial \<Rightarrow>
               (let t = template serial ''HubFuse CA'' (kd_now d) caValidity True [] [] [] in
                case CreateCertificate d t (x_subject t) None key key of
                  None \<Rightarrow> Inl CreateFailed
                | Some cert \<Rightarrow> if kd_parse_fails d then Inl ParseFailed else Inr (cert, key))))"

text \<open>The names of the server: what parses as an address is one, the rest are DNS names.\<close>

fun add_hosts :: "string list \<Rightarrow> nat list list \<times> string list \<Rightarrow> nat list list \<times> string list" where
  "add_hosts [] san = san"
| "add_hosts (h # hs) (ips, dns) =
     (case ParseIP h of Some ip \<Rightarrow> add_hosts hs (ips @ [ip], dns) | None \<Rightarrow> add_hosts hs (ips, dns @ [h]))"

definition GenerateServerCert :: "key_draw \<Rightarrow> certificate \<Rightarrow> nat \<Rightarrow> string list \<Rightarrow> pki_err + certificate \<times> nat" where
  "GenerateServerCert d caCert caKey hosts =
     (case kd_key d of
        None \<Rightarrow> Inl KeyFailed
      | Some key \<Rightarrow>
          (case kd_serial d of
             None \<Rightarrow> Inl SerialFailed
           | Some serial \<Rightarrow>
               (case add_hosts hosts ([], []) of
                  (ips, dns) \<Rightarrow>
                    (case CreateCertificate d (template serial ''HubFuse Server'' (kd_now d) certValidity False [ServerAuth] ips dns)
                            (x_subject caCert) (Some (x_key caCert)) key caKey of
                       None \<Rightarrow> Inl CreateFailed
                     | Some cert \<Rightarrow> Inr (cert, key)))))"

definition SignClientCert :: "key_draw \<Rightarrow> certificate \<Rightarrow> nat \<Rightarrow> string \<Rightarrow> pki_err + certificate \<times> nat" where
  "SignClientCert d caCert caKey deviceID =
     (case kd_key d of
        None \<Rightarrow> Inl KeyFailed
      | Some key \<Rightarrow>
          (case kd_serial d of
             None \<Rightarrow> Inl SerialFailed
           | Some serial \<Rightarrow>
               (case CreateCertificate d (template serial deviceID (kd_now d) certValidity False [ClientAuth] [] [])
                       (x_subject caCert) (Some (x_key caCert)) key caKey of
                  None \<Rightarrow> Inl CreateFailed
                | Some cert \<Rightarrow> Inr (cert, key))))"

text \<open>The certificates a CA has signed, newest first.\<close>

inductive minted :: "certificate \<Rightarrow> nat \<Rightarrow> certificate list \<Rightarrow> bool" where
  New_CA: "GenerateCA d = Inr (ca, k) \<Longrightarrow> minted ca k [ca]"
| New_server: "minted ca k cs \<Longrightarrow> GenerateServerCert d ca k hosts = Inr (c, sk) \<Longrightarrow> minted ca k (c # cs)"
| New_device: "minted ca k cs \<Longrightarrow> SignClientCert d ca k did = Inr (c, dk) \<Longrightarrow> minted ca k (c # cs)"

inductive_cases minted_Nil: "minted ca k []"

subsection \<open>Verifying\<close>

definition in_window :: "time \<Rightarrow> certificate \<Rightarrow> bool" where
  "in_window now c \<longleftrightarrow> x_not_before c \<le> now \<and> now \<le> x_not_after c"

text \<open>\<open>CheckSignatureFrom\<close>, for a parent found by its name.\<close>

definition signed_from :: "certificate \<Rightarrow> certificate \<Rightarrow> bool" where
  "signed_from p c \<longleftrightarrow> x_issuer c = x_subject p \<and> x_is_ca p \<and> x_cert_sign p \<and> x_signer c = x_key p"

definition same_entity :: "certificate \<Rightarrow> certificate \<Rightarrow> bool" where
  "same_entity a b \<longleftrightarrow> x_subject a = x_subject b \<and> x_key a = x_key b \<and> x_ips a = x_ips b \<and> x_dns a = x_dns b"

text \<open>
  The chains from \<open>c\<close> to a root through the certificates of the pool. The first argument bounds
  their length: a certificate does not occur twice in a chain, so one more than the pool has is enough.
  The library's limit on the number of signatures it checks is left out; it only refuses more.
\<close>

fun build_chains :: "nat \<Rightarrow> certificate list \<Rightarrow> certificate list \<Rightarrow> time \<Rightarrow> certificate list \<Rightarrow> certificate \<Rightarrow> certificate list list" where
  "build_chains n roots pool now seen c =
     map (\<lambda>r. [c, r]) (filter (\<lambda>r. \<not> list_ex (same_entity r) (c # seen) \<and> signed_from r c \<and> in_window now r) roots) @
     (case n of
        0 \<Rightarrow> []
      | Suc m \<Rightarrow> concat (map (\<lambda>p. map ((#) c) (build_chains m roots pool now (c # seen) p))
          (filter (\<lambda>p. \<not> list_ex (same_entity p) (c # seen) \<and> signed_from p c \<and> in_window now p) pool)))"

declare build_chains.simps [simp del]

definition usage_allowed :: "ext_usage \<Rightarrow> certificate \<Rightarrow> bool" where
  "usage_allowed u c \<longleftrightarrow> x_ext_usage c = [] \<or> u \<in> set (x_ext_usage c) \<or> AnyUsage \<in> set (x_ext_usage c)"

text \<open>\<open>Certificate.Verify\<close> with roots, intermediates, the time and one usage; no chain is an error.\<close>

definition x509_Verify :: "certificate list \<Rightarrow> certificate list \<Rightarrow> time \<Rightarrow> ext_usage \<Rightarrow> certificate \<Rightarrow> certificate list list" where
  "x509_Verify roots pool now usage leaf =
     (if \<not> in_window now leaf then []
      else filter (list_all (usage_allowed usage))
        (if leaf \<in> set roots then [[leaf]] else build_chains (length pool + 1) roots pool now [] leaf))"

subsection \<open>Handshakes\<close>

text \<open>
  The server side of \<open>LoadTLSServerConfig\<close>, \<open>VerifyClientCertIfGiven\<close> with the CA as the only
  client root: without a certificate the handshake goes on and there are no verified chains. \<open>K\<close> holds the private keys of
  the peer, who has to sign with the key of the leaf. \<open>None\<close> is a failed handshake.
\<close>

definition server_handshake :: "certificate list \<Rightarrow> time \<Rightarrow> nat set \<Rightarrow> certificate list \<Rightarrow> certificate list list option" where
  "server_handshake clientCAs now K presented =
     (case presented of
        [] \<Rightarrow> Some []
      | leaf # rest \<Rightarrow>
          (let found = x509_Verify clientCAs rest now ClientAuth leaf in
           if found = [] \<or> x_key leaf \<notin> K then None else Some found))"

text \<open>The peer as the handlers see it.\<close>

definition tls_ctx :: "string \<Rightarrow> certificate list list \<Rightarrow> rpc_ctx" where
  "tls_ctx addr cs = Some \<lparr>peer_addr = addr, verified_chains = Some (map (map (\<lambda>c. common_name (x_subject c))) cs)\<rparr>"

text \<open>\<open>matchHostnames\<close> and what \<open>VerifyHostname\<close> takes as a name.\<close>

definition valid_label :: "string \<Rightarrow> bool" where
  "valid_label l \<longleftrightarrow> l \<noteq> [] \<and> hd l \<noteq> CHR ''-'' \<and>
     list_all (\<lambda>ch. is_digit ch \<or> lower ch \<noteq> ch \<or> upper ch \<noteq> ch \<or> ch = CHR ''-'' \<or> ch = CHR ''_'') l"

definition trim_dot :: "string \<Rightarrow> string" where
  "trim_dot s = (if s \<noteq> [] \<and> last s = CHR ''.'' then butlast s else s)"

definition valid_host :: "string \<Rightarrow> bool" where
  "valid_host h = list_all valid_label (split_on CHR ''.'' (trim_dot h))"

definition valid_pattern :: "string \<Rightarrow> bool" where
  "valid_pattern p \<longleftrightarrow> p \<noteq> ''*'' \<and>
     (case split_on CHR ''.'' p of [] \<Rightarrow> False | l # ls \<Rightarrow> (l = ''*'' \<or> valid_label l) \<and> list_all valid_label ls)"

definition matchHostnames :: "string \<Rightarrow> string \<Rightarrow> bool" where
  "matchHostnames pattern host =
     (let ps = split_on CHR ''.'' (ToLower pattern); hs = split_on CHR ''.'' (ToLower (trim_dot host)) in
      pattern \<noteq> [] \<and> trim_dot host \<noteq> [] \<and> length ps = length hs \<and> (hd ps = ''*'' \<or> hd ps = hd hs) \<and> tl ps = tl hs)"

definition matchExactly :: "string \<Rightarrow> string \<Rightarrow> bool" where
  "matchExactly a b \<longleftrightarrow> a \<noteq> [] \<and> a \<noteq> ''.'' \<and> b \<noteq> [] \<and> b \<noteq> ''.'' \<and> ToLower a = ToLower b"

definition VerifyHostname :: "certificate \<Rightarrow> string \<Rightarrow> bool" where
  "VerifyHostname c h =
     (let inner = (if length h \<ge> 3 \<and> hd h = CHR ''['' \<and> last h = CHR '']'' then butlast (tl h) else h) in
      case ParseIP inner of
        Some ip \<Rightarrow> ip \<in> set (x_ips c)
      | None \<Rightarrow> list_ex (\<lambda>p. if valid_host (ToLower h) \<and> valid_pattern p then matchHostnames p (ToLower h)
                              else matchExactly p (ToLower h)) (x_dns c))"

text \<open>
  The client side of \<open>LoadTLSClientConfig\<close>: the CA is the only root and the name is the host that was
  dialled. \<open>K\<close> holds the keys of whoever answers.
\<close>

definition client_handshake :: "certificate list \<Rightarrow> time \<Rightarrow> string \<Rightarrow> nat set \<Rightarrow> certificate list \<Rightarrow> bool" where
  "client_handshake rootCAs now host K presented =
     (case presented of
        [] \<Rightarrow> False
      | leaf # rest \<Rightarrow> x509_Verify rootCAs rest now ServerAuth leaf \<noteq> [] \<and> VerifyHostname leaf host \<and> x_key leaf \<in> K)"

end
