(* ===== verification/PkiProps.thy ===== *)
theory PkiProps
  imports ServerProps Pki
begin

text \<open>
  Who the hub takes a caller for, and whom an agent takes for the hub, when others hold every key
  but those of the CA and of the victim.
\<close>

subsection \<open>What a CA has signed\<close>

lemmas signing_defs = GenerateCA_def GenerateServerCert_def SignClientCert_def CreateCertificate_def template_def Let_def

definition client_cert :: "string \<Rightarrow> certificate \<Rightarrow> bool" where
  "client_cert did c \<longleftrightarrow> x_ext_usage c = [ClientAuth] \<and> common_name (x_subject c) = did"

definition server_cert :: "string list \<Rightarrow> certificate \<Rightarrow> bool" where
  "server_cert hosts c \<longleftrightarrow> x_ext_usage c = [ServerAuth] \<and> (x_ips c, x_dns c) = add_hosts hosts ([], [])"

lemma GenerateCA_shape:
  "GenerateCA d = Inr (ca, k) \<Longrightarrow> x_key ca = k \<and> x_signer ca = k \<and> x_is_ca ca \<and> x_cert_sign ca \<and> x_ext_usage ca = [] \<and>
     x_issuer ca = x_subject ca \<and> x_not_before ca = der_time (kd_now d) \<and> x_not_after ca = der_time (kd_now d + caValidity)"
  by (auto simp: signing_defs split: option.splits if_splits)

lemma GenerateServerCert_shape:
  "GenerateServerCert d ca k hosts = Inr (c, sk) \<Longrightarrow> server_cert hosts c \<and> x_key ca = k \<and> x_signer c = k \<and> \<not> x_is_ca c \<and>
     x_issuer c = x_subject ca \<and> x_key c = sk \<and> x_not_before c = der_time (kd_now d) \<and> x_not_after c = der_time (kd_now d + certValidity)"
  by (auto simp: signing_defs server_cert_def split: option.splits if_splits prod.splits)

lemma SignClientCert_shape:
  "SignClientCert d ca k did = Inr (c, dk) \<Longrightarrow> client_cert did c \<and> x_key ca = k \<and> x_signer c = k \<and> \<not> x_is_ca c \<and>
     x_issuer c = x_subject ca \<and> x_key c = dk \<and> x_not_before c = der_time (kd_now d) \<and> x_not_after c = der_time (kd_now d + certValidity)"
  by (auto simp: signing_defs client_cert_def split: option.splits if_splits)

lemma minted_ca: "minted ca k cs \<Longrightarrow> ca \<in> set cs \<and> x_key ca = k \<and> x_ext_usage ca = []"
  by (induction rule: minted.induct) (auto dest: GenerateCA_shape)

lemma minted_signed: "minted ca k cs \<Longrightarrow> c \<in> set cs \<Longrightarrow> x_signer c = k"
  by (induction rule: minted.induct) (auto dest: GenerateCA_shape GenerateServerCert_shape SignClientCert_shape)

lemma minted_kinds:
  "minted ca k cs \<Longrightarrow> c \<in> set cs \<Longrightarrow> c = ca \<or> \<not> x_is_ca c \<and> ((\<exists>hosts. server_cert hosts c) \<or> (\<exists>did. client_cert did c))"
  by (induction rule: minted.induct) (auto dest: GenerateServerCert_shape SignClientCert_shape)

subsection \<open>Chains end in the CA\<close>

text \<open>A certificate others can present: the CA has signed it, or they have, with a key of their own.\<close>

definition presentable :: "certificate list \<Rightarrow> nat set \<Rightarrow> certificate \<Rightarrow> bool" where
  "presentable cs K c \<longleftrightarrow> c \<in> set cs \<or> x_signer c \<in> K"

lemma build_chains_shape:
  assumes "minted ca k cs" "k \<notin> K" "list_all (presentable cs K) pool" "presentable cs K c"
    and "ch \<in> set (build_chains n [ca] pool now seen c)"
  shows "c \<in> set cs \<and> (\<exists>rest. ch = c # rest)"
  using assms(4,5)
proof (induction n arbitrary: seen c ch)
  case 0
  then show ?case using assms(2) minted_ca [OF assms(1)]
    by (auto simp: build_chains.simps [of 0] signed_from_def presentable_def split: if_splits)
next
  case (Suc n)
  show ?case
  proof (cases "signed_from ca c")
    case True
    then show ?thesis using Suc.prems assms(2) minted_ca [OF assms(1)]
      by (auto simp: build_chains.simps [of "Suc n"] signed_from_def presentable_def)
  next
    case False
    then obtain p ch' where p: "p \<in> set pool" "signed_from p c" and ch: "ch' \<in> set (build_chains n [ca] pool now (c # seen) p)" "ch = c # ch'"
      using Suc.prems(2) by (auto simp: build_chains.simps [of "Suc n"])
    have "p \<in> set cs" using Suc.IH [OF _ ch(1)] p(1) assms(3) by (simp add: list_all_iff)
    then have "p = ca" using minted_kinds [OF assms(1)] p(2) by (auto simp: signed_from_def)
    then show ?thesis using False p(2) by simp
  qed
qed

text \<open>What verifies is the CA itself or a certificate it has issued for that use.\<close>

lemma verified_leaf:
  assumes "minted ca k cs" "k \<notin> K" "list_all (presentable cs K) (leaf # pool)"
    and "ch \<in> set (x509_Verify [ca] pool now u leaf)"
  shows "leaf \<in> set cs \<and> in_window now leaf \<and> usage_allowed u leaf \<and> (\<exists>rest. ch = leaf # rest)"
proof -
  have w: "in_window now leaf" using assms(4) by (auto simp: x509_Verify_def split: if_splits)
  show ?thesis
  proof (cases "leaf = ca")
    case True
    then show ?thesis using assms(4) w minted_ca [OF assms(1)] by (simp add: x509_Verify_def list_all_iff split: if_splits)
  next
    case False
    then have "ch \<in> set (build_chains (length pool + 1) [ca] pool now [] leaf)" "list_all (usage_allowed u) ch"
      using assms(4) w by (auto simp: x509_Verify_def)
    then show ?thesis using build_chains_shape [OF assms(1,2) _ _ \<open>ch \<in> set (build_chains _ _ _ _ _ _)\<close>] assms(3) w by auto
  qed
qed

subsection \<open>The caller\<close>

lemma handshake_identity:
  assumes "minted ca k cs" "k \<notin> K" "list_all (presentable cs K) presented"
    and "server_handshake [ca] now K presented = Some found" and "ExtractDeviceID (tls_ctx addr found) = Inr did"
  shows "\<exists>c \<in> set cs. client_cert did c \<and> x_key c \<in> K \<and> in_window now c"
proof (cases presented)
  case Nil
  then show ?thesis using assms(4,5) by (simp add: server_handshake_def tls_ctx_def ExtractDeviceID_def)
next
  case (Cons leaf rest)
  then have v: "x509_Verify [ca] rest now ClientAuth leaf = found" "found \<noteq> []" "x_key leaf \<in> K"
    using assms(4) by (auto simp: server_handshake_def Let_def split: if_splits)
  obtain ch more where f: "found = ch # more" using v(2) by (cases found) auto
  have l: "leaf \<in> set cs \<and> in_window now leaf \<and> usage_allowed ClientAuth leaf \<and> (\<exists>rest. ch = leaf # rest)"
    using verified_leaf [OF assms(1,2), of leaf rest ch now ClientAuth] assms(3) Cons v(1) f by auto
  have "common_name (x_subject leaf) = did" using assms(5) f l by (auto simp: tls_ctx_def ExtractDeviceID_def)
  moreover have "leaf \<noteq> ca" using v(3) assms(2) minted_ca [OF assms(1)] by auto
  ultimately have "client_cert did leaf"
    using minted_kinds [OF assms(1), of leaf] l by (auto simp: usage_allowed_def server_cert_def client_cert_def)
  then show ?thesis using l v(3) by blast
qed

text \<open>
  C2: whoever does not hold the private key of a certificate the hub has issued for a device cannot
  act for it: whatever certificates they present, their own, the ones of other devices, the one of
  the server or ones they have signed themselves, if the handshake succeeds at all, every RPC but
  Join leaves the rows of that device and its shares as they were.
\<close>

theorem nobody_acts_for_a_device:
  assumes "minted ca k cs" and "k \<notin> K" and "list_all (presentable cs K) presented"
    and "server_handshake [ca] now K presented = Some found"
    and "list_all (\<lambda>c. client_cert did c \<longrightarrow> x_key c \<notin> K) cs"
    and "\<not> is_join r" and "run (serve env (tls_ctx addr found) r) s = (res, s')"
  shows "filter (\<lambda>x. device_id x = did) (devices (hdb s')) = filter (\<lambda>x. device_id x = did) (devices (hdb s)) \<and>
    filter (\<lambda>x. share_device x = did) (shares (hdb s')) = filter (\<lambda>x. share_device x = did) (shares (hdb s))"
proof (cases "ExtractDeviceID (tls_ctx addr found)")
  case (Inl e)
  then show ?thesis using refused_before_the_handler [of s r "tls_ctx addr found" env] assms(6,7) by simp
next
  case (Inr other)
  have "other \<noteq> did"
    using handshake_identity [OF assms(1-4) Inr] assms(5) by (auto simp: list_all_iff)
  then show ?thesis using serve_keeps_other_rows [OF Inr assms(6) _ assms(7), of did] by (simp add: same_rows_def)
qed

text \<open>
  C17: an agent takes nobody but the hub for the hub: a host that answers without the key of a server
  certificate of the CA for the dialled name fails the handshake, even when it belongs to the network
  and presents the certificate of a device.
\<close>

theorem only_the_hub_answers:
  assumes "minted ca k cs" and "k \<notin> K" and "list_all (presentable cs K) presented"
    and "list_all (\<lambda>c. (\<exists>hosts. server_cert hosts c) \<and> VerifyHostname c host \<longrightarrow> x_key c \<notin> K) cs"
  shows "\<not> client_handshake [ca] now host K presented"
proof
  assume h: "client_handshake [ca] now host K presented"
  then obtain leaf rest where p: "presented = leaf # rest" by (cases presented) (auto simp: client_handshake_def)
  then have k: "VerifyHostname leaf host" "x_key leaf \<in> K" "x509_Verify [ca] rest now ServerAuth leaf \<noteq> []"
    using h by (simp_all add: client_handshake_def)
  then obtain ch where ch: "ch \<in> set (x509_Verify [ca] rest now ServerAuth leaf)" by (meson last_in_set)
  have l: "leaf \<in> set cs \<and> usage_allowed ServerAuth leaf" using verified_leaf [OF assms(1,2) _ ch] assms(3) p by simp
  have "leaf \<noteq> ca" using k(2) assms(2) minted_ca [OF assms(1)] by auto
  then have "\<exists>hosts. server_cert hosts leaf" using minted_kinds [OF assms(1), of leaf] l by (auto simp: usage_allowed_def client_cert_def)
  then show False using assms(4) l k by (auto simp: list_all_iff)
qed

lemma own_handshake:
  assumes "GenerateCA d0 = Inr (ca, k)" and "SignClientCert d ca k did = Inr (c, dk)" and "dk \<in> K" and "dk \<noteq> k"
  shows "server_handshake [ca] now K [c] = (if in_window now c \<and> in_window now ca then Some [[c, ca]] else None)"
proof -
  note a = GenerateCA_shape [OF assms(1)] and b = SignClientCert_shape [OF assms(2)]
  have "\<not> same_entity ca c" using a b assms(4) by (auto simp: same_entity_def)
  moreover have "c \<noteq> ca" using a b assms(4) by auto
  ultimately have "build_chains 1 [ca] [] now [] c = (if in_window now ca then [[c, ca]] else [])"
    using a b by (simp add: build_chains.simps signed_from_def)
  then show ?thesis using a b assms(3) \<open>c \<noteq> ca\<close>
    by (auto simp: server_handshake_def x509_Verify_def Let_def usage_allowed_def client_cert_def)
qed

text \<open>
  The certificate a device got when it joined is accepted, by itself and for its owner, exactly
  while both it and the CA are in their validity periods: two years and ten years from the second
  they were made in.
\<close>

theorem device_accepted_while_valid:
  assumes "GenerateCA d0 = Inr (ca, k)" and "SignClientCert d ca k did = Inr (c, dk)" and "dk \<in> K" and "dk \<noteq> k"
  shows "server_handshake [ca] now K [c] =
    (if der_time (kd_now d) \<le> now \<and> now \<le> der_time (kd_now d + certValidity) \<and>
        der_time (kd_now d0) \<le> now \<and> now \<le> der_time (kd_now d0 + caValidity) then Some [[c, ca]] else None)"
  using own_handshake [OF assms] GenerateCA_shape [OF assms(1)] SignClientCert_shape [OF assms(2)] by (auto simp: in_window_def)


subsection \<open>A small network\<close>

definition draw :: "nat \<Rightarrow> time \<Rightarrow> key_draw" where
  "draw n t = \<lparr>kd_key = Some n, kd_serial = Some n, kd_now = t, kd_create_fails = False, kd_parse_fails = False\<rparr>"

text \<open>The CA has key 1, the server key 2, \<open>d1\<close> key 3 and \<open>d2\<close> key 4.\<close>

definition net_ca :: certificate where "net_ca = fst (projr (GenerateCA (draw 1 0)))"
definition net_server :: certificate where "net_server = fst (projr (GenerateServerCert (draw 2 0) net_ca 1 [''10.0.0.1'', ''hub.local'']))"
definition net_device :: "string \<Rightarrow> nat \<Rightarrow> certificate" where
  "net_device did n = fst (projr (SignClientCert (draw n second) net_ca 1 did))"

lemmas net_defs = net_ca_def net_server_def net_device_def draw_def signing_defs

lemma net_minted: "minted net_ca 1 [net_device ''d2'' 4, net_device ''d1'' 3, net_server, net_ca]"
proof -
  have "GenerateCA (draw 1 0) = Inr (net_ca, 1)" by (simp add: net_defs)
  moreover have "GenerateServerCert (draw 2 0) net_ca 1 [''10.0.0.1'', ''hub.local''] = Inr (net_server, 2)"
    by (auto simp: net_defs split: prod.splits)
  moreover have "SignClientCert (draw n second) net_ca 1 did = Inr (net_device did n, n)" for did n
    by (simp add: net_defs)
  ultimately show ?thesis by (meson minted.intros)
qed

lemma nobody_acts_for_a_device_witness:
  "server_handshake [net_ca] (2 * second) {4} [net_device ''d2'' 4] = Some [[net_device ''d2'' 4, net_ca]] \<and>
   filter (\<lambda>x. device_id x = ''d1'')
     (devices (hdb (snd (run (serve sample_env (tls_ctx ''10.0.0.9:4000'' [[net_device ''d2'' 4, net_ca]]) RLeave) sample_hub)))) =
   filter (\<lambda>x. device_id x = ''d1'') (devices (hdb sample_hub))"
proof -
  have h: "server_handshake [net_ca] (2 * second) {4} [net_device ''d2'' 4] = Some [[net_device ''d2'' 4, net_ca]]"
    by code_simp
  have "list_all (presentable [net_device ''d2'' 4, net_device ''d1'' 3, net_server, net_ca] {4}) [net_device ''d2'' 4]"
    by (simp add: presentable_def)
  moreover have "list_all (\<lambda>c. client_cert ''d1'' c \<longrightarrow> x_key c \<notin> {4}) [net_device ''d2'' 4, net_device ''d1'' 3, net_server, net_ca]"
    by (auto simp: client_cert_def net_defs split: prod.splits)
  ultimately show ?thesis
    using nobody_acts_for_a_device [OF net_minted _ _ h _ _ prod.collapse [symmetric], of "''d1''" RLeave sample_env "''10.0.0.9:4000''" sample_hub] h by simp
qed

lemma only_the_hub_answers_witness:
  "VerifyHostname net_server ''hub.local'' \<and> \<not> client_handshake [net_ca] second ''hub.local'' {4} [net_device ''d2'' 4] \<and>
   \<not> client_handshake [net_ca] second ''hub.local'' {4} [net_server]"
proof -
  have "list_all (presentable [net_device ''d2'' 4, net_device ''d1'' 3, net_server, net_ca] {4}) [c]"
    if "c \<in> {net_device ''d2'' 4, net_server}" for c using that by (auto simp: presentable_def)
  moreover have "list_all (\<lambda>c. (\<exists>hosts. server_cert hosts c) \<and> VerifyHostname c ''hub.local'' \<longrightarrow> x_key c \<notin> {4})
      [net_device ''d2'' 4, net_device ''d1'' 3, net_server, net_ca]"
    by (auto simp: server_cert_def net_defs split: prod.splits)
  moreover have "VerifyHostname net_server ''hub.local''" by code_simp
  ultimately show ?thesis
    using only_the_hub_answers [OF net_minted, of "{4}" _ "''hub.local''" second] by simp
qed

lemma device_accepted_while_valid_witness:
  "server_handshake [net_ca] (certValidity + second) {3} [net_device ''d1'' 3] = Some [[net_device ''d1'' 3, net_ca]] \<and>
   server_handshake [net_ca] (certValidity + 2 * second) {3} [net_device ''d1'' 3] = None"
proof -
  have g: "GenerateCA (draw 1 0) = Inr (net_ca, 1)" "SignClientCert (draw 3 second) net_ca 1 ''d1'' = Inr (net_device ''d1'' 3, 3)"
    by (simp_all add: net_defs)
  show ?thesis
    using device_accepted_while_valid [OF g, of "{3}" "certValidity + second"] device_accepted_while_valid [OF g, of "{3}" "certValidity + 2 * second"]
    by (simp add: draw_def der_time_def duration_defs certValidity_def caValidity_def)
qed


end
