(* ===== verification/Dialing.thy ===== *)
theory Dialing
  imports AgentSession AgentRun HubClient Fingerprint
begin

text \<open>
  How the agent opens a connection to the hub (internal/agent/client.go, connector.go and
  LoadTLSClientConfig of internal/common/tls.go). Opening is lazy: what can fail here are the files
  and the form of the target. Reading certificates and keys and parsing the target are library calls.
\<close>

subsection \<open>The TLS configuration of a client\<close>

record tls_lib =
  tl_pair :: "string \<Rightarrow> string \<Rightarrow> bool"
  tl_pool :: "string \<Rightarrow> bool"
  tl_target :: "string \<Rightarrow> bool"

text \<open>What \<open>errors.As\<close> can find in an error, and where it comes from.\<close>

datatype tls_cause = UnknownAuthority | CertificateInvalid | OtherCause

datatype open_err = LoadClientPair tls_cause | ReadCAFile tls_cause | ParseCAFile tls_cause | DialTarget tls_cause

primrec cause_of :: "open_err \<Rightarrow> tls_cause" where
  "cause_of (LoadClientPair c) = c"
| "cause_of (ReadCAFile c) = c"
| "cause_of (ParseCAFile c) = c"
| "cause_of (DialTarget c) = c"

text \<open>The certificate and key that identify the client, and the roots the server is verified against.\<close>

record tls_client =
  tc_own_cert :: string
  tc_own_key :: string
  tc_roots :: string

definition LoadTLSClientConfig :: "tls_lib \<Rightarrow> (string \<Rightarrow> string option) \<Rightarrow> string \<Rightarrow> string \<Rightarrow> string \<Rightarrow> open_err + tls_client" where
  "LoadTLSClientConfig lib files caCertPath clientCertPath clientKeyPath =
     (case (files clientCertPath, files clientKeyPath) of
        (Some cert, Some key) \<Rightarrow>
          if \<not> tl_pair lib cert key then Inl (LoadClientPair OtherCause)
          else (case files caCertPath of
                  None \<Rightarrow> Inl (ReadCAFile OtherCause)
                | Some ca \<Rightarrow> if \<not> tl_pool lib ca then Inl (ParseCAFile OtherCause)
                            else Inr \<lparr>tc_own_cert = cert, tc_own_key = key, tc_roots = ca\<rparr>)
      | _ \<Rightarrow> Inl (LoadClientPair OtherCause))"

subsection \<open>Dialling\<close>

text \<open>The credentials of a connection: pinned to a fingerprint, or mutual TLS.\<close>

datatype creds = Pinned string | Mutual tls_client

text \<open>\<open>dialOptions\<close>: credentials, keepalive, and no service configuration from DNS.\<close>

record dial_options =
  do_creds :: creds
  do_keepalive_time :: duration
  do_keepalive_timeout :: duration
  do_permit_without_stream :: bool
  do_service_config :: bool

definition dialOptions :: "creds \<Rightarrow> dial_options" where
  "dialOptions c = \<lparr>do_creds = c, do_keepalive_time = hubKeepaliveTime, do_keepalive_timeout = hubKeepaliveTimeout,
     do_permit_without_stream = True, do_service_config = False\<rparr>"

record hub_conn =
  hc_addr :: string
  hc_options :: dial_options

definition NewClient :: "tls_lib \<Rightarrow> string \<Rightarrow> dial_options \<Rightarrow> open_err + hub_conn" where
  "NewClient lib addr opts = (if tl_target lib addr then Inr \<lparr>hc_addr = addr, hc_options = opts\<rparr> else Inl (DialTarget OtherCause))"

definition dialWithCreds :: "tls_lib \<Rightarrow> string \<Rightarrow> tls_client \<Rightarrow> open_err + hub_conn" where
  "dialWithCreds lib hubAddr c = NewClient lib hubAddr (dialOptions (Mutual c))"

definition DialPinned :: "tls_lib \<Rightarrow> string \<Rightarrow> string \<Rightarrow> open_err + hub_conn" where
  "DialPinned lib hubAddr expectedFP = NewClient lib hubAddr (dialOptions (Pinned expectedFP))"

definition DialWithMTLS :: "tls_lib \<Rightarrow> (string \<Rightarrow> string option) \<Rightarrow> string \<Rightarrow> string \<Rightarrow> string \<Rightarrow> string \<Rightarrow> open_err + hub_conn" where
  "DialWithMTLS lib files hubAddr caCertPath clientCertPath clientKeyPath =
     (case LoadTLSClientConfig lib files caCertPath clientCertPath clientKeyPath of
        Inl e \<Rightarrow> Inl e
      | Inr c \<Rightarrow> dialWithCreds lib hubAddr c)"

text \<open>The callback of a pinned connection, on the certificates the server presents.\<close>

definition VerifyPeerCertificate :: "(string \<Rightarrow> nat list) \<Rightarrow> creds \<Rightarrow> string list \<Rightarrow> sentinel option" where
  "VerifyPeerCertificate sha256 c rawCerts =
     (case c of Pinned fp \<Rightarrow> verify_pinned (FingerprintFromCertDER sha256) fp rawCerts | Mutual _ \<Rightarrow> None)"

subsection \<open>The connector\<close>

definition isTLSCertError :: "open_err option \<Rightarrow> bool" where
  "isTLSCertError err =
     (case err of
        None \<Rightarrow> False
      | Some e \<Rightarrow> if cause_of e = UnknownAuthority then True else cause_of e = CertificateInvalid)"

text \<open>What one attempt of \<open>Connect\<close> finds: the files and the form of the target.\<close>

definition loading :: "tls_lib \<Rightarrow> (string \<Rightarrow> string option) \<Rightarrow> string \<Rightarrow> string \<Rightarrow> string \<Rightarrow> dial_err + tls_client" where
  "loading lib files ca cert key =
     (case LoadTLSClientConfig lib files ca cert key of
        Inl e \<Rightarrow> Inl (CredsFailed (isTLSCertError (Some e)))
      | Inr c \<Rightarrow> Inr c)"

definition Connect_to :: "tls_lib \<Rightarrow> string \<Rightarrow> string \<Rightarrow> string \<Rightarrow> string \<Rightarrow> ((string \<Rightarrow> string option) \<times> bool) list \<Rightarrow>
    tls_client option \<Rightarrow> connect_result \<times> duration list \<times> tls_client option" where
  "Connect_to lib hubAddr ca cert key as cached =
     Connect (map (\<lambda>(files, cancelled). (loading lib files ca cert key, tl_target lib hubAddr, cancelled)) as) cached"

lemma loading_error: "loading lib files ca cert key = Inl e \<Longrightarrow> e = CredsFailed False"
  by (auto simp: loading_def LoadTLSClientConfig_def isTLSCertError_def split: option.splits if_splits)

lemma Dial_error:
  "Dial target_ok (loading lib files ca cert key) cached = (Inl e, cached') \<Longrightarrow> e \<noteq> CredsFailed True"
  using loading_error [of lib files ca cert key]
  by (auto simp: Dial_def transportCreds_def split: option.splits sum.splits if_splits)

lemma connect_loop_not_untrusted:
  "fst (connect_loop d (map (\<lambda>(files, w). (loading lib files ca cert key, tok, w)) as) cached) \<noteq> CertNotTrusted"
proof (induction as arbitrary: d cached)
  case (Cons x as)
  obtain files w where x: "x = (files, w)" by (cases x)
  obtain r cached' where D: "Dial tok (loading lib files ca cert key) cached = (r, cached')"
    by (cases "Dial tok (loading lib files ca cert key) cached")
  show ?case
  proof (cases r)
    case (Inl e)
    then show ?thesis using Cons.IH [of "next_delay d" cached'] Dial_error [of tok lib files ca cert key cached e cached'] D x
      by (auto split: prod.splits)
  qed (use D x in simp)
qed simp

lemma connect_loop_waits:
  assumes "\<And>files. files \<in> set fs \<Longrightarrow> files cert = None"
  shows "connect_loop d (map (\<lambda>(files, w). (loading lib files ca cert key, tok, w)) (map (\<lambda>f. (f, False)) fs)) None =
    (Connecting, map (\<lambda>n. (next_delay ^^ n) d) [0..<length fs], None)"
  using assms
proof (induction fs arbitrary: d)
  case (Cons f fs)
  have "Dial tok (loading lib f ca cert key) None = (Inl (CredsFailed False), None)"
    using Cons.prems [of f] by (simp add: Dial_def transportCreds_def loading_def LoadTLSClientConfig_def isTLSCertError_def)
  moreover have "map (\<lambda>n. (next_delay ^^ n) d) [0..<Suc (length fs)] = d # map (\<lambda>n. (next_delay ^^ n) (next_delay d)) [0..<length fs]"
    by (simp add: upt_conv_Cons map_Suc_upt [symmetric] funpow_swap1 del: upt_Suc)
  ultimately show ?case using Cons.IH [of "next_delay d"] Cons.prems by simp
qed simp

text \<open>
  Connecting never ends with the advice to join again: whatever is in the files, an attempt to
  open a connection verifies no certificate, so its errors are never the ones the advice is for. In
  particular a daemon whose client certificate is gone does not fail, it waits between attempts for
  as long as it stays away.
\<close>

theorem connect_never_advises_rejoin:
  "fst (Connect_to lib hubAddr ca cert key as cached) \<noteq> CertNotTrusted \<and>
   ((\<forall>files \<in> set fs. files cert = None) \<longrightarrow>
      Connect_to lib hubAddr ca cert key (map (\<lambda>f. (f, False)) fs) None =
        (Connecting, map (\<lambda>n. (next_delay ^^ n) backoffInitial) [0..<length fs], None))"
  unfolding Connect_to_def Connect_def
  using connect_loop_not_untrusted connect_loop_waits [of fs cert backoffInitial lib ca key "tl_target lib hubAddr"] by blast

lemma connect_never_advises_rejoin_witness:
  "fst (snd (Connect_to \<lparr>tl_pair = (=), tl_pool = (\<lambda>_. True), tl_target = (\<lambda>_. True)\<rparr> ''hub:9090'' ''ca.crt'' ''client.crt'' ''client.key''
     (map (\<lambda>f. (f, False)) (replicate 3 (\<lambda>_. None))) None)) = [backoffInitial, 2 * backoffInitial, 4 * backoffInitial]"
  using connect_never_advises_rejoin [of "\<lparr>tl_pair = (=), tl_pool = (\<lambda>_. True), tl_target = (\<lambda>_. True)\<rparr>" "''hub:9090''" "''ca.crt''" "''client.crt''"
      "''client.key''" "[]" None "replicate 3 (\<lambda>_. None)"]
  by (simp add: next_delay_def backoffInitial_def backoffMax_def duration_defs numeral_eq_Suc)

end
