(* ===== verification/ServiceFiles.thy ===== *)
theory ServiceFiles
  imports CliConfig
begin

text \<open>
  The service files the programs install (cmd/hubfuse/systemdunit.go, cmd/hubfuse-hub/systemdunit.go,
  cmd/hubfuse/launchagent.go): the text of the unit and of the plist, the escaping of the program's
  path, and the commands that write them. What the operating system answers is in a record.
\<close>

subsection \<open>Text\<close>

definition tab :: string where "tab = [CHR 0x09]"
definition em_dash :: string where "em_dash = [CHR 0xE2, CHR 0x80, CHR 0x94]"
definition quoted :: "string \<Rightarrow> string" where "quoted s = [CHR 0x22] @ s @ [CHR 0x22]"

definition unlines :: "string list \<Rightarrow> string" where
  "unlines ls = concat (map (\<lambda>l. l @ nl) ls)"

text \<open>\<open>filepath.Join\<close> of several elements.\<close>

definition JoinAll :: "string list \<Rightarrow> string" where
  "JoinAll es =
     (case dropWhile (\<lambda>e. e = []) es of
        [] \<Rightarrow> []
      | e # es' \<Rightarrow> Clean (e @ concat (map (\<lambda>x. ''/'' @ x) es')))"

subsection \<open>systemd\<close>

definition systemdAgentUnit :: string where "systemdAgentUnit = ''hubfuse-agent.service''"
definition systemdHubUnit :: string where "systemdHubUnit = ''hubfuse-hub.service''"

definition agentUnitPath :: string where
  "agentUnitPath = ''%h/.local/bin:/usr/local/bin:/usr/bin:/bin:/usr/local/sbin:/usr/sbin:/sbin:/snap/bin''"

definition systemdEscapeExec :: "string \<Rightarrow> string" where
  "systemdEscapeExec path =
     (let escaped = replace_char CHR ''%'' ''%%'' path in
      if CHR '' '' \<in> set escaped \<or> CHR 0x09 \<in> set escaped
      then quoted (replace_char CHR 0x22 [CHR 0x5C, CHR 0x22] (replace_char CHR 0x5C [CHR 0x5C, CHR 0x5C] escaped))
      else escaped)"

definition agentUnitBody :: "string \<Rightarrow> string" where
  "agentUnitBody execPath = unlines [
      ''[Unit]'',
      ''Description=HubFuse agent'',
      ''Documentation=https://github.com/ykhdr/hubfuse'',
      [],
      ''[Service]'',
      ''Type=simple'',
      ''ExecStart='' @ systemdEscapeExec execPath @ '' start'',
      ''Restart=on-failure'',
      ''RestartSec=30'',
      ''KillMode=mixed'',
      ''Environment=PATH='' @ agentUnitPath,
      [],
      ''[Install]'',
      ''WantedBy=default.target'']"

definition hubUnitBody :: "string \<Rightarrow> string" where
  "hubUnitBody execPath = unlines [
      ''[Unit]'',
      ''Description=HubFuse hub'',
      ''Documentation=https://github.com/ykhdr/hubfuse'',
      [],
      ''[Service]'',
      ''Type=simple'',
      ''ExecStart='' @ systemdEscapeExec execPath @ '' start'',
      ''Restart=on-failure'',
      ''RestartSec=30'',
      [],
      ''[Install]'',
      ''WantedBy=default.target'']"

definition systemdUserUnitPath :: "string \<Rightarrow> string \<Rightarrow> string" where
  "systemdUserUnitPath home unit = JoinAll [home, ''.config'', ''systemd'', ''user'', unit]"

definition installServiceNextSteps :: "string \<Rightarrow> string \<Rightarrow> string \<Rightarrow> string" where
  "installServiceNextSteps unitPath unit execPath = unlines [
      ''wrote '' @ unitPath,
      ''  program: '' @ execPath,
      [],
      ''Enable it:'',
      [],
      ''  systemctl --user daemon-reload'',
      ''  systemctl --user enable --now '' @ unit,
      [],
      ''Then allow it to run without you logged in '' @ em_dash @ '' REQUIRED, or it will not'',
      ''come back after a reboot even though the two commands above succeeded:'',
      [],
      ''  loginctl enable-linger $USER'',
      [],
      ''Over SSH that usually needs sudo, because polkit has no active local'',
      ''session to authorise against.'',
      [],
      ''Logs go to the journal, not to a file:'',
      [],
      ''  journalctl --user -u '' @ unit @ '' -f'']"

text \<open>The hub's version of it.\<close>

definition hubInstallServiceNextSteps :: "string \<Rightarrow> string \<Rightarrow> string \<Rightarrow> string" where
  "hubInstallServiceNextSteps unitPath unit execPath = unlines [
      ''wrote '' @ unitPath,
      ''  program: '' @ execPath,
      [],
      ''Enable it:'',
      [],
      ''  systemctl --user daemon-reload'',
      ''  systemctl --user enable --now '' @ unit,
      [],
      ''Then allow it to run without you logged in '' @ em_dash @ '' REQUIRED, or it will not'',
      ''come back after a reboot even though the two commands above succeeded,'',
      ''and every device on this hub will read offline:'',
      [],
      ''  loginctl enable-linger $USER'',
      [],
      ''Over SSH that usually needs sudo, because polkit has no active local'',
      ''session to authorise against.'',
      [],
      ''Logs go to the journal, not to a file:'',
      [],
      ''  journalctl --user -u '' @ unit @ '' -f'']"

subsection \<open>launchd\<close>

definition launchAgentLabel :: string where "launchAgentLabel = ''com.github.ykhdr.hubfuse''"

text \<open>\<open>xml.EscapeText\<close>; the bytes from 128 on are taken to be valid UTF-8 and are copied.\<close>

definition xml_escape_char :: "char \<Rightarrow> string" where
  "xml_escape_char ch =
     (let n = of_char ch :: nat in
      if n = 0x22 then ''&#34;''
      else if n = 0x27 then ''&#39;''
      else if ch = CHR ''&'' then ''&amp;''
      else if ch = CHR ''<'' then ''&lt;''
      else if ch = CHR ''>'' then ''&gt;''
      else if n = 9 then ''&#x9;''
      else if n = 10 then ''&#xA;''
      else if n = 13 then ''&#xD;''
      else if n < 32 then [CHR 0xEF, CHR 0xBF, CHR 0xBD]
      else [ch])"

definition xmlEscape :: "string \<Rightarrow> string" where
  "xmlEscape s = concat (map xml_escape_char s)"

definition key_elem :: "string \<Rightarrow> string" where "key_elem k = ''<key>'' @ k @ ''</key>''"
definition string_elem :: "string \<Rightarrow> string" where "string_elem s = ''<string>'' @ s @ ''</string>''"

definition launchAgentPlist :: "string \<Rightarrow> string \<Rightarrow> string" where
  "launchAgentPlist execPath logPath = unlines [
      ''<?xml version='' @ quoted ''1.0'' @ '' encoding='' @ quoted ''UTF-8'' @ ''?>'',
      ''<!DOCTYPE plist PUBLIC '' @ quoted ''-//Apple//DTD PLIST 1.0//EN'' @ '' '' @ quoted ''http://www.apple.com/DTDs/PropertyList-1.0.dtd'' @ ''>'',
      ''<plist version='' @ quoted ''1.0'' @ ''>'',
      ''<dict>'',
      tab @ key_elem ''Label'',
      tab @ string_elem launchAgentLabel,
      tab @ key_elem ''ProgramArguments'',
      tab @ ''<array>'',
      tab @ tab @ string_elem (xmlEscape execPath),
      tab @ tab @ string_elem ''start'',
      tab @ ''</array>'',
      tab @ key_elem ''RunAtLoad'',
      tab @ ''<true/>'',
      tab @ key_elem ''KeepAlive'',
      tab @ ''<dict>'',
      tab @ tab @ key_elem ''SuccessfulExit'',
      tab @ tab @ ''<false/>'',
      tab @ ''</dict>'',
      tab @ key_elem ''ThrottleInterval'',
      tab @ ''<integer>30</integer>'',
      tab @ key_elem ''EnvironmentVariables'',
      tab @ ''<dict>'',
      tab @ tab @ key_elem ''PATH'',
      tab @ tab @ string_elem ''/opt/homebrew/bin:/usr/local/bin:/usr/bin:/bin:/usr/sbin:/sbin'',
      tab @ ''</dict>'',
      tab @ key_elem ''ProcessType'',
      tab @ string_elem ''Interactive'',
      tab @ key_elem ''StandardOutPath'',
      tab @ string_elem (xmlEscape logPath),
      tab @ key_elem ''StandardErrorPath'',
      tab @ string_elem (xmlEscape logPath),
      ''</dict>'',
      ''</plist>'']"

definition launchAgentPath :: "string \<Rightarrow> string" where
  "launchAgentPath home = JoinAll [home, ''Library'', ''LaunchAgents'', launchAgentLabel @ ''.plist'']"

definition installAgentNextSteps :: "string \<Rightarrow> string \<Rightarrow> string" where
  "installAgentNextSteps plistPath execPath = unlines [
      ''wrote '' @ plistPath,
      ''  program: '' @ execPath,
      [],
      ''Load it with:'',
      [],
      ''  launchctl bootstrap gui/$(id -u) '' @ plistPath,
      [],
      ''If macOS shows a prompt asking whether hubfuse may access devices on your'',
      ''local network, allow it.'',
      [],
      ''If the agent cannot reach the hub it now retries instead of exiting, so a'',
      ''Mac that was asleep, a network that is not up yet, or a hub that is still'',
      ''booting all recover on their own. Watch the log to confirm.'',
      [],
      ''If dials to a LAN hub keep failing with '' @ [CHR 0x22] @ ''no route to host'' @ [CHR 0x22] @ '' while the'',
      ''internet works, that is macOS local-network policy, not routing. A plain'',
      ''command-line binary has no bundle identifier, so it may never be listed'',
      ''under System Settings > Privacy & Security > Local Network '' @ em_dash @ '' an absent entry'',
      ''is not a setting you can change. Apple documents a machine-wide alternative'',
      ''in TN3179 (macOS 15.5+): the AllowedWiFiLocalNetworkAddresses and'',
      ''AllowedEthernetLocalNetworkAddresses keys in the com.apple.network.local-network'',
      ''defaults domain exempt a whole CIDR range for every program, and take effect'',
      ''after a restart.'']"

subsection \<open>Installing\<close>

record install_env =
  in_executable :: "string option"
  in_evalsymlinks :: "string \<Rightarrow> string option"
  in_home :: "string option"
  in_stat_fails :: bool
  in_mkdir_fails :: bool
  in_write :: io_fault
  in_print_fails :: bool

datatype install_err =
    WrongOS string | LocateBinary | ResolveBinary | LocateHome | AlreadyExists string
  | CreateDir string | WriteUnit string | PrintNextSteps string

type_synonym unit_files = "string \<Rightarrow> string option"

text \<open>
  The common course of the three commands: the path of the file, its text for the program's path,
  and what is printed at the end. The result is the error, the files and the text printed.
\<close>

definition install_file :: "install_env \<Rightarrow> bool \<Rightarrow> (string \<Rightarrow> string) \<Rightarrow> (string \<Rightarrow> string \<Rightarrow> string) \<Rightarrow>
    (string \<Rightarrow> string \<Rightarrow> string) \<Rightarrow> unit_files \<Rightarrow> install_err option \<times> unit_files \<times> string" where
  "install_file env force path_of body_of steps_of files =
     (case in_executable env of
        None \<Rightarrow> (Some LocateBinary, files, [])
      | Some exe \<Rightarrow>
          (case in_evalsymlinks env exe of
             None \<Rightarrow> (Some ResolveBinary, files, [])
           | Some execPath \<Rightarrow>
               (case in_home env of
                  None \<Rightarrow> (Some LocateHome, files, [])
                | Some home \<Rightarrow>
                    (let path = path_of home in
                     if files path \<noteq> None \<and> \<not> in_stat_fails env \<and> \<not> force then (Some (AlreadyExists path), files, [])
                     else if in_mkdir_fails env then (Some (CreateDir (Dir path)), files, [])
                     else (case in_write env of
                             CannotOpen \<Rightarrow> (Some (WriteUnit path), files, [])
                           | CutShort part \<Rightarrow> (Some (WriteUnit path), files(path \<mapsto> part), [])
                           | NoFault \<Rightarrow>
                               (let files' = files(path \<mapsto> body_of home execPath) in
                                if in_print_fails env then (Some (PrintNextSteps path), files', [])
                                else (None, files', steps_of path execPath)))))))"

definition runInstallService :: "install_env \<Rightarrow> string \<Rightarrow> bool \<Rightarrow> unit_files \<Rightarrow> install_err option \<times> unit_files \<times> string" where
  "runInstallService env goos force files =
     (if goos \<noteq> ''linux'' then
        (let hint = (if goos \<noteq> ''darwin'' then ''it is only meaningful where systemd runs the session''
                     else ''on macOS run '' @ quoted ''hubfuse install-agent'' @ '' instead'') in
         (Some (WrongOS (''install-service is Linux-only (this is '' @ goos @ ''); '' @ hint)), files, []))
      else install_file env force (\<lambda>home. systemdUserUnitPath home systemdAgentUnit) (\<lambda>home. agentUnitBody)
             (\<lambda>path. installServiceNextSteps path systemdAgentUnit) files)"

definition hubRunInstallService :: "install_env \<Rightarrow> string \<Rightarrow> bool \<Rightarrow> unit_files \<Rightarrow> install_err option \<times> unit_files \<times> string" where
  "hubRunInstallService env goos force files =
     (if goos \<noteq> ''linux'' then
        (Some (WrongOS (''install-service is Linux-only (this is '' @ goos @ ''); it is only meaningful where systemd runs the session'')),
         files, [])
      else install_file env force (\<lambda>home. systemdUserUnitPath home systemdHubUnit) (\<lambda>home. hubUnitBody)
             (\<lambda>path. hubInstallServiceNextSteps path systemdHubUnit) files)"

definition runInstallAgent :: "install_env \<Rightarrow> string \<Rightarrow> bool \<Rightarrow> unit_files \<Rightarrow> install_err option \<times> unit_files \<times> string" where
  "runInstallAgent env goos force files =
     (if goos \<noteq> ''darwin'' then
        (Some (WrongOS (''install-agent is macOS-only (this is '' @ goos @ ''); on Linux run '' @ quoted ''hubfuse install-service'' @
           '' to install a systemd user unit'')), files, [])
      else install_file env force launchAgentPath
             (\<lambda>home execPath. launchAgentPlist execPath (Join2 (ExpandHome (Some home) ''~/.hubfuse'') ''agent.log''))
             installAgentNextSteps files)"

end
