(* ===== verification/ServiceFilesProps.thy ===== *)
theory ServiceFilesProps
  imports ServiceFiles
begin

text \<open>
  What the installed files mean to systemd and launchd, by the quoting rules of systemd.syntax(7)
  and the entities of XML, and that an installation overwrites nothing unasked.
\<close>

subsection \<open>How a unit is read\<close>

text \<open>
  One word of a command line: quotes may open anywhere in it, an escape stands for its character, a
  blank outside quotes ends it. \<open>None\<close>: unbalanced quotes, or an escape that is none of these.
\<close>

definition quote_marks :: "char set" where "quote_marks = {CHR 0x22, CHR 0x27}"

definition unit_escape :: "char \<Rightarrow> char option" where
  "unit_escape ch = (if ch \<in> {CHR 0x22, CHR 0x27, CHR 0x5C} then Some ch
     else map_of (zip ''abfnrtvs'' [CHR 0x07, CHR 0x08, CHR 0x0C, CHR 0x0A, CHR 0x0D, CHR 0x09, CHR 0x0B, CHR '' '']) ch)"

definition unit_blank :: "char \<Rightarrow> bool" where
  "unit_blank ch \<longleftrightarrow> ch \<in> {CHR '' '', CHR 0x09, CHR 0x0A, CHR 0x0D}"

fun unit_word :: "char option \<Rightarrow> string \<Rightarrow> (string \<times> string) option" where
  "unit_word q [] = (if q = None then Some ([], []) else None)"
| "unit_word q (c # cs) =
     (if c = CHR 0x5C then
        (case cs of
           [] \<Rightarrow> None
         | d # ds \<Rightarrow>
             (case unit_escape d of None \<Rightarrow> None | Some e \<Rightarrow> map_option (\<lambda>(w, r). (e # w, r)) (unit_word q ds)))
      else if q = None then
        (if unit_blank c then Some ([], cs)
         else if c \<in> quote_marks then unit_word (Some c) cs
         else map_option (\<lambda>(w, r). (c # w, r)) (unit_word None cs))
      else if q = Some c then unit_word None cs
      else map_option (\<lambda>(w, r). (c # w, r)) (unit_word q cs))"

text \<open>Specifiers, of which only \<open>%%\<close> stands for a fixed text.\<close>

fun unit_specifiers :: "string \<Rightarrow> string option" where
  "unit_specifiers [] = Some []"
| "unit_specifiers (c # cs) =
     (if c \<noteq> CHR ''%'' then map_option ((#) c) (unit_specifiers cs)
      else (case cs of d # ds \<Rightarrow> if d = CHR ''%'' then map_option ((#) CHR ''%'') (unit_specifiers ds) else None | [] \<Rightarrow> None))"

lemma unit_word_rest: "unit_word q s = Some (w, r) \<Longrightarrow> length r \<le> length s \<and> (q = None \<longrightarrow> s \<noteq> [] \<longrightarrow> length r < length s)"
proof (induction q s arbitrary: w r rule: unit_word.induct)
  case (2 q c cs)
  then show ?case by (fastforce split: if_splits list.splits option.splits)
qed (auto split: if_splits)

function exec_args :: "string \<Rightarrow> string list option" where
  "exec_args s =
     (case dropWhile unit_blank s of
        [] \<Rightarrow> Some []
      | c # cs \<Rightarrow>
          (case unit_word None (c # cs) of
             None \<Rightarrow> None
           | Some (w, r) \<Rightarrow>
               (case unit_specifiers w of None \<Rightarrow> None | Some a \<Rightarrow> map_option ((#) a) (exec_args r))))"
  by pat_completeness auto
termination
proof (relation "measure length", goal_cases)
  case (2 s c cs p w r a)
  then have "length r < length (c # cs)" using unit_word_rest [of None "c # cs" w r] by simp
  moreover have "length (c # cs) \<le> length s" using 2 length_dropWhile_le [of unit_blank s] by simp
  ultimately show ?case by simp
qed simp

declare exec_args.simps [simp del]

text \<open>The command of a unit.\<close>

definition exec_start :: "string \<Rightarrow> string list option" where
  "exec_start body =
     (case find (prefix ''ExecStart='') (split_on CHR 0x0A body) of
        None \<Rightarrow> None
      | Some l \<Rightarrow> exec_args (drop (length ''ExecStart='') l))"

subsection \<open>Lines\<close>

lemma split_unlines: "list_all (\<lambda>l. CHR 0x0A \<notin> set l) ls \<Longrightarrow> split_on CHR 0x0A (unlines ls) = ls @ [[]]"
proof (induction ls)
  case (Cons l ls)
  have "split_on d (a @ d # b) = a # split_on d b" if "d \<notin> set a" for d :: char and a b
    using that by (induction a) auto
  then show ?case using Cons by (simp add: unlines_def nl_def)
qed (simp add: unlines_def)

subsection \<open>The escaped path\<close>

definition marks :: "string \<Rightarrow> nat" where
  "marks s = length (filter (\<lambda>c. c = CHR 0x5C \<or> c \<in> quote_marks) s)"

lemma marks_simps [simp]: "marks [] = 0" "marks (c # s) = of_bool (c = CHR 0x5C \<or> c \<in> quote_marks) + marks s"
  "marks (a @ b) = marks a + marks b"
  by (simp_all add: marks_def)

text \<open>A word that needed quotes or escapes has fewer of these characters than its text.\<close>

lemma escape_mark: "unit_escape d = Some e \<Longrightarrow> (e = CHR 0x5C \<or> e \<in> quote_marks) = (d = CHR 0x5C \<or> d \<in> quote_marks) \<and>
    ((d = CHR 0x5C \<or> d \<in> quote_marks) \<longrightarrow> e = d)"
  by (auto simp: unit_escape_def quote_marks_def split: if_splits)

lemma unit_word_marks:
  "unit_word q s = Some (w, r) \<Longrightarrow> (\<And>k. q = Some k \<Longrightarrow> k \<in> quote_marks) \<Longrightarrow>
     \<exists>used. s = used @ r \<and> marks w + of_bool (q \<noteq> None \<or> 0 < marks used) \<le> marks used"
proof (induction q s arbitrary: w r rule: unit_word.induct)
  case (1 q)
  then show ?case by (auto split: if_splits)
next
  case (2 q c cs)
  show ?case
  proof (cases "c = CHR 0x5C")
    case True
    then obtain d ds e w' where d: "cs = d # ds" "unit_escape d = Some e" "unit_word q ds = Some (w', r)" "w = e # w'"
      using "2.prems"(1) by (auto split: list.splits option.splits)
    obtain used where "ds = used @ r" "marks w' + of_bool (q \<noteq> None \<or> 0 < marks used) \<le> marks used"
      using "2.IH"(1) [OF True d(1,2,3) "2.prems"(2)] by blast
    then show ?thesis using d(1,4) escape_mark [OF d(2)] True by (intro exI [of _ "c # d # used"]) auto
  next
    case not_bs: False
    show ?thesis
    proof (cases q)
      case None
      show ?thesis
      proof (cases "unit_blank c")
        case True
        then show ?thesis using "2.prems"(1) not_bs None
          by (intro exI [of _ "[c]"]) (auto simp: unit_blank_def quote_marks_def)
      next
        case False
        show ?thesis
        proof (cases "c \<in> quote_marks")
          case True
          then obtain used where "cs = used @ r" "marks w + 1 \<le> marks used"
            using "2.IH"(2) [OF not_bs None False True, of w r] "2.prems"(1) not_bs None False by auto
          then show ?thesis using True None by (intro exI [of _ "c # used"]) simp
        next
          case plain: False
          then obtain w' where w: "unit_word None cs = Some (w', r)" "w = c # w'" using "2.prems"(1) not_bs None False by auto
          obtain used where "cs = used @ r" "marks w' + of_bool (0 < marks used) \<le> marks used"
            using "2.IH"(3) [OF not_bs None False plain w(1)] by auto
          then show ?thesis using w(2) None plain not_bs by (intro exI [of _ "c # used"]) simp
        qed
      qed
    next
      case (Some k)
      show ?thesis
      proof (cases "k = c")
        case True
        then have w: "unit_word None cs = Some (w, r)" using "2.prems"(1) not_bs Some by simp
        obtain used where "cs = used @ r" "marks w + of_bool (0 < marks used) \<le> marks used"
          using "2.IH"(4) [OF not_bs _ _ w] Some True by auto
        then show ?thesis using "2.prems"(2) [OF Some] True Some by (intro exI [of _ "c # used"]) (auto split: if_splits)
      next
        case False
        then obtain w' where w: "unit_word q cs = Some (w', r)" "w = c # w'" using "2.prems"(1) not_bs Some by auto
        obtain used where "cs = used @ r" "marks w' + of_bool (q \<noteq> None \<or> 0 < marks used) \<le> marks used"
          using "2.IH"(5) [OF not_bs _ _ w(1) "2.prems"(2)] Some False by auto
        then show ?thesis using w(2) Some by (intro exI [of _ "c # used"]) auto
      qed
    qed
  qed
qed

lemma unit_word_plain:
  "marks a = 0 \<Longrightarrow> list_all (\<lambda>c. \<not> unit_blank c) a \<Longrightarrow> unit_word None (a @ CHR '' '' # b) = Some (a, b)"
  by (induction a) (auto simp: unit_blank_def split: if_splits)

definition exec_quote :: "string \<Rightarrow> string" where
  "exec_quote a = replace_char CHR 0x22 [CHR 0x5C, CHR 0x22] (replace_char CHR 0x5C [CHR 0x5C, CHR 0x5C] a)"

lemma unit_word_quoted:
  "unit_word (Some CHR 0x22) (exec_quote a @ CHR 0x22 # CHR '' '' # b) = Some (a, b)"
  by (induction a) (auto simp: exec_quote_def unit_escape_def unit_blank_def)

lemma specifiers_doubled: "unit_specifiers (replace_char CHR ''%'' ''%%'' p) = Some p"
  by (induction p) auto

lemma specifiers_marks: "unit_specifiers w = Some p \<Longrightarrow> marks p = marks w"
proof (induction w arbitrary: p rule: unit_specifiers.induct)
  case (2 c cs)
  show ?case
  proof (cases "c = CHR ''%''")
    case True
    then obtain ds q where "cs = CHR ''%'' # ds" "unit_specifiers ds = Some q" "p = CHR ''%'' # q"
      using "2.prems" by (cases cs) (auto split: if_splits)
    then show ?thesis using "2.IH"(2) True by (simp add: quote_marks_def)
  next
    case False
    then show ?thesis using "2.prems" "2.IH"(1) by auto
  qed
qed simp

lemma doubled_marks: "marks (replace_char CHR ''%'' ''%%'' p) = marks p"
  by (induction p) (auto simp: quote_marks_def)

lemma doubled_set: "c \<noteq> CHR ''%'' \<Longrightarrow> c \<in> set (replace_char CHR ''%'' ''%%'' p) \<longleftrightarrow> c \<in> set p"
  by (induction p) auto

lemma exec_args_word:
  assumes "\<not> unit_blank c"
  shows "exec_args (c # cs) = (case unit_word None (c # cs) of None \<Rightarrow> None
    | Some (w, r) \<Rightarrow> (case unit_specifiers w of None \<Rightarrow> None | Some a \<Rightarrow> map_option ((#) a) (exec_args r)))"
  using assms by (subst exec_args.simps) simp

lemma exec_args_Nil: "exec_args [] = Some []"
  by (subst exec_args.simps) simp

lemma exec_args_start: "exec_args ''start'' = Some [''start'']"
  by (subst exec_args_word) (simp_all add: unit_blank_def quote_marks_def exec_args_Nil)

text \<open>Paths the escaping is right for: absolute, without control characters other than tabs.\<close>

definition plain_path :: "string \<Rightarrow> bool" where
  "plain_path p \<longleftrightarrow> prefix ''/'' p \<and> list_all (\<lambda>c. c = CHR 0x09 \<or> 32 \<le> (of_char c :: nat)) p"

definition has_blank :: "string \<Rightarrow> bool" where
  "has_blank p \<longleftrightarrow> CHR '' '' \<in> set p \<or> CHR 0x09 \<in> set p"

lemma escaped_exec_read:
  assumes "plain_path p"
  shows "exec_args (systemdEscapeExec p @ '' start'') = Some [p, ''start''] \<longleftrightarrow> has_blank p \<or> marks p = 0"
proof -
  let ?e = "replace_char CHR ''%'' ''%%'' p"
  have b: "(CHR '' '' \<in> set ?e \<or> CHR 0x09 \<in> set ?e) = has_blank p" by (simp add: has_blank_def doubled_set)
  show ?thesis
  proof (cases "has_blank p")
    case True
    have "systemdEscapeExec p @ '' start'' = CHR 0x22 # exec_quote ?e @ CHR 0x22 # CHR '' '' # ''start''"
      using True b by (simp add: systemdEscapeExec_def Let_def exec_quote_def quoted_def)
    moreover have "unit_word None (CHR 0x22 # exec_quote ?e @ CHR 0x22 # CHR '' '' # ''start'') = Some (?e, ''start'')"
      using unit_word_quoted [of ?e "''start''"] by (simp add: unit_blank_def quote_marks_def)
    ultimately show ?thesis using True
      by (simp add: exec_args_word unit_blank_def specifiers_doubled exec_args_start del: unit_word.simps)
  next
    case False
    have tx: "systemdEscapeExec p @ '' start'' = ?e @ CHR '' '' # ''start''" using False b by (simp add: systemdEscapeExec_def Let_def)
    obtain p' where p': "p = CHR ''/'' # p'" using assms by (auto simp: plain_path_def prefix_def)
    then have e: "?e @ CHR '' '' # ''start'' = CHR ''/'' # replace_char CHR ''%'' ''%%'' p' @ CHR '' '' # ''start''" by simp
    have args: "exec_args (?e @ CHR '' '' # ''start'') = (case unit_word None (?e @ CHR '' '' # ''start'') of None \<Rightarrow> None
      | Some (w, r) \<Rightarrow> (case unit_specifiers w of None \<Rightarrow> None | Some a \<Rightarrow> map_option ((#) a) (exec_args r)))"
      unfolding e by (rule exec_args_word) (simp add: unit_blank_def)
    show ?thesis
    proof (cases "marks p = 0")
      case True
      have "\<not> unit_blank c" if "c \<in> set ?e" for c
      proof (cases "c = CHR ''%''")
        case False
        then have "c \<in> set p" using that by (simp add: doubled_set)
        then have "c \<noteq> CHR '' ''" "c = CHR 0x09 \<or> 32 \<le> (of_char c :: nat)" "c \<noteq> CHR 0x09"
          using assms \<open>\<not> has_blank p\<close> by (auto simp: plain_path_def has_blank_def list_all_iff)
        then show ?thesis by (auto simp: unit_blank_def)
      qed (simp add: unit_blank_def)
      then have "unit_word None (?e @ CHR '' '' # ''start'') = Some (?e, ''start'')"
        using True by (intro unit_word_plain) (simp_all add: doubled_marks list_all_iff)
      then show ?thesis using True by (simp add: tx args specifiers_doubled exec_args_start)
    next
      case marked: False
      have "marks a \<noteq> marks p"
        if word: "unit_word None (?e @ CHR '' '' # ''start'') = Some (w, r)" and spec: "unit_specifiers w = Some a" for w r a
      proof -
        obtain used where u: "?e @ CHR '' '' # ''start'' = used @ r" "marks w + of_bool (0 < marks used) \<le> marks used"
          using unit_word_marks [OF word] by auto
        have "marks (used @ r) = marks p" unfolding u(1) [symmetric] by (simp add: doubled_marks quote_marks_def)
        then show ?thesis using u(2) specifiers_marks [OF spec] marked by (cases "marks used = 0") auto
      qed
      then show ?thesis using False marked unfolding tx args by (auto split: option.splits prod.splits)
    qed
  qed
qed

subsection \<open>The units\<close>

lemma escaped_exec_line: "plain_path p \<Longrightarrow> CHR 0x0A \<notin> set (systemdEscapeExec p)"
proof -
  assume "plain_path p"
  moreover have "\<not> (CHR 0x0A = CHR 0x09 \<or> 32 \<le> (of_char CHR 0x0A :: nat))" by simp
  ultimately have "CHR 0x0A \<notin> set p" unfolding plain_path_def list_all_iff by blast
  then have "CHR 0x0A \<notin> set (replace_char CHR ''%'' ''%%'' p)" by (simp add: doubled_set)
  moreover have "CHR 0x0A \<notin> set (exec_quote a)" if "CHR 0x0A \<notin> set a" for a
    using that by (induction a) (auto simp: exec_quote_def)
  ultimately show ?thesis unfolding systemdEscapeExec_def exec_quote_def [symmetric] by (simp add: Let_def quoted_def)
qed

definition unit_head :: "string \<Rightarrow> string list" where
  "unit_head name = [''[Unit]'', ''Description=HubFuse '' @ name, ''Documentation=https://github.com/ykhdr/hubfuse'', [], ''[Service]'', ''Type=simple'']"

definition agent_tail :: "string list" where
  "agent_tail = [''Restart=on-failure'', ''RestartSec=30'', ''KillMode=mixed'', ''Environment=PATH='' @ agentUnitPath, [], ''[Install]'',
     ''WantedBy=default.target'']"

definition hub_tail :: "string list" where
  "hub_tail = [''Restart=on-failure'', ''RestartSec=30'', [], ''[Install]'', ''WantedBy=default.target'']"

lemma unit_lines:
  "agentUnitBody p = unlines (unit_head ''agent'' @ (''ExecStart='' @ systemdEscapeExec p @ '' start'') # agent_tail)"
  "hubUnitBody p = unlines (unit_head ''hub'' @ (''ExecStart='' @ systemdEscapeExec p @ '' start'') # hub_tail)"
  by (simp_all only: agentUnitBody_def hubUnitBody_def unit_head_def agent_tail_def hub_tail_def append.simps)

lemma fixed_lines:
  "list_all (\<lambda>l. CHR 0x0A \<notin> set l) (unit_head ''agent'' @ unit_head ''hub'' @ agent_tail @ hub_tail)"
  "list_all (\<lambda>l. \<not> prefix ''ExecStart='' l) (unit_head ''agent'' @ unit_head ''hub'')"
  by code_simp+

lemma find_after: "list_all (\<lambda>x. \<not> P x) xs \<Longrightarrow> P y \<Longrightarrow> find P (xs @ y # ys) = Some y"
  by (induction xs) auto

lemma unit_exec_start:
  assumes "plain_path p"
  shows "exec_start (agentUnitBody p) = exec_args (systemdEscapeExec p @ '' start'')"
    and "exec_start (hubUnitBody p) = exec_args (systemdEscapeExec p @ '' start'')"
proof -
  let ?l = "''ExecStart='' @ systemdEscapeExec p @ '' start''"
  have n: "CHR 0x0A \<notin> set ?l" using escaped_exec_line [OF assms] by simp
  have "exec_start (unlines (hd @ ?l # tl)) = exec_args (systemdEscapeExec p @ '' start'')"
    if "list_all (\<lambda>l. CHR 0x0A \<notin> set l) (hd @ tl)" "list_all (\<lambda>l. \<not> prefix ''ExecStart='' l) hd" for hd tl
  proof -
    have "split_on CHR 0x0A (unlines (hd @ ?l # tl)) = hd @ ?l # (tl @ [[]])"
      using that(1) n by (subst split_unlines) simp_all
    then have "find (prefix ''ExecStart='') (split_on CHR 0x0A (unlines (hd @ ?l # tl))) = Some ?l"
      using find_after [OF that(2), of ?l] by simp
    then show ?thesis by (simp add: exec_start_def)
  qed
  then show "exec_start (agentUnitBody p) = exec_args (systemdEscapeExec p @ '' start'')"
    and "exec_start (hubUnitBody p) = exec_args (systemdEscapeExec p @ '' start'')"
    unfolding unit_lines using fixed_lines by (simp_all only: list_all_append)
qed

subsection \<open>The plist\<close>

definition xml_entities :: "(string \<times> char) list" where
  "xml_entities = [(''#34'', CHR 0x22), (''#39'', CHR 0x27), (''amp'', CHR ''&''), (''lt'', CHR ''<''), (''gt'', CHR ''>''),
     (''#x9'', CHR 0x09), (''#xA'', CHR 0x0A), (''#xD'', CHR 0x0D)]"

text \<open>The text of an element: entities are replaced, other markup does not belong in it.\<close>

function xml_text :: "string \<Rightarrow> string option" where
  "xml_text [] = Some []"
| "xml_text (c # cs) =
     (if c = CHR ''<'' then None
      else if c \<noteq> CHR ''&'' then map_option ((#) c) (xml_text cs)
      else (case cut_char CHR '';'' cs of
              None \<Rightarrow> None
            | Some (name, rest) \<Rightarrow>
                (case map_of xml_entities name of None \<Rightarrow> None | Some e \<Rightarrow> map_option ((#) e) (xml_text rest))))"
  by pat_completeness auto
termination by (relation "measure length") (auto simp: cut_char_iff)

declare xml_text.simps(2) [simp del]

lemma xml_text_plain: "c \<noteq> CHR ''<'' \<Longrightarrow> c \<noteq> CHR ''&'' \<Longrightarrow> xml_text (c # cs) = map_option ((#) c) (xml_text cs)"
  by (simp add: xml_text.simps(2))

lemma xml_text_entity:
  "CHR '';'' \<notin> set name \<Longrightarrow> map_of xml_entities name = Some e \<Longrightarrow>
     xml_text (CHR ''&'' # name @ CHR '';'' # rest) = map_option ((#) e) (xml_text rest)"
proof -
  assume a: "CHR '';'' \<notin> set name" "map_of xml_entities name = Some e"
  have "cut_char CHR '';'' (name @ CHR '';'' # rest) = Some (name, rest)" using a(1) by (simp add: cut_char_iff)
  then show ?thesis using a(2) by (simp add: xml_text.simps(2))
qed

definition xml_char :: "char \<Rightarrow> bool" where
  "xml_char c \<longleftrightarrow> c \<in> {CHR 0x09, CHR 0x0A, CHR 0x0D} \<or> 32 \<le> (of_char c :: nat)"

lemmas entity_cases =
  xml_text_entity [of "''#34''" "CHR 0x22", simplified] xml_text_entity [of "''#39''" "CHR 0x27", simplified]
  xml_text_entity [of "''amp''" "CHR ''&''", simplified] xml_text_entity [of "''lt''" "CHR ''<''", simplified]
  xml_text_entity [of "''gt''" "CHR ''>''", simplified] xml_text_entity [of "''#x9''" "CHR 0x09", simplified]
  xml_text_entity [of "''#xA''" "CHR 0x0A", simplified] xml_text_entity [of "''#xD''" "CHR 0x0D", simplified]

lemma xml_escape_read:
  assumes "xml_char c"
  shows "xml_text (xml_escape_char c @ s) = map_option ((#) c) (xml_text s)"
proof -
  have codes: "of_char CHR 0x22 = (0x22 :: nat)" "of_char CHR 0x27 = (0x27 :: nat)" "of_char CHR 0x09 = (9 :: nat)"
    "of_char CHR 0x0A = (10 :: nat)" "of_char CHR 0x0D = (13 :: nat)" by simp_all
  consider "c = CHR 0x22" | "c = CHR 0x27" | "c = CHR ''&''" | "c = CHR ''<''" | "c = CHR ''>''" | "c = CHR 0x09" | "c = CHR 0x0A" | "c = CHR 0x0D"
    | "c \<notin> {CHR 0x22, CHR 0x27, CHR ''&'', CHR ''<'', CHR ''>'', CHR 0x09, CHR 0x0A, CHR 0x0D}" by blast
  then show ?thesis
  proof cases
    case 9
    then have "c \<noteq> CHR 0x22" "c \<noteq> CHR 0x27" "c \<noteq> CHR 0x09" "c \<noteq> CHR 0x0A" "c \<noteq> CHR 0x0D" by blast+
    then have "of_char c \<noteq> (0x22 :: nat)" "of_char c \<noteq> (0x27 :: nat)" "of_char c \<noteq> (9 :: nat)" "of_char c \<noteq> (10 :: nat)" "of_char c \<noteq> (13 :: nat)"
      unfolding codes [symmetric] of_char_eq_iff by simp_all
    moreover have "\<not> of_char c < (32 :: nat)" using assms 9 by (simp add: xml_char_def)
    ultimately have "xml_escape_char c = [c]" using 9 by (simp add: xml_escape_char_def Let_def)
    then show ?thesis using 9 by (simp add: xml_text_plain)
  qed (simp_all add: xml_escape_char_def entity_cases xml_entities_def)
qed

lemma xml_roundtrip: "list_all xml_char s \<Longrightarrow> xml_text (xmlEscape s) = Some s"
  by (induction s) (simp_all add: xmlEscape_def xml_escape_read)

lemma xml_escape_marks: "c \<in> set (xmlEscape s) \<Longrightarrow> c \<notin> {CHR ''<'', CHR 0x0A, CHR 0x09}"
proof -
  have "CHR ''<'' \<notin> set (xml_escape_char ch) \<and> CHR 0x0A \<notin> set (xml_escape_char ch) \<and> CHR 0x09 \<notin> set (xml_escape_char ch)" for ch
    by (auto simp: xml_escape_char_def Let_def)
  then show "c \<in> set (xmlEscape s) \<Longrightarrow> c \<notin> {CHR ''<'', CHR 0x0A, CHR 0x09}" by (auto simp: xmlEscape_def)
qed

text \<open>The program a plist starts: the strings of the array of \<open>ProgramArguments\<close>.\<close>

definition string_value :: "string \<Rightarrow> string option" where
  "string_value l =
     (if prefix ''<string>'' l \<and> suffix ''</string>'' l
      then xml_text (take (length l - length ''<string></string>'') (drop (length ''<string>'') l)) else None)"

fun array_strings :: "string list \<Rightarrow> string list option" where
  "array_strings [] = None"
| "array_strings (l # ls) =
     (if l = ''</array>'' then Some []
      else (case string_value l of None \<Rightarrow> None | Some v \<Rightarrow> map_option ((#) v) (array_strings ls)))"

definition program_arguments :: "string \<Rightarrow> string list option" where
  "program_arguments body =
     (case dropWhile (\<lambda>l. l \<noteq> key_elem ''ProgramArguments'') (map (dropWhile (\<lambda>c. c = CHR 0x09)) (split_on CHR 0x0A body)) of
        _ # a # ls \<Rightarrow> if a = ''<array>'' then array_strings ls else None
      | _ \<Rightarrow> None)"

lemma string_value_elem: "string_value (string_elem s) = xml_text s"
  by (simp add: string_value_def string_elem_def suffix_def)

lemma elem_not_end: "string_elem s \<noteq> ''</array>''"
  by (simp add: string_elem_def)

text \<open>The lines of the plist.\<close>

definition plist_head :: "string list" where
  "plist_head = [''<?xml version='' @ quoted ''1.0'' @ '' encoding='' @ quoted ''UTF-8'' @ ''?>'',
      ''<!DOCTYPE plist PUBLIC '' @ quoted ''-//Apple//DTD PLIST 1.0//EN'' @ '' '' @ quoted ''http://www.apple.com/DTDs/PropertyList-1.0.dtd'' @ ''>'',
      ''<plist version='' @ quoted ''1.0'' @ ''>'', ''<dict>'', tab @ key_elem ''Label'', tab @ string_elem launchAgentLabel]"

definition plist_rest :: "string list" where
  "plist_rest = [tab @ key_elem ''RunAtLoad'', tab @ ''<true/>'', tab @ key_elem ''KeepAlive'', tab @ ''<dict>'',
      tab @ tab @ key_elem ''SuccessfulExit'', tab @ tab @ ''<false/>'', tab @ ''</dict>'', tab @ key_elem ''ThrottleInterval'',
      tab @ ''<integer>30</integer>'', tab @ key_elem ''EnvironmentVariables'', tab @ ''<dict>'', tab @ tab @ key_elem ''PATH'',
      tab @ tab @ string_elem ''/opt/homebrew/bin:/usr/local/bin:/usr/bin:/bin:/usr/sbin:/sbin'', tab @ ''</dict>'',
      tab @ key_elem ''ProcessType'', tab @ string_elem ''Interactive'', tab @ key_elem ''StandardOutPath'']"

lemma plist_lines:
  "launchAgentPlist p log = unlines (plist_head @ (tab @ key_elem ''ProgramArguments'') # (tab @ ''<array>'') #
     (tab @ tab @ string_elem (xmlEscape p)) # (tab @ tab @ string_elem ''start'') # (tab @ ''</array>'') # plist_rest @
     [tab @ string_elem (xmlEscape log), tab @ key_elem ''StandardErrorPath'', tab @ string_elem (xmlEscape log), ''</dict>'', ''</plist>''])"
  by (simp only: launchAgentPlist_def plist_head_def plist_rest_def append.simps)

lemma plist_fixed:
  "list_all (\<lambda>l. CHR 0x0A \<notin> set l) (plist_head @ plist_rest)"
  "list_all (\<lambda>l. dropWhile (\<lambda>c. c = CHR 0x09) l \<noteq> key_elem ''ProgramArguments'') plist_head"
  by code_simp+

lemma drop_until: "list_all (\<lambda>l. f l \<noteq> k) xs \<Longrightarrow> f y = k \<Longrightarrow> dropWhile (\<lambda>l. l \<noteq> k) (map f (xs @ y # ys)) = k # map f ys"
  by (induction xs) auto

lemma plist_program:
  assumes "list_all xml_char p"
  shows "program_arguments (launchAgentPlist p log) = Some [p, ''start'']"
proof -
  have e: "CHR 0x0A \<notin> set (xmlEscape s)" for s using xml_escape_marks by blast
  have n: "CHR 0x0A \<notin> set (string_elem s) = (CHR 0x0A \<notin> set s)" "CHR 0x0A \<notin> set (key_elem s) = (CHR 0x0A \<notin> set s)" for s
    by (simp_all add: string_elem_def key_elem_def)
  let ?f = "dropWhile (\<lambda>c. c = CHR 0x09)"
  let ?ys = "(tab @ ''<array>'') # (tab @ tab @ string_elem (xmlEscape p)) # (tab @ tab @ string_elem ''start'') # (tab @ ''</array>'') # plist_rest @
     [tab @ string_elem (xmlEscape log), tab @ key_elem ''StandardErrorPath'', tab @ string_elem (xmlEscape log), ''</dict>'', ''</plist>'']"
  have f: "?f (tab @ s) = ?f s" "?f (string_elem s) = string_elem s" "?f (key_elem s) = key_elem s" for s
    by (simp_all add: tab_def string_elem_def key_elem_def)
  have split: "split_on CHR 0x0A (launchAgentPlist p log) = plist_head @ (tab @ key_elem ''ProgramArguments'') # ?ys @ [[]]"
    using plist_fixed(1) e n by (subst plist_lines, subst split_unlines) (simp_all add: tab_def)
  have "dropWhile (\<lambda>l. l \<noteq> key_elem ''ProgramArguments'') (map ?f (split_on CHR 0x0A (launchAgentPlist p log))) =
      key_elem ''ProgramArguments'' # map ?f (?ys @ [[]])"
    unfolding split by (rule drop_until [OF plist_fixed(2)]) (simp add: f)
  then have "program_arguments (launchAgentPlist p log) =
      array_strings (string_elem (xmlEscape p) # string_elem ''start'' # ''</array>'' # map ?f (plist_rest @
     [tab @ string_elem (xmlEscape log), tab @ key_elem ''StandardErrorPath'', tab @ string_elem (xmlEscape log), ''</dict>'', ''</plist>''] @ [[]]))"
    by (simp add: program_arguments_def f)
  moreover have "xml_text ''start'' = Some ''start''" by (simp add: xml_text_plain)
  ultimately show ?thesis by (simp add: elem_not_end string_value_elem xml_roundtrip [OF assms])
qed

lemma plain_path_xml: "plain_path p \<Longrightarrow> list_all xml_char p"
  by (auto simp: plain_path_def xml_char_def list_all_iff)

subsection \<open>Installing\<close>

lemma install_file_cases:
  assumes "install_file env force path_of body_of steps_of files = (e, files', out)"
  shows "(\<forall>exe p home. in_executable env = Some exe \<and> in_evalsymlinks env exe = Some p \<and> in_home env = Some home \<and> e = None \<longrightarrow>
      files' = files(path_of home \<mapsto> body_of home p) \<and> (files (path_of home) = None \<or> force \<or> in_stat_fails env)) \<and>
    (e = None \<longrightarrow> (\<exists>exe p home. in_executable env = Some exe \<and> in_evalsymlinks env exe = Some p \<and> in_home env = Some home)) \<and>
    (\<forall>path x. files path = Some x \<and> \<not> force \<and> \<not> in_stat_fails env \<longrightarrow> files' path = Some x)"
  using assms by (auto simp: install_file_def Let_def split: option.splits if_splits io_fault.splits)


text \<open>
  An installation that was not forced leaves every file that exists as it is, whatever it writes
  and wherever it fails, as long as asking for the file works; on another operating system nothing is
  written at all.
\<close>

theorem install_overwrites_nothing:
  assumes "\<not> in_stat_fails env" and "files path = Some x"
  shows "fst (snd (runInstallService env goos False files)) path = Some x \<and>
    fst (snd (hubRunInstallService env goos False files)) path = Some x \<and>
    fst (snd (runInstallAgent env goos False files)) path = Some x \<and>
    (goos \<noteq> ''linux'' \<longrightarrow> fst (snd (runInstallService env goos force files)) = files \<and> fst (snd (hubRunInstallService env goos force files)) = files) \<and>
    (goos \<noteq> ''darwin'' \<longrightarrow> fst (snd (runInstallAgent env goos force files)) = files)"
proof -
  have "fst (snd (install_file env False a b c files)) path = Some x" for a b c
    using install_file_cases [of env False a b c files] assms by (metis prod.collapse)
  then show ?thesis using assms(2) by (simp add: runInstallService_def hubRunInstallService_def runInstallAgent_def Let_def)
qed

definition sample_install :: "string \<Rightarrow> install_env" where
  "sample_install p = \<lparr>in_executable = Some ''/proc/self/exe'', in_evalsymlinks = (\<lambda>_. Some p), in_home = Some ''/home/u'',
     in_stat_fails = False, in_mkdir_fails = False, in_write = NoFault, in_print_fails = False\<rparr>"


lemma install_overwrites_nothing_witness:
  "fst (snd (runInstallAgent (sample_install ''/usr/bin/hubfuse'') ''darwin'' False [''/home/u/Library/LaunchAgents/com.github.ykhdr.hubfuse.plist'' \<mapsto> ''mine'']))
     ''/home/u/Library/LaunchAgents/com.github.ykhdr.hubfuse.plist'' = Some ''mine''"
proof -
  have "\<not> in_stat_fails (sample_install ''/usr/bin/hubfuse'')" by (simp add: sample_install_def)
  from install_overwrites_nothing [OF this, of "[''/home/u/Library/LaunchAgents/com.github.ykhdr.hubfuse.plist'' \<mapsto> ''mine'']"
      "''/home/u/Library/LaunchAgents/com.github.ykhdr.hubfuse.plist''" "''mine''" "''darwin''"]
  show ?thesis by simp
qed

end
