(* ===== verification/ConsoleLog.thy ===== *)
theory ConsoleLog
  imports GoText
begin

text \<open>
  Logging (internal/common/console_handler.go, multi_handler.go, logging.go): the line the console
  handler writes for a record, attributes and groups bound to a logger, the fan-out to several
  handlers and the logger the flags ask for. Attribute values are resolved already (\<open>slog\<close> does
  it); the time of a record is its text.
\<close>

subsection \<open>Records\<close>

type_synonym log_level = int

definition LevelDebug :: log_level where "LevelDebug = -4"
definition LevelInfo :: log_level where "LevelInfo = 0"
definition LevelWarn :: log_level where "LevelWarn = 4"
definition LevelError :: log_level where "LevelError = 8"

text \<open>A value is nil, a group, or anything else, which is its text.\<close>

datatype log_value = NilValue | TextValue string | GroupValue "(string \<times> log_value) list"

type_synonym log_attr = "string \<times> log_value"

record log_record =
  lr_time :: "string option"
  lr_level :: log_level
  lr_message :: string
  lr_attrs :: "log_attr list"

subsection \<open>The console handler\<close>

definition esc :: string where "esc = [CHR 0x1B]"
definition colorReset :: string where "colorReset = esc @ ''[0m''"
definition colorRed :: string where "colorRed = esc @ ''[31m''"
definition colorGreen :: string where "colorGreen = esc @ ''[32m''"
definition colorYellow :: string where "colorYellow = esc @ ''[33m''"
definition colorCyan :: string where "colorCyan = esc @ ''[36m''"

record console =
  ch_level :: "log_level option"
  ch_color :: bool
  ch_pre :: "log_attr list"
  ch_group :: string

text \<open>\<open>NewConsoleHandler\<close>, on the level of its options and whether the writer is a terminal.\<close>

definition NewConsoleHandler :: "log_level option \<Rightarrow> bool \<Rightarrow> console" where
  "NewConsoleHandler level terminal = \<lparr>ch_level = level, ch_color = terminal, ch_pre = [], ch_group = []\<rparr>"

definition console_Enabled :: "console \<Rightarrow> log_level \<Rightarrow> bool" where
  "console_Enabled h level = (level \<ge> (case ch_level h of None \<Rightarrow> LevelInfo | Some l \<Rightarrow> l))"

definition levelString :: "log_level \<Rightarrow> string \<times> string" where
  "levelString level =
     (if level < LevelInfo then (''[DEBUG]'', colorCyan)
      else if level < LevelWarn then (''[INFO] '', colorGreen)
      else if level < LevelError then (''[WARN] '', colorYellow)
      else (''[ERROR]'', colorRed))"

primrec value_text :: "log_value \<Rightarrow> string" where
  "value_text NilValue = ''<nil>''"
| "value_text (TextValue t) = t"
| "value_text (GroupValue as) = []"

definition join_key :: "string \<Rightarrow> string \<Rightarrow> string" where
  "join_key p k = (if p \<noteq> [] then p @ ''.'' @ k else k)"

fun appendFlatAttr :: "string \<Rightarrow> log_value \<Rightarrow> string" where
  "appendFlatAttr k (GroupValue as) = concat (map (\<lambda>(gk, v). appendFlatAttr (join_key k gk) v) as)"
| "appendFlatAttr k NilValue = (if k = [] then [] else '' '' @ k @ ''='' @ value_text NilValue)"
| "appendFlatAttr k (TextValue t) = '' '' @ k @ ''='' @ t"

definition appendAttr :: "console \<Rightarrow> bool \<Rightarrow> log_attr \<Rightarrow> string" where
  "appendAttr h addGroup a =
     (case a of (k, v) \<Rightarrow>
        if a = ([], NilValue) then []
        else (case v of
                GroupValue as \<Rightarrow>
                  (let prefix = (if addGroup \<and> ch_group h \<noteq> []
                                 then (if k \<noteq> [] then ch_group h @ ''.'' @ k else ch_group h) else k)
                   in concat (map (\<lambda>(gk, w). appendFlatAttr (join_key prefix gk) w) as))
              | _ \<Rightarrow> '' '' @ (if addGroup \<and> ch_group h \<noteq> [] then ch_group h @ ''.'' else []) @ k @ ''='' @ value_text v))"

text \<open>The bytes \<open>Handle\<close> writes.\<close>

definition console_line :: "console \<Rightarrow> log_record \<Rightarrow> string" where
  "console_line h r =
     (case levelString (lr_level r) of (lvl, color) \<Rightarrow>
        (case lr_time r of None \<Rightarrow> [] | Some t \<Rightarrow> t @ '' '') @
        (if ch_color h \<and> color \<noteq> [] then color @ lvl @ colorReset else lvl) @ '' '' @
        lr_message r @
        concat (map (appendAttr h False) (ch_pre h)) @
        concat (map (appendAttr h True) (lr_attrs r)) @ nl)"

definition console_WithAttrs :: "log_attr list \<Rightarrow> console \<Rightarrow> console" where
  "console_WithAttrs as h =
     h\<lparr>ch_pre := ch_pre h @ map (\<lambda>(k, v). (if ch_group h \<noteq> [] then ch_group h @ ''.'' @ k else k, v)) as\<rparr>"

definition console_WithGroup :: "string \<Rightarrow> console \<Rightarrow> console" where
  "console_WithGroup name h = h\<lparr>ch_group := (if ch_group h \<noteq> [] then ch_group h @ ''.'' @ name else name)\<rparr>"

subsection \<open>Several handlers\<close>

text \<open>
  A console, or the library's JSON handler of a file with its level and what was bound to it, in order.
\<close>

datatype bound = BoundAttrs "log_attr list" | OpenedGroup string

datatype log_handler = Console console | JSONFile string log_level "bound list"

primrec handler_Enabled :: "log_level \<Rightarrow> log_handler \<Rightarrow> bool" where
  "handler_Enabled level (Console h) = console_Enabled h level"
| "handler_Enabled level (JSONFile f lowest bs) = (level \<ge> lowest)"

definition multi_Enabled :: "log_handler list \<Rightarrow> log_level \<Rightarrow> bool" where
  "multi_Enabled hs level = list_ex (handler_Enabled level) hs"

text \<open>
  \<open>Handle\<close>: the handlers that wrote the record, and whether an error was returned. \<open>fails\<close> says whose
  writes fail.
\<close>

fun multi_Handle :: "(log_handler \<Rightarrow> bool) \<Rightarrow> log_level \<Rightarrow> log_handler list \<Rightarrow> log_handler list \<times> bool" where
  "multi_Handle fails level [] = ([], False)"
| "multi_Handle fails level (h # hs) =
     (if handler_Enabled level h
      then (if fails h then ([], True)
            else (case multi_Handle fails level hs of (wrote, err) \<Rightarrow> (h # wrote, err)))
      else multi_Handle fails level hs)"

primrec handler_WithAttrs :: "log_attr list \<Rightarrow> log_handler \<Rightarrow> log_handler" where
  "handler_WithAttrs as (Console h) = Console (console_WithAttrs as h)"
| "handler_WithAttrs as (JSONFile f lowest bs) = JSONFile f lowest (bs @ [BoundAttrs as])"

primrec handler_WithGroup :: "string \<Rightarrow> log_handler \<Rightarrow> log_handler" where
  "handler_WithGroup name (Console h) = Console (console_WithGroup name h)"
| "handler_WithGroup name (JSONFile f lowest bs) = JSONFile f lowest (bs @ [OpenedGroup name])"

definition multi_WithAttrs :: "log_attr list \<Rightarrow> log_handler list \<Rightarrow> log_handler list" where
  "multi_WithAttrs as hs = map (handler_WithAttrs as) hs"

definition multi_WithGroup :: "string \<Rightarrow> log_handler list \<Rightarrow> log_handler list" where
  "multi_WithGroup name hs = map (handler_WithGroup name) hs"

subsection \<open>The logger\<close>

record logger_options =
  lo_console_level :: log_level
  lo_file :: string
  lo_file_level :: log_level
  lo_verbose :: bool

datatype logger_err = CreateLogDir | OpenLogFile

definition SetupLogger :: "bool \<Rightarrow> bool \<Rightarrow> bool \<Rightarrow> logger_options \<Rightarrow> logger_err + log_handler list" where
  "SetupLogger terminal mkdir_ok open_ok opts =
     (let consoleLevel = (if lo_verbose opts then LevelDebug else lo_console_level opts);
          consoleHandler = Console (NewConsoleHandler (Some consoleLevel) terminal) in
      if lo_file opts = [] then Inr [consoleHandler]
      else if \<not> mkdir_ok then Inl CreateLogDir
      else if \<not> open_ok then Inl OpenLogFile
      else Inr [consoleHandler, JSONFile (lo_file opts) (lo_file_level opts) []])"

definition ParseLogLevel :: "string \<Rightarrow> log_level" where
  "ParseLogLevel level =
     (if level = ''debug'' then LevelDebug
      else if level = ''info'' then LevelInfo
      else if level = ''warn'' then LevelWarn
      else if level = ''error'' then LevelError
      else LevelDebug)"

text \<open>The options of the flags \<open>--log-file\<close>, \<open>--log-level\<close> (by default \<open>debug\<close>) and \<open>--verbose\<close>.\<close>

definition RegisterLogFlags :: "string option \<Rightarrow> string option \<Rightarrow> bool \<Rightarrow> logger_options" where
  "RegisterLogFlags logFile logLevel verbose =
     \<lparr>lo_console_level = LevelInfo, lo_file = (case logFile of None \<Rightarrow> [] | Some f \<Rightarrow> f),
      lo_file_level = ParseLogLevel (case logLevel of None \<Rightarrow> ''debug'' | Some l \<Rightarrow> l), lo_verbose = verbose\<rparr>"

subsection \<open>Attributes bound to a logger\<close>

lemma appendAttr_bound:
  assumes "fst a \<noteq> [] \<or> ch_group h = []"
  shows "appendAttr h False (if ch_group h \<noteq> [] then ch_group h @ ''.'' @ fst a else fst a, snd a) = appendAttr h True a"
  using assms by (cases a; cases "snd a") (auto simp: appendAttr_def join_key_def)

lemma appendAttr_group: "ch_group h' = ch_group h \<Longrightarrow> appendAttr h' b a = appendAttr h b a"
  by (simp only: appendAttr_def)

lemma appendAttr_pre: "appendAttr (h\<lparr>ch_pre := pre\<rparr>) = appendAttr h"
  by (intro ext appendAttr_group) simp

text \<open>
  Binding attributes to a logger is the same as giving them with each record: under any group, the
  line of a record is the one of the record that carries them itself, in front of its own, as long as
  each has a name. Without a group this holds for every attribute.
\<close>

theorem bound_attributes_print_the_same:
  assumes "list_all (\<lambda>a. fst a \<noteq> [] \<or> ch_group h = []) as"
  shows "console_line (console_WithAttrs as h) r = console_line h (r\<lparr>lr_attrs := as @ lr_attrs r\<rparr>)"
proof -
  let ?b = "\<lambda>(k, v). (if ch_group h \<noteq> [] then ch_group h @ ''.'' @ k else k, v)"
  have same: "map (appendAttr h False \<circ> ?b) as = map (appendAttr h True) as"
  proof (rule map_cong [OF HOL.refl])
    fix a assume "a \<in> set as"
    then have "fst a \<noteq> [] \<or> ch_group h = []" using assms by (auto simp: list_all_iff)
    from appendAttr_bound [OF this] show "(appendAttr h False \<circ> ?b) a = appendAttr h True a"
      by (simp add: case_prod_unfold)
  qed
  let ?h = "console_WithAttrs as h" and ?r = "r\<lparr>lr_attrs := as @ lr_attrs r\<rparr>"
  have h: "ch_pre ?h = ch_pre h @ map ?b as" "ch_color ?h = ch_color h" "appendAttr ?h = appendAttr h"
    by (simp_all only: console_WithAttrs_def appendAttr_pre) simp_all
  have r: "lr_attrs ?r = as @ lr_attrs r" "lr_time ?r = lr_time r" "lr_level ?r = lr_level r" "lr_message ?r = lr_message r" by simp_all
  show ?thesis
    by (simp only: console_line_def h r map_append concat_append map_map same append_assoc)
qed

text \<open>An unnamed group, whose members belong to the group around it, gets a second dot when it is bound.\<close>

lemma bound_inline_group:
  "console_line (console_WithAttrs [([], GroupValue [(''k'', TextValue ''v'')])] (console_WithGroup ''g'' (NewConsoleHandler None False)))
     \<lparr>lr_time = None, lr_level = LevelInfo, lr_message = ''m'', lr_attrs = []\<rparr> = ''[INFO]  m g..k=v'' @ nl"
  "console_line (console_WithGroup ''g'' (NewConsoleHandler None False))
     \<lparr>lr_time = None, lr_level = LevelInfo, lr_message = ''m'', lr_attrs = [([], GroupValue [(''k'', TextValue ''v'')])]\<rparr> = ''[INFO]  m g.k=v'' @ nl"
  by code_simp+

subsection \<open>Lines\<close>

definition nls :: "string \<Rightarrow> nat" where "nls s = length (filter (\<lambda>c. c = CHR 0x0A) s)"

lemma nls_simps [simp]: "nls [] = 0" "nls (c # s) = of_bool (c = CHR 0x0A) + nls s" "nls (a @ b) = nls a + nls b"
  by (simp_all add: nls_def)

fun value_lines :: "log_value \<Rightarrow> bool" where
  "value_lines NilValue = True"
| "value_lines (TextValue t) = (nls t = 0)"
| "value_lines (GroupValue as) = list_all (\<lambda>(k, v). nls k = 0 \<and> value_lines v) as"

lemma nls_concat: "list_all (\<lambda>x. nls (f x) = 0) xs \<Longrightarrow> nls (concat (map f xs)) = 0"
  by (induction xs) auto

lemma nls_join: "nls p = 0 \<Longrightarrow> nls k = 0 \<Longrightarrow> nls (join_key p k) = 0"
  by (simp add: join_key_def)

lemma flat_one_line: "nls k = 0 \<Longrightarrow> value_lines v \<Longrightarrow> nls (appendFlatAttr k v) = 0"
proof (induction k v rule: appendFlatAttr.induct)
  case (1 k as)
  have "nls (appendFlatAttr (join_key k gk) v) = 0" if "(gk, v) \<in> set as" for gk v
  proof -
    have "nls gk = 0" "value_lines v" using "1.prems"(2) that by (auto simp: list_all_iff)
    then show ?thesis using "1.IH" [OF that HOL.refl] nls_join "1.prems"(1) by simp
  qed
  then show ?case unfolding appendFlatAttr.simps by (intro nls_concat) (auto simp: list_all_iff)
qed simp_all

lemma console_line_ends: "butlast (console_line h r) @ nl = console_line h r"
  by (simp add: console_line_def nl_def butlast_append split: prod.splits)

lemma attr_one_line:
  assumes "nls (ch_group h) = 0" "nls (fst a) = 0" "value_lines (snd a)"
  shows "nls (appendAttr h b a) = 0"
proof (cases "snd a")
  case (GroupValue as)
  let ?p = "if b \<and> ch_group h \<noteq> [] then (if fst a \<noteq> [] then ch_group h @ ''.'' @ fst a else ch_group h) else fst a"
  have "nls (concat (map (\<lambda>(gk, w). appendFlatAttr (join_key ?p gk) w) as)) = 0"
    by (rule nls_concat) (use assms GroupValue in \<open>auto simp: list_all_iff intro!: flat_one_line nls_join\<close>)
  moreover have "appendAttr h b a = concat (map (\<lambda>(gk, w). appendFlatAttr (join_key ?p gk) w) as)"
    using GroupValue by (cases a) (simp only: appendAttr_def Let_def snd_conv fst_conv prod.case log_value.case prod.inject log_value.distinct simp_thms if_False)
  ultimately show ?thesis by simp
qed (use assms in \<open>cases a; simp add: appendAttr_def\<close>)+

text \<open>
  A record is one line when its message, its attributes and the ones bound to the logger have no
  line breaks; a message with a line break can end its line and go on as a record of its own, which
  nothing tells from one the program has logged.
\<close>

theorem records_are_lines:
  assumes "nls (ch_group h) = 0" and "list_all (\<lambda>a. nls (fst a) = 0 \<and> value_lines (snd a)) (ch_pre h @ lr_attrs r)"
    and "lr_time r \<noteq> None \<longrightarrow> nls (the (lr_time r)) = 0"
  shows "nls (console_line h r) = 1 + nls (lr_message r) \<and>
    console_line (h\<lparr>ch_pre := []\<rparr>) (r\<lparr>lr_message := console_text @ nl @ butlast (console_line (h\<lparr>ch_pre := []\<rparr>) forged), lr_attrs := []\<rparr>) =
      console_line (h\<lparr>ch_pre := []\<rparr>) (r\<lparr>lr_message := console_text, lr_attrs := []\<rparr>) @ console_line (h\<lparr>ch_pre := []\<rparr>) forged"
proof -
  have a: "nls (concat (map (appendAttr h b) xs)) = 0" if "list_all (\<lambda>a. nls (fst a) = 0 \<and> value_lines (snd a)) xs" for b xs
    by (rule nls_concat) (use that assms(1) in \<open>auto simp: list_all_iff intro!: attr_one_line\<close>)
  obtain lvl color where lv: "levelString (lr_level r) = (lvl, color)" by (cases "levelString (lr_level r)")
  moreover have "nls (fst (levelString l)) = 0 \<and> nls (snd (levelString l)) = 0" for l
    by (simp add: levelString_def colorRed_def colorGreen_def colorYellow_def colorCyan_def esc_def)
  ultimately have "nls lvl = 0 \<and> nls color = 0" by (metis fst_conv snd_conv)
  then have "nls (console_line h r) = 1 + nls (lr_message r)"
    using assms(2,3) a [of "ch_pre h" False] a [of "lr_attrs r" True] lv
    by (cases "lr_time r") (simp_all add: console_line_def colorReset_def esc_def nl_def)
  moreover have "console_line g (r\<lparr>lr_message := console_text @ nl @ butlast f, lr_attrs := []\<rparr>) =
      console_line g (r\<lparr>lr_message := console_text, lr_attrs := []\<rparr>) @ butlast f @ nl" if "ch_pre g = []" for g f
    using that lv by (simp add: console_line_def)
  ultimately show ?thesis by (simp add: console_line_ends)
qed

definition sample_record :: log_record where
  "sample_record = \<lparr>lr_time = Some ''21:25:24'', lr_level = LevelWarn, lr_message = ''device online'', lr_attrs = [(''nickname'', TextValue ''mac'')]\<rparr>"

lemma bound_attributes_print_the_same_witness:
  "console_line (console_WithAttrs [(''device'', TextValue ''d1'')] (console_WithGroup ''hub'' (NewConsoleHandler None False))) sample_record =
     ''21:25:24 [WARN]  device online hub.device=d1 hub.nickname=mac'' @ nl"
proof -
  have n: "list_all (\<lambda>a. fst a \<noteq> [] \<or> ch_group (console_WithGroup ''hub'' (NewConsoleHandler None False)) = []) [(''device'', TextValue ''d1'')]" by simp
  have "console_line (console_WithGroup ''hub'' (NewConsoleHandler None False))
      (sample_record\<lparr>lr_attrs := [(''device'', TextValue ''d1'')] @ lr_attrs sample_record\<rparr>) =
    ''21:25:24 [WARN]  device online hub.device=d1 hub.nickname=mac'' @ nl" by code_simp
  then show ?thesis using bound_attributes_print_the_same [OF n, of sample_record] by simp
qed

lemma records_are_lines_witness:
  "console_line (NewConsoleHandler None False) \<lparr>lr_time = None, lr_level = LevelInfo,
      lr_message = ''joined as x'' @ nl @ ''[ERROR] hub stopped'', lr_attrs = []\<rparr> =
    ''[INFO]  joined as x'' @ nl @ ''[ERROR] hub stopped'' @ nl"
proof -
  let ?r = "\<lparr>lr_time = None, lr_level = LevelInfo, lr_message = ''joined as x'', lr_attrs = []\<rparr> :: log_record"
  let ?f = "\<lparr>lr_time = None, lr_level = LevelError, lr_message = ''hub stopped'', lr_attrs = []\<rparr> :: log_record"
  have "console_line (NewConsoleHandler None False) ?r = ''[INFO]  joined as x'' @ nl" "console_line (NewConsoleHandler None False) ?f = ''[ERROR] hub stopped'' @ nl"
    "(NewConsoleHandler None False)\<lparr>ch_pre := []\<rparr> = NewConsoleHandler None False"
    by code_simp+
  then show ?thesis using records_are_lines [of "NewConsoleHandler None False" ?r "''joined as x''" ?f]
    by (simp add: NewConsoleHandler_def nl_def)
qed

subsection \<open>Where records go\<close>

text \<open>
  With a log file, a record is in it exactly when its level is at least the file's, writing the
  file works, and writing the console works or the console does not show that level: the file is
  after the console, whose failure ends the fan-out.
\<close>

theorem records_reach_the_file:
  assumes "SetupLogger terminal mkdir_ok open_ok opts = Inr hs" and "lo_file opts \<noteq> []"
  shows "let console = Console (NewConsoleHandler (Some (if lo_verbose opts then LevelDebug else lo_console_level opts)) terminal);
             log = JSONFile (lo_file opts) (lo_file_level opts) [] in
    log \<in> set (fst (multi_Handle fails level hs)) \<longleftrightarrow>
      lo_file_level opts \<le> level \<and> \<not> fails log \<and> ((if lo_verbose opts then LevelDebug else lo_console_level opts) \<le> level \<longrightarrow> \<not> fails console)"
  using assms by (auto simp: SetupLogger_def Let_def NewConsoleHandler_def console_Enabled_def split: if_splits)

lemma records_reach_the_file_witness:
  "JSONFile ''hub.log'' LevelDebug [] \<in> set (fst (multi_Handle (\<lambda>_. False) LevelDebug
     (projr (SetupLogger True True True (RegisterLogFlags (Some ''hub.log'') None False))))) \<and>
   JSONFile ''hub.log'' LevelDebug [] \<notin> set (fst (multi_Handle (\<lambda>h. h = Console (NewConsoleHandler (Some LevelInfo) True)) LevelError
     (projr (SetupLogger True True True (RegisterLogFlags (Some ''hub.log'') None False)))))"
proof -
  let ?o = "RegisterLogFlags (Some ''hub.log'') None False"
  have o1: "lo_file ?o = ''hub.log''" "lo_file_level ?o = LevelDebug" "lo_verbose ?o = False" "lo_console_level ?o = LevelInfo"
    by (simp_all add: RegisterLogFlags_def ParseLogLevel_def)
  obtain hs where hs: "SetupLogger True True True ?o = Inr hs" using o1 by (simp add: SetupLogger_def Let_def)
  show ?thesis
    using records_reach_the_file [OF hs, of "\<lambda>_. False" LevelDebug]
      records_reach_the_file [OF hs, of "\<lambda>h. h = Console (NewConsoleHandler (Some LevelInfo) True)" LevelError]
    by (simp add: hs o1 LevelInfo_def LevelError_def LevelDebug_def)
qed

end
