(* ===== verification/StubMount.thy ===== *)
theory StubMount
  imports Mounter GoDuration GoPath
begin

text \<open>
  The stand-in for FUSE mounts (internal/agent/stubmount.go), the construction of the mounter
  (NewMounter of mounter.go) and the check of the mount tool at start (preflightMountBinary of
  daemon.go). Markers are files with the number of a process; reading JSON is a parameter.
\<close>

subsection \<open>Mountpoints\<close>

text \<open>\<open>isMountpoint\<close>: \<open>stat\<close> gives the number of the device a path is on, or an error.\<close>

definition isMountpoint :: "(string \<Rightarrow> 'e + int) \<Rightarrow> string \<Rightarrow> 'e + bool" where
  "isMountpoint stat path =
     (case stat path of
        Inl e \<Rightarrow> Inl e
      | Inr dev \<Rightarrow> (case stat (Dir path) of Inl e \<Rightarrow> Inl e | Inr parent \<Rightarrow> Inr (dev \<noteq> parent)))"

subsection \<open>Markers\<close>

definition stubUnmountWait :: duration where "stubUnmountWait = 2 * second"
definition stubUnmountPollInterval :: duration where "stubUnmountPollInterval = 25 * millisecond"

definition stubSanitizePath :: "string \<Rightarrow> string" where
  "stubSanitizePath p =
     map (\<lambda>ch. if ch \<in> {CHR ''/'', CHR 0x5C, CHR '':'', CHR '' ''} then CHR ''_'' else ch)
       (if prefix ''/'' p then drop 1 p else p)"

definition stubMarkerPath :: "string \<Rightarrow> string \<Rightarrow> string" where
  "stubMarkerPath markerDir mountPath = Join2 markerDir (stubSanitizePath mountPath @ ''.json'')"

text \<open>What is at the path of a marker, and the processes that exist.\<close>

datatype marker = NoMarker | UnreadableMarker | MarkerText string

record stub_world =
  sw_marker :: "string \<Rightarrow> marker"
  sw_alive :: "int \<Rightarrow> bool"

definition usable_pid :: "(string \<Rightarrow> int option) \<Rightarrow> string \<Rightarrow> int option" where
  "usable_pid json data = (case json data of None \<Rightarrow> None | Some pid \<Rightarrow> if pid \<le> 0 then None else Some pid)"

definition readStubMarkerPID :: "(string \<Rightarrow> int option) \<Rightarrow> stub_world \<Rightarrow> string \<Rightarrow> string \<Rightarrow> int option" where
  "readStubMarkerPID json w markerDir mountPath =
     (case sw_marker w (stubMarkerPath markerDir mountPath) of MarkerText data \<Rightarrow> usable_pid json data | _ \<Rightarrow> None)"

definition stubPIDAlive :: "stub_world \<Rightarrow> int \<Rightarrow> bool" where
  "stubPIDAlive w pid = sw_alive w pid"

text \<open>It never reports an error.\<close>

definition stubMountpointCheck :: "(string \<Rightarrow> int option) \<Rightarrow> string \<Rightarrow> stub_world \<Rightarrow> string \<Rightarrow> bool" where
  "stubMountpointCheck json markerDir w path =
     (case readStubMarkerPID json w markerDir path of None \<Rightarrow> False | Some pid \<Rightarrow> stubPIDAlive w pid)"

subsection \<open>Unmounting\<close>

text \<open>What the signal gives: sent, no such process, or another error.\<close>

datatype kill_answer = Signalled | NoSuchProcess | KillRefused

datatype stub_err =
    ReadMarker | NoUsablePID | DeadButMarked | SignalFailed | UnmountCancelled | MarkerStays

text \<open>
  The polls after the signal: each is the world at that moment, whether the context has ended, and the
  time since the loop began. The marker counts as gone when asking for it says so; an unreadable one is there.
\<close>

fun stub_wait :: "duration \<Rightarrow> string \<Rightarrow> (stub_world \<times> bool \<times> duration) list \<Rightarrow> stub_err option option" where
  "stub_wait limit markerPath [] = None"
| "stub_wait limit markerPath ((w, cancelled, elapsed) # ps) =
     (if sw_marker w markerPath = NoMarker then Some None
      else if cancelled then Some (Some UnmountCancelled)
      else if elapsed > limit then Some (Some MarkerStays)
      else stub_wait limit markerPath ps)"

text \<open>The outer \<open>None\<close>: it is still waiting when the polls given end. \<open>later\<close> is the world after the signal failed.\<close>

definition stubUnmountWithWait :: "(string \<Rightarrow> int option) \<Rightarrow> string \<Rightarrow> duration \<Rightarrow> kill_answer \<Rightarrow> stub_world \<Rightarrow>
    (stub_world \<times> bool \<times> duration) list \<Rightarrow> stub_world \<Rightarrow> string \<Rightarrow> stub_err option option" where
  "stubUnmountWithWait json markerDir limit answer later polls w path =
     (let markerPath = stubMarkerPath markerDir path in
      case sw_marker w markerPath of
        NoMarker \<Rightarrow> Some None
      | UnreadableMarker \<Rightarrow> Some (Some ReadMarker)
      | MarkerText data \<Rightarrow>
          (case usable_pid json data of
             None \<Rightarrow> Some (Some NoUsablePID)
           | Some pid \<Rightarrow>
               (case answer of
                  NoSuchProcess \<Rightarrow> if sw_marker later markerPath = NoMarker then Some None else Some (Some DeadButMarked)
                | KillRefused \<Rightarrow> Some (Some SignalFailed)
                | Signalled \<Rightarrow> stub_wait limit markerPath polls)))"

definition stubUnmount :: "(string \<Rightarrow> int option) \<Rightarrow> string \<Rightarrow> kill_answer \<Rightarrow> stub_world \<Rightarrow>
    (stub_world \<times> bool \<times> duration) list \<Rightarrow> stub_world \<Rightarrow> string \<Rightarrow> stub_err option option" where
  "stubUnmount json markerDir = stubUnmountWithWait json markerDir stubUnmountWait"

text \<open>
  After an unmount that succeeded the path is not a mountpoint: in the world the unmount saw last, the
  check says so, as the mounter relies on. An unmount whose polls go beyond the limit has ended.
\<close>

lemma stub_wait_gone:
  "stub_wait limit mp ps = Some None \<Longrightarrow> \<exists>p \<in> set ps. sw_marker (fst p) mp = NoMarker"
  by (induction ps) (auto split: if_splits)

lemma stub_wait_ends:
  "(w, c, elapsed) \<in> set ps \<Longrightarrow> elapsed > limit \<Longrightarrow> stub_wait limit mp ps \<noteq> None"
  by (induction ps) auto

theorem stub_unmount_detaches:
  assumes "stubUnmount json markerDir answer later polls w path = Some None"
  shows "\<exists>w' \<in> {w, later} \<union> fst ` set polls. \<not> stubMountpointCheck json markerDir w' path"
proof -
  obtain w' where "w' \<in> {w, later} \<union> fst ` set polls" "sw_marker w' (stubMarkerPath markerDir path) = NoMarker"
    using assms by (auto simp: stubUnmount_def stubUnmountWithWait_def Let_def dest!: stub_wait_gone
        split: marker.splits option.splits kill_answer.splits if_splits)
  moreover from this(2) have "\<not> stubMountpointCheck json markerDir w' path"
    by (simp add: stubMountpointCheck_def readStubMarkerPID_def)
  ultimately show ?thesis by blast
qed

theorem stub_unmount_bounded:
  "(w', c, elapsed) \<in> set polls \<Longrightarrow> elapsed > stubUnmountWait \<Longrightarrow> stubUnmount json markerDir answer later polls w path \<noteq> None"
  by (auto simp: stubUnmount_def stubUnmountWithWait_def Let_def dest: stub_wait_ends
      split: marker.splits option.splits kill_answer.splits)

text \<open>Different targets can have the same marker.\<close>

lemma markers_collide: "stubMarkerPath ''/tmp/m'' ''/home/u/a b'' = stubMarkerPath ''/tmp/m'' ''/home/u/a/b''"
  by code_simp

subsection \<open>The mounter's settings\<close>

definition defaultMountVerifyTimeout :: duration where "defaultMountVerifyTimeout = 10 * second"

definition mountVerifyTimeoutFromEnv :: "(string \<Rightarrow> duration option) \<Rightarrow> string \<Rightarrow> duration \<Rightarrow> duration" where
  "mountVerifyTimeoutFromEnv parse raw def =
     (if raw = [] then def
      else (case parse raw of None \<Rightarrow> def | Some d \<Rightarrow> if d \<le> 0 then def else d))"

record mounter_settings =
  ms_key_path :: string
  ms_known_devices :: string
  ms_known_hosts :: string
  ms_backend :: mount_backend
  ms_stub_dir :: "string option"
  ms_verify_timeout :: duration
  ms_verify_interval :: duration

text \<open>
  The environment variables are read once. With a stub directory, the check and the unmount are the
  ones of markers; otherwise they ask the operating system.
\<close>

definition NewMounter :: "(string \<Rightarrow> duration option) \<Rightarrow> (string \<Rightarrow> string) \<Rightarrow> string \<Rightarrow> string \<Rightarrow> string \<Rightarrow> string \<Rightarrow> mounter_settings" where
  "NewMounter parse getenv keyPath knownDevicesDir knownHostsDir mountTool =
     (let stubMarkerDir = getenv ''HUBFUSE_STUB_MOUNT_DIR'' in
      \<lparr>ms_key_path = keyPath, ms_known_devices = knownDevicesDir, ms_known_hosts = knownHostsDir,
       ms_backend = resolveBackend mountTool,
       ms_stub_dir = (if stubMarkerDir \<noteq> [] then Some stubMarkerDir else None),
       ms_verify_timeout = mountVerifyTimeoutFromEnv parse (getenv ''HUBFUSE_MOUNT_VERIFY_TIMEOUT'') defaultMountVerifyTimeout,
       ms_verify_interval = 200 * millisecond\<rparr>)"

lemma verify_timeout_positive:
  "0 < ms_verify_timeout (NewMounter parse getenv a b c t)"
  by (simp add: NewMounter_def Let_def mountVerifyTimeoutFromEnv_def defaultMountVerifyTimeout_def duration_defs split: option.splits)

subsection \<open>The check at start\<close>

definition fuseTRuntimeMarkers :: "string list" where
  "fuseTRuntimeMarkers = [''/usr/local/lib/libfuse-t.dylib'', ''/opt/homebrew/lib/libfuse-t.dylib'', ''/Library/Application Support/fuse-t'']"

definition mountInstallHint :: "string \<Rightarrow> string \<Rightarrow> string" where
  "mountInstallHint tool goos =
     (if tool = ''fuse-t'' then ''install with: brew tap macos-fuse-t/homebrew-cask && brew install --cask fuse-t fuse-t-sshfs''
      else if goos = ''darwin'' then ''install an sshfs binary (e.g. brew install --cask macfuse, then a macFUSE sshfs build)''
      else ''install your distribution's sshfs package (e.g. apt install sshfs)'')"

text \<open>A warning: the tool is not on the path, with the hint, or the runtime of FUSE-T is missing.\<close>

datatype preflight_warning = BinaryMissing string string string | RuntimeMissing string

definition preflightMountBinary :: "string \<Rightarrow> mount_backend \<Rightarrow> bool \<Rightarrow> string \<Rightarrow> (string \<Rightarrow> bool) \<Rightarrow> (string \<Rightarrow> bool) \<Rightarrow> preflight_warning list" where
  "preflightMountBinary tool backend hasMounts goos lookPath fileExists =
     (if \<not> hasMounts then []
      else (if \<not> lookPath (mb_binary backend) then [BinaryMissing tool (mb_binary backend) (mountInstallHint tool goos)] else []) @
           (if tool = ''fuse-t'' \<and> goos = ''darwin'' \<and> \<not> list_ex fileExists fuseTRuntimeMarkers then [RuntimeMissing tool] else []))"

lemma preflight_quiet:
  "preflightMountBinary tool (resolveBackend tool) has goos look exists = [] \<longleftrightarrow>
     \<not> has \<or> look ''sshfs'' \<and> (tool = ''fuse-t'' \<and> goos = ''darwin'' \<longrightarrow> list_ex exists fuseTRuntimeMarkers)"
  by (auto simp: preflightMountBinary_def resolveBackend_def)

end
