(* ===== verification/HubBoot.thy ===== *)
theory HubBoot
  imports ConsoleLog HubCerts
begin

text \<open>
  Bringing the hub up (NewHub of internal/hub/hub.go, NewSQLiteStore of internal/hub/store/sqlite.go)
  and the version the binaries report (internal/version/version.go). SQL itself is the driver's; what
  is kept is which statements were executed and how many connections are open.
\<close>

subsection \<open>Opening the store\<close>

datatype db_call = OpenDB | ForeignKeysOn | JournalWAL | BusyTimeout | RunSchema

record db_state =
  open_dbs :: nat
  db_calls :: "db_call list"

definition db_open :: "(db_call \<Rightarrow> bool) \<Rightarrow> db_state \<Rightarrow> bool \<times> db_state" where
  "db_open fails d = (if fails OpenDB then (False, d) else (True, d\<lparr>open_dbs := Suc (open_dbs d), db_calls := db_calls d @ [OpenDB]\<rparr>))"

definition db_close :: "db_state \<Rightarrow> db_state" where
  "db_close d = d\<lparr>open_dbs := open_dbs d - 1\<rparr>"

text \<open>The statements one after the other; the connection is closed after the first that fails.\<close>

fun db_setup :: "(db_call \<Rightarrow> bool) \<Rightarrow> db_call list \<Rightarrow> db_state \<Rightarrow> db_call option \<times> db_state" where
  "db_setup fails [] d = (None, d)"
| "db_setup fails (c # cs) d =
     (if fails c then (Some c, db_close d) else db_setup fails cs (d\<lparr>db_calls := db_calls d @ [c]\<rparr>))"

definition NewSQLiteStore :: "(db_call \<Rightarrow> bool) \<Rightarrow> string \<Rightarrow> db_state \<Rightarrow> db_call option \<times> db_state" where
  "NewSQLiteStore fails dbPath d =
     (case db_open fails d of
        (False, d1) \<Rightarrow> (Some OpenDB, d1)
      | (True, d1) \<Rightarrow>
          db_setup fails ([ForeignKeysOn] @ (if dbPath \<noteq> '':memory:'' then [JournalWAL, BusyTimeout] else []) @ [RunSchema]) d1)"

subsection \<open>The hub\<close>

record hub_config =
  cg_log_file :: string
  cg_log_level :: log_level
  cg_verbose :: bool
  cg_data_dir :: string
  cg_extra_sans :: "string list"

record ('c, 'k) boot_env =
  bt_terminal :: bool
  bt_log_mkdir_ok :: bool
  bt_log_open_ok :: bool
  bt_home :: "string option"
  bt_mkdir_ok :: bool
  bt_db_fails :: "db_call \<Rightarrow> bool"
  bt_certs :: "('c, 'k) cert_env"

datatype boot_err = SetupLoggerErr logger_err | CreateDataDir string | OpenStoreErr db_call | LoadCertsErr cert_err

record ('c, 'k) new_hub =
  nh_log :: "log_handler list"
  nh_db_path :: string
  nh_ca :: "'c \<times> 'k"
  nh_tls :: tls_config

definition NewHub :: "('c, 'k) boot_env \<Rightarrow> hub_config \<Rightarrow> tls_dir \<Rightarrow> db_state \<Rightarrow> (boot_err + ('c, 'k) new_hub) \<times> tls_dir \<times> db_state" where
  "NewHub env cfg tls d =
     (case SetupLogger (bt_terminal env) (bt_log_mkdir_ok env) (bt_log_open_ok env)
             \<lparr>lo_console_level = LevelInfo, lo_file = cg_log_file cfg, lo_file_level = cg_log_level cfg, lo_verbose = cg_verbose cfg\<rparr> of
        Inl e \<Rightarrow> (Inl (SetupLoggerErr e), tls, d)
      | Inr logger \<Rightarrow>
          (let dataDir = ExpandHome (bt_home env) (cg_data_dir cfg) in
           if \<not> bt_mkdir_ok env then (Inl (CreateDataDir dataDir), tls, d)
           else (let dbPath = Join2 dataDir ''hubfuse.db'' in
                 case NewSQLiteStore (bt_db_fails env) dbPath d of
                   (Some c, d1) \<Rightarrow> (Inl (OpenStoreErr c), tls, d1)
                 | (None, d1) \<Rightarrow>
                     (case loadOrGenerateCerts (bt_certs env) (cg_extra_sans cfg) tls of
                        (Inl e, tls1) \<Rightarrow> (Inl (LoadCertsErr e), tls1, db_close d1)
                      | (Inr (ca, tc), tls1) \<Rightarrow>
                          (Inr \<lparr>nh_log = logger, nh_db_path = dbPath, nh_ca = ca, nh_tls = tc\<rparr>, tls1, d1)))))"

lemma db_setup_result:
  "db_setup fails cs d = (r, d') \<Longrightarrow> 0 < open_dbs d \<Longrightarrow>
     (r = None \<and> open_dbs d' = open_dbs d \<and> db_calls d' = db_calls d @ cs) \<or> (r \<noteq> None \<and> Suc (open_dbs d') = open_dbs d)"
proof (induction cs arbitrary: d)
  case (Cons c cs)
  show ?case
  proof (cases "fails c")
    case False
    then show ?thesis using Cons.IH [of "d\<lparr>db_calls := db_calls d @ [c]\<rparr>"] Cons.prems by simp
  qed (use Cons.prems in \<open>auto simp: db_close_def\<close>)
qed simp

lemma NewSQLiteStore_result:
  assumes "NewSQLiteStore fails dbPath d = (r, d')"
  shows "(r = None \<and> open_dbs d' = Suc (open_dbs d) \<and>
       db_calls d' = db_calls d @ [OpenDB, ForeignKeysOn] @ (if dbPath \<noteq> '':memory:'' then [JournalWAL, BusyTimeout] else []) @ [RunSchema]) \<or>
    (r \<noteq> None \<and> open_dbs d' = open_dbs d)"
proof (cases "fails OpenDB")
  case True
  then show ?thesis using assms by (auto simp: NewSQLiteStore_def db_open_def)
next
  case False
  then have "db_setup fails ([ForeignKeysOn] @ (if dbPath \<noteq> '':memory:'' then [JournalWAL, BusyTimeout] else []) @ [RunSchema])
      (d\<lparr>open_dbs := Suc (open_dbs d), db_calls := db_calls d @ [OpenDB]\<rparr>) = (r, d')"
    using assms by (simp add: NewSQLiteStore_def db_open_def)
  from db_setup_result [OF this] show ?thesis by auto
qed

text \<open>
  A hub that does not come up leaves no connection to the database open, wherever it failed, and
  one that does has exactly one, on which foreign keys were switched on before the schema was run.
\<close>

theorem failed_boot_closes_the_store:
  assumes "NewHub env cfg tls d = (r, tls', d')"
  shows "case r of
      Inl e \<Rightarrow> open_dbs d' = open_dbs d
    | Inr h \<Rightarrow> open_dbs d' = Suc (open_dbs d) \<and> (\<exists>between. db_calls d' = db_calls d @ [OpenDB, ForeignKeysOn] @ between @ [RunSchema])"
proof -
  obtain r1 d1 where s: "NewSQLiteStore (bt_db_fails env) (Join2 (ExpandHome (bt_home env) (cg_data_dir cfg)) ''hubfuse.db'') d = (r1, d1)"
    by (cases "NewSQLiteStore (bt_db_fails env) (Join2 (ExpandHome (bt_home env) (cg_data_dir cfg)) ''hubfuse.db'') d")
  show ?thesis
    using assms NewSQLiteStore_result [OF s] s
    by (auto simp: NewHub_def Let_def db_close_def split: sum.splits if_splits prod.splits option.splits)
qed

definition sample_boot :: "(string, string) boot_env" where
  "sample_boot = \<lparr>bt_terminal = False, bt_log_mkdir_ok = True, bt_log_open_ok = True, bt_home = Some ''/home/u'', bt_mkdir_ok = True,
     bt_db_fails = (\<lambda>_. False), bt_certs = sample_certs ''one''\<rparr>"

lemma failed_boot_closes_the_store_witness:
  "open_dbs (snd (snd (NewHub sample_boot \<lparr>cg_log_file = [], cg_log_level = 0, cg_verbose = False, cg_data_dir = ''~/hub'', cg_extra_sans = []\<rparr>
     [CACert \<mapsto> Plain ''ca'', CAKey \<mapsto> Plain ''key'', ServerCert \<mapsto> Plain ''one'', ServerKey \<mapsto> Plain ''two''] \<lparr>open_dbs = 0, db_calls = []\<rparr>))) = 0"
proof -
  let ?cfg = "\<lparr>cg_log_file = [], cg_log_level = 0, cg_verbose = False, cg_data_dir = ''~/hub'', cg_extra_sans = []\<rparr>"
  let ?tls = "[CACert \<mapsto> Plain ''ca'', CAKey \<mapsto> Plain ''key'', ServerCert \<mapsto> Plain ''one'', ServerKey \<mapsto> Plain ''two'']"
  let ?d = "\<lparr>open_dbs = 0, db_calls = []\<rparr> :: db_state"
  obtain r tls' d' where n: "NewHub sample_boot ?cfg ?tls ?d = (r, tls', d')" by (cases "NewHub sample_boot ?cfg ?tls ?d")
  have "loadOrGenerateCerts (sample_certs ''one'') [] ?tls = (Inl LoadServerPair, ?tls)"
    by (simp add: sample_cert_defs loadCACertAndKey_def LoadPEM_def)
  then have "\<exists>e. r = Inl e"
    using n by (auto simp: NewHub_def sample_boot_def SetupLogger_def Let_def split: option.splits prod.splits)
  then show ?thesis using failed_boot_closes_the_store [OF n] n by auto
qed

subsection \<open>The version\<close>

record build_flags =
  bf_version :: string
  bf_commit :: string
  bf_date :: string

record build_data =
  bd_main_version :: string
  bd_revision :: string
  bd_modified :: bool

record version_info =
  vi_version :: string
  vi_commit :: string
  vi_date :: string
  vi_go :: string
  vi_os_arch :: string

text \<open>The settings of the build, in order; a later one of the same key wins.\<close>

definition buildDataFromBuildInfo :: "string \<Rightarrow> (string \<times> string) list \<Rightarrow> build_data" where
  "buildDataFromBuildInfo main settings =
     foldl (\<lambda>bd (k, v). if k = ''vcs.revision'' then bd\<lparr>bd_revision := v\<rparr>
                         else if k = ''vcs.modified'' then bd\<lparr>bd_modified := (v = ''true'')\<rparr> else bd)
       \<lparr>bd_main_version = main, bd_revision = [], bd_modified = False\<rparr> settings"

definition shortSHA :: "string \<Rightarrow> string" where
  "shortSHA sha = (if length sha > 7 then take 7 sha else sha)"

fun firstNonEmpty :: "string list \<Rightarrow> string" where
  "firstNonEmpty [] = []"
| "firstNonEmpty (v # vs) = (if v \<noteq> [] then v else firstNonEmpty vs)"

definition resolve :: "string \<Rightarrow> string \<Rightarrow> string \<Rightarrow> build_flags \<Rightarrow> build_data \<Rightarrow> version_info" where
  "resolve go os arch ld bd =
     (let info = (\<lambda>v c dt. \<lparr>vi_version = v, vi_commit = c, vi_date = dt, vi_go = go, vi_os_arch = os @ ''/'' @ arch\<rparr>) in
      if bf_version ld \<noteq> [] then info (bf_version ld) (firstNonEmpty [bf_commit ld, ''none'']) (firstNonEmpty [bf_date ld, ''unknown''])
      else if bd_revision bd \<noteq> [] then
        info (''dev-'' @ shortSHA (bd_revision bd) @ (if bd_modified bd then ''-dirty'' else [])) (bd_revision bd) ''unknown''
      else if bd_main_version bd \<noteq> [] \<and> bd_main_version bd \<noteq> ''(devel)'' then info (bd_main_version bd) ''none'' ''unknown''
      else info ''dev'' ''none'' ''unknown'')"

definition version_Get :: "string \<Rightarrow> string \<Rightarrow> string \<Rightarrow> build_flags \<Rightarrow> (string \<times> (string \<times> string) list) option \<Rightarrow> version_info" where
  "version_Get go os arch ld bi =
     resolve go os arch ld (case bi of Some (main, settings) \<Rightarrow> buildDataFromBuildInfo main settings
       | None \<Rightarrow> \<lparr>bd_main_version = [], bd_revision = [], bd_modified = False\<rparr>)"

definition version_Full :: "version_info \<Rightarrow> string" where
  "version_Full info =
     ''Version:    '' @ vi_version info @ nl @ ''Commit:     '' @ vi_commit info @ nl @ ''Date:       '' @ vi_date info @ nl @
     ''Go version: '' @ vi_go info @ nl @ ''OS/Arch:    '' @ vi_os_arch info"

lemma version_never_empty:
  "vi_version (resolve go os arch ld bd) \<noteq> [] \<and> vi_commit (resolve go os arch ld bd) \<noteq> [] \<and> vi_date (resolve go os arch ld bd) \<noteq> []"
  by (simp add: resolve_def Let_def)

end
