(* ===== verification/PeerSessions.thy ===== *)
theory PeerSessions
  imports ReloadProps SftpProps
begin

text \<open>
  The SFTP sessions of the peers beside the daemon that changes the access lists: the connections
  of internal/agent/sshserver.go (\<open>handleConn\<close>, \<open>serveSFTP\<close>) and the handlers they get
  (sftphandler.go), in any order with what the daemon reacts to. A request is one step; what a
  reload in the middle of one can do is in \<open>peers_stay_inside\<close>.
\<close>

subsection \<open>Connections\<close>

text \<open>
  The keys a client offers, in order, with whether it can sign with them; \<open>NewServerConn\<close> takes the
  first that the callback accepts and the client signs with. The library's limit on the number of
  attempts is left out, it only refuses more.
\<close>

definition handleConn :: "ssh_server \<Rightarrow> (string \<times> bool) list \<Rightarrow> string option" where
  "handleConn s offered =
     (case find (\<lambda>(k, signs). publicKeyCallback s k \<noteq> None \<and> signs) offered of
        None \<Rightarrow> None
      | Some (k, signs) \<Rightarrow> publicKeyCallback s k)"

definition aclSnapshot :: "ssh_server \<Rightarrow> share_acl list" where
  "aclSnapshot s = ss_acls s"

definition newACLHandlers :: "string \<Rightarrow> resolver \<Rightarrow> (nat \<Rightarrow> share_acl list) \<Rightarrow> acl_handlers" where
  "newACLHandlers deviceID r snap = \<lparr>ah_device = deviceID, ah_resolver = r, ah_snapshot = snap\<rparr>"

text \<open>
  The handlers of a session: the daemon is the resolver and the snapshot is read with each request,
  so that both are those of the daemon's state at that moment.
\<close>

definition serveSFTP :: "daemon \<Rightarrow> string \<Rightarrow> acl_handlers" where
  "serveSFTP d deviceID = newACLHandlers deviceID (Some (NicknameForDeviceID d)) (\<lambda>k. aclSnapshot (dm_ssh d))"

record peer_session =
  ps_device :: string
  ps_handles :: "handle list"

record agent_world =
  aw_watcher :: "config option"
  aw_daemon :: daemon
  aw_conns :: "string list"
  aw_sessions :: "peer_session list"
  aw_fs :: fsys

datatype world_step =
    Reacts daemon_env agent_input
  | Dials "(string \<times> bool) list"
  | Channel nat string bool "channel_request list"
  | Asks nat peer_event

fun world_after :: "world_step \<Rightarrow> agent_world \<Rightarrow> agent_world" where
  "world_after (Reacts env inp) w =
     (case react env inp (aw_watcher w, aw_daemon w) of (f, d) \<Rightarrow> w\<lparr>aw_watcher := f, aw_daemon := d\<rparr>)"
| "world_after (Dials offered) w =
     (case handleConn (dm_ssh (aw_daemon w)) offered of
        None \<Rightarrow> w | Some did \<Rightarrow> w\<lparr>aw_conns := aw_conns w @ [did]\<rparr>)"
| "world_after (Channel n chan accepted rs) w =
     (if n < length (aw_conns w)
      then (case handleChannel chan accepted rs of
              Some (Some (replies, True)) \<Rightarrow>
                w\<lparr>aw_sessions := aw_sessions w @ [\<lparr>ps_device = aw_conns w ! n, ps_handles = []\<rparr>]\<rparr>
            | _ \<Rightarrow> w)
      else w)"
| "world_after (Asks n ev) w =
     (if n < length (aw_sessions w)
      then (let s = aw_sessions w ! n in
            case serve (serveSFTP (aw_daemon w) (ps_device s), ev) (aw_fs w, ps_handles s) of
              (fs, hs) \<Rightarrow> w\<lparr>aw_fs := fs, aw_sessions := (aw_sessions w)[n := s\<lparr>ps_handles := hs\<rparr>]\<rparr>)
      else w)"

definition world_run :: "world_step list \<Rightarrow> agent_world \<Rightarrow> agent_world" where
  "world_run steps w = fold world_after steps w"

lemma world_run_snoc: "world_run (steps @ [x]) w = world_after x (world_run steps w)"
  by (simp add: world_run_def)

subsection \<open>What the configuration lets a device do\<close>

definition may_write :: "daemon \<Rightarrow> string \<Rightarrow> bool" where
  "may_write d did \<longleftrightarrow> (\<exists>al. admits (dm_config d) al did (Some (NicknameForDeviceID d)) = Some \<lparr>dec_allow = True, dec_read_only = False\<rparr>)"

definition may_read :: "daemon \<Rightarrow> string \<Rightarrow> bool" where
  "may_read d did \<longleftrightarrow> (\<exists>al dec. admits (dm_config d) al did (Some (NicknameForDeviceID d)) = Some dec \<and> dec_allow dec)"

lemma served_share:
  assumes "acl_agrees (ss_acls (dm_ssh d)) (dm_config d)" and "findShare (serveSFTP d did) k al = Some (a, dec)"
  shows "admits (dm_config d) al did (Some (NicknameForDeviceID d)) = Some dec"
  using assms
  by (auto simp: findShare_def serveSFTP_def newACLHandlers_def aclSnapshot_def decision_def acl_agrees_def admits_def split: option.splits)

lemma read_needs_admission:
  assumes "acl_agrees (ss_acls (dm_ssh d)) (dm_config d)" and "Fileread (serveSFTP d did) r fs = Inr e"
  shows "may_read d did"
  using assms(2) served_share [OF assms(1)]
  by (force simp: Fileread_def resolveReadReal_def may_read_def split: option.splits sum.splits if_splits prod.splits)

lemma no_write_no_change:
  assumes "acl_agrees (ss_acls (dm_ssh d)) (dm_config d)" and "\<not> may_write d did"
    and "serve (serveSFTP d did, ev) (fs, hs) = (fs', hs')" and "\<nexists>i p off. ev = PWriteAt i p off"
  shows "fs' = fs \<and> hs' = hs"
proof -
  let ?h = "serveSFTP d did"
  have refused: "resolveWriteReal ?h k v fs = Inl PermissionDenied" for k v
  proof -
    have "\<not> dec_allow dec \<or> dec_read_only dec" if f: "findShare ?h k al = Some (a, dec)" for al a dec
      using served_share [OF assms(1) f] assms(2) by (cases dec; cases "dec_read_only dec") (auto simp: may_write_def)
    then show ?thesis by (fastforce simp: resolveWriteReal_def split: option.split)
  qed
  show ?thesis using assms(3,4) refused by (cases ev) (auto simp: Filewrite_def OpenFile_def Filecmd_def add_handle_def)
qed

text \<open>The device's key was accepted for it by a connection made in the course of \<open>steps\<close>.\<close>

definition admitted_by_key :: "agent_world \<Rightarrow> world_step list \<Rightarrow> string \<Rightarrow> bool" where
  "admitted_by_key w steps did \<longleftrightarrow> (\<exists>before offered rest k. steps = before @ Dials offered # rest \<and> (k, True) \<in> set offered \<and>
     publicKeyCallback (dm_ssh (aw_daemon (world_run before w))) k = Some did)"

definition could_write :: "agent_world \<Rightarrow> world_step list \<Rightarrow> string \<Rightarrow> bool" where
  "could_write w steps did \<longleftrightarrow> (\<exists>before rest. steps = before @ rest \<and> may_write (aw_daemon (world_run before w)) did)"

definition world_ok :: "agent_world \<Rightarrow> world_step list \<Rightarrow> bool" where
  "world_ok w steps \<longleftrightarrow> (let v = world_run steps w in
     in_step (aw_watcher v, aw_daemon v) \<and> list_all (admitted_by_key w steps) (aw_conns v) \<and>
     list_all (\<lambda>s. admitted_by_key w steps (ps_device s) \<and> (ps_handles s = [] \<or> could_write w steps (ps_device s))) (aw_sessions v))"

lemma admitted_by_key_snoc: "admitted_by_key w steps did \<Longrightarrow> admitted_by_key w (steps @ [x]) did"
  unfolding admitted_by_key_def by (metis append.assoc append_Cons)

lemma could_write_snoc: "could_write w steps did \<Longrightarrow> could_write w (steps @ [x]) did"
  unfolding could_write_def by (metis append.assoc)

lemma handleConn_key:
  "handleConn s offered = Some did \<Longrightarrow> \<exists>k. (k, True) \<in> set offered \<and> publicKeyCallback s k = Some did"
proof -
  assume h: "handleConn s offered = Some did"
  then obtain k signs where f: "find (\<lambda>(k, signs). publicKeyCallback s k \<noteq> None \<and> signs) offered = Some (k, signs)"
    and k: "publicKeyCallback s k = Some did"
    by (auto simp: handleConn_def split: option.splits)
  show ?thesis using find_Some_in [OF f] k by auto
qed

lemma world_ok_snoc:
  assumes "world_ok w steps" and "\<forall>env inp. x = Reacts env inp \<longrightarrow> reasonable (env, inp)"
  shows "world_ok w (steps @ [x])"
proof -
  let ?v = "world_run steps w"
  have ok: "in_step (aw_watcher ?v, aw_daemon ?v)" "list_all (admitted_by_key w (steps @ [x])) (aw_conns ?v)"
    "list_all (\<lambda>s. admitted_by_key w (steps @ [x]) (ps_device s) \<and> (ps_handles s = [] \<or> could_write w (steps @ [x]) (ps_device s))) (aw_sessions ?v)"
    using assms(1) admitted_by_key_snoc could_write_snoc by (auto simp: world_ok_def Let_def list_all_iff)
  show ?thesis
  proof (cases x)
    case (Reacts env inp)
    then show ?thesis using ok in_step_react [OF ok(1), of env inp] assms(2)
      by (auto simp: world_ok_def world_run_snoc Let_def split: prod.split)
  next
    case (Dials offered)
    have "admitted_by_key w (steps @ [x]) did" if "handleConn (dm_ssh (aw_daemon ?v)) offered = Some did" for did
      using handleConn_key [OF that] Dials by (auto simp: admitted_by_key_def intro!: exI [of _ steps])
    then show ?thesis using ok Dials by (auto simp: world_ok_def world_run_snoc Let_def split: option.split)
  next
    case (Channel n chan acc rs)
    then show ?thesis using ok
      by (auto simp: world_ok_def world_run_snoc Let_def list_all_iff split: option.splits prod.splits bool.splits)
  next
    case (Asks n ev)
    show ?thesis
    proof (cases "n < length (aw_sessions ?v)")
      case True
      let ?s = "aw_sessions ?v ! n"
      obtain fs hs where s: "serve (serveSFTP (aw_daemon ?v) (ps_device ?s), ev) (aw_fs ?v, ps_handles ?s) = (fs, hs)"
        by (cases "serve (serveSFTP (aw_daemon ?v) (ps_device ?s), ev) (aw_fs ?v, ps_handles ?s)")
      have now: "could_write w (steps @ [x]) (ps_device ?s)" if "may_write (aw_daemon ?v) (ps_device ?s)"
        using that by (auto simp: could_write_def)
      have "hs = [] \<or> could_write w (steps @ [x]) (ps_device ?s)"
      proof (cases "may_write (aw_daemon ?v) (ps_device ?s) \<or> (\<exists>i p off. ev = PWriteAt i p off)")
        case False
        then have "hs = ps_handles ?s" using no_write_no_change [OF _ _ s] ok(1) by (auto simp: in_step_def)
        then show ?thesis using ok(3) True by (auto simp: list_all_iff)
      next
        case True
        then show ?thesis using now s ok(3) \<open>n < _\<close> by (auto simp: list_all_iff split: if_splits)
      qed
      then show ?thesis using ok Asks True s
        by (auto simp: world_ok_def world_run_snoc Let_def list_all_iff dest!: set_update_subset_insert [THEN subsetD])
    qed (use ok Asks in \<open>simp add: world_ok_def world_run_snoc Let_def\<close>)
  qed
qed

definition sane_step :: "world_step \<Rightarrow> bool" where
  "sane_step x = (case x of Reacts env inp \<Rightarrow> reasonable (env, inp) | _ \<Rightarrow> True)"

lemma world_ok_run:
  assumes "in_step (aw_watcher w, aw_daemon w)" and "aw_conns w = []" and "aw_sessions w = []" and "list_all sane_step steps"
  shows "world_ok w steps"
  using assms(4)
proof (induction steps rule: rev_induct)
  case Nil
  then show ?case using assms(1-3) by (simp add: world_ok_def world_run_def)
next
  case (snoc x steps)
  then have "\<forall>env inp. x = Reacts env inp \<longrightarrow> reasonable (env, inp)" by (auto simp: sane_step_def)
  then show ?case using world_ok_snoc [of w steps x] snoc by simp
qed


subsection \<open>A revoked peer with an open file\<close>

definition sample_world :: agent_world where
  "sample_world = \<lparr>aw_watcher = Some sample_config,
     aw_daemon = sample_daemon\<lparr>dm_ssh := UpdateAllowedKeys [(''x'', ''K'')] (dm_ssh sample_daemon)\<rparr>,
     aw_conns = [], aw_sessions = [], aw_fs = \<lparr>tree = [([''a''], EDir)], inodes = [], cwd = []\<rparr>\<rparr>"

definition opens_and_loses :: "world_step list" where
  "opens_and_loses =
     [Dials [(''?'', True), (''K'', True)],
      Channel 0 ''session'' True [\<lparr>rq_type = ''subsystem'', rq_want_reply = True, rq_payload = [0, 0, 0, 4, 115, 102, 116, 112]\<rparr>],
      Asks 0 (PWrite (sample_request ''Put'' ''/A/f'')),
      Reacts sample_env (FileChanged (Some revoked_config))]"

lemma world_after_edit:
  "world_after (Reacts env (FileChanged (Some c))) u =
     u\<lparr>aw_watcher := Some c, aw_daemon := onConfigChange env (aw_watcher u) c (aw_daemon u)\<rparr>"
  by (simp add: watcher_reload_def)


end
