(* ===== verification/GoTime.thy ===== *)
theory GoTime
  imports GoText "HOL-Library.Char_ord" "HOL-Library.List_Lexorder"
begin

text \<open>
  What the code uses of the package time to write and read dates: a date and time of day in UTC
  (\<open>civil\<close>) and its \<open>time.Time\<close>, the text \<open>String\<close> and \<open>Format(RFC3339Nano)\<close> give, and \<open>Parse\<close> for
  layouts of the parts that occur in internal/hub/store/sqlite.go. Texts are ordered by their bytes.
\<close>

subsection \<open>Dates\<close>

record civil =
  cv_year :: nat
  cv_month :: nat
  cv_day :: nat
  cv_hour :: nat
  cv_minute :: nat
  cv_second :: nat
  cv_nano :: nat

definition leap :: "nat \<Rightarrow> bool" where
  "leap y \<longleftrightarrow> y mod 4 = 0 \<and> (y mod 100 \<noteq> 0 \<or> y mod 400 = 0)"

definition month_lens :: "nat \<Rightarrow> nat list" where
  "month_lens y = [31, if leap y then 29 else 28, 31, 30, 31, 30, 31, 31, 30, 31, 30, 31]"

definition days_in :: "nat \<Rightarrow> nat \<Rightarrow> nat" where
  "days_in y m = month_lens y ! (m - 1)"

text \<open>The days from the start of the year 0, with the leap years before \<open>y\<close> counted.\<close>

definition year_start :: "nat \<Rightarrow> nat" where
  "year_start y = 365 * y + (y + 3) div 4 + (y + 399) div 400 - (y + 99) div 100"

definition day_number :: "nat \<Rightarrow> nat \<Rightarrow> nat \<Rightarrow> nat" where
  "day_number y m d = year_start y + sum_list (take (m - 1) (month_lens y)) + (d - 1)"

definition nanos :: "civil \<Rightarrow> nat" where
  "nanos c = (((day_number (cv_year c) (cv_month c) (cv_day c) * 24 + cv_hour c) * 60 + cv_minute c) * 60 + cv_second c) * 1000000000 + cv_nano c"

text \<open>The zero time is the start of the year 1.\<close>

definition instant :: "civil \<Rightarrow> time" where
  "instant c = int (nanos c) - 366 * 24 * hour"

definition civil_ok :: "civil \<Rightarrow> bool" where
  "civil_ok c \<longleftrightarrow> cv_year c \<le> 9999 \<and> 1 \<le> cv_month c \<and> cv_month c \<le> 12 \<and> 1 \<le> cv_day c \<and> cv_day c \<le> days_in (cv_year c) (cv_month c) \<and>
     cv_hour c < 24 \<and> cv_minute c < 60 \<and> cv_second c < 60 \<and> cv_nano c < 1000000000"

text \<open>The order of the fields.\<close>

definition earlier :: "civil \<Rightarrow> civil \<Rightarrow> bool" where
  "earlier a b \<longleftrightarrow> [cv_year a, cv_month a, cv_day a, cv_hour a, cv_minute a, cv_second a, cv_nano a] <
     [cv_year b, cv_month b, cv_day b, cv_hour b, cv_minute b, cv_second b, cv_nano b]"

lemma year_len: "sum_list (month_lens y) = (if leap y then 366 else 365)"
  by (simp add: month_lens_def)

lemma next_multiple:
  "0 < n \<Longrightarrow> (Suc y + (n - 1)) div n = (y + (n - 1)) div n + (if n dvd y then 1 else 0)" for n :: nat
  using div_Suc [of "y + (n - 1)" n] by (simp add: dvd_eq_mod_eq_0)

lemma leap_step:
  fixes y :: nat
  assumes "A' = A + (if p then 1 else 0)" "B' = B + (if q then 1 else 0)" "C' = C + (if r then 1 else 0)"
    and "C < Suc y" "q \<Longrightarrow> r" "r \<Longrightarrow> p"
  shows "365 * Suc y + A' + B' - C' = 365 * y + A + B - C + (if p \<and> (\<not> r \<or> q) then 366 else 365)"
proof -
  have "C \<le> 365 * y + A + B" using assms(4) by simp
  then show ?thesis using assms(5,6) unfolding assms(1-3) by (cases p; cases q; cases r) simp_all
qed

lemma year_start_Suc: "year_start (Suc y) = year_start y + sum_list (month_lens y)"
proof -
  have "(y + 99) div 100 < Suc y" by (rule less_mult_imp_div_less) simp
  moreover have "400 dvd y \<Longrightarrow> 100 dvd y" "100 dvd y \<Longrightarrow> 4 dvd y" by (erule dvd_trans [rotated], simp)+
  moreover have "(Suc y + 3) div 4 = (y + 3) div 4 + (if 4 dvd y then 1 else 0)" using next_multiple [of 4 y] by simp
  moreover have "(Suc y + 399) div 400 = (y + 399) div 400 + (if 400 dvd y then 1 else 0)" using next_multiple [of 400 y] by simp
  moreover have "(Suc y + 99) div 100 = (y + 99) div 100 + (if 100 dvd y then 1 else 0)" using next_multiple [of 100 y] by simp
  ultimately show ?thesis unfolding year_start_def year_len leap_def dvd_eq_mod_eq_0 [symmetric] by (intro leap_step)
qed

lemma year_start_mono: "y < y' \<Longrightarrow> year_start y + sum_list (month_lens y) \<le> year_start y'"
proof (induction y')
  case (Suc y')
  then show ?case using year_start_Suc [of y'] by (cases "y = y'") auto
qed simp

lemma month_start_mono:
  "i < j \<Longrightarrow> j \<le> length xs \<Longrightarrow> sum_list (take i xs) + xs ! i \<le> sum_list (take j (xs :: nat list))"
proof (induction j)
  case (Suc j)
  then show ?case by (cases "i = j") (auto simp: take_Suc_conv_app_nth)
qed simp

lemma month_lens_length [simp]: "length (month_lens y) = 12"
  by (simp add: month_lens_def)

lemma day_in_year:
  assumes "1 \<le> m" "m \<le> 12" "d \<le> days_in y m" "1 \<le> d"
  shows "sum_list (take (m - 1) (month_lens y)) + (d - 1) < sum_list (month_lens y)"
proof -
  have "sum_list (take (m - 1) (month_lens y)) + month_lens y ! (m - 1) \<le> sum_list (take 12 (month_lens y))"
    using assms by (intro month_start_mono) auto
  then show ?thesis using assms by (simp add: days_in_def)
qed

lemma day_number_less:
  assumes "1 \<le> m" "m \<le> 12" "1 \<le> d" "d \<le> days_in y m" "1 \<le> m'" "m' \<le> 12" "1 \<le> d'" "d' \<le> days_in y' m'"
    and "[y, m, d] < [y', m', d']"
  shows "day_number y m d < day_number y' m' d'"
proof (cases "y < y'")
  case True
  then show ?thesis using day_in_year [of m d y] year_start_mono [OF True] assms by (simp add: day_number_def)
next
  case False
  then have y: "y' = y" "m < m' \<or> m = m' \<and> d < d'" using assms(9) by auto
  show ?thesis
  proof (cases "m < m'")
    case True
    have "sum_list (take (m - 1) (month_lens y)) + month_lens y ! (m - 1) \<le> sum_list (take (m' - 1) (month_lens y))"
      using assms True by (intro month_start_mono) auto
    then show ?thesis using assms y(1) by (simp add: day_number_def days_in_def)
  next
    case False
    then have "m' = m" "d < d'" using y(2) by auto
    then show ?thesis using y(1) assms(3) by (simp add: day_number_def)
  qed
qed

lemma radix_less:
  fixes a b :: nat
  assumes "b < B" "b' < B"
  shows "a * B + b < a' * B + b' \<longleftrightarrow> a < a' \<or> a = a' \<and> b < b'"
proof -
  have "a * B + b < a' * B + b'" if "a < a'"
  proof -
    have "Suc a * B \<le> a' * B" using that by (intro mult_right_mono) auto
    then show ?thesis using assms by simp
  qed
  moreover have "a' * B + b' < a * B + b" if "a' < a"
  proof -
    have "Suc a' * B \<le> a * B" using that by (intro mult_right_mono) auto
    then show ?thesis using assms by simp
  qed
  ultimately show ?thesis by (metis add_less_cancel_left less_not_sym linorder_neqE_nat)
qed

lemma radix_eq:
  fixes a b :: nat
  assumes "b < B" "b' < B"
  shows "a * B + b = a' * B + b' \<longleftrightarrow> a = a' \<and> b = b'"
  using radix_less [OF assms, of a a'] radix_less [OF assms(2,1), of a' a] by (metis less_irrefl linorder_neqE_nat)

lemma instant_less:
  assumes "civil_ok a" and "civil_ok b"
  shows "instant a < instant b \<longleftrightarrow> earlier a b"
proof -
  let ?da = "[cv_year a, cv_month a, cv_day a]" and ?db = "[cv_year b, cv_month b, cv_day b]"
  let ?A = "day_number (cv_year a) (cv_month a) (cv_day a)" and ?B = "day_number (cv_year b) (cv_month b) (cv_day b)"
  have "?A < ?B" if "?da < ?db" using day_number_less [OF _ _ _ _ _ _ _ _ that] assms by (simp add: civil_ok_def)
  moreover have "?B < ?A" if "?db < ?da" using day_number_less [OF _ _ _ _ _ _ _ _ that] assms by (simp add: civil_ok_def)
  moreover have "?A = ?B" if "?da = ?db" using that by simp
  ultimately have days: "?A < ?B \<longleftrightarrow> ?da < ?db" "?A = ?B \<longleftrightarrow> ?da = ?db" by (metis less_irrefl not_less_iff_gr_or_eq)+
  have f: "cv_hour a < 24" "cv_hour b < 24" "cv_minute a < 60" "cv_minute b < 60" "cv_second a < 60" "cv_second b < 60"
    "cv_nano a < 1000000000" "cv_nano b < 1000000000"
    using assms by (simp_all add: civil_ok_def)
  have "instant a < instant b \<longleftrightarrow> nanos a < nanos b" by (simp add: instant_def)
  also have "\<dots> \<longleftrightarrow> ?A < ?B \<or> ?A = ?B \<and> [cv_hour a, cv_minute a, cv_second a, cv_nano a] < [cv_hour b, cv_minute b, cv_second b, cv_nano b]"
    unfolding nanos_def radix_less [OF f(7,8)] radix_less [OF f(5,6)] radix_less [OF f(3,4)] radix_less [OF f(1,2)]
      radix_eq [OF f(5,6)] radix_eq [OF f(3,4)] radix_eq [OF f(1,2)] by auto
  finally show ?thesis unfolding days earlier_def by auto
qed

subsection \<open>Writing\<close>

primrec fixed :: "nat \<Rightarrow> nat \<Rightarrow> string" where
  "fixed 0 n = []"
| "fixed (Suc k) n = fixed k (n div 10) @ [char_of (48 + n mod 10)]"

text \<open>\<open>.999999999\<close>: the fraction without its last zeros, and nothing when it is zero.\<close>

primrec strip0 :: "string \<Rightarrow> string" where
  "strip0 [] = []"
| "strip0 (c # cs) = (if strip0 cs = [] \<and> c = CHR ''0'' then [] else c # strip0 cs)"

definition frac9 :: "nat \<Rightarrow> string" where
  "frac9 n = (if n = 0 then [] else CHR ''.'' # strip0 (fixed 9 n))"

definition date_text :: "civil \<Rightarrow> string" where
  "date_text c = fixed 4 (cv_year c) @ ''-'' @ fixed 2 (cv_month c) @ ''-'' @ fixed 2 (cv_day c)"

definition clock_text :: "civil \<Rightarrow> string" where
  "clock_text c = fixed 2 (cv_hour c) @ '':'' @ fixed 2 (cv_minute c) @ '':'' @ fixed 2 (cv_second c)"

text \<open>\<open>Time.String\<close> in UTC, and \<open>Time.Format(time.RFC3339Nano)\<close>.\<close>

definition Time_String :: "civil \<Rightarrow> string" where
  "Time_String c = date_text c @ '' '' @ clock_text c @ frac9 (cv_nano c) @ '' +0000 UTC''"

definition RFC3339Nano_text :: "civil \<Rightarrow> string" where
  "RFC3339Nano_text c = date_text c @ ''T'' @ clock_text c @ frac9 (cv_nano c) @ ''Z''"

lemma fixed_length [simp]: "length (fixed k n) = k"
  by (induction k arbitrary: n) auto

lemma fixed_digits: "list_all is_digit (fixed k n)"
  by (induction k arbitrary: n) (simp_all add: is_digit_show)

lemma less_append:
  fixes x y a b :: string
  assumes "length x = length y"
  shows "x @ a < y @ b \<longleftrightarrow> x < y \<or> x = y \<and> a < b"
  using assms by (induction x y rule: list_induct2) auto

lemma digit_char_less: "d < 10 \<Longrightarrow> e < 10 \<Longrightarrow> (char_of (48 + d :: nat) :: char) < char_of (48 + e :: nat) \<longleftrightarrow> d < e"
  by (simp add: less_char_def)

lemma digit_char_eq: "d < 10 \<Longrightarrow> e < 10 \<Longrightarrow> (char_of (48 + d :: nat) :: char) = char_of (48 + e :: nat) \<longleftrightarrow> d = e"
  by (metis add_left_cancel is_digit_show)

lemma digits_order:
  fixes n m :: nat
  shows "n < m \<longleftrightarrow> n div 10 < m div 10 \<or> n div 10 = m div 10 \<and> n mod 10 < m mod 10"
  using radix_less [of "n mod 10" 10 "m mod 10" "n div 10" "m div 10"] by simp

lemma fixed_order:
  "n < 10 ^ k \<Longrightarrow> m < 10 ^ k \<Longrightarrow> (fixed k n < fixed k m \<longleftrightarrow> n < m) \<and> (fixed k n = fixed k m \<longleftrightarrow> n = m)"
proof (induction k arbitrary: n m)
  case (Suc k)
  have d: "n div 10 < 10 ^ k" "m div 10 < 10 ^ k" using Suc.prems by (simp_all add: less_mult_imp_div_less mult.commute)
  have eq: "n = m \<longleftrightarrow> n div 10 = m div 10 \<and> n mod 10 = m mod 10" by (metis div_mult_mod_eq)
  show ?case using Suc.IH [OF d] digits_order [of n m] eq
    by (simp add: less_append digit_char_less digit_char_eq)
qed simp

lemma strip0_Nil: "strip0 x = [] \<Longrightarrow> x = replicate (length x) CHR ''0''"
  by (induction x) (auto split: if_splits)

lemma strip0_head: "strip0 x \<noteq> [] \<Longrightarrow> strip0 x = hd x # tl (strip0 x)"
  by (cases x) (auto split: if_splits)

lemma strip0_digits: "list_all is_digit x \<Longrightarrow> list_all is_digit (strip0 x)"
  by (induction x) auto

lemma blank_before_digit: "is_digit c \<Longrightarrow> CHR '' '' < c"
  by (auto simp: is_digit_def Let_def less_char_def)

lemma blank_strip0:
  assumes "list_all is_digit x"
  shows "CHR '' '' # r < strip0 x @ CHR '' '' # r \<longleftrightarrow> strip0 x \<noteq> []"
    and "strip0 x @ CHR '' '' # r < CHR '' '' # r \<longleftrightarrow> False"
proof -
  have "CHR '' '' < hd x" if "strip0 x \<noteq> []"
    using that assms blank_before_digit by (cases x) auto
  then have "CHR '' '' # r < strip0 x @ CHR '' '' # r" if "strip0 x \<noteq> []"
    using strip0_head [OF that] that by (metis Cons_less_Cons append_Cons)
  then show "CHR '' '' # r < strip0 x @ CHR '' '' # r \<longleftrightarrow> strip0 x \<noteq> []"
    "strip0 x @ CHR '' '' # r < CHR '' '' # r \<longleftrightarrow> False"
    by (cases "strip0 x = []"; auto)+
qed

lemma zero_char: "c = CHR ''0'' \<longleftrightarrow> of_char c = (48 :: nat)"
proof
  assume "of_char c = (48 :: nat)"
  then have "(of_char c :: nat) = of_char (CHR ''0'')" by simp
  then show "c = CHR ''0''" by (simp only: of_char_eq_iff)
qed simp

lemma strip0_order:
  assumes "length x = length y"
  shows "list_all is_digit x \<Longrightarrow> list_all is_digit y \<Longrightarrow>
     strip0 x @ CHR '' '' # r < strip0 y @ CHR '' '' # r \<longleftrightarrow> x < y"
  using assms
proof (induction x y rule: list_induct2)
  case (Cons a x b y)
  have IH: "strip0 x @ CHR '' '' # r < strip0 y @ CHR '' '' # r \<longleftrightarrow> x < y" using Cons by simp
  have ds: "list_all is_digit x" "list_all is_digit y" "is_digit a" "is_digit b" using Cons.prems by auto
  have zero: "\<not> c < CHR ''0''" "c \<noteq> CHR ''0'' \<longleftrightarrow> CHR ''0'' < c" "CHR '' '' < c" if "is_digit c" for c
    using that zero_char [of c] by (auto simp: is_digit_def Let_def less_char_def)
  show ?case
    using IH zero [OF ds(3)] zero [OF ds(4)] blank_strip0 [OF ds(1), of r] blank_strip0 [OF ds(2), of r]
    by (auto split: if_splits)
qed simp

lemma frac9_order:
  assumes "n < 1000000000" "m < 1000000000"
  shows "frac9 n @ CHR '' '' # r < frac9 m @ CHR '' '' # r \<longleftrightarrow> n < m"
proof -
  have lt: "CHR '' '' < CHR ''.''" by (simp add: less_char_def)
  have "fixed 9 n < fixed 9 m \<longleftrightarrow> n < m" using fixed_order [of n 9 m] assms by simp
  moreover have "strip0 (fixed 9 n) @ CHR '' '' # r < strip0 (fixed 9 m) @ CHR '' '' # r \<longleftrightarrow> fixed 9 n < fixed 9 m"
    by (rule strip0_order) (simp_all add: fixed_digits)
  ultimately show ?thesis using lt less_not_sym [OF lt] by (auto simp: frac9_def simp del: fixed.simps)
qed

lemma days_in_bound: "1 \<le> m \<Longrightarrow> m \<le> 12 \<Longrightarrow> days_in y m \<le> 31"
  by (auto simp: days_in_def month_lens_def nth_Cons' split: if_splits)

text \<open>The order of the texts \<open>Time.String\<close> gives is the order of the instants.\<close>

lemma Time_String_less:
  assumes "civil_ok a" and "civil_ok b"
  shows "Time_String a < Time_String b \<longleftrightarrow> instant a < instant b"
proof -
  have two: "n < 100 \<Longrightarrow> m < 100 \<Longrightarrow> (fixed 2 n < fixed 2 m \<longleftrightarrow> n < m) \<and> (fixed 2 n = fixed 2 m \<longleftrightarrow> n = m)" for n m
    using fixed_order [of n 2 m] by simp
  have year: "n \<le> 9999 \<Longrightarrow> m \<le> 9999 \<Longrightarrow> (fixed 4 n < fixed 4 m \<longleftrightarrow> n < m) \<and> (fixed 4 n = fixed 4 m \<longleftrightarrow> n = m)" for n m
    using fixed_order [of n 4 m] by simp
  have f: "cv_year c \<le> 9999" "cv_month c < 100" "cv_day c < 100" "cv_hour c < 100" "cv_minute c < 100" "cv_second c < 100" "cv_nano c < 1000000000"
    if "civil_ok c" for c
    using that days_in_bound [of "cv_month c" "cv_year c"] by (auto simp: civil_ok_def)
  show ?thesis
    unfolding instant_less [OF assms] earlier_def
    using f [OF assms(1)] f [OF assms(2)]
    by (simp add: Time_String_def date_text_def clock_text_def less_append two year frac9_order del: fixed.simps)
qed

subsection \<open>Reading\<close>

datatype layout_part = Lit char | PYear | PMonth | PDay | PHour | PMinute | PSecond | PFrac9 | PZoneZ

text \<open>The parts of a layout; \<open>.999999999\<close> is a fraction unless another digit follows.\<close>

function std_chunks :: "string \<Rightarrow> layout_part list" where
  "std_chunks l =
     (if l = [] then []
      else if take 4 l = ''2006'' then PYear # std_chunks (drop 4 l)
      else if take 2 l = ''01'' then PMonth # std_chunks (drop 2 l)
      else if take 2 l = ''02'' then PDay # std_chunks (drop 2 l)
      else if take 2 l = ''15'' then PHour # std_chunks (drop 2 l)
      else if take 2 l = ''04'' then PMinute # std_chunks (drop 2 l)
      else if take 2 l = ''05'' then PSecond # std_chunks (drop 2 l)
      else if take 6 l = ''Z07:00'' then PZoneZ # std_chunks (drop 6 l)
      else if take 10 l = ''.999999999'' \<and> \<not> (length l > 10 \<and> is_digit (l ! 10)) then PFrac9 # std_chunks (drop 10 l)
      else Lit (hd l) # std_chunks (tl l))"
  by pat_completeness auto
termination by (relation "measure length") auto

declare std_chunks.simps [simp del]

definition getnum :: "bool \<Rightarrow> string \<Rightarrow> (nat \<times> string) option" where
  "getnum two s =
     (case s of
        [] \<Rightarrow> None
      | c # rest \<Rightarrow>
          if \<not> is_digit c then None
          else (case rest of
                  [] \<Rightarrow> if two then None else Some (number [c], [])
                | e # left \<Rightarrow> if is_digit e then Some (number [c, e], left)
                            else if two then None else Some (number [c], rest)))"

definition parseNanoseconds :: "string \<Rightarrow> nat" where
  "parseNanoseconds ds = number (take 9 ds) * 10 ^ (9 - length (take 9 ds))"

text \<open>A fraction at the head of the value; \<open>None\<close> when there is none.\<close>

definition frac_of :: "string \<Rightarrow> (nat \<times> string) option" where
  "frac_of v =
     (if length v \<ge> 2 \<and> (hd v = CHR ''.'' \<or> hd v = CHR '','') \<and> is_digit (v ! 1)
      then (let ds = takeWhile is_digit (tl v) in Some (parseNanoseconds ds, drop (length ds) (tl v)))
      else None)"

definition year_of :: "string \<Rightarrow> (nat \<times> string) option" where
  "year_of v = (if length v \<ge> 4 \<and> list_all is_digit (take 4 v) then Some (number (take 4 v), drop 4 v) else None)"

definition zone_of :: "string \<Rightarrow> (int \<times> string) option" where
  "zone_of v =
     (if v \<noteq> [] \<and> hd v = CHR ''Z'' then Some (0, tl v)
      else if length v < 6 \<or> v ! 3 \<noteq> CHR '':'' then None
      else (case (getnum True (take 2 (drop 1 v)), getnum True (take 2 (drop 4 v))) of
              (Some (hr, _), Some (mm, _)) \<Rightarrow>
                if hr > 24 \<or> mm > 60 then None
                else if hd v = CHR ''+'' then Some (int ((hr * 60 + mm) * 60), drop 6 v)
                else if hd v = CHR ''-'' then Some (- int ((hr * 60 + mm) * 60), drop 6 v)
                else None
            | _ \<Rightarrow> None))"

definition skip_lit :: "char \<Rightarrow> string \<Rightarrow> string option" where
  "skip_lit ch v =
     (if ch = CHR '' '' then (if v \<noteq> [] \<and> hd v \<noteq> CHR '' '' then None else Some (dropWhile (\<lambda>x. x = CHR '' '') v))
      else if v = [] \<or> hd v \<noteq> ch then None else Some (tl v))"

text \<open>What is left of the value, the fields so far and the offset of the zone in seconds.\<close>

fun parse_parts :: "layout_part list \<Rightarrow> string \<Rightarrow> civil \<Rightarrow> int \<Rightarrow> (civil \<times> int) option" where
  "parse_parts [] v c z = (if v = [] then Some (c, z) else None)"
| "parse_parts (p # ps) v c z =
     (case p of
        Lit ch \<Rightarrow> (case skip_lit ch v of None \<Rightarrow> None | Some v' \<Rightarrow> parse_parts ps v' c z)
      | PYear \<Rightarrow> (case year_of v of None \<Rightarrow> None | Some (n, v') \<Rightarrow> parse_parts ps v' (c\<lparr>cv_year := n\<rparr>) z)
      | PMonth \<Rightarrow> (case getnum True v of None \<Rightarrow> None
                  | Some (n, v') \<Rightarrow> if n = 0 \<or> 12 < n then None else parse_parts ps v' (c\<lparr>cv_month := n\<rparr>) z)
      | PDay \<Rightarrow> (case getnum True v of None \<Rightarrow> None | Some (n, v') \<Rightarrow> parse_parts ps v' (c\<lparr>cv_day := n\<rparr>) z)
      | PHour \<Rightarrow> (case getnum False v of None \<Rightarrow> None
                 | Some (n, v') \<Rightarrow> if 24 \<le> n then None else parse_parts ps v' (c\<lparr>cv_hour := n\<rparr>) z)
      | PMinute \<Rightarrow> (case getnum True v of None \<Rightarrow> None
                   | Some (n, v') \<Rightarrow> if 60 \<le> n then None else parse_parts ps v' (c\<lparr>cv_minute := n\<rparr>) z)
      | PSecond \<Rightarrow> (case getnum True v of None \<Rightarrow> None
                   | Some (n, v') \<Rightarrow>
                       if 60 \<le> n then None
                       else if ps \<noteq> [] \<and> hd ps = PFrac9 then parse_parts ps v' (c\<lparr>cv_second := n\<rparr>) z
                       else (case frac_of v' of
                               None \<Rightarrow> parse_parts ps v' (c\<lparr>cv_second := n\<rparr>) z
                             | Some (ns, v'') \<Rightarrow> parse_parts ps v'' (c\<lparr>cv_second := n, cv_nano := ns\<rparr>) z))
      | PFrac9 \<Rightarrow> (case frac_of v of None \<Rightarrow> parse_parts ps v c z | Some (ns, v') \<Rightarrow> parse_parts ps v' (c\<lparr>cv_nano := ns\<rparr>) z)
      | PZoneZ \<Rightarrow> (case zone_of v of None \<Rightarrow> None | Some (z', v') \<Rightarrow> parse_parts ps v' c z'))"

definition no_fields :: civil where
  "no_fields = \<lparr>cv_year = 0, cv_month = 1, cv_day = 1, cv_hour = 0, cv_minute = 0, cv_second = 0, cv_nano = 0\<rparr>"

definition time_Parse :: "string \<Rightarrow> string \<Rightarrow> time option" where
  "time_Parse layout value =
     (case parse_parts (std_chunks layout) value no_fields 0 of
        None \<Rightarrow> None
      | Some (c, z) \<Rightarrow>
          if cv_day c < 1 \<or> cv_day c > days_in (cv_year c) (cv_month c) then None
          else Some (instant c - z * second))"

subsection \<open>Reading what was written\<close>

lemma number_snoc: "number (ds @ [c]) = 10 * number ds + (of_char c - 48)"
  by (simp add: number_def)

lemma number_fixed: "n < 10 ^ k \<Longrightarrow> number (fixed k n) = n"
proof (induction k arbitrary: n)
  case (Suc k)
  then have "n div 10 < 10 ^ k" by (simp add: less_mult_imp_div_less mult.commute)
  then show ?case using Suc.IH by (simp add: number_snoc)
qed (simp add: number_def)

lemma number_append: "number (a @ b) = number a * 10 ^ length b + number b"
proof (induction b rule: rev_induct)
  case (snoc c b)
  then show ?case by (simp add: number_snoc append_assoc [symmetric] algebra_simps del: append_assoc)
qed (simp add: number_def)

lemma number_Cons: "number (c # b) = (of_char c - 48) * 10 ^ length b + number b"
  using number_append [of "[c]" b] by (simp add: number_def)

lemma strip0_length: "length (strip0 x) \<le> length x"
  by (induction x) auto

lemma number_strip0: "number (strip0 x) * 10 ^ (length x - length (strip0 x)) = number x"
proof (induction x)
  case (Cons c x)
  have "number x = 0" if "strip0 x = []" using Cons that by (simp add: number_def)
  moreover have "10 ^ length (strip0 x) * 10 ^ (length x - length (strip0 x)) = (10 ^ length x :: nat)"
    using strip0_length [of x] by (simp add: power_add [symmetric])
  ultimately show ?case using Cons
    by (auto simp: number_Cons algebra_simps)
qed (simp add: number_def)

lemma digit_not_blank: "d < 10 \<Longrightarrow> (char_of (48 + d :: nat) :: char) \<noteq> CHR '' ''"
  by (metis is_digit_show not_digit_marks(1))

lemma getnum_fixed [simp]: "n < 100 \<Longrightarrow> getnum two (fixed 2 n @ r) = Some (n, r)"
  using number_fixed [of n 2] by (simp add: getnum_def numeral_2_eq_2 is_digit_show)

lemma year_of_fixed [simp]: "n \<le> 9999 \<Longrightarrow> year_of (fixed 4 n @ r) = Some (n, r)"
  using number_fixed [of n 4] fixed_digits [of 4 n] by (simp add: year_of_def del: fixed.simps)

lemma frac_of_frac9:
  assumes "n < 1000000000" and "n \<noteq> 0" and "r = [] \<or> \<not> is_digit (hd r)"
  shows "frac_of (frac9 n @ r) = Some (n, r)"
proof -
  let ?f = "fixed 9 n"
  have num: "number ?f = n" using number_fixed [of n 9] assms(1) by simp
  have ds: "list_all is_digit (strip0 ?f)" by (rule strip0_digits [OF fixed_digits])
  have ne: "strip0 ?f \<noteq> []"
  proof
    assume "strip0 ?f = []"
    then have "number ?f = 0" using number_strip0 [of ?f] by (simp add: number_def del: fixed.simps)
    then show False using num assms(2) by simp
  qed
  have len: "length (strip0 ?f) \<le> 9" using strip0_length [of ?f] by (simp del: fixed.simps)
  have "takeWhile is_digit (strip0 ?f @ r) = strip0 ?f"
    using ds assms(3) by (cases r) (auto simp: takeWhile_append list_all_iff takeWhile_eq_Nil_iff)
  moreover have "parseNanoseconds (strip0 ?f) = n"
    using number_strip0 [of ?f] num len by (simp add: parseNanoseconds_def del: fixed.simps)
  moreover have "is_digit (hd (strip0 ?f))" using ds ne by (cases "strip0 ?f") auto
  ultimately show ?thesis using assms(2) ne
    by (cases "strip0 ?f") (auto simp: frac_of_def frac9_def Let_def simp del: fixed.simps)
qed

lemma frac_of_none [simp]: "frac_of [] = None" "c \<noteq> CHR ''.'' \<Longrightarrow> c \<noteq> CHR '','' \<Longrightarrow> frac_of (c # r) = None"
  by (simp_all add: frac_of_def)

subsection \<open>One part at a time\<close>

lemma parse_lit [simp]: "ch \<noteq> CHR '' '' \<Longrightarrow> parse_parts (Lit ch # ps) (ch # r) c z = parse_parts ps r c z"
  by (simp add: skip_lit_def)

lemma parse_lit_none [simp]: "ch \<noteq> CHR '' '' \<Longrightarrow> r = [] \<or> hd r \<noteq> ch \<Longrightarrow> parse_parts (Lit ch # ps) r c z = None"
  by (auto simp: skip_lit_def)

lemma parse_blank [simp]:
  "n < 100 \<Longrightarrow> parse_parts (Lit CHR '' '' # ps) (CHR '' '' # fixed 2 n @ r) c z = parse_parts ps (fixed 2 n @ r) c z"
  by (simp add: skip_lit_def numeral_2_eq_2 digit_not_blank)

lemma parse_year [simp]: "n \<le> 9999 \<Longrightarrow> parse_parts (PYear # ps) (fixed 4 n @ r) c z = parse_parts ps r (c\<lparr>cv_year := n\<rparr>) z"
  by (simp del: fixed.simps)

lemma parse_fields [simp]:
  "n \<noteq> 0 \<Longrightarrow> n \<le> 12 \<Longrightarrow> parse_parts (PMonth # ps) (fixed 2 n @ r) c z = parse_parts ps r (c\<lparr>cv_month := n\<rparr>) z"
  "n < 100 \<Longrightarrow> parse_parts (PDay # ps) (fixed 2 n @ r) c z = parse_parts ps r (c\<lparr>cv_day := n\<rparr>) z"
  "n < 24 \<Longrightarrow> parse_parts (PHour # ps) (fixed 2 n @ r) c z = parse_parts ps r (c\<lparr>cv_hour := n\<rparr>) z"
  "n < 60 \<Longrightarrow> parse_parts (PMinute # ps) (fixed 2 n @ r) c z = parse_parts ps r (c\<lparr>cv_minute := n\<rparr>) z"
  by (simp_all del: fixed.simps)

lemma parse_second [simp]:
  "n < 60 \<Longrightarrow> parse_parts (PSecond # ps) (fixed 2 n @ r) c z =
     (if ps \<noteq> [] \<and> hd ps = PFrac9 then parse_parts ps r (c\<lparr>cv_second := n\<rparr>) z
      else (case frac_of r of
              None \<Rightarrow> parse_parts ps r (c\<lparr>cv_second := n\<rparr>) z
            | Some (ns, r') \<Rightarrow> parse_parts ps r' (c\<lparr>cv_second := n, cv_nano := ns\<rparr>) z))"
  by (simp del: fixed.simps)

lemma parse_ends [simp]:
  "parse_parts (PFrac9 # ps) r c z = (case frac_of r of None \<Rightarrow> parse_parts ps r c z | Some (ns, r') \<Rightarrow> parse_parts ps r' (c\<lparr>cv_nano := ns\<rparr>) z)"
  "parse_parts (PZoneZ # ps) r c z = (case zone_of r of None \<Rightarrow> None | Some (z', r') \<Rightarrow> parse_parts ps r' c z')"
  by simp_all

declare parse_parts.simps(2) [simp del] fixed.simps [simp del]

end
