(* ===== verification/StoreTimes.thy ===== *)
theory StoreTimes
  imports Store GoTime
begin

text \<open>
  How times are kept in the columns of the database (internal/hub/store/sqlite.go). The driver writes a
  \<open>time.Time\<close> as the text of \<open>Time.String\<close>, so the statements compare and sort texts; it reads such a text
  back as the time, which database/sql turns into the text of \<open>RFC3339Nano\<close> for the string the code
  scans it into. The store's other theories keep times as numbers; here is why they may.
\<close>

subsection \<open>Reading a column\<close>

definition datetime_formats :: "string list" where
  "datetime_formats =
     [''2006-01-02T15:04:05.999999999Z07:00'',
      ''2006-01-02T15:04:05Z07:00'',
      ''2006-01-02 15:04:05.999999999+00:00'',
      ''2006-01-02 15:04:05+00:00'',
      ''2006-01-02 15:04:05.999999999Z07:00'',
      ''2006-01-02 15:04:05Z07:00'',
      ''2006-01-02T15:04:05.999999999Z'',
      ''2006-01-02T15:04:05Z'',
      ''2006-01-02 15:04:05'']"

fun try_formats :: "string list \<Rightarrow> string \<Rightarrow> time option" where
  "try_formats [] s = None"
| "try_formats (f # fs) s = (case time_Parse f s of Some t \<Rightarrow> Some t | None \<Rightarrow> try_formats fs s)"

definition parseDateTime :: "string \<Rightarrow> time option" where
  "parseDateTime s = try_formats datetime_formats s"

lemma chunks:
  "std_chunks ''2006-01-02T15:04:05.999999999Z07:00'' =
     [PYear, Lit CHR ''-'', PMonth, Lit CHR ''-'', PDay, Lit CHR ''T'', PHour, Lit CHR '':'', PMinute, Lit CHR '':'', PSecond, PFrac9, PZoneZ]"
  "std_chunks ''2006-01-02T15:04:05Z07:00'' =
     [PYear, Lit CHR ''-'', PMonth, Lit CHR ''-'', PDay, Lit CHR ''T'', PHour, Lit CHR '':'', PMinute, Lit CHR '':'', PSecond, PZoneZ]"
  "std_chunks ''2006-01-02 15:04:05.999999999+00:00'' =
     [PYear, Lit CHR ''-'', PMonth, Lit CHR ''-'', PDay, Lit CHR '' '', PHour, Lit CHR '':'', PMinute, Lit CHR '':'', PSecond, PFrac9,
      Lit CHR ''+'', Lit CHR ''0'', Lit CHR ''0'', Lit CHR '':'', Lit CHR ''0'', Lit CHR ''0'']"
  "std_chunks ''2006-01-02 15:04:05+00:00'' =
     [PYear, Lit CHR ''-'', PMonth, Lit CHR ''-'', PDay, Lit CHR '' '', PHour, Lit CHR '':'', PMinute, Lit CHR '':'', PSecond,
      Lit CHR ''+'', Lit CHR ''0'', Lit CHR ''0'', Lit CHR '':'', Lit CHR ''0'', Lit CHR ''0'']"
  "std_chunks ''2006-01-02 15:04:05.999999999Z07:00'' =
     [PYear, Lit CHR ''-'', PMonth, Lit CHR ''-'', PDay, Lit CHR '' '', PHour, Lit CHR '':'', PMinute, Lit CHR '':'', PSecond, PFrac9, PZoneZ]"
  "std_chunks ''2006-01-02 15:04:05Z07:00'' =
     [PYear, Lit CHR ''-'', PMonth, Lit CHR ''-'', PDay, Lit CHR '' '', PHour, Lit CHR '':'', PMinute, Lit CHR '':'', PSecond, PZoneZ]"
  "std_chunks ''2006-01-02T15:04:05.999999999Z'' =
     [PYear, Lit CHR ''-'', PMonth, Lit CHR ''-'', PDay, Lit CHR ''T'', PHour, Lit CHR '':'', PMinute, Lit CHR '':'', PSecond, PFrac9, Lit CHR ''Z'']"
  "std_chunks ''2006-01-02T15:04:05Z'' =
     [PYear, Lit CHR ''-'', PMonth, Lit CHR ''-'', PDay, Lit CHR ''T'', PHour, Lit CHR '':'', PMinute, Lit CHR '':'', PSecond, Lit CHR ''Z'']"
  "std_chunks ''2006-01-02 15:04:05'' =
     [PYear, Lit CHR ''-'', PMonth, Lit CHR ''-'', PDay, Lit CHR '' '', PHour, Lit CHR '':'', PMinute, Lit CHR '':'', PSecond]"
  by code_simp+

lemma civil_fields:
  assumes "civil_ok c"
  shows "cv_year c \<le> 9999" "cv_month c < 100" "cv_day c < 100" "cv_hour c < 100" "cv_minute c < 100" "cv_second c < 100"
    "cv_nano c < 1000000000" "cv_month c \<noteq> 0" "cv_month c \<le> 12" "cv_hour c < 24" "cv_minute c < 60" "cv_second c < 60"
    "\<not> cv_day c < 1" "\<not> days_in (cv_year c) (cv_month c) < cv_day c"
  using assms days_in_bound [of "cv_month c" "cv_year c"] by (auto simp: civil_ok_def)

text \<open>The date and the clock in front of the rest of a value.\<close>

lemma parse_clock:
  assumes "civil_ok c" and "sep = CHR ''T'' \<or> sep = CHR '' ''"
  shows "parse_parts (PYear # Lit CHR ''-'' # PMonth # Lit CHR ''-'' # PDay # Lit sep # PHour # Lit CHR '':'' # PMinute # Lit CHR '':'' # PSecond # ps)
      (date_text c @ sep # clock_text c @ r) no_fields 0 =
    (if ps \<noteq> [] \<and> hd ps = PFrac9 then parse_parts ps r (c\<lparr>cv_nano := 0\<rparr>) 0
     else (case frac_of r of
             None \<Rightarrow> parse_parts ps r (c\<lparr>cv_nano := 0\<rparr>) 0
           | Some (ns, r') \<Rightarrow> parse_parts ps r' (c\<lparr>cv_nano := ns\<rparr>) 0))"
  using assms(2) civil_fields [OF assms(1)]
  by (cases c; elim disjE) (simp_all add: date_text_def clock_text_def no_fields_def split: option.split)

lemma read_back:
  assumes "civil_ok c"
  shows "time_Parse ''2006-01-02T15:04:05.999999999Z07:00'' (RFC3339Nano_text c) = Some (instant c)"
proof -
  have "parse_parts [PFrac9, PZoneZ] (frac9 (cv_nano c) @ ''Z'') (c\<lparr>cv_nano := 0\<rparr>) 0 = Some (c, 0)"
    using frac_of_frac9 [of "cv_nano c" "''Z''"] civil_fields [OF assms]
    by (cases "cv_nano c = 0") (auto simp: frac9_def zone_of_def is_digit_def)
  then show ?thesis
    using parse_clock [OF assms, of "CHR ''T''" "[PFrac9, PZoneZ]" "frac9 (cv_nano c) @ ''Z''"] civil_fields [OF assms]
    by (simp add: time_Parse_def chunks RFC3339Nano_text_def)
qed

text \<open>
  The other formats are those SQLite itself writes: a blank, no fraction, with or without a zone.
\<close>

definition sqlite_text :: "civil \<Rightarrow> string \<Rightarrow> string" where
  "sqlite_text c zone = date_text c @ '' '' @ clock_text c @ zone"

lemma wrong_separator:
  assumes "civil_ok c"
  shows "parse_parts (PYear # Lit CHR ''-'' # PMonth # Lit CHR ''-'' # PDay # Lit CHR ''T'' # ps) (date_text c @ CHR '' '' # r) no_fields 0 = None"
  using civil_fields [OF assms] by (simp add: date_text_def no_fields_def)

lemma plain_read:
  assumes "civil_ok c" and "cv_nano c = 0"
  shows "parseDateTime (sqlite_text c []) = Some (instant c)" and "parseDateTime (sqlite_text c ''+00:00'') = Some (instant c)"
    and "parseDateTime (sqlite_text c ''Z'') = Some (instant c)"
proof -
  note clock = parse_clock [OF assms(1), of "CHR '' ''"] parse_clock [OF assms(1), of "CHR '' ''" _ "[]", simplified]
  have c: "c\<lparr>cv_nano := 0\<rparr> = c" using assms(2) by (cases c) simp
  show "parseDateTime (sqlite_text c []) = Some (instant c)" "parseDateTime (sqlite_text c ''+00:00'') = Some (instant c)"
    "parseDateTime (sqlite_text c ''Z'') = Some (instant c)"
    using civil_fields [OF assms(1)]
    by (simp_all add: parseDateTime_def datetime_formats_def time_Parse_def chunks sqlite_text_def clock wrong_separator [OF assms(1)]
        c zone_of_def)
qed

text \<open>
  A row as \<open>Scan\<close> finds it: the columns, the last one as text; \<open>None\<close>: the driver failed.
\<close>

datatype scan_err = ScanFailed | ParseHeartbeat | ScanRow scan_err | IterateRows

definition scanDevice :: "(device \<times> string) option \<Rightarrow> scan_err + device" where
  "scanDevice row =
     (case row of
        None \<Rightarrow> Inl ScanFailed
      | Some (d, lastHeartbeat) \<Rightarrow>
          (case parseDateTime lastHeartbeat of
             None \<Rightarrow> Inl ParseHeartbeat
           | Some t \<Rightarrow> Inr (d\<lparr>last_heartbeat := t\<rparr>)))"

text \<open>\<open>failed\<close>: what \<open>rows.Err\<close> reports when \<open>Next\<close> ends.\<close>

fun scanDevices :: "(device \<times> string) option list \<Rightarrow> bool \<Rightarrow> scan_err + device list" where
  "scanDevices [] failed = (if failed then Inl IterateRows else Inr [])"
| "scanDevices (row # rows) failed =
     (case scanDevice row of
        Inl e \<Rightarrow> Inl (ScanRow e)
      | Inr d \<Rightarrow> (case scanDevices rows failed of Inl e \<Rightarrow> Inl e | Inr ds \<Rightarrow> Inr (d # ds)))"

subsection \<open>Comparing columns\<close>

text \<open>
  A cell is the date it was written for. The statements see the text the driver stored, \<open>Scan\<close> the one
  it hands out.
\<close>

definition stored :: "civil \<Rightarrow> string" where "stored c = Time_String c"
definition handed :: "civil \<Rightarrow> string" where "handed c = RFC3339Nano_text c"

type_synonym 'r cells = "('r \<times> civil) list"

definition scan_cells :: "device cells \<Rightarrow> scan_err + device list" where
  "scan_cells rows = scanDevices (map (\<lambda>(d, c). Some (d\<lparr>last_heartbeat := 0\<rparr>, handed c)) rows) False"

definition sql_GetStaleDevices :: "civil \<Rightarrow> device cells \<Rightarrow> scan_err + device list" where
  "sql_GetStaleDevices threshold rows =
     scan_cells (filter (\<lambda>(d, c). status_text (dev_status d) = ''online'' \<and> stored c < stored threshold) rows)"

definition sql_prunable :: "civil \<Rightarrow> string list \<Rightarrow> device cells \<Rightarrow> scan_err + device list" where
  "sql_prunable threshold active rows =
     scan_cells (take pruneBatchLimit (sort_key (\<lambda>(d, c). stored c)
       (filter (\<lambda>(d, c). status_text (dev_status d) = ''offline'' \<and> stored c < stored threshold \<and> device_id d \<notin> set active) rows)))"

definition sql_MarkOfflineIfStale :: "string \<Rightarrow> civil \<Rightarrow> device cells \<Rightarrow> bool \<times> device cells" where
  "sql_MarkOfflineIfStale did threshold rows =
     (let P = (\<lambda>(d, c). device_id d = did \<and> dev_status d = StatusOnline \<and> stored c < stored threshold) in
      (affected P rows > 0, update_where P (\<lambda>(d, c). (d\<lparr>dev_status := StatusOffline\<rparr>, c)) rows))"

definition sql_ClaimJoinToken :: "string \<Rightarrow> civil \<Rightarrow> join_token cells \<Rightarrow> bool \<times> join_token cells" where
  "sql_ClaimJoinToken tok now rows =
     (let P = (\<lambda>(t, c). token t = tok \<and> stored c > stored now) in (affected P rows = 1, delete_where P rows))"

definition sql_DeleteExpiredInvites :: "civil \<Rightarrow> pending_invite cells \<Rightarrow> pending_invite cells" where
  "sql_DeleteExpiredInvites now rows = delete_where (\<lambda>(i, c). stored c < stored now) rows"

definition sql_DeleteExpiredJoinTokens :: "civil \<Rightarrow> join_token cells \<Rightarrow> join_token cells" where
  "sql_DeleteExpiredJoinTokens now rows = delete_where (\<lambda>(t, c). stored c < stored now) rows"

text \<open>The cell of a row is the one its time was written to.\<close>

definition in_cell :: "('r \<Rightarrow> time) \<Rightarrow> 'r \<times> civil \<Rightarrow> bool" where
  "in_cell t x \<longleftrightarrow> civil_ok (snd x) \<and> t (fst x) = instant (snd x)"

lemma stored_less: "civil_ok a \<Longrightarrow> civil_ok b \<Longrightarrow> stored a < stored b \<longleftrightarrow> instant a < instant b"
  by (simp add: stored_def Time_String_less)

lemma stored_le: "civil_ok a \<Longrightarrow> civil_ok b \<Longrightarrow> stored a \<le> stored b \<longleftrightarrow> instant a \<le> instant b"
  using stored_less [of b a] by (metis linorder_not_less)

lemma scan_cells_read:
  "list_all (in_cell last_heartbeat) rows \<Longrightarrow> scan_cells rows = Inr (map fst rows)"
proof (induction rows)
  case (Cons x rows)
  obtain d c where x: "x = (d, c)" by (cases x)
  have "parseDateTime (handed c) = Some (last_heartbeat d)"
    using Cons.prems read_back [of c] x by (simp add: parseDateTime_def datetime_formats_def handed_def in_cell_def)
  then show ?case using Cons x by (simp add: scan_cells_def scanDevice_def)
qed (simp add: scan_cells_def)

lemma sort_key_cong:
  assumes "\<And>x y. x \<in> set xs \<Longrightarrow> y \<in> set xs \<Longrightarrow> (f x \<le> f y) = (g x \<le> g y)"
  shows "sort_key f xs = sort_key g xs"
proof -
  have ins: "insort_key f x ys = insort_key g x ys" if "insert x (set ys) \<subseteq> set xs" for x ys
    using that assms by (induction ys) auto
  have "foldr (insort_key f) ys [] = foldr (insort_key g) ys []" if "set ys \<subseteq> set xs" for ys
    using that
  proof (induction ys)
    case (Cons y ys)
    have "set (foldr (insort_key g) ys []) = set ys" by (metis set_sort sort_key_def)
    then show ?case using Cons ins [of y "foldr (insort_key g) ys []"] by simp
  qed simp
  then show ?thesis by (simp add: sort_key_def)
qed

lemma sort_key_map: "sort_key f (map h xs) = map h (sort_key (\<lambda>x. f (h x)) xs)"
proof -
  have "insort_key f (h x) (map h ys) = map h (insort_key (\<lambda>x. f (h x)) x ys)" for x ys by (induction ys) auto
  then show ?thesis by (induction xs) auto
qed

lemma cells_filter: "\<forall>x \<in> set rows. Q x = P (fst x) \<Longrightarrow> map fst (filter Q rows) = filter P (map fst rows)"
  by (induction rows) auto

lemma cells_affected: "\<forall>x \<in> set rows. Q x = P (fst x) \<Longrightarrow> affected Q rows = affected P (map fst rows)"
  unfolding affected_def by (metis cells_filter length_map)

lemma cells_delete: "\<forall>x \<in> set rows. Q x = P (fst x) \<Longrightarrow> map fst (delete_where Q rows) = delete_where P (map fst rows)"
  unfolding delete_where_def by (rule cells_filter) simp

lemma cells_update:
  "\<forall>x \<in> set rows. Q x = P (fst x) \<Longrightarrow> map fst (update_where Q (\<lambda>(d, c). (f d, c)) rows) = update_where P f (map fst rows)"
  by (induction rows) (auto simp: update_where_def)

lemma cells_less:
  assumes "list_all (in_cell t) rows" and "civil_ok th" and "x \<in> set rows"
  shows "stored (snd x) < stored th \<longleftrightarrow> t (fst x) < instant th" and "stored th < stored (snd x) \<longleftrightarrow> instant th < t (fst x)"
  using assms stored_less by (auto simp: in_cell_def list_all_iff)

lemma stale_cells:
  assumes "list_all (in_cell last_heartbeat) rows" and "civil_ok th" and "devices s = map fst rows"
  shows "sql_GetStaleDevices th rows = Inr (projr (fst (GetStaleDevices (instant th) s)))"
proof -
  have "dev_status d = StatusOnline \<longleftrightarrow> status_text (dev_status d) = ''online''" for d :: device by (cases "dev_status d") simp_all
  then have "map fst (filter (\<lambda>(d, c). status_text (dev_status d) = ''online'' \<and> stored c < stored th) rows) =
      filter (\<lambda>d. dev_status d = StatusOnline \<and> last_heartbeat d < instant th) (map fst rows)"
    using cells_less(1) [OF assms(1,2)] by (intro cells_filter) auto
  moreover have "list_all (in_cell last_heartbeat) (filter P rows)" for P using assms(1) by (auto simp: list_all_iff)
  ultimately show ?thesis using assms(3) by (simp add: sql_GetStaleDevices_def scan_cells_read GetStaleDevices_def)
qed

lemma prunable_cells:
  assumes "list_all (in_cell last_heartbeat) rows" and "civil_ok th" and "devices s = map fst rows"
  shows "sql_prunable th active rows = Inr (prunable (instant th) active s)"
proof -
  define kept where "kept = filter (\<lambda>(d, c). status_text (dev_status d) = ''offline'' \<and> stored c < stored th \<and> device_id d \<notin> set active) rows"
  have "dev_status d = StatusOffline \<longleftrightarrow> status_text (dev_status d) = ''offline''" for d :: device by (cases "dev_status d") simp_all
  then have m: "map fst kept = filter (\<lambda>d. dev_status d = StatusOffline \<and> last_heartbeat d < instant th \<and> device_id d \<notin> set active) (map fst rows)"
    unfolding kept_def using cells_less(1) [OF assms(1,2)] by (intro cells_filter) auto
  have k: "in_cell last_heartbeat x" if "x \<in> set kept" for x using that assms(1) by (auto simp: kept_def list_all_iff)
  have "sort_key (\<lambda>(d, c). stored c) kept = sort_key (\<lambda>x. last_heartbeat (fst x)) kept"
  proof (rule sort_key_cong)
    fix x y assume "x \<in> set kept" "y \<in> set kept"
    then show "((case x of (d, c) \<Rightarrow> stored c) \<le> (case y of (d, c) \<Rightarrow> stored c)) = (last_heartbeat (fst x) \<le> last_heartbeat (fst y))"
      using k [of x] k [of y] by (simp add: in_cell_def stored_le case_prod_beta)
  qed
  then have "map fst (sort_key (\<lambda>(d, c). stored c) kept) = sort_key last_heartbeat (map fst kept)"
    by (simp add: sort_key_map)
  moreover have "list_all (in_cell last_heartbeat) (take n (sort_key (\<lambda>(d, c). stored c) kept))" for n
    using k by (auto simp: list_all_iff dest: in_set_takeD)
  ultimately show ?thesis
    using m assms(3) by (simp add: sql_prunable_def kept_def [symmetric] scan_cells_read prunable_def take_map [symmetric])
qed

lemma mark_offline_cells:
  assumes "list_all (in_cell last_heartbeat) rows" and "civil_ok th" and "devices s = map fst rows"
    and "sql_MarkOfflineIfStale did th rows = (b, rows')"
  shows "MarkOfflineIfStale did (instant th) s = (Inr b, s\<lparr>devices := map fst rows'\<rparr>) \<and> list_all (in_cell last_heartbeat) rows'"
proof -
  let ?Q = "\<lambda>(d, c). device_id d = did \<and> dev_status d = StatusOnline \<and> stored c < stored th"
  let ?P = "\<lambda>d. device_id d = did \<and> dev_status d = StatusOnline \<and> last_heartbeat d < instant th"
  have "\<forall>x \<in> set rows. ?Q x = ?P (fst x)" using cells_less(1) [OF assms(1,2)] by auto
  note q = cells_affected [OF this] cells_update [OF this]
  have "b = (affected ?Q rows > 0)" "rows' = update_where ?Q (\<lambda>(d, c). (d\<lparr>dev_status := StatusOffline\<rparr>, c)) rows"
    using assms(4) by (auto simp: sql_MarkOfflineIfStale_def Let_def)
  moreover have "list_all (in_cell last_heartbeat) (update_where ?Q (\<lambda>(d, c). (d\<lparr>dev_status := StatusOffline\<rparr>, c)) rows)"
    using assms(1) by (auto simp: list_all_iff update_where_def in_cell_def)
  ultimately show ?thesis using q assms(3) by (simp add: MarkOfflineIfStale_def Let_def)
qed

lemma claim_cells:
  assumes "list_all (in_cell token_expires_at) toks" and "civil_ok now" and "pending_join_tokens s = map fst toks"
    and "sql_ClaimJoinToken tok now toks = (b, toks')"
  shows "ClaimJoinToken tok (instant now) s = (Inr b, s\<lparr>pending_join_tokens := map fst toks'\<rparr>)"
proof -
  let ?Q = "\<lambda>(t, c). token t = tok \<and> stored c > stored now"
  have "\<forall>x \<in> set toks. ?Q x = (\<lambda>t. token t = tok \<and> token_expires_at t > instant now) (fst x)"
    using cells_less(2) [OF assms(1,2)] by auto
  note q = cells_affected [OF this] cells_delete [OF this]
  have "b = (affected ?Q toks = 1)" "toks' = delete_where ?Q toks" using assms(4) by (auto simp: sql_ClaimJoinToken_def Let_def)
  then show ?thesis using q assms(3) by (simp add: ClaimJoinToken_def Let_def)
qed

lemma expired_cells:
  assumes "list_all (in_cell token_expires_at) toks" and "list_all (in_cell invite_expires_at) invs" and "civil_ok now"
    and "pending_join_tokens s = map fst toks" and "pending_invites s = map fst invs"
  shows "DeleteExpiredJoinTokens (instant now) s = (Inr (), s\<lparr>pending_join_tokens := map fst (sql_DeleteExpiredJoinTokens now toks)\<rparr>)"
    and "DeleteExpiredInvites (instant now) s = (Inr (), s\<lparr>pending_invites := map fst (sql_DeleteExpiredInvites now invs)\<rparr>)"
proof -
  have "\<forall>x \<in> set toks. (\<lambda>(t, c). stored c < stored now) x = (\<lambda>t. token_expires_at t < instant now) (fst x)"
    using cells_less(1) [OF assms(1,3)] by auto
  from cells_delete [OF this] show "DeleteExpiredJoinTokens (instant now) s =
      (Inr (), s\<lparr>pending_join_tokens := map fst (sql_DeleteExpiredJoinTokens now toks)\<rparr>)"
    using assms(4) by (simp add: DeleteExpiredJoinTokens_def sql_DeleteExpiredJoinTokens_def)
  have "\<forall>x \<in> set invs. (\<lambda>(i, c). stored c < stored now) x = (\<lambda>i. invite_expires_at i < instant now) (fst x)"
    using cells_less(1) [OF assms(2,3)] by auto
  from cells_delete [OF this] show "DeleteExpiredInvites (instant now) s =
      (Inr (), s\<lparr>pending_invites := map fst (sql_DeleteExpiredInvites now invs)\<rparr>)"
    using assms(5) by (simp add: DeleteExpiredInvites_def sql_DeleteExpiredInvites_def)
qed

text \<open>
  C21: the store may be thought of as holding instants: whatever the statements find by comparing and
  sorting the texts of their columns, and whatever the code reads from these texts, is what the
  operations on numbers give, for every time until the end of the year 9999, fractions of a second included.
\<close>

theorem sql_times_are_instants:
  assumes "list_all (in_cell last_heartbeat) devs" and "list_all (in_cell token_expires_at) toks"
    and "list_all (in_cell invite_expires_at) invs" and "civil_ok now"
    and "devices s = map fst devs" and "pending_join_tokens s = map fst toks" and "pending_invites s = map fst invs"
    and "sql_MarkOfflineIfStale did now devs = (went, devs')" and "sql_ClaimJoinToken tok now toks = (claimed, toks')"
  shows "sql_GetStaleDevices now devs = Inr (projr (fst (GetStaleDevices (instant now) s))) \<and>
    sql_prunable now active devs = Inr (prunable (instant now) active s) \<and>
    MarkOfflineIfStale did (instant now) s = (Inr went, s\<lparr>devices := map fst devs'\<rparr>) \<and>
    ClaimJoinToken tok (instant now) s = (Inr claimed, s\<lparr>pending_join_tokens := map fst toks'\<rparr>) \<and>
    DeleteExpiredJoinTokens (instant now) s = (Inr (), s\<lparr>pending_join_tokens := map fst (sql_DeleteExpiredJoinTokens now toks)\<rparr>) \<and>
    DeleteExpiredInvites (instant now) s = (Inr (), s\<lparr>pending_invites := map fst (sql_DeleteExpiredInvites now invs)\<rparr>)"
  using stale_cells [OF assms(1,4,5)] prunable_cells [OF assms(1,4,5)] mark_offline_cells [OF assms(1,4,5,8)]
    claim_cells [OF assms(2,4,6,9)] expired_cells [OF assms(2,3,4,6,7)] by simp

text \<open>
  A time the code stores comes back as it was: the text database/sql makes of it parses to the same
  instant, and so do the texts SQLite makes of a whole second, with and without a zone.
\<close>

theorem stored_times_come_back:
  assumes "civil_ok c"
  shows "parseDateTime (handed c) = Some (instant c) \<and>
    (cv_nano c = 0 \<longrightarrow> (\<forall>zone \<in> {[], ''+00:00'', ''Z''}. parseDateTime (sqlite_text c zone) = Some (instant c)))"
  using read_back [OF assms] plain_read [OF assms] by (simp add: parseDateTime_def datetime_formats_def handed_def)

subsection \<open>Two heartbeats in one second\<close>

definition half :: "nat \<Rightarrow> civil" where
  "half n = \<lparr>cv_year = 2026, cv_month = 2, cv_day = 28, cv_hour = 23, cv_minute = 59, cv_second = 59, cv_nano = n\<rparr>"

definition beat_at :: "string \<Rightarrow> nat \<Rightarrow> device \<times> civil" where
  "beat_at did n = (\<lparr>device_id = did, nickname = did, last_ip = [], ssh_port = 2222, dev_status = StatusOnline, last_heartbeat = instant (half n)\<rparr>, half n)"

lemma half_ok: "n < 1000000000 \<Longrightarrow> civil_ok (half n)"
  by (simp add: half_def civil_ok_def days_in_def month_lens_def leap_def)

lemma sql_times_are_instants_witness:
  "sql_GetStaleDevices (half 120000000) [beat_at ''a'' 100000000, beat_at ''b'' 120000000, beat_at ''c'' 0] =
     Inr [fst (beat_at ''a'' 100000000), fst (beat_at ''c'' 0)]"
proof -
  let ?devs = "[beat_at ''a'' 100000000, beat_at ''b'' 120000000, beat_at ''c'' 0]"
  let ?s = "\<lparr>devices = map fst ?devs, shares = [], pairings = [], pending_invites = [], pending_join_tokens = []\<rparr>"
  have cells: "list_all (in_cell last_heartbeat) ?devs" by (simp add: in_cell_def beat_at_def half_ok)
  obtain went devs' where m: "sql_MarkOfflineIfStale [] (half 120000000) ?devs = (went, devs')"
    by (cases "sql_MarkOfflineIfStale [] (half 120000000) ?devs")
  have c: "sql_ClaimJoinToken [] (half 120000000) [] = (False, [])"
    by (simp add: sql_ClaimJoinToken_def affected_def delete_where_def)
  have "instant (half n) < instant (half m) \<longleftrightarrow> n < m" for n m by (simp add: instant_def nanos_def half_def)
  then have "projr (fst (GetStaleDevices (instant (half 120000000)) ?s)) = [fst (beat_at ''a'' 100000000), fst (beat_at ''c'' 0)]"
    by (simp add: GetStaleDevices_def beat_at_def)
  then show ?thesis
    using sql_times_are_instants [OF cells, of "[]" "[]" "half 120000000" ?s, OF _ _ half_ok _ _ _ m c] by simp
qed

lemma stored_times_come_back_witness:
  "parseDateTime (handed (half 120000000)) = Some (instant (half 120000000)) \<and>
   parseDateTime (sqlite_text (half 0) ''Z'') = Some (instant (half 0))"
  using stored_times_come_back [OF half_ok, of 120000000] stored_times_come_back [OF half_ok, of 0] by (simp add: half_def)

end
