(* ===== verification/ConfigWatch.thy ===== *)
theory ConfigWatch
  imports ReloadProps
begin

text \<open>
  The watcher's loop (\<open>Watcher.Start\<close> and \<open>Watcher.Stop\<close> in internal/agent/config/watcher.go, started
  by \<open>startConfigWatcher\<close> in daemon.go) on what fsnotify tells it. The library is a parameter: its state
  and what it reports for a change of the file are those of a function \<open>notify\<close>.
\<close>

subsection \<open>The loop\<close>

datatype fs_op = OpCreate | OpWrite | OpRemove | OpRename | OpChmod

text \<open>What one pass of the select receives.\<close>

datatype watch_item = CtxDone | Event "fs_op list" | EventsClosed | WatchError | ErrorsClosed

text \<open>With each item, what \<open>Load\<close> would make of the file then. The result says whether the loop has returned.\<close>

fun Watcher_Start :: "daemon_env \<Rightarrow> (watch_item \<times> config option) list \<Rightarrow> config option \<times> daemon \<Rightarrow> bool \<times> config option \<times> daemon" where
  "Watcher_Start env [] s = (False, s)"
| "Watcher_Start env ((item, loaded) # items) s =
     (case item of
        CtxDone \<Rightarrow> (True, s)
      | EventsClosed \<Rightarrow> (True, s)
      | ErrorsClosed \<Rightarrow> (True, s)
      | WatchError \<Rightarrow> Watcher_Start env items s
      | Event ops \<Rightarrow>
          if OpWrite \<in> set ops \<or> OpCreate \<in> set ops
          then Watcher_Start env items (watcher_reload env loaded s)
          else Watcher_Start env items s)"

text \<open>A watcher that cannot be made is only logged: the daemon goes on without one.\<close>

definition startConfigWatcher :: "config option option \<Rightarrow> daemon_env \<Rightarrow> (watch_item \<times> config option) list \<Rightarrow> daemon \<Rightarrow> daemon" where
  "startConfigWatcher made env items d =
     (case made of
        None \<Rightarrow> d
      | Some loaded \<Rightarrow> (case Watcher_Start env items (NewWatcher loaded, d) of (ended, w, d') \<Rightarrow> d'))"

subsection \<open>Edits\<close>

text \<open>
  An edit writes the file in place, as \<open>config.Save\<close> does, or puts another file in its place, as
  programs do that write a temporary file and rename it. The argument is what \<open>Load\<close> makes of the
  new content.
\<close>

datatype edit = InPlace (edit_content: "config option") | Replaced (edit_content: "config option")

fun in_place :: "edit \<Rightarrow> bool" where
  "in_place (InPlace c) = True"
| "in_place (Replaced c) = False"

text \<open>
  What fsnotify documents of a watch on a file, and does on Linux: a write is reported; the watch is on the
  file and not on its name, so that when another file takes its place no write or creation is reported,
  and nothing after.
\<close>

definition fsnotify_documented :: "('n \<Rightarrow> edit \<Rightarrow> fs_op list list \<times> 'n) \<Rightarrow> ('n \<Rightarrow> bool) \<Rightarrow> bool" where
  "fsnotify_documented notify watching \<longleftrightarrow>
     (\<forall>n c. watching n \<longrightarrow> watching (snd (notify n (InPlace c))) \<and> (\<exists>ops \<in> set (fst (notify n (InPlace c))). OpWrite \<in> set ops)) \<and>
     (\<forall>n c. watching n \<longrightarrow> \<not> watching (snd (notify n (Replaced c))) \<and>
        (\<forall>ops \<in> set (fst (notify n (Replaced c))). OpWrite \<notin> set ops \<and> OpCreate \<notin> set ops)) \<and>
     (\<forall>n e. \<not> watching n \<longrightarrow> \<not> watching (snd (notify n e)) \<and> fst (notify n e) = [])"

text \<open>The edits, each reported and dealt with before the next.\<close>

fun run_edits :: "('n \<Rightarrow> edit \<Rightarrow> fs_op list list \<times> 'n) \<Rightarrow> daemon_env \<Rightarrow> edit list \<Rightarrow> 'n \<times> config option \<times> daemon \<Rightarrow> 'n \<times> config option \<times> daemon" where
  "run_edits notify env [] s = s"
| "run_edits notify env (e # es) (n, s) =
     (case notify n e of
        (evs, n') \<Rightarrow> run_edits notify env es (n', snd (Watcher_Start env (map (\<lambda>ops. (Event ops, edit_content e)) evs) s)))"

fun last_loaded :: "config \<Rightarrow> edit list \<Rightarrow> config" where
  "last_loaded c [] = c"
| "last_loaded c (e # es) = last_loaded (case edit_content e of None \<Rightarrow> c | Some c' \<Rightarrow> c') es"

lemma Watcher_Start_silent:
  "\<forall>ops \<in> set evs. OpWrite \<notin> set ops \<and> OpCreate \<notin> set ops \<Longrightarrow> Watcher_Start env (map (\<lambda>ops. (Event ops, c)) evs) s = (False, s)"
  by (induction evs) auto

lemma Watcher_Start_unreadable: "Watcher_Start env (map (\<lambda>ops. (Event ops, None)) evs) s = (False, s)"
  by (induction evs) (auto simp: watcher_reload_def)

text \<open>Whatever is reported of an edit, the daemon stays in step with what was loaded last.\<close>

lemma Watcher_Start_step:
  assumes "in_step s" and "reasonable (env, FileChanged (Some c))"
  shows "in_step (snd (Watcher_Start env (map (\<lambda>ops. (Event ops, Some c)) evs) s)) \<and>
    dm_config (snd (snd (Watcher_Start env (map (\<lambda>ops. (Event ops, Some c)) evs) s))) =
      (if \<exists>ops \<in> set evs. OpWrite \<in> set ops \<or> OpCreate \<in> set ops then c else dm_config (snd s))"
  using assms(1)
proof (induction evs arbitrary: s)
  case (Cons ops evs)
  have r: "in_step (watcher_reload env (Some c) s)"
    using in_step_react [OF Cons.prems assms(2)] by (cases s) simp
  have c: "dm_config (snd (watcher_reload env (Some c) s)) = c"
    using onConfigChange_conf [of env "fst s" c "snd s"] by (simp add: watcher_reload_def)
  show ?case using Cons.IH [OF Cons.prems] Cons.IH [OF r] c by auto
qed simp

definition sane_edit :: "daemon_env \<Rightarrow> edit \<Rightarrow> bool" where
  "sane_edit env e \<longleftrightarrow> reasonable (env, FileChanged (edit_content e))"

lemma edit_in_place:
  assumes "fsnotify_documented notify watching" and "watching n" and "notify n (InPlace c) = (evs, n')"
    and "in_step s" and "sane_edit env (InPlace c)"
  shows "watching n' \<and> in_step (snd (Watcher_Start env (map (\<lambda>ops. (Event ops, c)) evs) s)) \<and>
    dm_config (snd (snd (Watcher_Start env (map (\<lambda>ops. (Event ops, c)) evs) s))) = last_loaded (dm_config (snd s)) [InPlace c]"
proof -
  have w: "watching n'" "\<exists>ops \<in> set evs. OpWrite \<in> set ops"
    using assms(1-3) unfolding fsnotify_documented_def by (metis fst_conv snd_conv)+
  show ?thesis
  proof (cases c)
    case None
    then show ?thesis using w assms(4) by (simp add: Watcher_Start_unreadable)
  next
    case (Some c')
    then show ?thesis using w Watcher_Start_step [OF assms(4), of env c' evs] assms(5) by (auto simp: sane_edit_def)
  qed
qed

lemma unwatched_edits:
  "fsnotify_documented notify watching \<Longrightarrow> \<not> watching n \<Longrightarrow> snd (run_edits notify env es (n, s)) = s"
proof (induction es arbitrary: n)
  case (Cons e es)
  obtain evs n' where e: "notify n e = (evs, n')" by (cases "notify n e")
  have "evs = [] \<and> \<not> watching n'" using Cons.prems e unfolding fsnotify_documented_def by (metis fst_conv snd_conv)
  then show ?case using Cons.IH [of n'] Cons.prems e by simp
qed simp

lemma run_edits_in_place:
  assumes "fsnotify_documented notify watching" and "list_all in_place es"
  shows "watching n \<Longrightarrow> in_step s \<Longrightarrow> list_all (sane_edit env) es \<Longrightarrow> run_edits notify env es (n, s) = (n', s') \<Longrightarrow>
    watching n' \<and> in_step s' \<and> dm_config (snd s') = last_loaded (dm_config (snd s)) es"
  using assms(2)
proof (induction es arbitrary: n s)
  case (Cons e es)
  obtain c where e: "e = InPlace c" using Cons.prems(5) by (cases e) auto
  obtain evs m where m: "notify n e = (evs, m)" by (cases "notify n e")
  let ?s = "snd (Watcher_Start env (map (\<lambda>ops. (Event ops, c)) evs) s)"
  have i: "watching m \<and> in_step ?s \<and> dm_config (snd ?s) = last_loaded (dm_config (snd s)) [InPlace c]"
    using edit_in_place [OF assms(1) Cons.prems(1) _ Cons.prems(2), of c evs m env] m e Cons.prems(3) by simp
  have "run_edits notify env es (m, ?s) = (n', s')" using Cons.prems(4) m e by simp
  then show ?case using Cons.IH [of m ?s] i Cons.prems(3,5) e by simp
qed simp

lemma run_edits_append: "run_edits notify env (a @ b) s = run_edits notify env b (run_edits notify env a s)"
proof (induction a arbitrary: s)
  case (Cons x a)
  then show ?case by (cases s) (simp split: prod.split)
qed simp


text \<open>A watch that is there or not, with the events inotify gives.\<close>

fun inotify :: "bool \<Rightarrow> edit \<Rightarrow> fs_op list list \<times> bool" where
  "inotify False e = ([], False)"
| "inotify True (InPlace c) = ([[OpWrite], [OpWrite]], True)"
| "inotify True (Replaced c) = ([[OpChmod], [OpRemove]], False)"

lemma inotify_documented: "fsnotify_documented inotify (\<lambda>n. n)"
  by (simp add: fsnotify_documented_def)


end
