(* ===== verification/HubStart.thy ===== *)
theory HubStart
  imports LifecycleProps
begin

text \<open>
  \<open>Hub.Start\<close> as a whole (internal/hub/hub.go): its two critical sections, what it does with the errors
  of the reconciliation, of \<open>net.Listen\<close> and of \<open>Serve\<close>, and the calls of \<open>Stop\<close> that land between.
\<close>

datatype serve_end = ServeReturned | ErrServerStopped | ServeBroken

datatype start_err = ReconcileFailed | ListenFailed | ServeFailed

text \<open>\<open>se_stop i\<close>: a \<open>Stop\<close> lands before the entry, during the reconciliation, while listening, while serving.\<close>

record start_env =
  se_reconciles :: bool
  se_listens :: bool
  se_serve :: serve_end
  se_stop :: "nat \<Rightarrow> stop_timing option"

definition lands :: "start_env \<Rightarrow> nat \<Rightarrow> hub_life \<Rightarrow> hub_life" where
  "lands env i h = (case se_stop env i of None \<Rightarrow> h | Some tm \<Rightarrow> snd (hub_Stop tm h))"

definition stopped :: "hub_life \<Rightarrow> bool" where
  "stopped h \<longleftrightarrow> life h = Stopped"

definition hub_Start :: "start_env \<Rightarrow> hub_life \<Rightarrow> start_err option \<times> hub_life" where
  "hub_Start env h =
     (case start_enter (lands env 0 h) of
        (False, h1) \<Rightarrow> (None, h1)
      | (True, h1) \<Rightarrow>
          (let h2 = lands env 1 h1 in
           if \<not> se_reconciles env then (if stopped h2 then None else Some ReconcileFailed, h2)
           else (let h3 = lands env 2 h2 in
                 if \<not> se_listens env then (Some ListenFailed, h3)
                 else (case start_publish h3 of
                         (False, h4) \<Rightarrow> (None, h4)
                       | (True, h4) \<Rightarrow>
                           (let h5 = lands env 3 h4 in
                            case se_serve env of
                              ServeReturned \<Rightarrow> (None, h5)
                            | ErrServerStopped \<Rightarrow> (if stopped h5 then None else Some ServeFailed, h5)
                            | ServeBroken \<Rightarrow> (Some ServeFailed, h5))))))"

text \<open>\<open>deadlineOf\<close>: without a deadline the budget is already spent.\<close>

definition deadlineOf :: "time option \<Rightarrow> time \<Rightarrow> time" where
  "deadlineOf deadline now = (case deadline of Some t \<Rightarrow> t | None \<Rightarrow> now)"

lemma lands_cases:
  "lands env i h = h \<or> (\<exists>tm. se_stop env i = Some tm \<and> lands env i h = snd (hub_Stop tm h))"
  by (simp add: lands_def split: option.split)

lemma hub_Stop_fields:
  "ready_count (snd (hub_Stop tm h)) = ready_count h" "life_inv (h, n) \<Longrightarrow> life (snd (hub_Stop tm h)) = Stopped"
  by (auto simp: hub_Stop_def hub_stop_def life_inv_def split: option.split prod.split)

lemma lands_ready [simp]: "ready_count (lands env i h) = ready_count h"
  using lands_cases [of env i h] by (auto simp: hub_Stop_fields)

lemma lands_inv: "life_inv (h, n) \<Longrightarrow> life_inv (lands env i h, n)"
proof (cases "se_stop env i")
  case (Some tm)
  assume "life_inv (h, n)"
  moreover have "life_step (h, n) (snd (hub_Stop tm h), n)" by (rule life_step.stop [OF prod.collapse [symmetric]])
  ultimately show ?thesis using life_inv_step Some by (simp add: lands_def)
qed (simp add: lands_def)

lemma lands_stopped: "life_inv (h, n) \<Longrightarrow> life (lands env i h) = (if se_stop env i = None then life h else Stopped)"
  using hub_Stop_fields(2) by (auto simp: lands_def split: option.split)

text \<open>
  C1: \<open>Start\<close> tells a stop from a failure: it reports an error exactly when it was to start a hub that had
  not been started or stopped and the reconciliation failed without a stop, listening failed, or \<open>Serve\<close>
  failed otherwise than by a stop; and it says that the hub is ready exactly when nothing failed before
  serving and no stop had landed by then.
\<close>

theorem start_tells_stop_from_failure:
  assumes "life_inv (h, 0)" and "hub_Start env h = (r, h')"
    and "enters = (life h = NotStarted \<and> se_stop env 0 = None)" and "stops = (se_stop env 1 \<noteq> None \<or> se_stop env 2 \<noteq> None)"
  shows "life_inv (h', 0) \<and>
    (r = Some ReconcileFailed) = (enters \<and> \<not> se_reconciles env \<and> se_stop env 1 = None) \<and>
    (r = Some ListenFailed) = (enters \<and> se_reconciles env \<and> \<not> se_listens env) \<and>
    (r = Some ServeFailed) = (enters \<and> se_reconciles env \<and> se_listens env \<and> \<not> stops \<and>
       (se_serve env = ServeBroken \<or> se_serve env = ErrServerStopped \<and> se_stop env 3 = None)) \<and>
    ready_count h' = ready_count h + (if enters \<and> se_reconciles env \<and> se_listens env \<and> \<not> stops then 1 else 0)"
proof -
  let ?h0 = "lands env 0 h"
  have l0: "life_inv (?h0, 0)" "life ?h0 = (if se_stop env 0 = None then life h else Stopped)"
    using lands_inv [OF assms(1)] lands_stopped [OF assms(1)] by simp_all
  show ?thesis
  proof (cases enters)
    case False
    then have "start_enter ?h0 = (False, ?h0)" using l0 assms(3) by (auto simp: start_enter_def split: if_splits)
    then show ?thesis using assms(2) False l0(1) by (auto simp: hub_Start_def)
  next
    case True
    define h1 where "h1 = ?h0\<lparr>life := Started\<rparr>"
    have e: "start_enter ?h0 = (True, h1)" using True l0 assms(3) by (simp add: start_enter_def h1_def)
    have i1: "life_inv (h1, 1)" "life h1 = Started" "ready_count h1 = ready_count h"
      using life_inv_step [OF life_step.enter [OF e] l0(1)] by (simp_all add: h1_def)
    let ?h2 = "lands env 1 h1" and ?h3 = "lands env 2 (lands env 1 h1)"
    have i2: "life_inv (?h2, 1)" "life ?h2 = (if se_stop env 1 = None then Started else Stopped)"
      using lands_inv [OF i1(1)] lands_stopped [OF i1(1)] i1(2) by simp_all
    have i3: "life_inv (?h3, 1)" "(life ?h3 = Stopped) = stops"
      using lands_inv [OF i2(1)] lands_stopped [OF i2(1), of env 2] i2(2) assms(4) by auto
    have done2: "life_inv (?h2, 0)" "life_inv (?h3, 0)" using i2(1) i3(1) by (auto simp: life_inv_def)
    obtain b h4 where p: "start_publish ?h3 = (b, h4)" by (cases "start_publish ?h3")
    have i4: "life_inv (h4, 0)" "b = (\<not> stops)" "ready_count h4 = ready_count h + (if stops then 0 else 1)"
      "(life h4 = Stopped) = stops"
      using life_inv_step [OF life_step.publish [OF p, of 0]] i3 i1(3) p by (auto simp: start_publish_def split: if_splits)
    have i5: "life_inv (lands env 3 h4, 0)" "stopped (lands env 3 h4) = (stops \<or> se_stop env 3 \<noteq> None)"
      using lands_inv [OF i4(1)] lands_stopped [OF i4(1), of env 3] i4(4) by (auto simp: stopped_def)
    show ?thesis using assms(2,4) True e p i1(3) i2(2) i4 i5 done2
      by (auto simp: hub_Start_def Let_def stopped_def split: bool.splits serve_end.splits if_splits)
  qed
qed

lemma start_tells_stop_from_failure_witness:
  "let env = \<lparr>se_reconciles = False, se_listens = True, se_serve = ServeReturned,
       se_stop = (\<lambda>i. if i = 1 then Some sample_timing else None)\<rparr> in
   fst (hub_Start env new_life) = None \<and> ready_count (snd (hub_Start env new_life)) = 0"
proof -
  let ?env = "\<lparr>se_reconciles = False, se_listens = True, se_serve = ServeReturned,
       se_stop = (\<lambda>i. if i = 1 then Some sample_timing else None)\<rparr>"
  have "life_inv (new_life, 0)" by (simp add: life_inv_def new_life_def)
  from start_tells_stop_from_failure [OF this prod.collapse [symmetric] HOL.refl HOL.refl, of ?env]
  show ?thesis by (cases "fst (hub_Start ?env new_life)"; cases "the (fst (hub_Start ?env new_life))") (auto simp: new_life_def)
qed

end
