(* ===== verification/Spec2Isabelle.thy ===== *)
theory Spec2Isabelle
  imports HubRaces RegistryProps PairingProps LifecycleProps ServerProps SftpProps MounterProps
    AgentRaces CliReload CliErrorsProps Fleet HubSettings
    DaemonizeProps HubSignals HubCerts
    GoNet LocalNetwork Pki PkiProps Fingerprint Dialing ServiceFiles ServiceFilesProps ConsoleLog StubMount HubBoot
    PeerSessions GoTime StoreTimes ConfigWatch HubStart
begin

text \<open>
  HubFuse shares directories between the devices of one person or team: a hub keeps the
  registry of devices, their presence and pairings and pushes events to the connected agents;
  an agent on every device mounts the shares of its online peers and serves its own over SFTP.

  Components and theories, hub side:

  \<^item> \<open>HubModels\<close>: rows, protocol messages, events and errors (internal/hub/store/models.go,
    proto/hubfuse.proto, internal/common/errors.go).
  \<^item> \<open>Store\<close>: the database (internal/hub/store/sqlite.go). A table is the list of its rows and
    a method of \<open>sqliteStore\<close> is a function from the tables to a result and the new tables.
    \<open>StoreTimes\<close>: its time columns as the texts they are, and how they are read (\<open>parseDateTime\<close>,
    \<open>scanDevice\<close>).
  \<^item> \<open>HubState\<close>: the shared state of the hub's goroutines (the fields of \<open>Registry\<close> and the
    store behind it) and its critical sections. A channel is a number in a heap of buffers
    with a closed flag; a send on a closed channel and a second close set \<open>panicked\<close>. The
    schedule \<open>faults\<close> says which statements the database driver fails.
  \<^item> \<open>Registry\<close>, \<open>Pairing\<close>, \<open>Monitor\<close>, \<open>Lifecycle\<close>, \<open>Server\<close>: the methods of internal/hub
    (registry.go, join_token.go, pairing.go, heartbeat.go, lifecycle.go, hub.go, server.go,
    interceptor.go), each as a process. \<open>HubStart\<close>: \<open>Hub.Start\<close> as a whole.

  Agent side:

  \<^item> \<open>GoPath\<close>, \<open>GoOs\<close>: what the code uses of path/filepath and of the file system calls of os:
    clean and joined paths, a tree of files, directories and links, open, write, rename.
  \<^item> \<open>AgentAcl\<close>, \<open>Sftp\<close>: access control of the exported shares and the handlers of the SFTP
    server (internal/agent/sharesacl.go, sftphandler.go).
  \<^item> \<open>AgentConfig\<close>: loading the parsed configuration, its edits and differences
    (internal/agent/config). \<open>AgentKeys\<close>: the keys of the paired devices and the nickname cache
    on disk, with failures and crashes between the steps (keys.go, nicknames.go).
  \<^item> \<open>Mounter\<close>: the mount table and every call it makes to the host (mounter.go). The host is a
    function of the history of calls, so that each answer may differ from the last.
  \<^item> \<open>SshServer\<close>: the embedded SSH server, its accept loop and channel requests (sshserver.go).
    \<open>PeerSessions\<close>: its connections and SFTP sessions beside the daemon that reloads the access lists.
  \<^item> \<open>AgentDaemon\<close>: the state of \<open>Daemon\<close> and its handlers: events of the hub (events.go), the
    registration snapshot and the reconciliation (daemon.go), configuration changes
    (confighandler.go, config/watcher.go). \<open>ConfigWatch\<close>: the watcher's loop on what fsnotify reports.
  \<^item> \<open>AgentSession\<close>, \<open>AgentRun\<close>: the hub connection and its replacement, one session, the retry
    loop, the supervisor, heartbeats, \<open>Run\<close> and \<open>Shutdown\<close> (daemon.go, connector.go,
    heartbeat.go).

  The commands and the two sides together:

  \<^item> \<open>HubClient\<close>: the errors of the command line as values, the status of every hub error and the
    calls of the hub client with the pinned certificate check (internal/agent/client.go,
    internal/common/errors.go). \<open>CliErrors\<close>: the line a user reads for an error
    (cmd/internal/clierrors).
  \<^item> \<open>ConfigFile\<close>: the text \<open>config.Save\<close> writes. \<open>CliConfig\<close>: the data directory, the identity and the
    commands that edit or print the configuration; \<open>CliAgent\<close>: join, leave, pair, pair-confirm,
    devices and rename (cmd/hubfuse/main.go, internal/agent/identity.go, keys.go,
    internal/common/fingerprint.go). A command is a function from the data directory, the state of
    the hub and the printed lines; \<open>hub_call\<close> puts the hub's model at the other end of the connection.
  \<^item> \<open>HubSettings\<close>: the hub's configuration file, how flag, file and default give a setting, and
    issue-join (internal/hub/configfile.go, cmd/hubfuse-hub/config_resolve.go, issue_join.go).
  \<^item> \<open>Daemonize\<close>: the PID file, signals, detaching, and start, stop, restart and status of both programs
    (internal/common/daemonize, cmd/hubfuse/main.go, cmd/hubfuse-hub/main.go), on a machine that
    others change between two system calls. \<open>HubSignals\<close>: the goroutines that end the hub's process
    (\<open>awaitTermination\<close>, \<open>waitForShutdown\<close>) as a step relation. \<open>HubCerts\<close>: the TLS files of the hub
    (\<open>loadOrGenerateCerts\<close> in internal/hub/hub.go, internal/common/tls.go, net.go). \<open>HubBoot\<close>: opening the
    database and putting the hub together (\<open>NewSQLiteStore\<close>, \<open>NewHub\<close>), and the version text
    (internal/version).
  \<^item> \<open>Pki\<close>: the three kinds of certificates (internal/common/tls.go), the verification of chains and the
    handshakes of the two TLS configurations. \<open>Fingerprint\<close>: internal/common/fingerprint.go. \<open>Dialing\<close>: the
    pinned and the mutual connection of the agent and what \<open>Connect\<close> does with their errors
    (internal/agent/client.go, connector.go).
  \<^item> \<open>LocalNetwork\<close>: the hint about local network access on macOS (internal/agent/localnetwork.go and its
    use in \<open>reconnectSession\<close>). \<open>StubMount\<close>: the mount backend of the tests and the choice of the backend
    (internal/agent/stubmount.go, mounter.go).
  \<^item> \<open>ServiceFiles\<close>: the systemd units and the launch agent and the commands that install them
    (systemdunit.go of both programs, launchagent.go). \<open>ConsoleLog\<close>: the log handlers and their set-up
    (internal/common/console_handler.go, multi_handler.go, logging.go).
  \<^item> \<open>Fleet\<close>: a daemon of the model connected to the hub of the model by its subscription.

  Generic theories: \<open>GoText\<close>, \<open>GoDuration\<close>, \<open>GoTime\<close> and \<open>GoNet\<close> (what the code uses of strings, strconv, unicode,
  of \<open>time.ParseDuration\<close>, of dates and \<open>time.Parse\<close> and of the addresses of net and net/netip), \<open>Prelude\<close> (times, durations, tables as lists), \<open>Process\<close> (sequential code
  as a sequence of atomic actions; \<open>run\<close> executes it alone, \<open>interleaves\<close> and \<open>exec_sched\<close> run a
  pool of processes under any or a given schedule; invariants \<open>safe\<close>, rely and guarantee \<open>rg\<close>),
  \<open>Contracts\<close> (the interfaces as locales).

  How code maps to definitions: an action is what no other goroutine can interrupt, that is
  one SQL statement or transaction, one section under \<open>Registry.mu\<close>, or one channel operation.
  A function that returns an error has the result type \<open>error + value\<close>. Readings of the clock,
  random bytes, the encoding of certificates and the text of an error are parameters. Times
  and durations are integers in nanoseconds. The log lines an operation writes are left out.

  What the lemmas show:

  \<^item> \<open>StoreProps\<close>: the invariant \<open>store_inv\<close> of the tables and its preservation by every
    statement; the interpretations of the contracts \<open>announcing\<close> and \<open>claimable\<close>.
  \<^item> \<open>HubActions\<close>: the alphabet \<open>hub_action\<close> of atomic actions and, in the locale
    \<open>hub_invariant\<close>, that every operation consists of them, so that an invariant of the actions
    is an invariant of every interleaving of the hub's goroutines. \<open>HubInvariants\<close> and
    \<open>HubRaces\<close> interpret the locale: consistent tables, open and distinct channels, the
    drained hub, the departed device; and \<open>one_shot\<close> for Join.
  \<^item> \<open>RegistryProps\<close>, \<open>PairingProps\<close>, \<open>ServerProps\<close>, \<open>LifecycleProps\<close>: the functional
    behaviour of each operation on every branch, the authorisation of RPCs, the order of the
    stream, the bounds of the shutdown and the transition relation of \<open>Start\<close> and \<open>Stop\<close>.
  \<^item> \<open>Samples\<close>: concrete states for the witnesses.
  \<^item> \<open>SftpProps\<close>: what a peer can change and see through the SFTP handlers. \<open>MounterProps\<close>: the
    targets of mounts over every sequence of operations, probes, guarded directories.
  \<^item> \<open>MountService\<close>: the contract \<open>mount_service\<close> of the mount table as the daemon uses it, and
    its interpretation. \<open>DaemonProps\<close>: the view of the online devices refines the hub's events;
    what may be mounted. \<open>ReloadProps\<close>: access against the configuration, accepted keys, sweeps
    and their backoff. \<open>SessionProps\<close>: connection, retries, heartbeats, start and end of a run.
    \<open>AgentRaces\<close>: configuration changes while a call is in flight.
  \<^item> \<open>ConfigFile\<close> also holds a reader of the part of KDL that \<open>Save\<close> writes, and that a saved
    configuration loads as it was. \<open>CliProps\<close>: every command keeps the configuration well formed
    and loadable. \<open>CliReload\<close>: a command, the file, the watcher and the access lists of a running
    daemon together. \<open>CliAgentProps\<close>: join and leave against the hub's model. \<open>CliErrorsProps\<close>:
    what the messages say of the hub's answers. \<open>Fleet\<close>: the daemon's view is the hub's presence
    plus the events still in its channel, over every sequence of changes. \<open>DaemonizeProps\<close>: whom
    the commands signal, what they report, and two starts at once. \<open>HubSignals\<close> also holds the
    meaning of the exit code and the end of every shutdown; \<open>HubCerts\<close> that the hub keeps its identity.
  \<^item> \<open>PkiProps\<close>: whom the hub and an agent take each other for when others hold every key but the
    CA's and the victim's, and for how long a certificate is good. \<open>ServiceFilesProps\<close>: how systemd and
    launchd read the installed files. The other theories of these parts hold their lemmas themselves:
    that texts of times compare as the times do, who may read and write in a session, which edits of the
    configuration are seen, when the hint is given and for which addresses, what a log line says and where it goes, the polling of
    a stub's unmount, the connections a failed start leaves.

  What the theorems about the agent assume of its surroundings is a parameter: the host's
  answers and the orders in which Go iterates over maps (\<open>daemon_env\<close>), the JSON encoder, the
  parsers of KDL, durations and keys, the answers of the hub and of the deadlines (\<open>answers\<close>,
  \<open>run_answers\<close>). The theorems about commands name what they need of the libraries: \<open>reads_saved\<close>
  (the KDL parser reads what \<open>Save\<close> writes as the reader of \<open>ConfigFile\<close> does), \<open>keeps_json\<close> (the
  identity decodes as it was encoded), \<open>grpc_documented\<close> (the text of a status, and finding one
  behind wrapped errors), \<open>sound_io\<close> (the first, on a file system without failures) and
  \<open>against_hub\<close> (the connection leads to the hub's model). In \<open>Pki\<close> a signature is the key that made it, so no one signs
  with a key they do not have; \<open>digests\<close> says that SHA-256 gives 32 bytes. In
  \<open>StoreTimes\<close> the driver writes a time as \<open>Time.String\<close> and database/sql hands it out as \<open>RFC3339Nano\<close>, as
  both document; \<open>fsnotify_documented\<close> is what \<open>ConfigWatch\<close> needs of fsnotify. Share paths are absolute where containment is claimed. The handlers of the
  daemon run one after the other, except that other goroutines may change the mount table while
  a probe runs and the session while a Register call runs; \<open>quiet\<close> marks the theorems about the
  daemon's own steps that leave the former out. In \<open>Run\<close> the supervisor's episodes come before
  the end that \<open>runServices\<close> waits for. Counters that only decide whether something is logged
  are left out.

  Bounds: \<open>chan_cap\<close> (64), \<open>pruneBatchLimit\<close> (500) and the intervals and timeouts are the
  source's. No definition uses fuel: the loops run over lists (rows, ticks, choices of the
  scheduler, random bytes, attempts), whose ends stand for cancellation or for the input that has
  been read so far; the polling of a fresh mount runs over the number of polls its time allows.

  Not modelled: the generated protocol code and the libraries (gRPC, the TLS records, protobuf, SSH,
  the SFTP packets, SQL, KDL parsing, PEM, key generation, SHA-256, JSON, cobra, fsnotify),
  \<open>Spawn\<close> on Windows, which only refuses, and the harness of the
  tests (hubtest, the stub program). What the operations log is left out except for the handlers
  themselves and the hint of \<open>LocalNetwork\<close>.
\<close>

end
